(* ===== verification/CC_Prelude.thy ===== *)
theory CC_Prelude
  imports Main "HOL-Library.Word"
begin

text \<open>
  Shared vocabulary of the development: byte strings as the Go code has them,
  the big-endian integer encodings of \<^verbatim>\<open>encoding/binary\<close>, the interface of a
  self-delimiting encoding (a locale, with the lemmas every hash preimage
  rests on), and the generic lemmas on lists and maps the components share.
\<close>

section \<open>Collections of rules\<close>

named_theorems cc_wf \<open>unfolding rules of the well-formedness predicates of the data model\<close>
named_theorems cc_enc \<open>unfolding rules of the byte encodings\<close>
named_theorems cc_const \<open>the constants of types/constants.go and their numerical values\<close>

section \<open>Bytes and strings\<close>

type_synonym byte = "8 word"
type_synonym bytes = "byte list"

text \<open>A Go duration or instant is an integer number of nanoseconds.\<close>

type_synonym duration = int
type_synonym time = int

text \<open>The conversion \<^verbatim>\<open>[]byte(s)\<close> of a Go string.\<close>

definition bytes_of :: "string \<Rightarrow> bytes" where
  "bytes_of s = map of_char s"

lemma of_char_byte_eq_iff [simp]: "(of_char c :: byte) = of_char d \<longleftrightarrow> c = d"
proof
  assume eq: "(of_char c :: byte) = of_char d"
  have val: "unat (of_char e :: byte) = of_char e" for e
    using unat_of_nat [of "of_char e", where ?'a = 8] by (simp add: of_nat_of_char)
  from arg_cong [OF eq, of unat] show "c = d" by (simp only: val of_char_eq_iff)
qed simp

lemma bytes_of_eq_iff [simp]: "bytes_of s = bytes_of t \<longleftrightarrow> s = t"
  unfolding bytes_of_def by (rule inj_map_eq_map) (simp add: inj_def)

lemma length_bytes_of [simp]: "length (bytes_of s) = length s"
  by (simp add: bytes_of_def)

section \<open>Big-endian integers\<close>

text \<open>
  \<^term>\<open>be_encode k n\<close> is what \<^verbatim>\<open>binary.BigEndian.PutUint64\<close> (\<open>k = 8\<close>) and
  \<^verbatim>\<open>PutUint32\<close> (\<open>k = 4\<close>) write: the \<open>k\<close> low bytes of \<open>n\<close>, most significant
  first.
\<close>

primrec be_encode :: "nat \<Rightarrow> nat \<Rightarrow> bytes" where
  "be_encode 0 n = []"
| "be_encode (Suc k) n = be_encode k (n div 256) @ [of_nat n]"

definition be_decode :: "bytes \<Rightarrow> nat" where
  "be_decode bs = foldl (\<lambda>a b. a * 256 + unat b) 0 bs"

lemma length_be_encode [simp]: "length (be_encode k n) = k"
  by (induction k arbitrary: n) simp_all

lemma be_decode_encode: "be_decode (be_encode k n) = n mod 256 ^ k"
proof (induction k arbitrary: n)
  case 0
  then show ?case by (simp add: be_decode_def)
next
  case (Suc k)
  have "be_decode (be_encode (Suc k) n) = (n div 256 mod 256 ^ k) * 256 + n mod 256"
    using Suc [of "n div 256"] by (simp add: be_decode_def unat_of_nat)
  also have "\<dots> = n mod 256 ^ Suc k"
    using mod_mult2_eq [of n 256 "256 ^ k"] by simp
  finally show ?case .
qed

lemma be_encode_inj:
  assumes "m < 256 ^ k" "n < 256 ^ k" "be_encode k m = be_encode k n"
  shows "m = n"
proof -
  have "m mod 256 ^ k = n mod 256 ^ k"
    unfolding be_decode_encode [symmetric] using assms(3) by (rule arg_cong)
  with assms(1,2) show ?thesis by (simp only: mod_less)
qed

section \<open>Self-delimiting encodings\<close>

text \<open>
  The contract a hash preimage needs of each field encoding: two encoded
  values followed by anything agree only when the values agree and the
  remainders agree. \<open>ok\<close> holds of the values the Go types admit.
\<close>

locale prefix_code =
  fixes ok :: "'a \<Rightarrow> bool" and enc :: "'a \<Rightarrow> bytes"
  assumes parse_unique: "\<lbrakk>ok x; ok y; enc x @ r = enc y @ s\<rbrakk> \<Longrightarrow> x = y \<and> r = s"
begin

lemma append_iff: "\<lbrakk>ok x; ok y\<rbrakk> \<Longrightarrow> enc x @ r = enc y @ s \<longleftrightarrow> x = y \<and> r = s"
  by (metis parse_unique)

lemma enc_eq_iff: "\<lbrakk>ok x; ok y\<rbrakk> \<Longrightarrow> enc x = enc y \<longleftrightarrow> x = y"
  using append_iff [of x y "[]" "[]"] by simp

lemma concat_unique:
  assumes "length xs = length ys" "\<forall>x\<in>set xs. ok x" "\<forall>y\<in>set ys. ok y"
    and "concat (map enc xs) @ r = concat (map enc ys) @ s"
  shows "xs = ys \<and> r = s"
  using assms
proof (induction xs ys rule: list_induct2)
  case (Cons x xs y ys)
  from Cons.prems have "enc x @ concat (map enc xs) @ r = enc y @ concat (map enc ys) @ s"
    by simp
  with Cons.prems have "x = y" "concat (map enc xs) @ r = concat (map enc ys) @ s"
    using parse_unique [of x y "concat (map enc xs) @ r" "concat (map enc ys) @ s"] by simp_all
  with Cons.IH Cons.prems show ?case by simp
qed simp

end

lemma fixed_width_prefix_code:
  assumes "\<And>x. ok x \<Longrightarrow> length (enc x) = n"
    and "\<And>x y. \<lbrakk>ok x; ok y; enc x = enc y\<rbrakk> \<Longrightarrow> x = y"
  shows "prefix_code ok enc"
proof
  fix x y r s
  assume "ok x" "ok y" "enc x @ r = enc y @ s"
  with assms(1) [of x] assms(1) [of y] have "enc x = enc y \<and> r = s" by simp
  with \<open>ok x\<close> \<open>ok y\<close> show "x = y \<and> r = s" by (simp add: assms(2))
qed

section \<open>Lists and maps\<close>

lemma dom_restrict_complement: "dom (m |` (- S)) = dom m - S"
  by auto

lemma card_distinct_set: "distinct xs \<Longrightarrow> card (set xs) = length xs"
  by (simp add: distinct_card)

lemma set_take_drop_distinct:
  assumes "distinct xs"
  shows "set (drop n xs) = set xs - set (take n xs)"
proof -
  have "set xs = set (take n xs) \<union> set (drop n xs)"
    by (metis append_take_drop_id set_append)
  moreover have "set (take n xs) \<inter> set (drop n xs) = {}"
    using assms by (simp add: set_take_disj_set_drop_if_distinct)
  ultimately show ?thesis by blast
qed

lemma set_map_filter_Some: "y \<in> set (List.map_filter f xs) \<longleftrightarrow> (\<exists>x\<in>set xs. f x = Some y)"
  by (induction xs) (auto simp: List.map_filter_simps split: option.split)

end
