(* ===== verification/CC_Types.thy ===== *)
theory CC_Types
  imports CC_Prelude
begin

text \<open>
  The wire types of \<^verbatim>\<open>src/types\<close> and the byte strings their hashes are taken
  over: \<^verbatim>\<open>types.go\<close>, \<^verbatim>\<open>constants.go\<close> and the signature payload of
  \<^verbatim>\<open>copied/libocr/domain_separation.go\<close>. SHA-256 is the argument \<open>H\<close> of
  every hash; no property assumes more of it than that it is a function, so a
  statement about equal hashes exhibits the collision it would take to break
  it. The lemmas show that every preimage determines the fields it covers and
  that preimages of different types are different.
\<close>

section \<open>Constants (types/constants.go, types/types.go)\<close>

definition DomainSeparator :: string where
  "DomainSeparator = ''CONFIDENTIAL_COMPUTE_PAYLOAD''"

definition ServiceConfidentialComputeVersion :: string where
  "ServiceConfidentialComputeVersion = ''0.0.6''"

definition ServiceConfidentialComputeVersionLegacy :: string where
  "ServiceConfidentialComputeVersionLegacy = ''0.0.6''"

definition GetConfidentialComputePayloadPrefix :: string where
  "GetConfidentialComputePayloadPrefix = ''CONFIDENTIAL_COMPUTE_PAYLOAD_''"

definition GetConfidentialComputeConfigUpdatePrefix :: string where
  "GetConfidentialComputeConfigUpdatePrefix = ''CONFIDENTIAL_COMPUTE_CONFIG_UPDATE_''"

definition newline :: char where
  "newline = CHR 0x0A"

text \<open>Durations, in nanoseconds.\<close>

definition second :: duration where
  [cc_const]: "second = 1000000000"

definition minute :: duration where
  [cc_const]: "minute = 60 * second"

definition hour :: duration where
  [cc_const]: "hour = 60 * minute"

definition DefaultEnclaveRequestTimeout :: duration where
  "DefaultEnclaveRequestTimeout = 30 * second"

definition MaxEnclaveResponseBodyBytes :: nat where
  [cc_const]: "MaxEnclaveResponseBodyBytes = 10 * 1024 * 1024"

definition AppIDConfidentialWorkflows :: string where
  [cc_const]: "AppIDConfidentialWorkflows = ''confidential-workflows@1.0.0-alpha''"

definition AppIDConfidentialHTTP :: string where
  "AppIDConfidentialHTTP = ''confidential-http@1.0.0-alpha''"

definition ErrEncryptionRequestedNoKey :: string where
  "ErrEncryptionRequestedNoKey = ''encryption requested but no AES-GCM key in secrets''"

definition ErrKeyPresentNoEncryption :: string where
  "ErrKeyPresentNoEncryption = ''AES-GCM key present but encryption not requested''"

definition ErrResponseBodyTooLarge :: string where
  "ErrResponseBodyTooLarge = ''response body exceeds maximum allowed size''"

definition ErrHTTPRedirectNotAllowed :: string where
  "ErrHTTPRedirectNotAllowed = ''redirects are not allowed''"

definition ErrQuorumTimeout :: string where
  "ErrQuorumTimeout = ''quorum_timeout''"

definition ErrWasmExecutionTimeout :: string where
  "ErrWasmExecutionTimeout = ''wasm execution deadline exceeded''"

definition ErrVaultSystemErrorFallback :: string where
  "ErrVaultSystemErrorFallback = ''failed to handle get secret request''"

section \<open>Data\<close>

record Enclave =
  en_EnclaveID :: bytes
  en_EnclaveURL :: string
  en_TrustedValues :: "bytes list"
  en_EnclaveType :: string
  en_EnclaveAuthHeader :: string
  en_EnclaveExtraData :: bytes
  en_Region :: string

record ComputeRequest =
  cr_RequestID :: bytes
  cr_ApplicationRequestID :: string
  cr_PublicData :: bytes
  cr_Ciphertexts :: "bytes list"
  cr_CiphertextNames :: "string list"
  cr_EncryptedDecryptionKeyShares :: "bytes list list"
  cr_EnclaveEphemeralPublicKey :: bytes
  cr_MasterPublicKey :: bytes
  cr_AppID :: string
  cr_Version :: string

record SignedComputeRequest =
  scr_ComputeRequest :: ComputeRequest
  scr_Signature :: bytes

record EnclaveConfig =
  ec_Signers :: "bytes list"
  ec_MasterPublicKey :: bytes
  ec_T :: "32 word"
  ec_F :: "32 word"

record ExecuteResponse =
  er_RequestID :: bytes
  er_ApplicationRequestID :: string
  er_RequestHash :: bytes
  er_Output :: bytes
  er_Config :: EnclaveConfig
  er_Attestation :: bytes

record PublicKeyResponse =
  pk_PublicKeys :: "bytes list"
  pk_CreationTimes :: "time list"
  pk_TTLs :: "duration list"
  pk_Config :: EnclaveConfig
  pk_Attestation :: bytes

record SetConfigResponse =
  sc_Config :: EnclaveConfig
  sc_Attestation :: bytes

section \<open>Writers\<close>

definition writeLengthPrefix :: "nat \<Rightarrow> bytes" where
  "writeLengthPrefix n = be_encode 8 n"

definition writeWithLength :: "bytes \<Rightarrow> bytes" where
  "writeWithLength d = writeLengthPrefix (length d) @ d"

text \<open>The loops \<^verbatim>\<open>writeLengthPrefix(h, len(xs)); for x { ... }\<close> of the hash functions.\<close>

definition writeEach :: "('a \<Rightarrow> bytes) \<Rightarrow> 'a list \<Rightarrow> bytes" where
  "writeEach w xs = writeLengthPrefix (length xs) @ concat (map w xs)"

text \<open>\<^verbatim>\<open>binary.BigEndian.PutUint64(buf, uint64(x))\<close> of a signed 64-bit value.\<close>

definition putInt64 :: "int \<Rightarrow> bytes" where
  "putInt64 x = be_encode 8 (nat (x mod 2 ^ 64))"

definition putUint32 :: "32 word \<Rightarrow> bytes" where
  "putUint32 w = be_encode 4 (unat w)"

definition typeTag :: "string \<Rightarrow> bytes" where
  "typeTag t = bytes_of DomainSeparator @ bytes_of ([newline] @ t @ [newline])"

section \<open>Hash preimages and hashes\<close>

definition writeEnclave :: "Enclave \<Rightarrow> bytes" where
  "writeEnclave e =
     en_EnclaveID e @
     writeWithLength (bytes_of (en_EnclaveURL e)) @
     writeEach writeWithLength (en_TrustedValues e) @
     writeWithLength (bytes_of (en_EnclaveType e)) @
     writeWithLength (bytes_of (en_EnclaveAuthHeader e)) @
     writeWithLength (en_EnclaveExtraData e) @
     writeWithLength (bytes_of (en_Region e))"

definition EnclavesList_preimage :: "Enclave list \<Rightarrow> bytes" where
  "EnclavesList_preimage es = typeTag ''EnclavesList'' @ writeEach writeEnclave es"

definition EnclavesList_Hash :: "(bytes \<Rightarrow> bytes) \<Rightarrow> Enclave list \<Rightarrow> bytes" where
  "EnclavesList_Hash H es = H (EnclavesList_preimage es)"

text \<open>
  The last field of the request preimage: the version for a legacy request and
  the application request id otherwise.
\<close>

definition requestTail :: "ComputeRequest \<Rightarrow> string" where
  "requestTail cr =
     (if cr_Version cr = ServiceConfidentialComputeVersionLegacy
      then cr_Version cr else cr_ApplicationRequestID cr)"

definition ComputeRequest_preimage :: "ComputeRequest \<Rightarrow> bytes" where
  "ComputeRequest_preimage cr =
     typeTag ''ComputeRequest'' @
     cr_RequestID cr @
     writeWithLength (cr_PublicData cr) @
     writeEach (\<lambda>n. writeWithLength (bytes_of n)) (cr_CiphertextNames cr) @
     writeEach writeWithLength (cr_Ciphertexts cr) @
     writeWithLength (cr_EnclaveEphemeralPublicKey cr) @
     writeWithLength (cr_MasterPublicKey cr) @
     writeWithLength (bytes_of (cr_AppID cr)) @
     writeWithLength (bytes_of (requestTail cr))"

definition ComputeRequest_Hash :: "(bytes \<Rightarrow> bytes) \<Rightarrow> ComputeRequest \<Rightarrow> bytes" where
  "ComputeRequest_Hash H cr = H (ComputeRequest_preimage cr)"

definition EnclaveConfig_preimage :: "EnclaveConfig \<Rightarrow> bytes" where
  "EnclaveConfig_preimage ec =
     typeTag ''EnclaveConfig'' @
     writeEach writeWithLength (ec_Signers ec) @
     writeWithLength (ec_MasterPublicKey ec) @
     putUint32 (ec_T ec) @
     putUint32 (ec_F ec)"

definition EnclaveConfig_Hash :: "(bytes \<Rightarrow> bytes) \<Rightarrow> EnclaveConfig \<Rightarrow> bytes" where
  "EnclaveConfig_Hash H ec = H (EnclaveConfig_preimage ec)"

definition EnclaveConfig_IsZero :: "EnclaveConfig option \<Rightarrow> bool" where
  "EnclaveConfig_IsZero oc = (case oc of
     None \<Rightarrow> True
   | Some ec \<Rightarrow> ec_T ec = 0 \<and> ec_F ec = 0 \<and> ec_Signers ec = [] \<and> ec_MasterPublicKey ec = [])"

definition zeroConfig :: EnclaveConfig where
  "zeroConfig = \<lparr>ec_Signers = [], ec_MasterPublicKey = [], ec_T = 0, ec_F = 0\<rparr>"

definition EnclaveConfig_Copy :: "EnclaveConfig option \<Rightarrow> EnclaveConfig" where
  "EnclaveConfig_Copy oc = (case oc of
     None \<Rightarrow> zeroConfig
   | Some ec \<Rightarrow> \<lparr>ec_Signers = map (\<lambda>s. s) (ec_Signers ec),
                  ec_MasterPublicKey = ec_MasterPublicKey ec, ec_T = ec_T ec, ec_F = ec_F ec\<rparr>)"

definition ExecuteResponse_preimage :: "(bytes \<Rightarrow> bytes) \<Rightarrow> string \<Rightarrow> ExecuteResponse \<Rightarrow> bytes" where
  "ExecuteResponse_preimage H requestVersion er =
     er_RequestID er @
     typeTag ''ExecuteResponse'' @
     writeWithLength (er_Output er) @
     EnclaveConfig_Hash H (er_Config er) @
     er_RequestHash er @
     (if requestVersion \<noteq> ServiceConfidentialComputeVersionLegacy
      then writeWithLength (bytes_of (er_ApplicationRequestID er)) else [])"

definition ExecuteResponse_UserDataHash ::
    "(bytes \<Rightarrow> bytes) \<Rightarrow> string \<Rightarrow> ExecuteResponse \<Rightarrow> bytes" where
  "ExecuteResponse_UserDataHash H requestVersion er =
     H (ExecuteResponse_preimage H requestVersion er)"

definition PublicKeyResponse_preimage :: "(bytes \<Rightarrow> bytes) \<Rightarrow> PublicKeyResponse \<Rightarrow> bytes" where
  "PublicKeyResponse_preimage H pkr =
     typeTag ''PublicKeyResponse'' @
     writeEach writeWithLength (pk_PublicKeys pkr) @
     writeEach putInt64 (pk_CreationTimes pkr) @
     writeEach putInt64 (pk_TTLs pkr) @
     EnclaveConfig_Hash H (pk_Config pkr)"

definition PublicKeyHash :: "(bytes \<Rightarrow> bytes) \<Rightarrow> PublicKeyResponse \<Rightarrow> bytes" where
  "PublicKeyHash H pkr = H (PublicKeyResponse_preimage H pkr)"

definition SetConfigResponse_preimage :: "(bytes \<Rightarrow> bytes) \<Rightarrow> SetConfigResponse \<Rightarrow> bytes" where
  "SetConfigResponse_preimage H sr =
     typeTag ''SetConfigResponse'' @ EnclaveConfig_Hash H (sc_Config sr)"

definition SetConfigResponse_UserDataHash :: "(bytes \<Rightarrow> bytes) \<Rightarrow> SetConfigResponse \<Rightarrow> bytes" where
  "SetConfigResponse_UserDataHash H sr = H (SetConfigResponse_preimage H sr)"

section \<open>Signature payloads (copied/libocr/domain_separation.go)\<close>

definition peerContext :: string where
  "peerContext = ''ragep2p arbitrary message signing''"

definition shortMessageMax :: nat where
  "shortMessageMax = 1024"

definition MakePeerIDSignatureDomainSeparatedPayload ::
    "(bytes \<Rightarrow> bytes) \<Rightarrow> string \<Rightarrow> bytes \<Rightarrow> bytes" where
  "MakePeerIDSignatureDomainSeparatedPayload H domainSeparator message =
     replicate 64 0x20 @ bytes_of peerContext @ [0] @
     writeLengthPrefix (length domainSeparator) @ bytes_of domainSeparator @
     (if length message \<le> shortMessageMax
      then [0] @ writeLengthPrefix (length message) @ message
      else [1] @ H message)"

section \<open>Well-formedness: what the Go types guarantee\<close>

text \<open>
  A \<^verbatim>\<open>[32]byte\<close> has 32 bytes, a slice or string has fewer than \<open>2\<^sup>6\<^sup>4\<close> elements,
  an \<^verbatim>\<open>int64\<close> is in range.
\<close>

definition len_ok :: "'a list \<Rightarrow> bool" where
  [cc_wf]: "len_ok xs \<longleftrightarrow> length xs < 2 ^ 64"

definition int64_ok :: "int \<Rightarrow> bool" where
  [cc_wf]: "int64_ok x \<longleftrightarrow> - (2 ^ 63) \<le> x \<and> x < 2 ^ 63"

definition wf_Enclave :: "Enclave \<Rightarrow> bool" where
  [cc_wf]: "wf_Enclave e \<longleftrightarrow>
     length (en_EnclaveID e) = 32 \<and> len_ok (en_EnclaveURL e) \<and>
     len_ok (en_TrustedValues e) \<and> list_all len_ok (en_TrustedValues e) \<and>
     len_ok (en_EnclaveType e) \<and> len_ok (en_EnclaveAuthHeader e) \<and>
     len_ok (en_EnclaveExtraData e) \<and> len_ok (en_Region e)"

definition wf_ComputeRequest :: "ComputeRequest \<Rightarrow> bool" where
  [cc_wf]: "wf_ComputeRequest cr \<longleftrightarrow>
     length (cr_RequestID cr) = 32 \<and> len_ok (cr_ApplicationRequestID cr) \<and>
     len_ok (cr_PublicData cr) \<and>
     len_ok (cr_Ciphertexts cr) \<and> list_all len_ok (cr_Ciphertexts cr) \<and>
     len_ok (cr_CiphertextNames cr) \<and> list_all len_ok (cr_CiphertextNames cr) \<and>
     len_ok (cr_EnclaveEphemeralPublicKey cr) \<and> len_ok (cr_MasterPublicKey cr) \<and>
     len_ok (cr_AppID cr) \<and> len_ok (cr_Version cr)"

definition wf_EnclaveConfig :: "EnclaveConfig \<Rightarrow> bool" where
  [cc_wf]: "wf_EnclaveConfig ec \<longleftrightarrow>
     len_ok (ec_Signers ec) \<and> list_all len_ok (ec_Signers ec) \<and> len_ok (ec_MasterPublicKey ec)"

definition wf_ExecuteResponse :: "ExecuteResponse \<Rightarrow> bool" where
  [cc_wf]: "wf_ExecuteResponse er \<longleftrightarrow>
     length (er_RequestID er) = 32 \<and> length (er_RequestHash er) = 32 \<and>
     len_ok (er_ApplicationRequestID er) \<and> len_ok (er_Output er) \<and> wf_EnclaveConfig (er_Config er)"

definition wf_PublicKeyResponse :: "PublicKeyResponse \<Rightarrow> bool" where
  [cc_wf]: "wf_PublicKeyResponse pkr \<longleftrightarrow>
     len_ok (pk_PublicKeys pkr) \<and> list_all len_ok (pk_PublicKeys pkr) \<and>
     len_ok (pk_CreationTimes pkr) \<and> list_all int64_ok (pk_CreationTimes pkr) \<and>
     len_ok (pk_TTLs pkr) \<and> list_all int64_ok (pk_TTLs pkr) \<and> wf_EnclaveConfig (pk_Config pkr)"

text \<open>What is relied on of the hash function: a digest of 32 bytes.\<close>

definition digest32 :: "(bytes \<Rightarrow> bytes) \<Rightarrow> bool" where
  "digest32 H \<longleftrightarrow> (\<forall>x. length (H x) = 32)"

text \<open>A collision of \<open>H\<close>: what an adversary needs to break a statement about hashes.\<close>

definition collision :: "(bytes \<Rightarrow> bytes) \<Rightarrow> bytes \<Rightarrow> bytes \<Rightarrow> bool" where
  "collision H x y \<longleftrightarrow> x \<noteq> y \<and> H x = H y"

text \<open>Sample values the witnesses below evaluate on.\<close>

definition id32 :: "byte \<Rightarrow> bytes" where
  "id32 b = replicate 32 b"

definition sampleRequest :: ComputeRequest where
  "sampleRequest = \<lparr>cr_RequestID = id32 7, cr_ApplicationRequestID = ''exec-1'', cr_PublicData = [1, 2, 3],
     cr_Ciphertexts = [[10], [11, 12]], cr_CiphertextNames = [''a'', ''b''],
     cr_EncryptedDecryptionKeyShares = [[[1], [2]]], cr_EnclaveEphemeralPublicKey = id32 9,
     cr_MasterPublicKey = [5, 5], cr_AppID = ''app'', cr_Version = ''0.0.6''\<rparr>"

definition sampleConfig :: EnclaveConfig where
  "sampleConfig = \<lparr>ec_Signers = [id32 1, id32 2, id32 3, id32 4], ec_MasterPublicKey = [5, 5],
     ec_T = 2, ec_F = 1\<rparr>"

definition sampleResponse :: ExecuteResponse where
  "sampleResponse = \<lparr>er_RequestID = id32 7, er_ApplicationRequestID = ''exec-1'', er_RequestHash = id32 8,
     er_Output = [42], er_Config = sampleConfig, er_Attestation = [1]\<rparr>"

definition samplePublicKeys :: PublicKeyResponse where
  "samplePublicKeys = \<lparr>pk_PublicKeys = [id32 9], pk_CreationTimes = [100], pk_TTLs = [50],
     pk_Config = sampleConfig, pk_Attestation = [1]\<rparr>"

definition zeroHash :: "bytes \<Rightarrow> bytes" where
  "zeroHash _ = id32 0"

section \<open>The writers are self-delimiting\<close>

interpretation u64: prefix_code "\<lambda>n. n < 2 ^ 64" writeLengthPrefix
  by (rule fixed_width_prefix_code [where n = 8])
    (auto simp: writeLengthPrefix_def intro: be_encode_inj [where k = 8])

interpretation lp: prefix_code len_ok writeWithLength
proof
  fix x y r s :: bytes
  assume ok: "len_ok x" "len_ok y" and eq: "writeWithLength x @ r = writeWithLength y @ s"
  from eq have "writeLengthPrefix (length x) @ x @ r = writeLengthPrefix (length y) @ y @ s"
    by (simp add: writeWithLength_def)
  with ok have "length x = length y \<and> x @ r = y @ s"
    by (simp add: u64.append_iff len_ok_def)
  then show "x = y \<and> r = s" by auto
qed

interpretation lpstr: prefix_code len_ok "\<lambda>s. writeWithLength (bytes_of s)"
proof
  fix x y :: string and r s
  assume "len_ok x" "len_ok y" "writeWithLength (bytes_of x) @ r = writeWithLength (bytes_of y) @ s"
  then show "x = y \<and> r = s"
    using lp.parse_unique [of "bytes_of x" "bytes_of y" r s] by (simp add: len_ok_def)
qed

interpretation b32: prefix_code "\<lambda>d. length d = 32" "\<lambda>d. d"
  by (rule fixed_width_prefix_code [where n = 32]) auto

interpretation i64: prefix_code int64_ok putInt64
proof (rule fixed_width_prefix_code [where n = 8])
  fix x y :: int
  assume ok: "int64_ok x" "int64_ok y" and eq: "putInt64 x = putInt64 y"
  have bound: "nat (z mod 2 ^ 64) < 256 ^ 8" for z :: int
    by (simp add: nat_less_iff)
  have "nat (x mod 2 ^ 64) = nat (y mod 2 ^ 64)"
    by (rule be_encode_inj [OF bound bound eq [unfolded putInt64_def]])
  then have "x mod 2 ^ 64 = y mod 2 ^ 64" by (simp add: nat_eq_iff)
  then have "(2 ^ 64 :: int) dvd x - y" by (simp add: mod_eq_dvd_iff)
  then have "x \<noteq> y \<Longrightarrow> 2 ^ 64 \<le> \<bar>x - y\<bar>"
    using dvd_imp_le_int [of "x - y" "2 ^ 64"] by simp
  moreover have "\<bar>x - y\<bar> < 2 ^ 64"
    using ok by (simp add: int64_ok_def abs_less_iff)
  ultimately show "x = y" by (meson not_less)
qed (simp add: putInt64_def)

interpretation u32: prefix_code "\<lambda>_. True" putUint32
proof (rule fixed_width_prefix_code [where n = 4])
  fix x y :: "32 word"
  assume eq: "putUint32 x = putUint32 y"
  have bound: "unat w < 256 ^ 4" for w :: "32 word"
    using unsigned_less [of w, where ?'a = nat] by simp
  have "unat x = unat y"
    by (rule be_encode_inj [OF bound bound eq [unfolded putUint32_def]])
  then show "x = y" by (rule unsigned_word_eqI)
qed (simp add: putUint32_def)

context prefix_code
begin

text \<open>A counted sequence of self-delimiting items is self-delimiting.\<close>

lemma counted: "prefix_code (\<lambda>xs. len_ok xs \<and> list_all ok xs) (writeEach enc)"
proof
  fix xs ys r s
  assume ok: "len_ok xs \<and> list_all ok xs" "len_ok ys \<and> list_all ok ys"
    and eq: "writeEach enc xs @ r = writeEach enc ys @ s"
  from eq have "writeLengthPrefix (length xs) @ concat (map enc xs) @ r
      = writeLengthPrefix (length ys) @ concat (map enc ys) @ s"
    by (simp add: writeEach_def)
  with ok have "length xs = length ys" "concat (map enc xs) @ r = concat (map enc ys) @ s"
    by (simp_all add: u64.append_iff len_ok_def)
  with ok show "xs = ys \<and> r = s"
    by (intro concat_unique) (simp_all add: list_all_iff)
qed

end

interpretation lps: prefix_code "\<lambda>xs. len_ok xs \<and> list_all len_ok xs" "writeEach writeWithLength"
  by (rule lp.counted)

interpretation lpstrs: prefix_code "\<lambda>xs. len_ok xs \<and> list_all len_ok xs"
    "writeEach (\<lambda>s. writeWithLength (bytes_of s))"
  by (rule lpstr.counted)

interpretation i64s: prefix_code "\<lambda>xs. len_ok xs \<and> list_all int64_ok xs" "writeEach putInt64"
  by (rule i64.counted)

lemmas writers_iff =
  lp.append_iff lp.enc_eq_iff lpstr.append_iff lpstr.enc_eq_iff lps.append_iff lpstrs.append_iff
  i64s.append_iff u32.append_iff u32.enc_eq_iff

interpretation encl: prefix_code wf_Enclave writeEnclave
proof
  fix x y :: Enclave and r s
  assume "wf_Enclave x" "wf_Enclave y" "writeEnclave x @ r = writeEnclave y @ s"
  then show "x = y \<and> r = s"
    by (simp add: writeEnclave_def wf_Enclave_def writers_iff Enclave.equality)
qed

interpretation encls: prefix_code "\<lambda>es. len_ok es \<and> list_all wf_Enclave es" "writeEach writeEnclave"
  by (rule encl.counted)

section \<open>Preimages determine the fields they cover\<close>

lemma requestTail_ok: "wf_ComputeRequest cr \<Longrightarrow> len_ok (requestTail cr)"
  by (auto simp: requestTail_def wf_ComputeRequest_def)

lemma ComputeRequest_preimage_iff:
  assumes "wf_ComputeRequest x" "wf_ComputeRequest y"
  shows "ComputeRequest_preimage x = ComputeRequest_preimage y \<longleftrightarrow>
    cr_RequestID x = cr_RequestID y \<and> cr_PublicData x = cr_PublicData y \<and>
    cr_CiphertextNames x = cr_CiphertextNames y \<and> cr_Ciphertexts x = cr_Ciphertexts y \<and>
    cr_EnclaveEphemeralPublicKey x = cr_EnclaveEphemeralPublicKey y \<and>
    cr_MasterPublicKey x = cr_MasterPublicKey y \<and>
    cr_AppID x = cr_AppID y \<and> requestTail x = requestTail y"
  using assms requestTail_ok [OF assms(1)] requestTail_ok [OF assms(2)]
  by (simp add: ComputeRequest_preimage_def wf_ComputeRequest_def writers_iff)

lemma EnclaveConfig_preimage_iff:
  assumes "wf_EnclaveConfig x" "wf_EnclaveConfig y"
  shows "EnclaveConfig_preimage x = EnclaveConfig_preimage y \<longleftrightarrow> x = y"
proof
  assume "EnclaveConfig_preimage x = EnclaveConfig_preimage y"
  with assms show "x = y"
    by (intro EnclaveConfig.equality)
      (simp_all add: EnclaveConfig_preimage_def wf_EnclaveConfig_def writers_iff)
qed simp

lemma EnclaveConfig_Hash_eq:
  assumes "wf_EnclaveConfig x" "wf_EnclaveConfig y" "EnclaveConfig_Hash H x = EnclaveConfig_Hash H y"
  shows "x = y \<or> collision H (EnclaveConfig_preimage x) (EnclaveConfig_preimage y)"
  using assms by (auto simp: EnclaveConfig_Hash_def collision_def EnclaveConfig_preimage_iff)

lemma length_EnclaveConfig_Hash: "digest32 H \<Longrightarrow> length (EnclaveConfig_Hash H ec) = 32"
  by (simp add: digest32_def EnclaveConfig_Hash_def)

lemma EnclavesList_preimage_iff:
  assumes "len_ok xs" "list_all wf_Enclave xs" "len_ok ys" "list_all wf_Enclave ys"
  shows "EnclavesList_preimage xs = EnclavesList_preimage ys \<longleftrightarrow> xs = ys"
  using assms by (simp add: EnclavesList_preimage_def encls.enc_eq_iff)

lemma PublicKeyResponse_preimage_iff:
  assumes "wf_PublicKeyResponse x" "wf_PublicKeyResponse y" "digest32 H"
  shows "PublicKeyResponse_preimage H x = PublicKeyResponse_preimage H y \<longleftrightarrow>
    pk_PublicKeys x = pk_PublicKeys y \<and> pk_CreationTimes x = pk_CreationTimes y \<and>
    pk_TTLs x = pk_TTLs y \<and> EnclaveConfig_Hash H (pk_Config x) = EnclaveConfig_Hash H (pk_Config y)"
  using assms by (simp add: PublicKeyResponse_preimage_def wf_PublicKeyResponse_def writers_iff)

lemma writeWithLength_not_Nil [simp]: "writeWithLength d \<noteq> []" "[] \<noteq> writeWithLength d"
  by (auto simp: writeWithLength_def writeLengthPrefix_def simp flip: length_0_conv)

lemma ExecuteResponse_preimage_iff:
  assumes "wf_ExecuteResponse x" "wf_ExecuteResponse y" "digest32 H"
  shows "ExecuteResponse_preimage H v x = ExecuteResponse_preimage H w y \<longleftrightarrow>
    er_RequestID x = er_RequestID y \<and> er_Output x = er_Output y \<and>
    EnclaveConfig_Hash H (er_Config x) = EnclaveConfig_Hash H (er_Config y) \<and>
    er_RequestHash x = er_RequestHash y \<and>
    (v = ServiceConfidentialComputeVersionLegacy \<longleftrightarrow> w = ServiceConfidentialComputeVersionLegacy) \<and>
    (v = ServiceConfidentialComputeVersionLegacy \<or>
     er_ApplicationRequestID x = er_ApplicationRequestID y)"
  using assms
  by (auto simp: ExecuteResponse_preimage_def wf_ExecuteResponse_def writers_iff
      length_EnclaveConfig_Hash)

text \<open>The signature payload determines the domain, and the message up to a collision.\<close>

lemma peer_payload_eq:
  assumes "len_ok d" "len_ok d'"
    and "MakePeerIDSignatureDomainSeparatedPayload H d m = MakePeerIDSignatureDomainSeparatedPayload H d' m'"
  shows "d = d' \<and> (m = m' \<or> collision H m m')"
proof -
  have "writeWithLength (bytes_of d) @ (if length m \<le> shortMessageMax
          then [0] @ writeWithLength m else [1] @ H m)
      = writeWithLength (bytes_of d') @ (if length m' \<le> shortMessageMax
          then [0] @ writeWithLength m' else [1] @ H m')"
    using assms(3) unfolding MakePeerIDSignatureDomainSeparatedPayload_def writeWithLength_def
    by (simp split del: if_split)
  with assms(1,2) have "d = d'" and tail: "(if length m \<le> shortMessageMax
          then [0] @ writeWithLength m else [1] @ H m)
      = (if length m' \<le> shortMessageMax then [0] @ writeWithLength m' else [1] @ H m')"
    by (simp_all only: lpstr.append_iff)
  from tail have "m = m' \<or> collision H m m'"
    by (auto simp: collision_def shortMessageMax_def len_ok_def lp.enc_eq_iff split: if_splits)
  with \<open>d = d'\<close> show ?thesis by simp
qed

section \<open>Preimages of different types are different\<close>

datatype Hashed =
    HEnclaves "Enclave list"
  | HRequest ComputeRequest
  | HConfig EnclaveConfig
  | HResponse string ExecuteResponse
  | HPublicKey PublicKeyResponse
  | HSetConfig SetConfigResponse

fun preimage :: "(bytes \<Rightarrow> bytes) \<Rightarrow> Hashed \<Rightarrow> bytes" where
  "preimage H (HEnclaves es) = EnclavesList_preimage es"
| "preimage H (HRequest cr) = ComputeRequest_preimage cr"
| "preimage H (HConfig ec) = EnclaveConfig_preimage ec"
| "preimage H (HResponse v er) = ExecuteResponse_preimage H v er"
| "preimage H (HPublicKey pkr) = PublicKeyResponse_preimage H pkr"
| "preimage H (HSetConfig sr) = SetConfigResponse_preimage H sr"

fun kind :: "Hashed \<Rightarrow> nat" where
  "kind (HEnclaves _) = 0"
| "kind (HRequest _) = 1"
| "kind (HConfig _) = 2"
| "kind (HResponse _ _) = 3"
| "kind (HPublicKey _) = 4"
| "kind (HSetConfig _) = 5"

fun wf_Hashed :: "Hashed \<Rightarrow> bool" where
  "wf_Hashed (HResponse v er) = wf_ExecuteResponse er"
| "wf_Hashed _ = True"

text \<open>
  Every preimage but that of a response starts with a tag; a response's
  carries it after the 32 bytes of its request id.
\<close>

lemmas sample_defs = sampleRequest_def sampleConfig_def sampleResponse_def samplePublicKeys_def
  id32_def zeroHash_def

lemma typeTag_split: "typeTag t @ r = bytes_of DomainSeparator @ of_char newline # bytes_of t @ of_char newline # r"
  by (simp add: typeTag_def bytes_of_def)

lemma tags_differ:
  "typeTag ''EnclavesList'' @ a \<noteq> typeTag ''ComputeRequest'' @ b"
  "typeTag ''EnclavesList'' @ a \<noteq> typeTag ''EnclaveConfig'' @ b"
  "typeTag ''EnclavesList'' @ a \<noteq> typeTag ''PublicKeyResponse'' @ b"
  "typeTag ''EnclavesList'' @ a \<noteq> typeTag ''SetConfigResponse'' @ b"
  "typeTag ''ComputeRequest'' @ a \<noteq> typeTag ''EnclaveConfig'' @ b"
  "typeTag ''ComputeRequest'' @ a \<noteq> typeTag ''PublicKeyResponse'' @ b"
  "typeTag ''ComputeRequest'' @ a \<noteq> typeTag ''SetConfigResponse'' @ b"
  "typeTag ''EnclaveConfig'' @ a \<noteq> typeTag ''PublicKeyResponse'' @ b"
  "typeTag ''EnclaveConfig'' @ a \<noteq> typeTag ''SetConfigResponse'' @ b"
  "typeTag ''PublicKeyResponse'' @ a \<noteq> typeTag ''SetConfigResponse'' @ b"
  by (simp_all add: typeTag_split) (simp_all add: bytes_of_def)

lemma tag_not_after_id:
  assumes "length rid = 32" "4 < length t" "t ! 4 \<noteq> CHR ''O''"
  shows "rid @ typeTag ''ExecuteResponse'' @ a \<noteq> typeTag t @ b"
proof
  assume eq: "rid @ typeTag ''ExecuteResponse'' @ a = typeTag t @ b"
  have "(rid @ typeTag ''ExecuteResponse'' @ a) ! 33 = of_char (CHR ''O'')"
    using assms(1) by (simp add: nth_append typeTag_split bytes_of_def DomainSeparator_def)
  moreover have "(typeTag t @ b) ! 33 = of_char (t ! 4)"
    using assms(2) by (simp add: nth_append typeTag_split bytes_of_def DomainSeparator_def)
  ultimately have "(of_char (t ! 4) :: byte) = of_char (CHR ''O'')" using eq by metis
  with assms(3) show False by (simp only: of_char_byte_eq_iff)
qed

lemmas tags_separate = tags_differ tags_differ [symmetric] tag_not_after_id
  tag_not_after_id [symmetric]

lemmas preimage_defs = EnclavesList_preimage_def ComputeRequest_preimage_def EnclaveConfig_preimage_def
  ExecuteResponse_preimage_def PublicKeyResponse_preimage_def SetConfigResponse_preimage_def

section \<open>Properties\<close>

text \<open>
  C13. A compute request's hash binds every field it is meant to bind: two
  requests with the same hash agree on request id, public data, ciphertext
  names, ciphertexts, enclave key, master key, application id and the
  version or application request id, unless their preimages are a SHA-256
  collision.
\<close>

theorem ComputeRequest_Hash_binds:
  assumes "wf_ComputeRequest x" "wf_ComputeRequest y"
    and "ComputeRequest_Hash H x = ComputeRequest_Hash H y"
    and "\<not> collision H (ComputeRequest_preimage x) (ComputeRequest_preimage y)"
  shows "cr_RequestID x = cr_RequestID y \<and> cr_PublicData x = cr_PublicData y \<and>
    cr_CiphertextNames x = cr_CiphertextNames y \<and> cr_Ciphertexts x = cr_Ciphertexts y \<and>
    cr_EnclaveEphemeralPublicKey x = cr_EnclaveEphemeralPublicKey y \<and>
    cr_MasterPublicKey x = cr_MasterPublicKey y \<and>
    cr_AppID x = cr_AppID y \<and> requestTail x = requestTail y"
  using assms ComputeRequest_preimage_iff [OF assms(1,2)]
  unfolding ComputeRequest_Hash_def collision_def by blast

theorem ComputeRequest_Hash_binds_witness:
  "let x = sampleRequest; y = sampleRequest\<lparr>cr_EncryptedDecryptionKeyShares := [[[3], [4]]]\<rparr> in
     x \<noteq> y \<and> ComputeRequest_Hash zeroHash x = ComputeRequest_Hash zeroHash y \<and>
     cr_RequestID x = cr_RequestID y \<and> cr_Ciphertexts x = cr_Ciphertexts y"
proof -
  let ?x = sampleRequest and ?y = "sampleRequest\<lparr>cr_EncryptedDecryptionKeyShares := [[[3], [4]]]\<rparr>"
  have pre: "ComputeRequest_preimage ?x = ComputeRequest_preimage ?y"
    by (simp add: ComputeRequest_preimage_def requestTail_def sample_defs)
  have wf: "wf_ComputeRequest ?x" "wf_ComputeRequest ?y"
    by (simp_all add: cc_wf sample_defs)
  have hash: "ComputeRequest_Hash zeroHash ?x = ComputeRequest_Hash zeroHash ?y"
    by (simp add: ComputeRequest_Hash_def zeroHash_def)
  have "\<not> collision zeroHash (ComputeRequest_preimage ?x) (ComputeRequest_preimage ?y)"
    using pre by (simp add: collision_def)
  from ComputeRequest_Hash_binds [OF wf hash this] hash show ?thesis
    by (simp add: Let_def sample_defs)
qed

text \<open>
  Domain separation: byte strings hashed for different types are
  different, although a response's preimage does not start with the tag.
\<close>

theorem preimage_kind:
  assumes "wf_Hashed x" "wf_Hashed y" "preimage H x = preimage H y"
  shows "kind x = kind y"
  using assms
  by (cases x; cases y) (auto simp: preimage_defs tags_separate wf_ExecuteResponse_def)

theorem preimage_kind_witness:
  "kind (HResponse ''0.0.6'' sampleResponse) =
   kind (HResponse ''0.0.6'' (sampleResponse\<lparr>er_Attestation := [2]\<rparr>))"
  by (rule preimage_kind [of _ _ zeroHash])
    (simp_all add: cc_wf sample_defs ExecuteResponse_preimage_def)

text \<open>
  C14. The hash an enclave attests for a response binds the request id, the
  output, the configuration, the request hash and, outside the legacy version,
  the application request id, unless a SHA-256 collision is exhibited.
\<close>

theorem ExecuteResponse_UserDataHash_binds:
  assumes "wf_ExecuteResponse x" "wf_ExecuteResponse y" "digest32 H"
    and "ExecuteResponse_UserDataHash H v x = ExecuteResponse_UserDataHash H w y"
    and "\<not> collision H (ExecuteResponse_preimage H v x) (ExecuteResponse_preimage H w y)"
    and "\<not> collision H (EnclaveConfig_preimage (er_Config x)) (EnclaveConfig_preimage (er_Config y))"
  shows "er_RequestID x = er_RequestID y \<and> er_Output x = er_Output y \<and>
    er_Config x = er_Config y \<and> er_RequestHash x = er_RequestHash y \<and>
    (v \<noteq> ServiceConfidentialComputeVersionLegacy \<longrightarrow>
      w \<noteq> ServiceConfidentialComputeVersionLegacy \<and>
      er_ApplicationRequestID x = er_ApplicationRequestID y)"
proof -
  from assms(4,5) have "ExecuteResponse_preimage H v x = ExecuteResponse_preimage H w y"
    unfolding ExecuteResponse_UserDataHash_def collision_def by blast
  note fields = this [unfolded ExecuteResponse_preimage_iff [OF assms(1-3)]]
  moreover have "er_Config x = er_Config y"
    using fields assms(1,2,6) EnclaveConfig_Hash_eq [of "er_Config x" "er_Config y" H]
    by (simp add: wf_ExecuteResponse_def)
  ultimately show ?thesis by blast
qed

theorem ExecuteResponse_UserDataHash_binds_witness:
  "er_Output sampleResponse = er_Output (sampleResponse\<lparr>er_Attestation := [2]\<rparr>)"
  using ExecuteResponse_UserDataHash_binds
    [of sampleResponse "sampleResponse\<lparr>er_Attestation := [2]\<rparr>" zeroHash "''0.0.7''" "''0.0.7''"]
  by (simp add: cc_wf sample_defs digest32_def collision_def ExecuteResponse_preimage_def
      ExecuteResponse_UserDataHash_def)

text \<open>
  The hash an enclave attests for its public keys binds the keys, their
  creation times and lifetimes and the configuration, unless a SHA-256
  collision is exhibited.
\<close>

theorem PublicKeyHash_binds:
  assumes "wf_PublicKeyResponse x" "wf_PublicKeyResponse y" "digest32 H"
    and "PublicKeyHash H x = PublicKeyHash H y"
    and "\<not> collision H (PublicKeyResponse_preimage H x) (PublicKeyResponse_preimage H y)"
    and "\<not> collision H (EnclaveConfig_preimage (pk_Config x)) (EnclaveConfig_preimage (pk_Config y))"
  shows "pk_PublicKeys x = pk_PublicKeys y \<and> pk_CreationTimes x = pk_CreationTimes y \<and>
    pk_TTLs x = pk_TTLs y \<and> pk_Config x = pk_Config y"
proof -
  from assms(4,5) have "PublicKeyResponse_preimage H x = PublicKeyResponse_preimage H y"
    unfolding PublicKeyHash_def collision_def by blast
  note fields = this [unfolded PublicKeyResponse_preimage_iff [OF assms(1-3)]]
  moreover have "pk_Config x = pk_Config y"
    using fields assms(1,2,6) EnclaveConfig_Hash_eq [of "pk_Config x" "pk_Config y" H]
    by (simp add: wf_PublicKeyResponse_def)
  ultimately show ?thesis by blast
qed

theorem PublicKeyHash_binds_witness:
  "pk_PublicKeys samplePublicKeys = pk_PublicKeys (samplePublicKeys\<lparr>pk_Attestation := [2]\<rparr>)"
  using PublicKeyHash_binds
    [of samplePublicKeys "samplePublicKeys\<lparr>pk_Attestation := [2]\<rparr>" zeroHash]
  by (simp add: cc_wf sample_defs digest32_def collision_def PublicKeyResponse_preimage_def
      PublicKeyHash_def)

text \<open>
  A signature payload made for a compute request never equals one made
  for a configuration update, whatever is signed.
\<close>

theorem request_vote_payloads_differ:
  "MakePeerIDSignatureDomainSeparatedPayload H GetConfidentialComputePayloadPrefix m \<noteq>
   MakePeerIDSignatureDomainSeparatedPayload H GetConfidentialComputeConfigUpdatePrefix m'"
  using peer_payload_eq [of GetConfidentialComputePayloadPrefix GetConfidentialComputeConfigUpdatePrefix H m m']
  by (auto simp: len_ok_def GetConfidentialComputePayloadPrefix_def
      GetConfidentialComputeConfigUpdatePrefix_def)

text \<open>
  The last field of the request preimage is ambiguous: a legacy request and
  a request of another version whose application request id is the text of the
  legacy version have the same hash.
\<close>

theorem ComputeRequest_Hash_version_ambiguous:
  assumes "v \<noteq> ServiceConfidentialComputeVersionLegacy"
  shows "ComputeRequest_Hash H (cr\<lparr>cr_Version := ServiceConfidentialComputeVersionLegacy\<rparr>) =
    ComputeRequest_Hash H (cr\<lparr>cr_Version := v,
      cr_ApplicationRequestID := ServiceConfidentialComputeVersionLegacy\<rparr>)"
  using assms by (simp add: ComputeRequest_Hash_def ComputeRequest_preimage_def requestTail_def)

theorem ComputeRequest_Hash_version_ambiguous_witness:
  "ComputeRequest_Hash zeroHash sampleRequest =
   ComputeRequest_Hash zeroHash (sampleRequest\<lparr>cr_Version := ''0.0.7'',
     cr_ApplicationRequestID := ''0.0.6''\<rparr>)"
  using ComputeRequest_Hash_version_ambiguous [of "''0.0.7''" zeroHash sampleRequest]
  by (simp add: ServiceConfidentialComputeVersionLegacy_def sampleRequest_def)

end
