(* ===== verification/CC_Cache.thy ===== *)
theory CC_Cache
  imports CC_Types
begin

text \<open>
  The generic expiring cache of \<^verbatim>\<open>src/util/cache.go\<close>: a map with the list of
  its keys in insertion order, a time to live per item, an optional cap that
  evicts the oldest-inserted keys in batches, and a garbage collector. The
  methods run under the cache's mutex, so each is one state transformer; the
  instant \<^verbatim>\<open>time.Now()\<close> reads is an argument. The lemmas give the invariant,
  what a lookup returns after each operation, how long an entry is retained
  under the cap, and that the index loop of the collector is a filter.
\<close>

section \<open>Constants\<close>

definition defaultTTL :: duration where
  [cc_const]: "defaultTTL = 24 * hour"

definition defaultGCInterval :: duration where
  [cc_const]: "defaultGCInterval = 1 * minute"

definition evictionBatchDivisor :: int where
  [cc_const]: "evictionBatchDivisor = 10"

section \<open>State\<close>

record 'v CacheItem =
  ci_Value :: 'v
  ci_CreationTime :: time
  ci_TimeToLive :: duration

record ('k, 'v) Cache =
  ca_items :: "'k \<rightharpoonup> 'v CacheItem"
  ca_keyList :: "'k list"
  ca_stopGC :: bool
  ca_timeToLive :: duration
  ca_gcInterval :: duration
  ca_maxEntries :: int

section \<open>Operations\<close>

definition NewBoundedCache :: "duration option \<Rightarrow> duration option \<Rightarrow> int \<Rightarrow> ('k, 'v) Cache" where
  "NewBoundedCache ttl gci maxE = \<lparr>ca_items = Map.empty, ca_keyList = [], ca_stopGC = False,
     ca_timeToLive = (case ttl of None \<Rightarrow> defaultTTL | Some d \<Rightarrow> d),
     ca_gcInterval = (case gci of None \<Rightarrow> defaultGCInterval | Some d \<Rightarrow> d),
     ca_maxEntries = maxE\<rparr>"

definition NewCache :: "duration option \<Rightarrow> duration option \<Rightarrow> ('k, 'v) Cache" where
  "NewCache ttl gci = NewBoundedCache ttl gci 0"

text \<open>\<^verbatim>\<open>time.Since(item.CreationTime) > item.TimeToLive\<close>\<close>

definition expired :: "time \<Rightarrow> 'v CacheItem \<Rightarrow> bool" where
  "expired now it \<longleftrightarrow> now - ci_CreationTime it > ci_TimeToLive it"

text \<open>The deletions \<^verbatim>\<open>for _, k := range ks { delete(items, k) }\<close>.\<close>

primrec deleteAll :: "'k list \<Rightarrow> ('k \<rightharpoonup> 'a) \<Rightarrow> ('k \<rightharpoonup> 'a)" where
  "deleteAll [] m = m"
| "deleteAll (k # ks) m = deleteAll ks (m(k := None))"

definition evictCount :: "int \<Rightarrow> int \<Rightarrow> nat" where
  "evictCount len maxE =
     (let evict = len - maxE + maxE div evictionBatchDivisor
      in nat (if evict > len then len else evict))"

definition setLocked :: "time \<Rightarrow> 'k \<Rightarrow> 'v \<Rightarrow> duration option \<Rightarrow> ('k, 'v) Cache \<Rightarrow> ('k, 'v) Cache" where
  "setLocked now key v ttl c =
     (let itemTTL = (case ttl of None \<Rightarrow> ca_timeToLive c | Some d \<Rightarrow> d);
          item = \<lparr>ci_Value = v, ci_CreationTime = now, ci_TimeToLive = itemTTL\<rparr>;
          exists = (ca_items c key \<noteq> None);
          its = (ca_items c)(key \<mapsto> item);
          ks = (if exists then ca_keyList c else ca_keyList c @ [key])
      in if ca_maxEntries c > 0 \<and> int (length ks) > ca_maxEntries c
         then let evict = evictCount (int (length ks)) (ca_maxEntries c)
              in c\<lparr>ca_items := deleteAll (take evict ks) its, ca_keyList := drop evict ks\<rparr>
         else c\<lparr>ca_items := its, ca_keyList := ks\<rparr>)"

definition Cache_Set :: "time \<Rightarrow> 'k \<Rightarrow> 'v \<Rightarrow> duration option \<Rightarrow> ('k, 'v) Cache \<Rightarrow> ('k, 'v) Cache" where
  "Cache_Set now key v ttl c = setLocked now key v ttl c"

definition Cache_GetOrSet ::
    "time \<Rightarrow> 'k \<Rightarrow> 'v \<Rightarrow> duration option \<Rightarrow> ('k, 'v) Cache \<Rightarrow> ('v \<times> bool) \<times> ('k, 'v) Cache" where
  "Cache_GetOrSet now key v ttl c = (case ca_items c key of
     Some it \<Rightarrow> if now - ci_CreationTime it \<le> ci_TimeToLive it
                then ((ci_Value it, True), c)
                else ((v, False), setLocked now key v ttl c)
   | None \<Rightarrow> ((v, False), setLocked now key v ttl c))"

definition Cache_Get :: "time \<Rightarrow> 'k \<Rightarrow> ('k, 'v) Cache \<Rightarrow> 'v option" where
  "Cache_Get now key c = (case ca_items c key of
     None \<Rightarrow> None
   | Some it \<Rightarrow> if expired now it then None else Some (ci_Value it))"

definition Cache_Delete :: "'k \<Rightarrow> ('k, 'v) Cache \<Rightarrow> ('k, 'v) Cache" where
  "Cache_Delete key c = c\<lparr>ca_items := (ca_items c)(key := None), ca_keyList := remove1 key (ca_keyList c)\<rparr>"

definition Cache_Keys :: "('k, 'v) Cache \<Rightarrow> 'k list" where
  "Cache_Keys c = ca_keyList c"

definition Cache_Size :: "('k, 'v) Cache \<Rightarrow> nat" where
  "Cache_Size c = card (dom (ca_items c))"

definition Cache_TimeToLive :: "('k, 'v) Cache \<Rightarrow> duration" where
  "Cache_TimeToLive c = ca_timeToLive c"

definition Cache_Flush :: "('k, 'v) Cache \<Rightarrow> ('k, 'v) Cache" where
  "Cache_Flush c = c\<lparr>ca_items := Map.empty, ca_keyList := []\<rparr>"

definition Cache_Stop :: "('k, 'v) Cache \<Rightarrow> ('k, 'v) Cache" where
  "Cache_Stop c = c\<lparr>ca_stopGC := True\<rparr>"

text \<open>The body of the collector's loop over \<^verbatim>\<open>i := len(keyList)-1; i >= 0; i--\<close>.\<close>

primrec gcLoop :: "time \<Rightarrow> nat \<Rightarrow> ('k, 'v) Cache \<Rightarrow> nat \<Rightarrow> ('k, 'v) Cache \<times> nat" where
  "gcLoop now 0 c removed = (c, removed)"
| "gcLoop now (Suc i) c removed =
     (let key = ca_keyList c ! i;
          dead = (case ca_items c key of None \<Rightarrow> True | Some it \<Rightarrow> expired now it)
      in if dead
         then gcLoop now i
                (c\<lparr>ca_items := (ca_items c)(key := None),
                   ca_keyList := take i (ca_keyList c) @ drop (Suc i) (ca_keyList c)\<rparr>)
                (Suc removed)
         else gcLoop now i c removed)"

definition garbageCollect :: "time \<Rightarrow> ('k, 'v) Cache \<Rightarrow> ('k, 'v) Cache \<times> nat" where
  "garbageCollect now c = gcLoop now (length (ca_keyList c)) c 0"

text \<open>One firing of the ticker of \<^verbatim>\<open>startGCTicker\<close>: collect unless stopped.\<close>

definition gcTick :: "time \<Rightarrow> ('k, 'v) Cache \<Rightarrow> ('k, 'v) Cache" where
  "gcTick now c = (if ca_stopGC c then c else fst (garbageCollect now c))"

section \<open>Sequences of operations\<close>

datatype ('k, 'v) cacheOp =
    OSet time 'k 'v "duration option"
  | OGetOrSet time 'k 'v "duration option"
  | ODelete 'k
  | OTick time

fun applyOp :: "('k, 'v) cacheOp \<Rightarrow> ('k, 'v) Cache \<Rightarrow> ('k, 'v) Cache" where
  "applyOp (OSet now k v ttl) c = Cache_Set now k v ttl c"
| "applyOp (OGetOrSet now k v ttl) c = snd (Cache_GetOrSet now k v ttl c)"
| "applyOp (ODelete k) c = Cache_Delete k c"
| "applyOp (OTick now) c = gcTick now c"

text \<open>Operations that are neither about key \<open>k\<close> nor later than \<open>t\<close>, and how many can add a key.\<close>

fun unrelated :: "'k \<Rightarrow> time \<Rightarrow> ('k, 'v) cacheOp \<Rightarrow> bool" where
  "unrelated k t (OSet now k' v ttl) = (k' \<noteq> k)"
| "unrelated k t (OGetOrSet now k' v ttl) = (k' \<noteq> k)"
| "unrelated k t (ODelete k') = (k' \<noteq> k)"
| "unrelated k t (OTick now) = (now \<le> t)"

fun adds :: "('k, 'v) cacheOp \<Rightarrow> nat" where
  "adds (OSet now k v ttl) = 1"
| "adds (OGetOrSet now k v ttl) = 1"
| "adds _ = 0"

text \<open>\<open>k\<close> is among the \<open>r + 1\<close> newest keys.\<close>

definition recent :: "'k \<Rightarrow> nat \<Rightarrow> 'k list \<Rightarrow> bool" where
  "recent k r ks \<longleftrightarrow> k \<in> set (drop (length ks - Suc r) ks)"

section \<open>Invariant\<close>

definition cache_inv :: "('k, 'v) Cache \<Rightarrow> bool" where
  "cache_inv c \<longleftrightarrow> distinct (ca_keyList c) \<and> set (ca_keyList c) = dom (ca_items c) \<and>
     (ca_maxEntries c > 0 \<longrightarrow> int (length (ca_keyList c)) \<le> ca_maxEntries c)"

lemma cache_invI:
  assumes "distinct (ca_keyList c)" "set (ca_keyList c) = dom (ca_items c)"
    "ca_maxEntries c > 0 \<Longrightarrow> int (length (ca_keyList c)) \<le> ca_maxEntries c"
  shows "cache_inv c"
  using assms by (simp add: cache_inv_def)

lemma cache_invD:
  assumes "cache_inv c"
  shows "distinct (ca_keyList c)" "set (ca_keyList c) = dom (ca_items c)" "finite (dom (ca_items c))"
    "ca_maxEntries c > 0 \<Longrightarrow> int (length (ca_keyList c)) \<le> ca_maxEntries c"
proof -
  show "finite (dom (ca_items c))"
    using assms by (metis List.finite_set cache_inv_def)
qed (use assms in \<open>auto simp: cache_inv_def\<close>)

lemma deleteAll_apply: "deleteAll ks m k = (if k \<in> set ks then None else m k)"
  by (induction ks arbitrary: m) auto

lemma dom_deleteAll [simp]: "dom (deleteAll ks m) = dom m - set ks"
  by (auto simp: deleteAll_apply dom_def split: if_splits)

text \<open>On overflow by one key, a cap of \<open>m\<close> evicts \<open>1 + m div 10\<close> keys and keeps the rest.\<close>

lemma evictCount_overflow:
  assumes "0 < m"
  shows "evictCount (m + 1) m = nat (1 + m div 10)" "int (evictCount (m + 1) m) \<le> m"
proof -
  have "m div 10 < m" using assms by presburger
  then show "evictCount (m + 1) m = nat (1 + m div 10)" "int (evictCount (m + 1) m) \<le> m"
    using assms by (simp_all add: evictCount_def evictionBatchDivisor_def Let_def)
qed

text \<open>The two shapes of a store: below the cap nothing else moves, at the cap the oldest keys go.\<close>

lemma setLocked_cases:
  assumes inv: "cache_inv c"
  obtains (kept) "ca_items (setLocked now key v ttl c) =
        (ca_items c)(key \<mapsto> \<lparr>ci_Value = v, ci_CreationTime = now,
           ci_TimeToLive = (case ttl of None \<Rightarrow> ca_timeToLive c | Some d \<Rightarrow> d)\<rparr>)"
      "ca_keyList (setLocked now key v ttl c) =
        (if key \<in> dom (ca_items c) then ca_keyList c else ca_keyList c @ [key])"
      "ca_maxEntries c > 0 \<Longrightarrow> int (length (ca_keyList (setLocked now key v ttl c))) \<le> ca_maxEntries c"
  | (evicted) n where "key \<notin> dom (ca_items c)" "ca_maxEntries c > 0"
      "int (length (ca_keyList c)) = ca_maxEntries c" "int n = 1 + ca_maxEntries c div 10"
      "n \<le> length (ca_keyList c)"
      "ca_items (setLocked now key v ttl c) = deleteAll (take n (ca_keyList c))
        ((ca_items c)(key \<mapsto> \<lparr>ci_Value = v, ci_CreationTime = now,
           ci_TimeToLive = (case ttl of None \<Rightarrow> ca_timeToLive c | Some d \<Rightarrow> d)\<rparr>))"
      "ca_keyList (setLocked now key v ttl c) = drop n (ca_keyList c) @ [key]"
proof -
  let ?m = "ca_maxEntries c" and ?ks = "ca_keyList c"
  let ?ks' = "if key \<in> dom (ca_items c) then ?ks else ?ks @ [key]"
  show thesis
  proof (cases "?m > 0 \<and> int (length ?ks') > ?m")
    case False
    then show thesis
      by (intro kept) (auto simp: setLocked_def Let_def domIff)
  next
    case True
    with cache_invD(4) [OF inv] have new: "key \<notin> dom (ca_items c)"
      and len: "int (length ?ks) = ?m" by (auto split: if_splits)
    define n where "n = evictCount (int (length ?ks) + 1) ?m"
    have n: "int n = 1 + ?m div 10" "int n \<le> ?m"
      using evictCount_overflow [of ?m] True len by (simp_all add: n_def)
    with len have "n \<le> length ?ks" by linarith
    then show thesis
      using True new len n
      by (intro evicted [of n]) (auto simp: setLocked_def Let_def domIff n_def add.commute)
  qed
qed

lemma cache_inv_New: "cache_inv (NewBoundedCache ttl gci m)"
  by (simp add: cache_inv_def NewBoundedCache_def)

lemma setLocked_fields [simp]:
  "ca_maxEntries (setLocked now key v ttl c) = ca_maxEntries c"
  "ca_timeToLive (setLocked now key v ttl c) = ca_timeToLive c"
  by (simp_all add: setLocked_def Let_def)

lemma cache_inv_setLocked:
  assumes inv: "cache_inv c"
  shows "cache_inv (setLocked now key v ttl c)"
proof (cases rule: setLocked_cases [OF inv, of now key v ttl])
  case 1
  then show ?thesis using cache_invD [OF inv] by (intro cache_invI) auto
next
  case (2 n)
  have "set (drop n (ca_keyList c)) = dom (ca_items c) - set (take n (ca_keyList c))"
    using cache_invD [OF inv] by (simp add: set_take_drop_distinct)
  moreover have "key \<notin> set (take n (ca_keyList c))"
    using 2(1) cache_invD(2) [OF inv] by (auto dest: in_set_takeD)
  ultimately show ?thesis
    using 2 cache_invD [OF inv] by (intro cache_invI) (auto dest: in_set_dropD)
qed

lemma cache_inv_Set: "cache_inv c \<Longrightarrow> cache_inv (Cache_Set now key v ttl c)"
  by (simp add: Cache_Set_def cache_inv_setLocked)

lemma cache_inv_GetOrSet: "cache_inv c \<Longrightarrow> cache_inv (snd (Cache_GetOrSet now key v ttl c))"
  by (simp add: Cache_GetOrSet_def cache_inv_setLocked split: option.split)

lemma cache_inv_Delete:
  assumes "cache_inv c"
  shows "cache_inv (Cache_Delete key c)"
  using cache_invD [OF assms]
  by (intro cache_invI) (auto simp: Cache_Delete_def length_remove1 of_nat_diff split: if_splits)

lemma cache_inv_Flush: "cache_inv (Cache_Flush c)"
  by (simp add: cache_inv_def Cache_Flush_def)

section \<open>The collector\<close>

definition live :: "time \<Rightarrow> ('k, 'v) Cache \<Rightarrow> 'k \<Rightarrow> bool" where
  "live now c k = (case ca_items c k of None \<Rightarrow> False | Some it \<Rightarrow> \<not> expired now it)"

lemma gcLoop_spec:
  assumes "distinct (ca_keyList c)" "i \<le> length (ca_keyList c)"
  shows "gcLoop now i c r =
    (c\<lparr>ca_items := ca_items c |` (- {k \<in> set (take i (ca_keyList c)). \<not> live now c k}),
       ca_keyList := filter (live now c) (take i (ca_keyList c)) @ drop i (ca_keyList c)\<rparr>,
     r + length (filter (\<lambda>k. \<not> live now c k) (take i (ca_keyList c))))"
  using assms
proof (induction i arbitrary: c r)
  case 0
  then show ?case by simp
next
  case (Suc i)
  define ks where "ks = ca_keyList c"
  from Suc.prems have i: "i < length ks" and d: "distinct ks" by (simp_all add: ks_def)
  have take: "take (Suc i) ks = take i ks @ [ks ! i]" using i by (rule take_Suc_conv_app_nth)
  have fresh: "ks ! i \<notin> set (take i ks)"
    using d i by (metis distinct_take not_distinct_conv_prefix take)
  show ?case
  proof (cases "live now c (ks ! i)")
    case True
    have "gcLoop now (Suc i) c r = gcLoop now i c r"
      using True by (auto simp: live_def ks_def Let_def split: option.splits)
    moreover have "drop i ks = ks ! i # drop (Suc i) ks" using i by (rule Cons_nth_drop_Suc [symmetric])
    moreover have "{k. (k = ks ! i \<or> k \<in> set (take i ks)) \<and> \<not> live now c k}
        = {k \<in> set (take i ks). \<not> live now c k}"
      using True by auto
    ultimately show ?thesis
      using Suc True by (simp add: take flip: ks_def)
  next
    case False
    define c' where "c' = c\<lparr>ca_items := (ca_items c)(ks ! i := None),
        ca_keyList := take i ks @ drop (Suc i) ks\<rparr>"
    have step: "gcLoop now (Suc i) c r = gcLoop now i c' (Suc r)"
      using False by (auto simp: live_def ks_def c'_def Let_def split: option.splits)
    have ks': "take i (ca_keyList c') = take i ks" "drop i (ca_keyList c') = drop (Suc i) ks"
      using i by (simp_all add: c'_def)
    have live': "live now c' k = live now c k" if "k \<in> set (take i ks)" for k
      using that fresh by (auto simp: live_def c'_def)
    have filt: "filter (live now c') (take i ks) = filter (live now c) (take i ks)"
      "filter (\<lambda>k. \<not> live now c' k) (take i ks) = filter (\<lambda>k. \<not> live now c k) (take i ks)"
      using live' by (simp_all cong: filter_cong)
    have dead: "ca_items c' |` (- {k \<in> set (take i ks). \<not> live now c' k})
        = ca_items c |` (- {k. (k = ks ! i \<or> k \<in> set (take i ks)) \<and> \<not> live now c k})"
      using False live' by (auto simp: restrict_map_def c'_def fun_eq_iff)
    have "distinct (ca_keyList c')" "i \<le> length (ca_keyList c')"
      using d i set_take_disj_set_drop_if_distinct [of ks i "Suc i"]
      by (simp_all add: c'_def)
    then show ?thesis
      unfolding step using Suc.IH [of c' "Suc r"] False
      by (simp add: ks' filt dead take flip: ks_def) (simp add: c'_def)
  qed
qed

lemma garbageCollect_spec:
  assumes "cache_inv c"
  shows "fst (garbageCollect now c) = c\<lparr>ca_items := ca_items c |` {k. live now c k},
      ca_keyList := filter (live now c) (ca_keyList c)\<rparr>"
    and "snd (garbageCollect now c) = length (filter (\<lambda>k. \<not> live now c k) (ca_keyList c))"
proof -
  have "ca_items c |` (- {k \<in> set (ca_keyList c). \<not> live now c k}) = ca_items c |` {k. live now c k}"
    using cache_invD(2) [OF assms] by (auto simp: restrict_map_def fun_eq_iff domIff)
  then show "fst (garbageCollect now c) = c\<lparr>ca_items := ca_items c |` {k. live now c k},
      ca_keyList := filter (live now c) (ca_keyList c)\<rparr>"
    and "snd (garbageCollect now c) = length (filter (\<lambda>k. \<not> live now c k) (ca_keyList c))"
    using cache_invD [OF assms] by (simp_all add: garbageCollect_def gcLoop_spec)
qed

lemma cache_inv_garbageCollect:
  assumes "cache_inv c"
  shows "cache_inv (fst (garbageCollect now c))"
proof -
  have "int (length (filter (live now c) (ca_keyList c))) \<le> ca_maxEntries c" if "ca_maxEntries c > 0"
    using cache_invD(4) [OF assms that] length_filter_le [of "live now c" "ca_keyList c"] by linarith
  moreover have "live now c k \<Longrightarrow> k \<in> dom (ca_items c)" for k
    by (auto simp: live_def split: option.splits)
  ultimately show ?thesis
    using cache_invD [OF assms] by (intro cache_invI) (auto simp: garbageCollect_spec [OF assms])
qed

lemma cache_inv_gcTick: "cache_inv c \<Longrightarrow> cache_inv (gcTick now c)"
  by (simp add: gcTick_def cache_inv_garbageCollect)

section \<open>Lookups\<close>

lemma Get_New [simp]: "Cache_Get now k (NewBoundedCache ttl gci m) = None"
  by (simp add: Cache_Get_def NewBoundedCache_def)

lemma Get_iff_live: "Cache_Get now k c \<noteq> None \<longleftrightarrow> live now c k"
  by (simp add: Cache_Get_def live_def split: option.split)

lemma Get_gc:
  assumes "cache_inv c"
  shows "Cache_Get now k (fst (garbageCollect now c)) = Cache_Get now k c"
  by (auto simp: garbageCollect_spec [OF assms] Cache_Get_def live_def restrict_map_def
      split: option.splits)

lemma Get_Delete: "Cache_Get now k (Cache_Delete k' c) = (if k = k' then None else Cache_Get now k c)"
  by (simp add: Cache_Get_def Cache_Delete_def)

lemma Get_Flush [simp]: "Cache_Get now k (Cache_Flush c) = None"
  by (simp add: Cache_Get_def Cache_Flush_def)

definition itemTTL :: "duration option \<Rightarrow> ('k, 'v) Cache \<Rightarrow> duration" where
  "itemTTL ttl c = (case ttl of None \<Rightarrow> ca_timeToLive c | Some d \<Rightarrow> d)"

text \<open>A stored value is found until its time to live has passed; storing never evicts it.\<close>

lemma Get_Set_same:
  assumes inv: "cache_inv c"
  shows "Cache_Get now' k (Cache_Set now k v ttl c) = (if now' - now \<le> itemTTL ttl c then Some v else None)"
proof (cases rule: setLocked_cases [OF inv, of now k v ttl])
  case 1
  then show ?thesis by (simp add: Cache_Get_def Cache_Set_def expired_def itemTTL_def not_less)
next
  case (2 n)
  have "k \<notin> set (take n (ca_keyList c))"
    using 2(1) cache_invD(2) [OF inv] by (auto dest: in_set_takeD)
  with 2 show ?thesis
    by (simp add: Cache_Get_def Cache_Set_def expired_def itemTTL_def deleteAll_apply not_less)
qed

text \<open>Another key's value is unchanged or evicted.\<close>

lemma Get_Set_other:
  assumes inv: "cache_inv c" and "k' \<noteq> k" "Cache_Get now' k' (Cache_Set now k v ttl c) = Some w"
  shows "Cache_Get now' k' c = Some w"
  using assms(2,3)
  by (cases rule: setLocked_cases [OF inv, of now k v ttl])
    (auto simp: Cache_Get_def Cache_Set_def deleteAll_apply split: if_splits option.splits)

text \<open>Below the cap, nothing is evicted.\<close>

lemma Get_Set_room:
  assumes inv: "cache_inv c" and "k' \<noteq> k"
    and "ca_maxEntries c \<le> 0 \<or> int (length (ca_keyList c)) < ca_maxEntries c"
  shows "Cache_Get now' k' (Cache_Set now k v ttl c) = Cache_Get now' k' c"
  using assms(2,3)
  by (cases rule: setLocked_cases [OF inv, of now k v ttl])
    (auto simp: Cache_Get_def Cache_Set_def)

lemma Get_antimono:
  assumes "Cache_Get now' k c = Some v" "now \<le> now'"
  shows "Cache_Get now k c = Some v"
  using assms by (auto simp: Cache_Get_def expired_def split: option.splits if_splits)

lemma GetOrSet_spec:
  "Cache_GetOrSet now k v ttl c = (case Cache_Get now k c of
     Some w \<Rightarrow> ((w, True), c)
   | None \<Rightarrow> ((v, False), Cache_Set now k v ttl c))"
  by (auto simp: Cache_GetOrSet_def Cache_Get_def Cache_Set_def expired_def split: option.splits)

section \<open>Retention under the cap\<close>

lemma recent_split: "recent k r ks \<longleftrightarrow> (\<exists>as bs. ks = as @ k # bs \<and> length bs \<le> r)"
proof
  assume "recent k r ks"
  then obtain cs bs where "drop (length ks - Suc r) ks = cs @ k # bs"
    unfolding recent_def by (meson split_list)
  moreover from this have "length (cs @ k # bs) \<le> Suc r" by (metis length_drop diff_diff_cancel nat_le_linear diff_is_0_eq)
  ultimately have "ks = (take (length ks - Suc r) ks @ cs) @ k # bs" "length bs \<le> r"
    by (metis append.assoc append_take_drop_id, simp)
  then show "\<exists>as bs. ks = as @ k # bs \<and> length bs \<le> r" by blast
next
  assume "\<exists>as bs. ks = as @ k # bs \<and> length bs \<le> r"
  then obtain as bs where "ks = as @ k # bs" "length bs \<le> r" by blast
  then show "recent k r ks" by (simp add: recent_def)
qed

lemma recent_append: "recent k r ks \<Longrightarrow> recent k (Suc r) (ks @ [x])"
  unfolding recent_split by (metis append.assoc append_Cons length_append_singleton not_less_eq_eq)

lemma recent_mono: "recent k r ks \<Longrightarrow> r \<le> r' \<Longrightarrow> recent k r' ks"
  unfolding recent_split by fastforce

lemma recent_filter: "recent k r ks \<Longrightarrow> P k \<Longrightarrow> recent k r (filter P ks)"
  unfolding recent_split by (fastforce intro: le_trans [OF length_filter_le])

lemma recent_remove1:
  assumes "recent k r ks" "k' \<noteq> k"
  shows "recent k r (remove1 k' ks)"
proof -
  obtain as bs where "ks = as @ k # bs" "length bs \<le> r"
    using assms(1) unfolding recent_split by blast
  with assms(2) have "remove1 k' ks = remove1 k' as @ k # bs \<or> remove1 k' ks = as @ k # remove1 k' bs"
    by (auto simp: remove1_append)
  moreover have "length (remove1 k' bs) \<le> r"
    using \<open>length bs \<le> r\<close> by (auto simp: length_remove1)
  ultimately show ?thesis
    unfolding recent_split using \<open>length bs \<le> r\<close> by blast
qed

lemma recent_drop:
  assumes "recent k r ks" "n + r < length ks"
  shows "recent k r (drop n ks)" "k \<notin> set (take n ks) \<or> \<not> distinct ks"
proof -
  obtain as bs where ks: "ks = as @ k # bs" "length bs \<le> r"
    using assms(1) unfolding recent_split by blast
  with assms(2) have "n \<le> length as" by simp
  with ks show "recent k r (drop n ks)" unfolding recent_split by auto
  show "k \<notin> set (take n ks) \<or> \<not> distinct ks"
    using ks \<open>n \<le> length as\<close> by (auto dest: in_set_takeD)
qed

text \<open>An unrelated store keeps a recent entry, which grows older by at most one.\<close>

lemma setLocked_keeps:
  assumes inv: "cache_inv c" and "k' \<noteq> k" "recent k r (ca_keyList c)"
    and "ca_maxEntries c > 0 \<Longrightarrow> 1 + int r < ca_maxEntries c - ca_maxEntries c div 10"
  shows "ca_items (setLocked now k' v ttl c) k = ca_items c k
    \<and> recent k (Suc r) (ca_keyList (setLocked now k' v ttl c))"
proof (cases rule: setLocked_cases [OF inv, of now k' v ttl])
  case 1
  with assms(2,3) show ?thesis by (auto intro: recent_append recent_mono [of k r _ "Suc r"])
next
  case (2 n)
  then have "int n + int r < int (length (ca_keyList c))" using assms(4) by linarith
  then have "n + r < length (ca_keyList c)" by linarith
  from recent_drop [OF assms(3) this] 2 assms(2) cache_invD(1) [OF inv]
  show ?thesis by (auto simp: deleteAll_apply intro: recent_append)
qed

lemma applyOp_inv: "cache_inv c \<Longrightarrow> cache_inv (applyOp op c)"
  by (cases op) (simp_all add: cache_inv_Set cache_inv_GetOrSet cache_inv_Delete cache_inv_gcTick)

lemma applyOp_max [simp]: "cache_inv c \<Longrightarrow> ca_maxEntries (applyOp op c) = ca_maxEntries c"
  by (cases op) (auto simp: Cache_Set_def Cache_GetOrSet_def Cache_Delete_def gcTick_def
      garbageCollect_spec split: option.split)

lemma applyOp_keeps:
  assumes inv: "cache_inv c" and "unrelated k t op" "recent k r (ca_keyList c)"
    and it: "ca_items c k = Some it" "\<not> expired t it"
    and room: "ca_maxEntries c > 0 \<Longrightarrow> int (r + adds op) < ca_maxEntries c - ca_maxEntries c div 10"
  shows "ca_items (applyOp op c) k = Some it \<and> recent k (r + adds op) (ca_keyList (applyOp op c))"
proof (cases op)
  case (OSet now k' v ttl)
  with assms setLocked_keeps [of c k' k r now v ttl] show ?thesis by (simp add: Cache_Set_def)
next
  case (OGetOrSet now k' v ttl)
  with assms setLocked_keeps [of c k' k r now v ttl] show ?thesis
    by (auto simp: Cache_GetOrSet_def intro: recent_mono split: option.splits)
next
  case (ODelete k')
  with assms show ?thesis by (simp add: Cache_Delete_def recent_remove1)
next
  case (OTick now)
  with assms(2) it have "live now c k" by (auto simp: live_def expired_def)
  with OTick assms(3) it show ?thesis
    by (auto simp: gcTick_def garbageCollect_spec [OF inv] restrict_map_def intro: recent_filter)
qed

text \<open>Without a cap the age of the entry does not matter.\<close>

lemma applyOp_keeps_unbounded:
  assumes "cache_inv c" "ca_maxEntries c \<le> 0" "unrelated k t op"
    and "ca_items c k = Some it" "\<not> expired t it"
  shows "ca_items (applyOp op c) k = Some it"
proof -
  have "recent k (length (ca_keyList c)) (ca_keyList c)"
    using assms(4) cache_invD(2) [OF assms(1)] by (auto simp: recent_def)
  with assms applyOp_keeps [of c k t op] show ?thesis by simp
qed

lemma run_keeps:
  assumes "cache_inv c" "\<forall>op\<in>set ops. unrelated k t op" "recent k r (ca_keyList c)"
    and "ca_items c k = Some it" "\<not> expired t it"
    and "ca_maxEntries c > 0 \<Longrightarrow> int (r + sum_list (map adds ops)) < ca_maxEntries c - ca_maxEntries c div 10"
  shows "ca_items (fold applyOp ops c) k = Some it"
  using assms
proof (induction ops arbitrary: c r)
  case (Cons op ops)
  then have "ca_items (applyOp op c) k = Some it \<and> recent k (r + adds op) (ca_keyList (applyOp op c))"
    by (intro applyOp_keeps) auto
  with Cons show ?case
    using Cons.IH [of "applyOp op c" "r + adds op"] by (simp add: applyOp_inv add.assoc)
qed simp

section \<open>The contract the clients of the cache rely on\<close>

locale expiring_store =
  fixes inv :: "'s \<Rightarrow> bool"
    and get :: "time \<Rightarrow> 'k \<Rightarrow> 's \<Rightarrow> 'v option"
    and put :: "time \<Rightarrow> 'k \<Rightarrow> 'v \<Rightarrow> 's \<Rightarrow> 's"
    and del :: "'k \<Rightarrow> 's \<Rightarrow> 's"
  assumes inv_put: "inv s \<Longrightarrow> inv (put t k v s)"
    and inv_del: "inv s \<Longrightarrow> inv (del k s)"
    and get_put_now: "inv s \<Longrightarrow> get t k (put t k v s) = Some v"
    and get_put_only: "\<lbrakk>inv s; get t' k (put t k v s) = Some w\<rbrakk> \<Longrightarrow> w = v"
    and get_put_other: "\<lbrakk>inv s; k' \<noteq> k; get t' k' (put t k v s) = Some w\<rbrakk> \<Longrightarrow> get t' k' s = Some w"
    and get_del_same: "get t k (del k s) = None"
    and get_del_other: "k' \<noteq> k \<Longrightarrow> get t k' (del k s) = get t k' s"
begin

text \<open>Every value a lookup can ever return satisfies \<open>P\<close>.\<close>

definition holds_all :: "('k \<Rightarrow> 'v \<Rightarrow> bool) \<Rightarrow> 's \<Rightarrow> bool" where
  "holds_all P s \<longleftrightarrow> (\<forall>t k v. get t k s = Some v \<longrightarrow> P k v)"

lemma holds_all_get: "\<lbrakk>holds_all P s; get t k s = Some v\<rbrakk> \<Longrightarrow> P k v"
  by (simp add: holds_all_def)

lemma holds_all_put: "\<lbrakk>inv s; holds_all P s; P k v\<rbrakk> \<Longrightarrow> holds_all P (put t k v s)"
  unfolding holds_all_def by (metis get_put_only get_put_other)

lemma holds_all_del: "holds_all P s \<Longrightarrow> holds_all P (del k s)"
  unfolding holds_all_def by (metis get_del_same get_del_other option.distinct(1))

text \<open>What is read after a series of stores was there before or was stored by one of them.\<close>

lemma get_puts:
  assumes "inv s" "get t k (fold (\<lambda>(u, x, v). put u x v) kvs s) = Some w"
  shows "get t k s = Some w \<or> (\<exists>u. (u, k, w) \<in> set kvs)"
  using assms
proof (induction kvs arbitrary: s)
  case (Cons a kvs)
  obtain u x v where a: "a = (u, x, v)" by (cases a) auto
  from Cons a have "get t k (put u x v s) = Some w \<or> (\<exists>u. (u, k, w) \<in> set kvs)"
    by (simp add: inv_put)
  then show ?case using Cons.prems(1) a by (metis get_put_only get_put_other list.set_intros)
qed simp

end

definition store_inv :: "('k, 'v) Cache \<Rightarrow> bool" where
  "store_inv c \<longleftrightarrow> cache_inv c \<and> 0 \<le> ca_timeToLive c"

interpretation cs: expiring_store store_inv Cache_Get "\<lambda>t k v. Cache_Set t k v None" Cache_Delete
proof
  fix c :: "('k, 'v) Cache" and t t' k k' v w
  show "store_inv c \<Longrightarrow> store_inv (Cache_Set t k v None c)"
    by (simp add: store_inv_def cache_inv_Set) (simp add: Cache_Set_def)
  show "store_inv c \<Longrightarrow> store_inv (Cache_Delete k c)"
    by (simp add: store_inv_def cache_inv_Delete) (simp add: Cache_Delete_def)
  show "store_inv c \<Longrightarrow> Cache_Get t k (Cache_Set t k v None c) = Some v"
    by (simp add: store_inv_def Get_Set_same itemTTL_def)
  show "\<lbrakk>store_inv c; Cache_Get t' k (Cache_Set t k v None c) = Some w\<rbrakk> \<Longrightarrow> w = v"
    by (simp add: store_inv_def Get_Set_same split: if_splits)
  show "\<lbrakk>store_inv c; k' \<noteq> k; Cache_Get t' k' (Cache_Set t k v None c) = Some w\<rbrakk>
      \<Longrightarrow> Cache_Get t' k' c = Some w"
    by (simp add: store_inv_def Get_Set_other)
qed (simp_all add: Get_Delete)

section \<open>Properties\<close>

lemma run_inv:
  assumes "cache_inv c"
  shows "cache_inv (fold applyOp ops c) \<and> ca_maxEntries (fold applyOp ops c) = ca_maxEntries c"
  using assms by (induction ops arbitrary: c) (simp_all add: applyOp_inv)

lemma Size_eq: "cache_inv c \<Longrightarrow> Cache_Size c = length (ca_keyList c)"
  unfolding Cache_Size_def by (metis cache_invD(1,2) card_distinct_set)


text \<open>
  C32. Retention: a key newly stored in a cache with cap \<open>m\<close> keeps its value
  until it expires, through every sequence of operations on other keys, as long
  as fewer than \<open>m - m div 10\<close> of them can add a key.
\<close>

theorem bounded_cache_retention:
  assumes "cache_inv c" "0 < ca_maxEntries c" "k \<notin> set (Cache_Keys c)"
    and "\<forall>op\<in>set ops. unrelated k t op" "t - now \<le> itemTTL ttl c"
    and "int (sum_list (map adds ops)) < ca_maxEntries c - ca_maxEntries c div 10"
  shows "Cache_Get t k (fold applyOp ops (Cache_Set now k v ttl c)) = Some v"
proof -
  let ?c = "Cache_Set now k v ttl c"
  define it where "it = \<lparr>ci_Value = v, ci_CreationTime = now, ci_TimeToLive = itemTTL ttl c\<rparr>"
  have "k \<notin> dom (ca_items c)" using assms(1,3) by (simp add: Cache_Keys_def cache_invD(2))
  then have "ca_items ?c k = Some it \<and> recent k 0 (ca_keyList ?c)"
    using assms(1) cache_invD(2) [OF assms(1)]
    by (cases rule: setLocked_cases [OF assms(1), of now k v ttl])
      (auto simp: Cache_Set_def it_def itemTTL_def deleteAll_apply recent_def dest: in_set_takeD)
  moreover have "\<not> expired t it" using assms(5) by (simp add: expired_def it_def)
  ultimately have "ca_items (fold applyOp ops ?c) k = Some it"
    using assms cache_inv_setLocked [OF assms(1)]
    by (intro run_keeps [where r = 0 and t = t]) (auto simp: Cache_Set_def)
  with \<open>\<not> expired t it\<close> show ?thesis by (simp add: Cache_Get_def it_def)
qed

theorem bounded_cache_retention_witness:
  "Cache_Get 20 (1 :: nat) (fold applyOp [OSet 11 2 () None, ODelete 3, OTick 15, OSet 16 4 () None]
     (Cache_Set 10 1 () None (NewBoundedCache (Some 100) None 3))) = Some ()"
  by (rule bounded_cache_retention [OF cache_inv_New])
    (simp_all add: NewBoundedCache_def itemTTL_def Cache_Keys_def)

text \<open>
  Garbage collection removes exactly the expired entries, counts them, and
  no lookup at that instant notices it.
\<close>

theorem garbageCollect_removes_expired:
  assumes "cache_inv c"
  shows "fst (garbageCollect now c) = c\<lparr>ca_items := ca_items c |` {k. Cache_Get now k c \<noteq> None},
      ca_keyList := filter (\<lambda>k. Cache_Get now k c \<noteq> None) (ca_keyList c)\<rparr>
    \<and> snd (garbageCollect now c) + Cache_Size (fst (garbageCollect now c)) = Cache_Size c
    \<and> Cache_Get now k (fst (garbageCollect now c)) = Cache_Get now k c"
proof -
  have "length (filter (\<lambda>k. \<not> live now c k) (ca_keyList c)) + length (filter (live now c) (ca_keyList c))
      = length (ca_keyList c)"
    using sum_length_filter_compl [of "live now c" "ca_keyList c"] by simp
  moreover have eq: "(\<lambda>k. Cache_Get now k c \<noteq> None) = live now c"
    by (rule ext) (rule Get_iff_live)
  ultimately have "snd (garbageCollect now c) + Cache_Size (fst (garbageCollect now c)) = Cache_Size c"
    using cache_inv_garbageCollect [OF assms, of now] assms
    by (simp add: Size_eq garbageCollect_spec [OF assms])
  with eq show ?thesis
    using Get_gc [OF assms] garbageCollect_spec(1) [OF assms] by metis
qed

theorem garbageCollect_removes_expired_witness:
  "let c = Cache_Set 10 (1 :: nat) () None (NewBoundedCache (Some 5) None 3) in
     snd (garbageCollect 20 c) + Cache_Size (fst (garbageCollect 20 c)) = Cache_Size c \<and>
     snd (garbageCollect 20 c) = 1"
proof -
  let ?c = "Cache_Set 10 (1 :: nat) () None (NewBoundedCache (Some 5) None 3)"
  have "cache_inv ?c" by (simp add: cache_inv_Set cache_inv_New)
  note gc = garbageCollect_removes_expired [OF this, of 20 1]
  have "snd (garbageCollect 20 ?c) = 1"
    by (simp add: garbageCollect_def Cache_Set_def setLocked_def NewBoundedCache_def expired_def)
  with gc show ?thesis unfolding Let_def by blast
qed

end
