(* ===== verification/CC_Keychain.thy ===== *)
theory CC_Keychain
  imports CC_Cache
begin

text \<open>
  The enclave's ephemeral keys: \<^verbatim>\<open>src/enclave/services/keychain/box_keychain.go\<close>.
  A keypair cache filled by the rotation loop, and a bounded map from request
  ids to the key a request was given. NaCl's \<^verbatim>\<open>box.GenerateKey\<close> and
  \<^verbatim>\<open>box.OpenAnonymous\<close> are arguments of the operations that call them. The
  lemmas show that a request keeps its key across rotations, sweeps and other
  requests, that the key given is the newest live one, and that a key the
  keychain returns is not expired for decryption.
\<close>

section \<open>Constants\<close>

definition DefaultKeypairRotationFrequency :: duration where
  [cc_const]: "DefaultKeypairRotationFrequency = 12 * hour"

definition DefaultKeypairExpiration :: duration where
  [cc_const]: "DefaultKeypairExpiration = 24 * hour"

definition MaxRequestKeyMapEntries :: int where
  [cc_const]: "MaxRequestKeyMapEntries = 100000"

definition garbageCollectionInterval :: duration where
  [cc_const]: "garbageCollectionInterval = 30 * second"

definition requestKeyMapTTL :: duration where
  [cc_const]: "requestKeyMapTTL = 1 * hour"

section \<open>State\<close>

record boxKeypair =
  kp_publicKey :: bytes
  kp_privateKey :: bytes
  kp_ttl :: duration
  kp_creationTime :: time

record boxKeychain =
  kc_keypairCache :: "(bytes, boxKeypair) Cache"
  kc_requestKeyMap :: "(bytes, bytes) Cache"
  kc_rotationFrequency :: duration
  kc_expiration :: duration
  kc_stopRotation :: bool

datatype keychainError =
    InvalidPublicKeyLength nat
  | KeypairNotFound
  | NoKeypairsAvailable
  | MappedKeypairExpired bytes
  | GenerateFailed
  | KeypairExpired
  | DecryptionFailed
  | DeleteNotImplemented

section \<open>Operations\<close>

definition Keypair_Decrypt ::
    "(bytes \<Rightarrow> bytes \<Rightarrow> bytes \<Rightarrow> bytes option) \<Rightarrow> time \<Rightarrow> boxKeypair \<Rightarrow> bytes \<Rightarrow> keychainError + bytes" where
  "Keypair_Decrypt openAnonymous now kp ciphertext =
     (if kp_creationTime kp + kp_ttl kp < now then Inl KeypairExpired
      else case openAnonymous ciphertext (kp_publicKey kp) (kp_privateKey kp) of
        None \<Rightarrow> Inl DecryptionFailed
      | Some d \<Rightarrow> Inr d)"

definition NewBoxKeychain ::
    "duration option \<Rightarrow> duration option \<Rightarrow> duration option \<Rightarrow> boxKeychain" where
  "NewBoxKeychain rotationFrequencyOverride expirationOverride gcIntervalOverride =
     (let rotFreq = (case rotationFrequencyOverride of None \<Rightarrow> DefaultKeypairRotationFrequency | Some d \<Rightarrow> d);
          exp = (case expirationOverride of None \<Rightarrow> DefaultKeypairExpiration | Some d \<Rightarrow> d);
          gcI = (case gcIntervalOverride of None \<Rightarrow> garbageCollectionInterval | Some d \<Rightarrow> d)
      in \<lparr>kc_keypairCache = NewCache (Some exp) (Some gcI),
          kc_requestKeyMap = NewBoundedCache (Some requestKeyMapTTL) (Some gcI) MaxRequestKeyMapEntries,
          kc_rotationFrequency = rotFreq, kc_expiration = exp, kc_stopRotation = False\<rparr>)"

text \<open>\<open>gen\<close> is the result of \<^verbatim>\<open>box.GenerateKey\<close>: a public and a private key, or an error.\<close>

definition generateKeypair :: "time \<Rightarrow> (bytes \<times> bytes) option \<Rightarrow> boxKeychain \<Rightarrow> keychainError + boxKeypair" where
  "generateKeypair now gen skc = (case gen of
     None \<Rightarrow> Inl GenerateFailed
   | Some (pub, priv) \<Rightarrow> Inr \<lparr>kp_publicKey = pub, kp_privateKey = priv,
       kp_ttl = kc_expiration skc, kp_creationTime = now\<rparr>)"

definition CreateKeyPair ::
    "time \<Rightarrow> (bytes \<times> bytes) option \<Rightarrow> boxKeychain \<Rightarrow> (keychainError + boxKeypair) \<times> boxKeychain" where
  "CreateKeyPair now gen skc = (case generateKeypair now gen skc of
     Inl e \<Rightarrow> (Inl e, skc)
   | Inr newKey \<Rightarrow> (Inr newKey, skc\<lparr>kc_keypairCache :=
       Cache_Set now (kp_publicKey newKey) newKey None (kc_keypairCache skc)\<rparr>))"

definition GetKeyPair :: "time \<Rightarrow> bytes \<Rightarrow> boxKeychain \<Rightarrow> keychainError + boxKeypair" where
  "GetKeyPair now publickey skc =
     (if length publickey \<noteq> 32 then Inl (InvalidPublicKeyLength (length publickey))
      else case Cache_Get now publickey (kc_keypairCache skc) of
        None \<Rightarrow> Inl KeypairNotFound
      | Some key \<Rightarrow> Inr key)"

definition GetKeyPairs :: "time \<Rightarrow> boxKeychain \<Rightarrow> boxKeypair list" where
  "GetKeyPairs now skc =
     List.map_filter (\<lambda>key. Cache_Get now key (kc_keypairCache skc)) (Cache_Keys (kc_keypairCache skc))"

text \<open>The loop that keeps the first keypair of greatest creation time.\<close>

primrec newestLoop :: "boxKeypair option \<Rightarrow> boxKeypair list \<Rightarrow> boxKeypair option" where
  "newestLoop newest [] = newest"
| "newestLoop newest (kp # kps) = newestLoop
     (case newest of
        None \<Rightarrow> Some kp
      | Some n \<Rightarrow> if kp_creationTime kp > kp_creationTime n then Some kp else Some n) kps"

text \<open>
  \<^verbatim>\<open>GetKeyPairForRequest\<close> in the phases between which other goroutines may run:
  the lookup of an existing mapping, the choice of the newest keypair, and the
  atomic \<^verbatim>\<open>GetOrSet\<close> that commits it.
\<close>

definition mappedKeyPair ::
    "time \<Rightarrow> bytes \<Rightarrow> bytes \<Rightarrow> boxKeychain \<Rightarrow> (keychainError + boxKeypair) \<times> boxKeychain" where
  "mappedKeyPair now requestID keyID skc = (case Cache_Get now keyID (kc_keypairCache skc) of
     Some kp \<Rightarrow> (Inr kp, skc)
   | None \<Rightarrow> (Inl (MappedKeypairExpired requestID),
       skc\<lparr>kc_requestKeyMap := Cache_Delete requestID (kc_requestKeyMap skc)\<rparr>))"

definition chooseNewest :: "time \<Rightarrow> boxKeychain \<Rightarrow> keychainError + boxKeypair" where
  "chooseNewest now skc = (case newestLoop None (GetKeyPairs now skc) of
     None \<Rightarrow> Inl NoKeypairsAvailable
   | Some kp \<Rightarrow> Inr kp)"

definition commitKeyPair ::
    "time \<Rightarrow> bytes \<Rightarrow> boxKeypair \<Rightarrow> boxKeychain \<Rightarrow> (keychainError + boxKeypair) \<times> boxKeychain" where
  "commitKeyPair now requestID newest skc =
     (case Cache_GetOrSet now requestID (kp_publicKey newest) None (kc_requestKeyMap skc) of
        ((keyID, loaded), rkm) \<Rightarrow>
          if loaded then mappedKeyPair now requestID keyID skc
          else (Inr newest, skc\<lparr>kc_requestKeyMap := rkm\<rparr>))"

definition GetKeyPairForRequest ::
    "time \<Rightarrow> bytes \<Rightarrow> boxKeychain \<Rightarrow> (keychainError + boxKeypair) \<times> boxKeychain" where
  "GetKeyPairForRequest now requestID skc = (case Cache_Get now requestID (kc_requestKeyMap skc) of
     Some keyID \<Rightarrow> mappedKeyPair now requestID keyID skc
   | None \<Rightarrow> (case chooseNewest now skc of
       Inl e \<Rightarrow> (Inl e, skc)
     | Inr newest \<Rightarrow> commitKeyPair now requestID newest skc))"

definition DeleteKeyPair :: "bytes \<Rightarrow> boxKeychain \<Rightarrow> (keychainError + unit) \<times> boxKeychain" where
  "DeleteKeyPair publicKey skc = (Inl DeleteNotImplemented, skc)"

text \<open>The sweep iterates over a snapshot of the keys.\<close>

definition sweepOne :: "time \<Rightarrow> bytes \<Rightarrow> boxKeychain \<Rightarrow> boxKeychain" where
  "sweepOne now requestID skc = (case Cache_Get now requestID (kc_requestKeyMap skc) of
     None \<Rightarrow> skc
   | Some publicKey \<Rightarrow> (case Cache_Get now publicKey (kc_keypairCache skc) of
       Some _ \<Rightarrow> skc
     | None \<Rightarrow> skc\<lparr>kc_requestKeyMap := Cache_Delete requestID (kc_requestKeyMap skc)\<rparr>))"

definition sweepRequestKeyMap :: "time \<Rightarrow> boxKeychain \<Rightarrow> boxKeychain" where
  "sweepRequestKeyMap now skc = fold (sweepOne now) (Cache_Keys (kc_requestKeyMap skc)) skc"

text \<open>The rotation loop: the initial key, then one per tick followed by a sweep. \<open>None\<close> is a panic.\<close>

definition initialRotation :: "time \<Rightarrow> (bytes \<times> bytes) option \<Rightarrow> boxKeychain \<Rightarrow> boxKeychain option" where
  "initialRotation now gen skc = (case CreateKeyPair now gen skc of
     (Inl _, _) \<Rightarrow> None
   | (Inr _, skc') \<Rightarrow> Some skc')"

definition rotationTick :: "time \<Rightarrow> (bytes \<times> bytes) option \<Rightarrow> boxKeychain \<Rightarrow> boxKeychain option" where
  "rotationTick now gen skc =
     (if kc_stopRotation skc then Some skc
      else case CreateKeyPair now gen skc of
        (Inl _, _) \<Rightarrow> None
      | (Inr _, skc') \<Rightarrow> Some (sweepRequestKeyMap now skc'))"

definition StopKeyRotation :: "boxKeychain \<Rightarrow> boxKeychain" where
  "StopKeyRotation skc = skc\<lparr>kc_stopRotation := True\<rparr>"

text \<open>The collectors of the two caches.\<close>

definition keychainGC :: "time \<Rightarrow> boxKeychain \<Rightarrow> boxKeychain" where
  "keychainGC now skc = skc\<lparr>kc_keypairCache := gcTick now (kc_keypairCache skc),
     kc_requestKeyMap := gcTick now (kc_requestKeyMap skc)\<rparr>"

section \<open>Histories\<close>

text \<open>
  What can happen to a keychain: a successful rotation, a collection, a request,
  and the commit of another goroutine that chose its candidate earlier.
\<close>

datatype keychainEvent =
    EvRotate time bytes bytes
  | EvGC time
  | EvRequest time bytes
  | EvCommit time bytes boxKeypair
  | EvStop

fun applyEvent :: "keychainEvent \<Rightarrow> boxKeychain \<Rightarrow> boxKeychain" where
  "applyEvent (EvRotate now pub priv) skc =
     (case rotationTick now (Some (pub, priv)) skc of None \<Rightarrow> skc | Some skc' \<Rightarrow> skc')"
| "applyEvent (EvGC now) skc = keychainGC now skc"
| "applyEvent (EvRequest now rid) skc = snd (GetKeyPairForRequest now rid skc)"
| "applyEvent (EvCommit now rid kp) skc = snd (commitKeyPair now rid kp skc)"
| "applyEvent EvStop skc = StopKeyRotation skc"

fun eventTime :: "keychainEvent \<Rightarrow> time option" where
  "eventTime (EvRotate now _ _) = Some now"
| "eventTime (EvGC now) = Some now"
| "eventTime (EvRequest now _) = Some now"
| "eventTime (EvCommit now _ _) = Some now"
| "eventTime EvStop = None"

text \<open>No event is later than \<open>t\<close> and no rotation generates the key \<open>pk\<close> again.\<close>

definition eventOk :: "time \<Rightarrow> bytes \<Rightarrow> keychainEvent \<Rightarrow> bool" where
  "eventOk t pk e \<longleftrightarrow> (case eventTime e of None \<Rightarrow> True | Some now \<Rightarrow> now \<le> t) \<and>
     (case e of EvRotate _ pub _ \<Rightarrow> pub \<noteq> pk | _ \<Rightarrow> True)"

fun eventAdds :: "keychainEvent \<Rightarrow> nat" where
  "eventAdds (EvRequest _ _) = 1"
| "eventAdds (EvCommit _ _ _) = 1"
| "eventAdds _ = 0"

section \<open>Invariant\<close>

definition keypairItemOk :: "bytes \<Rightarrow> boxKeypair CacheItem \<Rightarrow> bool" where
  "keypairItemOk pk it \<longleftrightarrow> kp_publicKey (ci_Value it) = pk \<and>
     ci_CreationTime it = kp_creationTime (ci_Value it) \<and> ci_TimeToLive it = kp_ttl (ci_Value it)"

definition keychain_inv :: "boxKeychain \<Rightarrow> bool" where
  "keychain_inv skc \<longleftrightarrow>
     cache_inv (kc_keypairCache skc) \<and> cache_inv (kc_requestKeyMap skc) \<and>
     ca_maxEntries (kc_keypairCache skc) = 0 \<and>
     ca_maxEntries (kc_requestKeyMap skc) = MaxRequestKeyMapEntries \<and>
     ca_timeToLive (kc_keypairCache skc) = kc_expiration skc \<and>
     ca_timeToLive (kc_requestKeyMap skc) = requestKeyMapTTL \<and>
     (\<forall>pk it. ca_items (kc_keypairCache skc) pk = Some it \<longrightarrow> keypairItemOk pk it)"

lemma keychain_inv_New: "keychain_inv (NewBoxKeychain rf ex gi)"
  by (simp add: keychain_inv_def NewBoxKeychain_def NewCache_def Let_def cache_inv_New)
    (simp add: NewBoundedCache_def)

lemma unbounded_Set_items:
  assumes "ca_maxEntries c \<le> 0"
  shows "ca_items (Cache_Set now k v ttl c) = (ca_items c)(k \<mapsto>
    \<lparr>ci_Value = v, ci_CreationTime = now, ci_TimeToLive = itemTTL ttl c\<rparr>)"
  using assms by (simp add: Cache_Set_def setLocked_def Let_def itemTTL_def)

lemma Cache_Set_fields [simp]:
  "ca_maxEntries (Cache_Set now k v ttl c) = ca_maxEntries c"
  "ca_timeToLive (Cache_Set now k v ttl c) = ca_timeToLive c"
  by (simp_all add: Cache_Set_def)

lemma Cache_Delete_fields [simp]:
  "ca_maxEntries (Cache_Delete k c) = ca_maxEntries c"
  "ca_timeToLive (Cache_Delete k c) = ca_timeToLive c"
  by (simp_all add: Cache_Delete_def)

lemma gcTick_fields:
  assumes "cache_inv c"
  shows "ca_maxEntries (gcTick now c) = ca_maxEntries c"
    "ca_timeToLive (gcTick now c) = ca_timeToLive c"
    "ca_items (gcTick now c) k = Some it \<Longrightarrow> ca_items c k = Some it"
  using assms by (auto simp: gcTick_def garbageCollect_spec restrict_map_def split: if_splits)

lemma keychain_inv_Create:
  assumes "keychain_inv skc"
  shows "keychain_inv (snd (CreateKeyPair now gen skc))"
  using assms
  by (auto simp: CreateKeyPair_def generateKeypair_def keychain_inv_def cache_inv_Set
      unbounded_Set_items keypairItemOk_def itemTTL_def split: sum.split option.splits)

lemma keychain_inv_rkm:
  assumes "keychain_inv skc" "cache_inv c" "ca_maxEntries c = ca_maxEntries (kc_requestKeyMap skc)"
    "ca_timeToLive c = ca_timeToLive (kc_requestKeyMap skc)"
  shows "keychain_inv (skc\<lparr>kc_requestKeyMap := c\<rparr>)"
  using assms by (simp add: keychain_inv_def)

lemma keychain_invD:
  assumes "keychain_inv skc"
  shows "cache_inv (kc_keypairCache skc)" "cache_inv (kc_requestKeyMap skc)"
    "ca_maxEntries (kc_keypairCache skc) = 0"
    "ca_maxEntries (kc_requestKeyMap skc) = MaxRequestKeyMapEntries"
    "ca_timeToLive (kc_requestKeyMap skc) = requestKeyMapTTL"
    "ca_items (kc_keypairCache skc) pk = Some it \<Longrightarrow> keypairItemOk pk it"
  using assms by (simp_all add: keychain_inv_def)

lemma keychain_inv_mapped:
  assumes "keychain_inv skc"
  shows "keychain_inv (snd (mappedKeyPair now rid pk skc))"
  using assms keychain_invD(2) [OF assms]
  by (simp add: mappedKeyPair_def keychain_inv_rkm cache_inv_Delete split: option.split)

lemma keychain_inv_commit:
  assumes "keychain_inv skc"
  shows "keychain_inv (snd (commitKeyPair now rid kp skc))"
  using assms keychain_invD(2) [OF assms]
  by (simp add: commitKeyPair_def GetOrSet_spec keychain_inv_mapped keychain_inv_rkm cache_inv_Set
      split: option.split)

lemma keychain_inv_request:
  assumes "keychain_inv skc"
  shows "keychain_inv (snd (GetKeyPairForRequest now rid skc))"
  using assms
  by (simp add: GetKeyPairForRequest_def keychain_inv_mapped keychain_inv_commit
      split: option.split sum.split)

lemma sweepOne_keeps: "kc_keypairCache (sweepOne now rid skc) = kc_keypairCache skc"
  by (simp add: sweepOne_def split: option.split)

lemma keychain_inv_sweepOne: "keychain_inv skc \<Longrightarrow> keychain_inv (sweepOne now rid skc)"
  by (simp add: sweepOne_def keychain_inv_rkm keychain_invD cache_inv_Delete split: option.split)

lemma keychain_inv_sweep: "keychain_inv skc \<Longrightarrow> keychain_inv (sweepRequestKeyMap now skc)"
  unfolding sweepRequestKeyMap_def
  by (rule fold_invariant [where Q = "\<lambda>_. True" and P = keychain_inv]) (simp_all add: keychain_inv_sweepOne)

lemma keychain_inv_gc:
  assumes "keychain_inv skc"
  shows "keychain_inv (keychainGC now skc)"
  using assms
  by (auto simp: keychain_inv_def keychainGC_def cache_inv_gcTick gcTick_fields(1,2) dest: gcTick_fields(3))

lemma keychain_inv_Stop: "keychain_inv skc \<Longrightarrow> keychain_inv (StopKeyRotation skc)"
  by (simp add: keychain_inv_def StopKeyRotation_def)

lemma keychain_inv_event: "keychain_inv skc \<Longrightarrow> keychain_inv (applyEvent e skc)"
proof (cases e)
  case (EvRotate now pub priv)
  assume inv: "keychain_inv skc"
  from keychain_inv_Create [OF inv, of now "Some (pub, priv)"] inv EvRotate show ?thesis
    by (auto simp: rotationTick_def keychain_inv_sweep split: option.split prod.split sum.split)
qed (simp_all add: keychain_inv_gc keychain_inv_request keychain_inv_commit keychain_inv_Stop)

section \<open>A request keeps its key\<close>

text \<open>
  \<open>assigned t rid kp r skc\<close>: until \<open>t\<close>, request \<open>rid\<close> is mapped to the live
  keypair \<open>kp\<close>, and at most \<open>r\<close> mappings are newer.
\<close>

definition assigned :: "time \<Rightarrow> bytes \<Rightarrow> boxKeypair \<Rightarrow> nat \<Rightarrow> boxKeychain \<Rightarrow> bool" where
  "assigned t rid kp r skc \<longleftrightarrow> keychain_inv skc \<and> recent rid r (ca_keyList (kc_requestKeyMap skc)) \<and>
     (\<exists>it. ca_items (kc_requestKeyMap skc) rid = Some it \<and> \<not> expired t it \<and> ci_Value it = kp_publicKey kp) \<and>
     (\<exists>it. ca_items (kc_keypairCache skc) (kp_publicKey kp) = Some it \<and> \<not> expired t it \<and> ci_Value it = kp)"

lemma not_expired_earlier: "\<not> expired t it \<Longrightarrow> now \<le> t \<Longrightarrow> \<not> expired now it"
  by (simp add: expired_def)

lemma assigned_Get:
  assumes "assigned t rid kp r skc" "now \<le> t"
  shows "Cache_Get now rid (kc_requestKeyMap skc) = Some (kp_publicKey kp)"
    "Cache_Get now (kp_publicKey kp) (kc_keypairCache skc) = Some kp"
  using assms by (auto simp: assigned_def Cache_Get_def dest: not_expired_earlier)

text \<open>One operation on the request map, not about \<open>rid\<close>, keeps the assignment.\<close>

lemma assigned_rkm_op:
  assumes a: "assigned t rid kp r skc" and op: "unrelated rid t op"
    and room: "int (r + adds op) < MaxRequestKeyMapEntries - MaxRequestKeyMapEntries div 10"
    and inv: "keychain_inv (skc\<lparr>kc_requestKeyMap := applyOp op (kc_requestKeyMap skc)\<rparr>)"
  shows "assigned t rid kp (r + adds op) (skc\<lparr>kc_requestKeyMap := applyOp op (kc_requestKeyMap skc)\<rparr>)"
proof -
  from a obtain it where "keychain_inv skc" "recent rid r (ca_keyList (kc_requestKeyMap skc))"
    and it: "ca_items (kc_requestKeyMap skc) rid = Some it" "\<not> expired t it" "ci_Value it = kp_publicKey kp"
    unfolding assigned_def by blast
  with op room applyOp_keeps [of "kc_requestKeyMap skc" rid t op r it]
  have "ca_items (applyOp op (kc_requestKeyMap skc)) rid = Some it
      \<and> recent rid (r + adds op) (ca_keyList (applyOp op (kc_requestKeyMap skc)))"
    by (simp add: keychain_invD)
  with a it inv show ?thesis by (simp add: assigned_def)
qed

text \<open>One operation on the keypair cache, not about the assigned key, keeps the assignment.\<close>

lemma assigned_kpc_op:
  assumes a: "assigned t rid kp r skc" and op: "unrelated (kp_publicKey kp) t op"
    and inv: "keychain_inv (skc\<lparr>kc_keypairCache := applyOp op (kc_keypairCache skc)\<rparr>)"
  shows "assigned t rid kp r (skc\<lparr>kc_keypairCache := applyOp op (kc_keypairCache skc)\<rparr>)"
proof -
  from a obtain it where "keychain_inv skc"
    and it: "ca_items (kc_keypairCache skc) (kp_publicKey kp) = Some it" "\<not> expired t it" "ci_Value it = kp"
    unfolding assigned_def by blast
  with op applyOp_keeps_unbounded [of "kc_keypairCache skc" "kp_publicKey kp" t op it]
  have "ca_items (applyOp op (kc_keypairCache skc)) (kp_publicKey kp) = Some it"
    by (simp add: keychain_invD)
  with a it inv show ?thesis by (simp add: assigned_def)
qed

lemma assigned_inv: "assigned t rid kp r skc \<Longrightarrow> keychain_inv skc"
  by (simp add: assigned_def)

lemma assigned_mono: "assigned t rid kp r skc \<Longrightarrow> r \<le> r' \<Longrightarrow> assigned t rid kp r' skc"
  by (auto simp: assigned_def intro: recent_mono)

lemma assigned_delete:
  assumes "assigned t rid kp r skc" "rid' \<noteq> rid"
    and "int r < MaxRequestKeyMapEntries - MaxRequestKeyMapEntries div 10"
  shows "assigned t rid kp r (skc\<lparr>kc_requestKeyMap := Cache_Delete rid' (kc_requestKeyMap skc)\<rparr>)"
  using assigned_rkm_op [of t rid kp r skc "ODelete rid'"] assms assigned_inv [OF assms(1)]
  by (simp add: keychain_inv_rkm cache_inv_Delete keychain_invD)

lemma assigned_sweep:
  assumes "assigned t rid kp r skc" "now \<le> t"
    and "int r < MaxRequestKeyMapEntries - MaxRequestKeyMapEntries div 10"
  shows "assigned t rid kp r (sweepRequestKeyMap now skc)"
  unfolding sweepRequestKeyMap_def
proof (rule fold_invariant [where Q = "\<lambda>_. True" and P = "assigned t rid kp r"])
  fix x s
  assume a: "assigned t rid kp r s"
  show "assigned t rid kp r (sweepOne now x s)"
  proof (cases "x = rid")
    case True
    with a assms(2) assigned_Get [OF a assms(2)] show ?thesis by (simp add: sweepOne_def)
  next
    case False
    with a assms(3) assigned_delete [OF a] show ?thesis by (simp add: sweepOne_def split: option.split)
  qed
qed (use assms in simp_all)

lemma assigned_mapped:
  assumes "assigned t rid kp r skc" "rid' \<noteq> rid"
    and "int r < MaxRequestKeyMapEntries - MaxRequestKeyMapEntries div 10"
  shows "assigned t rid kp r (snd (mappedKeyPair now rid' pk skc))"
  using assms assigned_delete [OF assms] by (simp add: mappedKeyPair_def split: option.split)

lemma assigned_commit:
  assumes a: "assigned t rid kp r skc" and "now \<le> t"
    and room: "int (r + 1) < MaxRequestKeyMapEntries - MaxRequestKeyMapEntries div 10"
  shows "assigned t rid kp (r + 1) (snd (commitKeyPair now rid' kp' skc))"
proof (cases "rid' = rid")
  case True
  then have "snd (commitKeyPair now rid' kp' skc) = skc"
    using assigned_Get [OF a assms(2)] by (simp add: commitKeyPair_def GetOrSet_spec mappedKeyPair_def)
  with a show ?thesis by (auto intro: assigned_mono)
next
  case False
  have "keychain_inv (skc\<lparr>kc_requestKeyMap := Cache_Set now rid' (kp_publicKey kp') None (kc_requestKeyMap skc)\<rparr>)"
    using assigned_inv [OF a] by (simp add: keychain_inv_rkm cache_inv_Set keychain_invD)
  with False room assigned_rkm_op [OF a, of "OSet now rid' (kp_publicKey kp') None"]
  have "assigned t rid kp (r + 1)
      (skc\<lparr>kc_requestKeyMap := Cache_Set now rid' (kp_publicKey kp') None (kc_requestKeyMap skc)\<rparr>)"
    by simp
  with False room assigned_mapped [OF a False] show ?thesis
    by (auto simp: commitKeyPair_def GetOrSet_spec intro: assigned_mono [of _ _ _ r] split: option.split)
qed

lemma assigned_request:
  assumes a: "assigned t rid kp r skc" and "now \<le> t"
    and room: "int (r + 1) < MaxRequestKeyMapEntries - MaxRequestKeyMapEntries div 10"
  shows "assigned t rid kp (r + 1) (snd (GetKeyPairForRequest now rid' skc))"
proof (cases "Cache_Get now rid' (kc_requestKeyMap skc)")
  case None
  with assigned_commit [OF assms, of rid'] a show ?thesis
    by (auto simp: GetKeyPairForRequest_def intro: assigned_mono split: sum.split)
next
  case (Some pk)
  show ?thesis
  proof (cases "rid' = rid")
    case True
    with a assigned_Get [OF a assms(2)] show ?thesis
      by (auto simp: GetKeyPairForRequest_def mappedKeyPair_def intro: assigned_mono)
  next
    case False
    with Some room assigned_mapped [OF a False] show ?thesis
      by (auto simp: GetKeyPairForRequest_def intro: assigned_mono [of _ _ _ r])
  qed
qed

lemma assigned_rotate:
  assumes a: "assigned t rid kp r skc" and "now \<le> t" "pub \<noteq> kp_publicKey kp"
    and room: "int r < MaxRequestKeyMapEntries - MaxRequestKeyMapEntries div 10"
  shows "assigned t rid kp r (applyEvent (EvRotate now pub priv) skc)"
proof -
  define skc' where "skc' = snd (CreateKeyPair now (Some (pub, priv)) skc)"
  have "keychain_inv skc'"
    unfolding skc'_def by (rule keychain_inv_Create [OF assigned_inv [OF a]])
  with a assms(3) have "assigned t rid kp r skc'"
    using assigned_kpc_op [OF a, of "OSet now pub \<lparr>kp_publicKey = pub, kp_privateKey = priv,
        kp_ttl = kc_expiration skc, kp_creationTime = now\<rparr> None"]
    by (simp add: skc'_def CreateKeyPair_def generateKeypair_def)
  from assigned_sweep [OF this assms(2) room] a show ?thesis
    by (simp add: rotationTick_def skc'_def CreateKeyPair_def generateKeypair_def)
qed

lemma assigned_gc:
  assumes a: "assigned t rid kp r skc" and "now \<le> t"
    and room: "int r < MaxRequestKeyMapEntries - MaxRequestKeyMapEntries div 10"
  shows "assigned t rid kp r (keychainGC now skc)"
proof -
  let ?skc = "skc\<lparr>kc_keypairCache := gcTick now (kc_keypairCache skc)\<rparr>"
  have inv: "keychain_inv ?skc"
    using assigned_inv [OF a]
    by (auto simp: keychain_inv_def cache_inv_gcTick gcTick_fields(1,2) dest: gcTick_fields(3))
  with assms assigned_kpc_op [OF a, of "OTick now"] have "assigned t rid kp r ?skc" by simp
  from assigned_rkm_op [OF this, of "OTick now"] keychain_inv_gc [OF assigned_inv [OF a], of now] assms
  show ?thesis by (simp add: keychainGC_def)
qed

lemma assigned_event:
  assumes "assigned t rid kp r skc" "eventOk t (kp_publicKey kp) e"
    and "int (r + eventAdds e) < MaxRequestKeyMapEntries - MaxRequestKeyMapEntries div 10"
  shows "assigned t rid kp (r + eventAdds e) (applyEvent e skc)"
proof (cases e)
  case EvStop
  with assms keychain_inv_Stop [OF assigned_inv [OF assms(1)]] show ?thesis
    by (simp add: assigned_def StopKeyRotation_def)
qed (use assms in \<open>auto simp: eventOk_def simp del: applyEvent.simps(1)
      intro: assigned_rotate assigned_gc assigned_request [simplified] assigned_commit [simplified]\<close>)

lemma assigned_history:
  assumes "assigned t rid kp r skc" "\<forall>e\<in>set es. eventOk t (kp_publicKey kp) e"
    and "int (r + sum_list (map eventAdds es)) < MaxRequestKeyMapEntries - MaxRequestKeyMapEntries div 10"
  shows "\<exists>r'. assigned t rid kp r' (fold applyEvent es skc)"
  using assms
proof (induction es arbitrary: skc r)
  case (Cons e es)
  then have "assigned t rid kp (r + eventAdds e) (applyEvent e skc)"
    by (intro assigned_event) auto
  with Cons.IH [of "r + eventAdds e" "applyEvent e skc"] Cons.prems show ?case by (simp add: add.assoc)
qed auto

section \<open>The key a new request is given\<close>

lemma newestLoop_spec:
  assumes "newestLoop o1 kps = Some kp"
  shows "kp \<in> set kps \<union> set_option o1 \<and>
    (\<forall>kp'\<in>set kps \<union> set_option o1. kp_creationTime kp' \<le> kp_creationTime kp)"
  using assms
proof (induction kps arbitrary: o1)
  case (Cons k ks)
  show ?case
  proof (cases o1)
    case None
    with Cons.IH [of "Some k"] Cons.prems show ?thesis by auto
  next
    case (Some n)
    show ?thesis
    proof (cases "kp_creationTime k > kp_creationTime n")
      case True
      with Cons.IH [of "Some k"] Cons.prems Some show ?thesis by auto
    next
      case False
      with Cons.IH [of "Some n"] Cons.prems Some show ?thesis by auto
    qed
  qed
qed simp

lemma newestLoop_None: "newestLoop o1 kps = None \<longleftrightarrow> o1 = None \<and> kps = []"
  by (induction kps arbitrary: o1) (auto split: option.split)

lemma set_GetKeyPairs:
  assumes "cache_inv (kc_keypairCache skc)"
  shows "kp \<in> set (GetKeyPairs now skc) \<longleftrightarrow> (\<exists>pk. Cache_Get now pk (kc_keypairCache skc) = Some kp)"
proof -
  have "Cache_Get now pk (kc_keypairCache skc) = Some kp \<Longrightarrow> pk \<in> set (Cache_Keys (kc_keypairCache skc))" for pk
    using cache_invD(2) [OF assms] by (auto simp: Cache_Get_def Cache_Keys_def domIff split: option.splits)
  then show ?thesis
    unfolding GetKeyPairs_def set_map_filter_Some by blast
qed

lemma Get_keypair_ok:
  assumes "keychain_inv skc" "Cache_Get now pk (kc_keypairCache skc) = Some kp"
  shows "kp_publicKey kp = pk" "now \<le> kp_creationTime kp + kp_ttl kp"
  using assms(2) keychain_invD(6) [OF assms(1)]
  by (auto simp: Cache_Get_def keypairItemOk_def expired_def split: option.splits if_splits)

lemma fresh_request_assigned:
  assumes inv: "keychain_inv skc" and fresh: "rid \<notin> set (Cache_Keys (kc_requestKeyMap skc))"
    and got: "GetKeyPairForRequest now rid skc = (Inr kp, skc')"
    and "t \<le> now + requestKeyMapTTL" "t \<le> kp_creationTime kp + kp_ttl kp"
  shows "assigned t rid kp 0 skc'"
proof -
  let ?rkm = "kc_requestKeyMap skc"
  have new: "rid \<notin> dom (ca_items ?rkm)"
    using fresh cache_invD(2) [OF keychain_invD(2) [OF inv]] by (simp add: Cache_Keys_def)
  then have none: "Cache_Get now rid ?rkm = None" by (auto simp: Cache_Get_def domIff)
  with got have choose: "newestLoop None (GetKeyPairs now skc) = Some kp"
    and skc': "skc' = skc\<lparr>kc_requestKeyMap := Cache_Set now rid (kp_publicKey kp) None ?rkm\<rparr>"
    by (auto simp: GetKeyPairForRequest_def chooseNewest_def commitKeyPair_def GetOrSet_spec
        split: option.splits sum.splits)
  have "ca_items (kc_requestKeyMap skc') rid = Some \<lparr>ci_Value = kp_publicKey kp, ci_CreationTime = now,
      ci_TimeToLive = requestKeyMapTTL\<rparr> \<and> recent rid 0 (ca_keyList (kc_requestKeyMap skc'))"
    using new cache_invD(2) [OF keychain_invD(2) [OF inv]] keychain_invD(5) [OF inv]
    by (cases rule: setLocked_cases [OF keychain_invD(2) [OF inv], of now rid "kp_publicKey kp" None])
      (auto simp: skc' Cache_Set_def deleteAll_apply recent_def dest: in_set_takeD)
  moreover have "keychain_inv skc'"
    using keychain_inv_request [OF inv, of now rid] got by simp
  moreover obtain pk where "Cache_Get now pk (kc_keypairCache skc) = Some kp"
    using newestLoop_spec [OF choose] set_GetKeyPairs [OF keychain_invD(1) [OF inv]] by auto
  then obtain it where it: "ca_items (kc_keypairCache skc) pk = Some it" "ci_Value it = kp"
    by (auto simp: Cache_Get_def split: option.splits if_splits)
  moreover from it keychain_invD(6) [OF inv it(1)] assms(5) have "\<not> expired t it" "kp_publicKey kp = pk"
    by (auto simp: keypairItemOk_def expired_def)
  ultimately show ?thesis
    using assms(4) by (auto simp: assigned_def skc' expired_def)
qed

section \<open>Properties\<close>

text \<open>
  C15. A request that was given a key is given the same key again: through any
  history of rotations, collections, sweeps, other requests and concurrent
  commits for the same request, for an hour and while the key itself lives, as
  long as fewer than 90000 of the events can add a mapping.
\<close>

theorem request_key_stable:
  assumes "keychain_inv skc" "rid \<notin> set (Cache_Keys (kc_requestKeyMap skc))"
    and "GetKeyPairForRequest now rid skc = (Inr kp, skc')"
    and "t \<le> now + requestKeyMapTTL" "t \<le> kp_creationTime kp + kp_ttl kp"
    and "\<forall>e\<in>set es. eventOk t (kp_publicKey kp) e" "sum_list (map eventAdds es) < 90000"
  shows "fst (GetKeyPairForRequest t rid (fold applyEvent es skc')) = Inr kp"
proof -
  have "int (0 + sum_list (map eventAdds es)) < MaxRequestKeyMapEntries - MaxRequestKeyMapEntries div 10"
    using assms(7) by (simp add: MaxRequestKeyMapEntries_def)
  from assigned_history [OF fresh_request_assigned [OF assms(1-5)] assms(6) this]
  obtain r' where "assigned t rid kp r' (fold applyEvent es skc')" by blast
  from assigned_Get [OF this order_refl] show ?thesis
    by (simp add: GetKeyPairForRequest_def mappedKeyPair_def)
qed

definition sampleKeychain :: boxKeychain where
  "sampleKeychain = the (initialRotation 0 (Some (id32 1, id32 2)) (NewBoxKeychain None None None))"

lemma sampleKeychain_simp: "sampleKeychain =
  (let kp = \<lparr>kp_publicKey = id32 1, kp_privateKey = id32 2, kp_ttl = DefaultKeypairExpiration, kp_creationTime = 0\<rparr>;
       skc = NewBoxKeychain None None None
   in skc\<lparr>kc_keypairCache := Cache_Set 0 (id32 1) kp None (kc_keypairCache skc)\<rparr>)"
  by (simp add: sampleKeychain_def initialRotation_def CreateKeyPair_def generateKeypair_def
      NewBoxKeychain_def)

lemma sampleKeychain_inv: "keychain_inv sampleKeychain"
  using keychain_inv_Create [OF keychain_inv_New, of 0 "Some (id32 1, id32 2)" None None None]
  by (simp add: sampleKeychain_def initialRotation_def CreateKeyPair_def generateKeypair_def)

theorem request_key_stable_witness:
  "\<exists>kp skc'. GetKeyPairForRequest 5 (id32 9) sampleKeychain = (Inr kp, skc') \<and>
     fst (GetKeyPairForRequest 3000 (id32 9) (fold applyEvent
       [EvRotate 1000 (id32 3) (id32 4), EvRequest 1500 (id32 8), EvGC 2000, EvCommit 2500 (id32 9) kp] skc')) = Inr kp"
proof -
  let ?kp = "\<lparr>kp_publicKey = id32 1, kp_privateKey = id32 2, kp_ttl = DefaultKeypairExpiration, kp_creationTime = 0\<rparr>"
  let ?skc' = "snd (GetKeyPairForRequest 5 (id32 9) sampleKeychain)"
  have got: "GetKeyPairForRequest 5 (id32 9) sampleKeychain = (Inr ?kp, ?skc')"
    by (simp add: sampleKeychain_simp Let_def NewBoxKeychain_def NewCache_def NewBoundedCache_def
        GetKeyPairForRequest_def Cache_Get_def Cache_Set_def setLocked_def chooseNewest_def GetKeyPairs_def
        Cache_Keys_def List.map_filter_simps expired_def commitKeyPair_def Cache_GetOrSet_def cc_const)
  have fresh: "id32 9 \<notin> set (Cache_Keys (kc_requestKeyMap sampleKeychain))"
    by (simp add: sampleKeychain_simp Let_def NewBoxKeychain_def NewBoundedCache_def Cache_Keys_def)
  have "fst (GetKeyPairForRequest 3000 (id32 9) (fold applyEvent
       [EvRotate 1000 (id32 3) (id32 4), EvRequest 1500 (id32 8), EvGC 2000, EvCommit 2500 (id32 9) ?kp] ?skc')) = Inr ?kp"
    by (rule request_key_stable [OF sampleKeychain_inv fresh got])
      (simp_all add: cc_const eventOk_def id32_def)
  with got show ?thesis by blast
qed

text \<open>
  C33. A request seen for the first time is given the newest key that is still
  live, and fails only when the keychain has no live key.
\<close>

theorem request_gets_newest_key:
  assumes "keychain_inv skc" "Cache_Get now rid (kc_requestKeyMap skc) = None"
  shows "case fst (GetKeyPairForRequest now rid skc) of
      Inr kp \<Rightarrow> kp \<in> set (GetKeyPairs now skc) \<and>
        (\<forall>kp'\<in>set (GetKeyPairs now skc). kp_creationTime kp' \<le> kp_creationTime kp)
    | Inl e \<Rightarrow> e = NoKeypairsAvailable \<and> GetKeyPairs now skc = []"
  using assms newestLoop_spec [of None "GetKeyPairs now skc"]
  by (cases "newestLoop None (GetKeyPairs now skc)")
    (auto simp: GetKeyPairForRequest_def chooseNewest_def commitKeyPair_def GetOrSet_spec newestLoop_None)

theorem request_gets_newest_key_witness:
  "case fst (GetKeyPairForRequest 5 (id32 9) sampleKeychain) of
      Inr kp \<Rightarrow> kp \<in> set (GetKeyPairs 5 sampleKeychain) \<and>
        (\<forall>kp'\<in>set (GetKeyPairs 5 sampleKeychain). kp_creationTime kp' \<le> kp_creationTime kp)
    | Inl e \<Rightarrow> e = NoKeypairsAvailable \<and> GetKeyPairs 5 sampleKeychain = []"
  by (rule request_gets_newest_key [OF sampleKeychain_inv])
    (simp add: sampleKeychain_simp Let_def NewBoxKeychain_def NewBoundedCache_def Cache_Get_def)

text \<open>
  A key looked up by its public key is that key, and it is not refused as
  expired when it is used at that instant.
\<close>

theorem looked_up_key_usable:
  assumes "keychain_inv skc" "GetKeyPair now pk skc = Inr kp"
  shows "kp_publicKey kp = pk \<and> Keypair_Decrypt openAnonymous now kp ct \<noteq> Inl KeypairExpired"
  using assms Get_keypair_ok [OF assms(1), of now pk kp]
  by (auto simp: GetKeyPair_def Keypair_Decrypt_def split: option.splits if_splits)

theorem looked_up_key_usable_witness:
  "\<exists>kp. GetKeyPair 5 (id32 1) sampleKeychain = Inr kp \<and> kp_publicKey kp = id32 1 \<and>
     Keypair_Decrypt (\<lambda>c pub priv. Some c) 5 kp [1] \<noteq> Inl KeypairExpired"
proof -
  let ?kp = "\<lparr>kp_publicKey = id32 1, kp_privateKey = id32 2, kp_ttl = DefaultKeypairExpiration, kp_creationTime = 0\<rparr>"
  have "GetKeyPair 5 (id32 1) sampleKeychain = Inr ?kp"
    by (simp add: GetKeyPair_def sampleKeychain_simp Let_def NewBoxKeychain_def NewCache_def
        NewBoundedCache_def Cache_Get_def Cache_Set_def setLocked_def expired_def cc_const)
      (simp add: id32_def)
  with looked_up_key_usable [OF sampleKeychain_inv this] show ?thesis by blast
qed

end
