(* ===== verification/CC_Services.thy ===== *)
theory CC_Services
  imports CC_Keychain
begin

text \<open>
  The stateless services of the enclave: the signature verifier
  (\<^verbatim>\<open>src/enclave/services/signature-verifier\<close>), the threshold-decryption
  combiner (\<^verbatim>\<open>src/enclave/services/combiner\<close>, \<^verbatim>\<open>src/util/tdh2_nacl_box.go\<close>)
  and the fake attestor (\<^verbatim>\<open>src/enclave/fake/attestor.go\<close>). Ed25519 and the
  TDH2 library are arguments. The lemmas show that a verified signer is an
  allowed one whose signature checks, and that aggregation uses exactly the
  first \<open>threshold\<close> valid shares whatever invalid ones surround them.
\<close>

section \<open>Signature verification\<close>

definition SignatureSize :: nat where
  [cc_const]: "SignatureSize = 64"

definition PublicKeySize :: nat where
  [cc_const]: "PublicKeySize = 32"

datatype verifyResult =
    VSigner bytes
  | VBadLength nat
  | VNotAllowed
  | VPanic

text \<open>\<^verbatim>\<open>ed25519.Verify\<close> panics on a public key that is not 32 bytes long.\<close>

primrec verifyLoop ::
    "(bytes \<Rightarrow> bytes \<Rightarrow> bytes \<Rightarrow> bool) \<Rightarrow> bytes \<Rightarrow> bytes \<Rightarrow> bytes list \<Rightarrow> verifyResult" where
  "verifyLoop edVerify h sig [] = VNotAllowed"
| "verifyLoop edVerify h sig (pubKey # rest) =
     (if length pubKey \<noteq> PublicKeySize then VPanic
      else if edVerify pubKey h sig then VSigner pubKey
      else verifyLoop edVerify h sig rest)"

definition VerifySignature ::
    "(bytes \<Rightarrow> bytes \<Rightarrow> bytes \<Rightarrow> bool) \<Rightarrow> bytes \<Rightarrow> bytes \<Rightarrow> bytes list \<Rightarrow> verifyResult" where
  "VerifySignature edVerify h sig allowedSigners =
     (if length sig \<noteq> SignatureSize then VBadLength (length sig)
      else verifyLoop edVerify h sig allowedSigners)"

section \<open>Threshold decryption\<close>

text \<open>The operations of the TDH2 library the code calls; \<open>None\<close> is an error.\<close>

record ('pk, 'ct, 'sh) TDH2 =
  td_PublicKeyUnmarshal :: "bytes \<Rightarrow> 'pk option"
  td_CiphertextUnmarshalVerify :: "bytes \<Rightarrow> 'pk \<Rightarrow> 'ct option"
  td_ShareUnmarshal :: "bytes \<Rightarrow> 'sh option"
  td_VerifyShare :: "'ct \<Rightarrow> 'pk \<Rightarrow> 'sh \<Rightarrow> bool"
  td_Aggregate :: "'ct \<Rightarrow> 'sh list \<Rightarrow> nat \<Rightarrow> bytes option"

datatype aggregateError =
    BadPublicKey
  | BadCiphertext
  | NotEnoughShares nat int "nat list"
  | CannotDecrypt

text \<open>The gathering loop: valid shares in order, indices of invalid ones, stop at the threshold.\<close>

primrec gatherShares ::
    "('pk, 'ct, 'sh) TDH2 \<Rightarrow> 'ct \<Rightarrow> 'pk \<Rightarrow> int \<Rightarrow> nat \<Rightarrow> 'sh list \<Rightarrow> nat list \<Rightarrow> bytes list
     \<Rightarrow> 'sh list \<times> nat list" where
  "gatherShares td ct pk threshold i decShares invalidShares [] = (decShares, invalidShares)"
| "gatherShares td ct pk threshold i decShares invalidShares (s # shares) =
     (case td_ShareUnmarshal td s of
        None \<Rightarrow> gatherShares td ct pk threshold (Suc i) decShares (invalidShares @ [i]) shares
      | Some share \<Rightarrow>
          if \<not> td_VerifyShare td ct pk share
          then gatherShares td ct pk threshold (Suc i) decShares (invalidShares @ [i]) shares
          else if int (length (decShares @ [share])) = threshold
          then (decShares @ [share], invalidShares)
          else gatherShares td ct pk threshold (Suc i) (decShares @ [share]) invalidShares shares)"

definition TDH2AggregateDecryptionShares ::
    "('pk, 'ct, 'sh) TDH2 \<Rightarrow> 'ct \<Rightarrow> bytes list \<Rightarrow> 'pk \<Rightarrow> int \<Rightarrow> aggregateError + bytes" where
  "TDH2AggregateDecryptionShares td ct shares pk threshold =
     (let (decShares, invalidShares) = gatherShares td ct pk threshold 0 [] [] shares
      in if int (length decShares) < threshold
         then Inl (NotEnoughShares (length decShares) threshold invalidShares)
         else case td_Aggregate td ct decShares (length decShares) of
             None \<Rightarrow> Inl CannotDecrypt
           | Some decrypted \<Rightarrow> Inr decrypted)"

definition AggregateShares ::
    "('pk, 'ct, 'sh) TDH2 \<Rightarrow> bytes \<Rightarrow> bytes list \<Rightarrow> bytes \<Rightarrow> int \<Rightarrow> aggregateError + bytes" where
  "AggregateShares td ciphertext shares tdh2PublicKeyBytes threshold =
     (case td_PublicKeyUnmarshal td tdh2PublicKeyBytes of
        None \<Rightarrow> Inl BadPublicKey
      | Some publicKey \<Rightarrow> (case td_CiphertextUnmarshalVerify td ciphertext publicKey of
          None \<Rightarrow> Inl BadCiphertext
        | Some ctxt \<Rightarrow> TDH2AggregateDecryptionShares td ctxt shares publicKey threshold))"

section \<open>The fake attestor\<close>

definition FakeAttestationDocument :: string where
  "FakeAttestationDocument = ''fake-attestation''"

definition fakeCreateAttestation :: "bytes \<Rightarrow> bytes option" where
  "fakeCreateAttestation userData = Some (bytes_of FakeAttestationDocument)"

section \<open>Lemmas\<close>

lemma verifyLoop_signer:
  assumes "verifyLoop edVerify h sig allowed = VSigner pk"
  shows "pk \<in> set allowed \<and> edVerify pk h sig \<and> length pk = PublicKeySize"
  using assms by (induction allowed) (auto split: if_splits)

lemma VerifySignature_signer:
  assumes "VerifySignature edVerify h sig allowed = VSigner pk"
  shows "pk \<in> set allowed \<and> edVerify pk h sig \<and> length sig = SignatureSize \<and> length pk = PublicKeySize"
  using assms verifyLoop_signer by (fastforce simp: VerifySignature_def split: if_splits)

lemma verifyLoop_finds:
  assumes "\<forall>pk\<in>set allowed. length pk = PublicKeySize" "pk \<in> set allowed" "edVerify pk h sig"
  shows "\<exists>pk'. verifyLoop edVerify h sig allowed = VSigner pk'"
  using assms by (induction allowed) auto

text \<open>The shares that unmarshal and verify, in order.\<close>

definition validShare :: "('pk, 'ct, 'sh) TDH2 \<Rightarrow> 'ct \<Rightarrow> 'pk \<Rightarrow> bytes \<Rightarrow> 'sh option" where
  "validShare td ct pk s = (case td_ShareUnmarshal td s of
     None \<Rightarrow> None
   | Some share \<Rightarrow> if td_VerifyShare td ct pk share then Some share else None)"

definition validShares :: "('pk, 'ct, 'sh) TDH2 \<Rightarrow> 'ct \<Rightarrow> 'pk \<Rightarrow> bytes list \<Rightarrow> 'sh list" where
  "validShares td ct pk shares = List.map_filter (validShare td ct pk) shares"

lemma validShares_simps [simp]:
  "validShares td ct pk [] = []"
  "validShares td ct pk (s # shares) = (case validShare td ct pk s of
     None \<Rightarrow> validShares td ct pk shares
   | Some sh \<Rightarrow> sh # validShares td ct pk shares)"
  by (simp_all add: validShares_def List.map_filter_simps split: option.split)

lemma gatherShares_Cons:
  "gatherShares td ct pk threshold i dec bad (s # shares) = (case validShare td ct pk s of
     None \<Rightarrow> gatherShares td ct pk threshold (Suc i) dec (bad @ [i]) shares
   | Some sh \<Rightarrow> if int (length (dec @ [sh])) = threshold then (dec @ [sh], bad)
       else gatherShares td ct pk threshold (Suc i) (dec @ [sh]) bad shares)"
  by (simp add: validShare_def split: option.split)

declare gatherShares.simps(2) [simp del]

lemma gatherShares_take:
  assumes "int (length dec) < threshold"
  shows "fst (gatherShares td ct pk threshold i dec bad shares)
    = dec @ take (nat threshold - length dec) (validShares td ct pk shares)"
  using assms
proof (induction shares arbitrary: i dec bad)
  case (Cons s shares)
  show ?case
  proof (cases "validShare td ct pk s")
    case None
    with Cons show ?thesis by (simp add: gatherShares_Cons)
  next
    case (Some sh)
    show ?thesis
    proof (cases "int (length (dec @ [sh])) = threshold")
      case True
      then have "nat threshold - length dec = 1" by simp
      with True Some show ?thesis by (simp add: gatherShares_Cons)
    next
      case False
      with Cons.prems have less: "int (length (dec @ [sh])) < threshold" by simp
      then have "nat threshold - length dec = Suc (nat threshold - length (dec @ [sh]))" by simp
      with False Some Cons.IH [OF less] show ?thesis by (simp add: gatherShares_Cons)
    qed
  qed
qed simp

lemma gatherShares_zero:
  assumes "threshold \<le> 0"
  shows "fst (gatherShares td ct pk threshold i dec bad shares) = dec @ validShares td ct pk shares"
  using assms
  by (induction shares arbitrary: i dec bad) (simp_all add: gatherShares_Cons split: option.split)

text \<open>What the gathering loop collects.\<close>

lemma gatherShares_spec:
  "fst (gatherShares td ct pk threshold i [] [] shares) =
     (if threshold \<le> 0 then validShares td ct pk shares
      else take (nat threshold) (validShares td ct pk shares))"
  by (cases "threshold \<le> 0") (simp_all add: gatherShares_take gatherShares_zero)

text \<open>Below the threshold the loop does not stop early, so every invalid index is reported.\<close>

lemma gatherShares_invalid:
  assumes "int (length (dec @ validShares td ct pk shares)) < threshold"
  shows "snd (gatherShares td ct pk threshold i dec bad shares)
    = bad @ filter (\<lambda>j. validShare td ct pk (shares ! (j - i)) = None) [i..<i + length shares]"
  using assms
proof (induction shares arbitrary: i dec bad)
  case (Cons s shares)
  have shift: "filter (\<lambda>j. validShare td ct pk (shares ! (j - Suc i)) = None) [Suc i..<Suc i + length shares]
      = filter (\<lambda>j. validShare td ct pk ((s # shares) ! (j - i)) = None) [Suc i..<i + length (s # shares)]"
    by (rule filter_cong) (auto simp: nth_Cons')
  have upt: "[i..<i + length (s # shares)] = i # [Suc i..<i + length (s # shares)]"
    by (rule upt_conv_Cons) simp
  show ?case
  proof (cases "validShare td ct pk s")
    case None
    with Cons.prems have "int (length (dec @ validShares td ct pk shares)) < threshold" by simp
    from Cons.IH [OF this, of "Suc i" "bad @ [i]"] None show ?thesis
      unfolding upt shift by (simp add: gatherShares_Cons)
  next
    case (Some sh)
    with Cons.prems have "int (length ((dec @ [sh]) @ validShares td ct pk shares)) < threshold" by simp
    from Cons.IH [OF this, of "Suc i" bad] this Some show ?thesis
      unfolding upt shift by (simp add: gatherShares_Cons)
  qed
qed simp

section \<open>Properties\<close>

definition invalidIndices :: "('pk, 'ct, 'sh) TDH2 \<Rightarrow> 'ct \<Rightarrow> 'pk \<Rightarrow> bytes list \<Rightarrow> nat list" where
  "invalidIndices td ct pk shares =
     filter (\<lambda>j. validShare td ct pk (shares ! j) = None) [0..<length shares]"

text \<open>
  C34. Aggregation with a positive threshold depends only on the valid shares: with
  enough of them it hands exactly the first \<open>threshold\<close> valid ones, in order, to
  the library, whatever invalid shares are mixed in; with too few it reports
  how many were valid and the index of every invalid one.
\<close>

theorem aggregate_uses_first_valid_shares:
  assumes "0 < threshold"
  shows "TDH2AggregateDecryptionShares td ct shares pk threshold =
    (let vs = validShares td ct pk shares in
     if int (length vs) < threshold
     then Inl (NotEnoughShares (length vs) threshold (invalidIndices td ct pk shares))
     else case td_Aggregate td ct (take (nat threshold) vs) (nat threshold) of
         None \<Rightarrow> Inl CannotDecrypt
       | Some decrypted \<Rightarrow> Inr decrypted)"
proof -
  let ?g = "gatherShares td ct pk threshold 0 [] [] shares" and ?vs = "validShares td ct pk shares"
  have fst: "fst ?g = take (nat threshold) ?vs" using assms by (simp add: gatherShares_spec)
  show ?thesis
  proof (cases "int (length ?vs) < threshold")
    case True
    then have "snd ?g = invalidIndices td ct pk shares" "fst ?g = ?vs"
      using gatherShares_invalid [of "[]" td ct pk shares threshold 0 "[]"] fst
      by (simp_all add: invalidIndices_def)
    with True show ?thesis
      by (simp add: TDH2AggregateDecryptionShares_def Let_def split_beta)
  next
    case False
    then have "length (fst ?g) = nat threshold" using fst by simp
    with False fst assms show ?thesis
      by (simp add: TDH2AggregateDecryptionShares_def Let_def split_beta)
  qed
qed

text \<open>A stand-in for the TDH2 library: shares are single bytes, valid when non-zero.\<close>

definition toyTDH2 :: "(bytes, bytes, byte) TDH2" where
  "toyTDH2 = \<lparr>td_PublicKeyUnmarshal = Some, td_CiphertextUnmarshalVerify = (\<lambda>c pk. Some c),
     td_ShareUnmarshal = (\<lambda>s. case s of [b] \<Rightarrow> Some b | _ \<Rightarrow> None),
     td_VerifyShare = (\<lambda>c pk b. b \<noteq> 0), td_Aggregate = (\<lambda>c shs n. Some (c @ shs))\<rparr>"

theorem aggregate_uses_first_valid_shares_witness:
  "TDH2AggregateDecryptionShares toyTDH2 [9] [[0], [1], [], [2], [3]] [5] 2 = Inr [9, 1, 2]"
proof -
  have "validShares toyTDH2 [9] [5] [[0], [1], [], [2], [3]] = [1, 2, 3]"
    by (simp add: validShare_def toyTDH2_def)
  with aggregate_uses_first_valid_shares [of 2 toyTDH2 "[9]" "[[0], [1], [], [2], [3]]" "[5]"]
  show ?thesis by (simp add: toyTDH2_def)
qed

text \<open>
  A signature is accepted only from an allowed signer whose key verifies it,
  and it is accepted whenever it has the right length, every allowed key has the
  Ed25519 key size and one of them verifies it.
\<close>

theorem VerifySignature_sound_complete:
  "(VerifySignature edVerify h sig allowed = VSigner pk \<longrightarrow>
      pk \<in> set allowed \<and> edVerify pk h sig \<and> length sig = SignatureSize) \<and>
   (length sig = SignatureSize \<and> (\<forall>k\<in>set allowed. length k = PublicKeySize) \<and>
      (\<exists>k\<in>set allowed. edVerify k h sig) \<longrightarrow>
      (\<exists>k. VerifySignature edVerify h sig allowed = VSigner k))"
proof (intro conjI impI)
  assume "VerifySignature edVerify h sig allowed = VSigner pk"
  from VerifySignature_signer [OF this]
  show "pk \<in> set allowed" "edVerify pk h sig" "length sig = SignatureSize" by blast+
next
  assume "length sig = SignatureSize \<and> (\<forall>k\<in>set allowed. length k = PublicKeySize) \<and>
    (\<exists>k\<in>set allowed. edVerify k h sig)"
  then show "\<exists>k. VerifySignature edVerify h sig allowed = VSigner k"
    unfolding VerifySignature_def using verifyLoop_finds [of allowed _ edVerify h sig] by metis
qed

definition toyVerify :: "bytes \<Rightarrow> bytes \<Rightarrow> bytes \<Rightarrow> bool" where
  "toyVerify pk h sig \<longleftrightarrow> take 1 pk = take 1 sig"

theorem VerifySignature_sound_complete_witness:
  "\<exists>k. VerifySignature toyVerify [1] (replicate 64 2) [id32 1, id32 2] = VSigner k"
  using VerifySignature_sound_complete [of toyVerify "[1]" "replicate 64 2" "[id32 1, id32 2]"]
  by (simp add: cc_const toyVerify_def id32_def)

end
