(* ===== verification/CC_Server.thy ===== *)
theory CC_Server
  imports CC_Services
begin

text \<open>
  The HTTP server inside the enclave: \<^verbatim>\<open>src/enclave/server/server.go\<close>. One
  definition per handler, each from a request and the server's state to a
  response and the new state, with every early return of the code. What the
  server is given (the hash, Ed25519, NaCl, TDH2, the attestor, JSON, the
  application) is the record \<open>ServerEnv\<close>. A handler reads the clock at its start
  (\<open>now\<close>) and, where the application runs in between, at its end (\<open>fin\<close>). The
  lemmas show the quorum behind every execution, protection against sequential
  replays, and the voting protocol for configuration updates.
\<close>

section \<open>Requests and responses\<close>

datatype Method = GET | POST | PATCH | OtherMethod string

text \<open>A body of \<open>None\<close> is a failing \<^verbatim>\<open>io.ReadAll\<close>.\<close>

record HttpRequest =
  rq_Method :: Method
  rq_Body :: "bytes option"
  rq_RequestIDParam :: string

datatype 'r httpResponse =
    HttpError nat string
  | HttpOk nat 'r
  | HttpPanic

record ExecuteError =
  xe_Error :: string
  xe_Code :: int

record UpdateConfigResponse =
  uc_Applied :: bool
  uc_Config :: EnclaveConfig
  uc_SignersCollected :: nat
  uc_SignersRequired :: nat
  uc_Attestation :: bytes

text \<open>
  The outcome of \<open>/requests\<close>. Both error and success bodies carry the names of
  the metric events emitted so far.
\<close>

datatype execResponse =
    ExecFail nat string "string list"
  | ExecDone ExecuteResponse "string list"
  | ExecPanic

section \<open>Environment and state\<close>

record ('a, 'pk, 'ct, 'sh) ServerEnv =
  env_H :: "bytes \<Rightarrow> bytes"
  env_edVerify :: "bytes \<Rightarrow> bytes \<Rightarrow> bytes \<Rightarrow> bool"
  env_CreateAttestation :: "bytes \<Rightarrow> bytes option"
  env_OpenAnonymous :: "bytes \<Rightarrow> bytes \<Rightarrow> bytes \<Rightarrow> bytes option"
  env_TDH2 :: "('pk, 'ct, 'sh) TDH2"
  env_AppExecute :: "bytes \<Rightarrow> string \<Rightarrow> bytes \<Rightarrow> (string \<rightharpoonup> bytes) \<Rightarrow> SignedComputeRequest list \<Rightarrow> 'a
    \<Rightarrow> (ExecuteError + bytes) \<times> string list \<times> 'a"
  env_OnConfigUpdate :: "(EnclaveConfig \<Rightarrow> 'a \<Rightarrow> 'a) option"
  env_InjectSettings :: "(bytes \<Rightarrow> 'a \<Rightarrow> string option \<times> 'a) option"
  env_ParseRequests :: "bytes \<Rightarrow> SignedComputeRequest list option"
  env_ParseConfigRequest :: "bytes \<Rightarrow> bytes option"
  env_ParseUpdateRequest :: "bytes \<Rightarrow> (bytes \<times> bytes) option"
  env_ParseConfig :: "bytes \<Rightarrow> EnclaveConfig option"
  env_HexDecode :: "string \<Rightarrow> bytes option"
  env_Base64Decode :: "string \<Rightarrow> bytes option"
  env_MarshalOk :: "ExecuteResponse \<Rightarrow> bool"

record 'a enclaveServer =
  sv_app :: 'a
  sv_keychain :: boxKeychain
  sv_config :: EnclaveConfig
  sv_configSet :: bool
  sv_allowReconfig :: bool
  sv_inProgressReqs :: "(bytes, unit) Cache"
  sv_executedReqs :: "(bytes, unit) Cache"
  sv_pendingConfigVotes :: "(bytes, bytes set) Cache"
  sv_pubKeyAttestations :: "(bytes, bytes) Cache"

definition MaxReplayCacheEntries :: int where
  [cc_const]: "MaxReplayCacheEntries = 500000"

definition ConfigVoteTTL :: duration where
  [cc_const]: "ConfigVoteTTL = 10 * minute"

definition PublicKeyAttestationCacheTTL :: duration where
  [cc_const]: "PublicKeyAttestationCacheTTL = 5 * second"

definition NewEnclaveServer :: "'a \<Rightarrow> boxKeychain \<Rightarrow> EnclaveConfig \<Rightarrow> bool \<Rightarrow> 'a enclaveServer" where
  "NewEnclaveServer app keychain config allowReconfig =
     \<lparr>sv_app = app, sv_keychain = keychain, sv_config = config, sv_configSet = False,
      sv_allowReconfig = allowReconfig,
      sv_inProgressReqs = NewBoundedCache (Some DefaultKeypairExpiration) None MaxReplayCacheEntries,
      sv_executedReqs = NewBoundedCache (Some DefaultKeypairExpiration) None MaxReplayCacheEntries,
      sv_pendingConfigVotes = NewCache (Some ConfigVoteTTL) None,
      sv_pubKeyAttestations = NewCache (Some PublicKeyAttestationCacheTTL) None\<rparr>"

section \<open>GET /publicKeys\<close>

definition attestPublicKeys ::
    "('a, 'pk, 'ct, 'sh) ServerEnv \<Rightarrow> time \<Rightarrow> bytes \<Rightarrow> 'a enclaveServer \<Rightarrow> bytes option \<times> 'a enclaveServer" where
  "attestPublicKeys env now dataToAttest s = (case Cache_Get now dataToAttest (sv_pubKeyAttestations s) of
     Some att \<Rightarrow> (Some att, s)
   | None \<Rightarrow> (case env_CreateAttestation env dataToAttest of
       None \<Rightarrow> (None, s)
     | Some att \<Rightarrow> (Some att, s\<lparr>sv_pubKeyAttestations :=
         Cache_Set now dataToAttest att None (sv_pubKeyAttestations s)\<rparr>)))"

text \<open>The \<open>requestID\<close> parameter: 32 bytes in hex, or else in base64.\<close>

definition parseRequestID :: "('a, 'pk, 'ct, 'sh) ServerEnv \<Rightarrow> string \<Rightarrow> bytes option" where
  "parseRequestID env p = (case env_HexDecode env p of
     Some b \<Rightarrow> if length b = 32 then Some b
       else (case env_Base64Decode env p of
           Some b' \<Rightarrow> if length b' = 32 then Some b' else None
         | None \<Rightarrow> None)
   | None \<Rightarrow> (case env_Base64Decode env p of
         Some b' \<Rightarrow> if length b' = 32 then Some b' else None
       | None \<Rightarrow> None))"

definition publicKeysOf :: "EnclaveConfig \<Rightarrow> boxKeypair list \<Rightarrow> PublicKeyResponse" where
  "publicKeysOf config keypairs = \<lparr>pk_PublicKeys = map kp_publicKey keypairs,
     pk_CreationTimes = map kp_creationTime keypairs, pk_TTLs = map kp_ttl keypairs,
     pk_Config = config, pk_Attestation = []\<rparr>"

definition selectKeypairs ::
    "('a, 'pk, 'ct, 'sh) ServerEnv \<Rightarrow> time \<Rightarrow> string \<Rightarrow> 'a enclaveServer
     \<Rightarrow> (nat \<times> string + boxKeypair list) \<times> 'a enclaveServer" where
  "selectKeypairs env now param s =
     (if param \<noteq> [] then (case parseRequestID env param of
        None \<Rightarrow> (Inl (400, ''invalid requestID''), s)
      | Some requestID \<Rightarrow> (case GetKeyPairForRequest now requestID (sv_keychain s) of
          (Inl _, kc) \<Rightarrow> (Inl (500, ''error retrieving keypair for request''), s\<lparr>sv_keychain := kc\<rparr>)
        | (Inr kp, kc) \<Rightarrow> (Inr [kp], s\<lparr>sv_keychain := kc\<rparr>)))
      else (Inr (GetKeyPairs now (sv_keychain s)), s))"

definition handleGetPublicKeys ::
    "('a, 'pk, 'ct, 'sh) ServerEnv \<Rightarrow> time \<Rightarrow> HttpRequest \<Rightarrow> 'a enclaveServer
     \<Rightarrow> PublicKeyResponse httpResponse \<times> 'a enclaveServer" where
  "handleGetPublicKeys env now r s =
     (if rq_Method r \<noteq> GET then (HttpError 405 ''method not allowed'', s)
      else let config = EnclaveConfig_Copy (Some (sv_config s)) in
        if EnclaveConfig_IsZero (Some config) then (HttpError 503 ''enclave config not set'', s)
        else case selectKeypairs env now (rq_RequestIDParam r) s of
            (Inl (code, msg), s') \<Rightarrow> (HttpError code msg, s')
          | (Inr keypairs, s') \<Rightarrow>
              if keypairs = [] then (HttpError 404 ''no keypairs found'', s')
              else let resp = publicKeysOf config keypairs in
                (case attestPublicKeys env now (PublicKeyHash (env_H env) resp) s' of
                   (None, s'') \<Rightarrow> (HttpError 500 ''error creating attestation'', s'')
                 | (Some att, s'') \<Rightarrow> (HttpOk 200 (resp\<lparr>pk_Attestation := att\<rparr>), s'')))"

section \<open>POST /config and POST /settings\<close>

definition notifyApp :: "('a, 'pk, 'ct, 'sh) ServerEnv \<Rightarrow> EnclaveConfig \<Rightarrow> 'a \<Rightarrow> 'a" where
  "notifyApp env newConfig a = (case env_OnConfigUpdate env of None \<Rightarrow> a | Some f \<Rightarrow> f newConfig a)"

definition handleSetConfig ::
    "('a, 'pk, 'ct, 'sh) ServerEnv \<Rightarrow> HttpRequest \<Rightarrow> 'a enclaveServer
     \<Rightarrow> SetConfigResponse httpResponse \<times> 'a enclaveServer" where
  "handleSetConfig env r s =
     (if rq_Method r \<noteq> POST then (HttpError 405 ''method not allowed'', s)
      else if sv_configSet s \<and> \<not> sv_allowReconfig s
      then (HttpError 409 ''config has already been set and cannot be changed'', s)
      else case rq_Body r of
          None \<Rightarrow> (HttpError 400 ''failed to read request body'', s)
        | Some body \<Rightarrow> (case env_ParseConfigRequest env body of
            None \<Rightarrow> (HttpError 400 ''failed to parse config request'', s)
          | Some raw \<Rightarrow> (case env_ParseConfig env raw of
              None \<Rightarrow> (HttpError 400 ''failed to parse new config'', s)
            | Some newConfig \<Rightarrow>
                let s' = s\<lparr>sv_config := newConfig, sv_configSet := True,
                           sv_app := notifyApp env newConfig (sv_app s)\<rparr>;
                    resp = \<lparr>sc_Config = newConfig, sc_Attestation = []\<rparr>
                in (case env_CreateAttestation env (SetConfigResponse_UserDataHash (env_H env) resp) of
                      None \<Rightarrow> (HttpError 500 ''error creating attestation'', s')
                    | Some att \<Rightarrow> (HttpOk 200 (resp\<lparr>sc_Attestation := att\<rparr>), s')))))"

definition handleInjectSettings ::
    "('a, 'pk, 'ct, 'sh) ServerEnv \<Rightarrow> HttpRequest \<Rightarrow> 'a enclaveServer
     \<Rightarrow> unit httpResponse \<times> 'a enclaveServer" where
  "handleInjectSettings env r s =
     (if rq_Method r \<noteq> POST then (HttpError 405 ''method not allowed'', s)
      else case rq_Body r of
          None \<Rightarrow> (HttpError 400 ''failed to read request body'', s)
        | Some body \<Rightarrow>
            if body = [] then (HttpError 400 ''settings request is empty'', s)
            else (case env_InjectSettings env of
                None \<Rightarrow> (HttpError 501 ''app does not accept settings'', s)
              | Some inject \<Rightarrow> (case inject body (sv_app s) of
                  (Some err, a) \<Rightarrow> (HttpError 500 ''injecting settings'', s\<lparr>sv_app := a\<rparr>)
                | (None, a) \<Rightarrow> (HttpOk 204 (), s\<lparr>sv_app := a\<rparr>))))"

section \<open>PATCH /config: voting on a new configuration\<close>

definition quorum :: "EnclaveConfig \<Rightarrow> nat" where
  "quorum config = unat (ec_F config) + 1"

definition votePayload :: "(bytes \<Rightarrow> bytes) \<Rightarrow> bytes \<Rightarrow> bytes" where
  "votePayload H newHash = MakePeerIDSignatureDomainSeparatedPayload H
     GetConfidentialComputeConfigUpdatePrefix newHash"

text \<open>The acknowledgement of a proposal that is already in force.\<close>

definition ackCurrentConfig ::
    "('a, 'pk, 'ct, 'sh) ServerEnv \<Rightarrow> 'a enclaveServer \<Rightarrow> UpdateConfigResponse httpResponse" where
  "ackCurrentConfig env s = (case env_CreateAttestation env
       (SetConfigResponse_UserDataHash (env_H env) \<lparr>sc_Config = sv_config s, sc_Attestation = []\<rparr>) of
     None \<Rightarrow> HttpError 500 ''error creating attestation''
   | Some att \<Rightarrow> HttpOk 200 \<lparr>uc_Applied = True, uc_Config = sv_config s,
       uc_SignersCollected = quorum (sv_config s), uc_SignersRequired = quorum (sv_config s),
       uc_Attestation = att\<rparr>)"

text \<open>Record the vote of \<open>signer\<close>; at quorum apply the configuration and drop all votes.\<close>

definition recordVote ::
    "('a, 'pk, 'ct, 'sh) ServerEnv \<Rightarrow> time \<Rightarrow> EnclaveConfig \<Rightarrow> bytes \<Rightarrow> 'a enclaveServer
     \<Rightarrow> UpdateConfigResponse httpResponse \<times> 'a enclaveServer" where
  "recordVote env now newConfig signer s =
     (let newHash = EnclaveConfig_Hash (env_H env) newConfig;
          old = (case Cache_Get now newHash (sv_pendingConfigVotes s) of None \<Rightarrow> {} | Some v \<Rightarrow> v);
          votes = insert (env_H env signer) old;
          s1 = s\<lparr>sv_pendingConfigVotes := Cache_Set now newHash votes None (sv_pendingConfigVotes s)\<rparr>;
          required = quorum (sv_config s);
          resp = \<lparr>uc_Applied = False, uc_Config = newConfig, uc_SignersCollected = card votes,
                  uc_SignersRequired = required, uc_Attestation = []\<rparr>
      in if card votes < required then (HttpOk 202 resp, s1)
         else let s2 = s1\<lparr>sv_config := newConfig,
                    sv_pendingConfigVotes := Cache_Flush (sv_pendingConfigVotes s1),
                    sv_app := notifyApp env newConfig (sv_app s1)\<rparr>
           in (case env_CreateAttestation env
                  (SetConfigResponse_UserDataHash (env_H env) \<lparr>sc_Config = newConfig, sc_Attestation = []\<rparr>) of
                 None \<Rightarrow> (HttpError 500 ''error creating attestation'', s2)
               | Some att \<Rightarrow> (HttpOk 200 (resp\<lparr>uc_Applied := True, uc_Attestation := att\<rparr>), s2)))"

definition handleUpdateConfig ::
    "('a, 'pk, 'ct, 'sh) ServerEnv \<Rightarrow> time \<Rightarrow> HttpRequest \<Rightarrow> 'a enclaveServer
     \<Rightarrow> UpdateConfigResponse httpResponse \<times> 'a enclaveServer" where
  "handleUpdateConfig env now r s =
     (if \<not> sv_configSet s then (HttpError 409 ''config has not been initialized, cannot update'', s)
      else case rq_Body r of
          None \<Rightarrow> (HttpError 400 ''failed to read request body'', s)
        | Some body \<Rightarrow> (case env_ParseUpdateRequest env body of
            None \<Rightarrow> (HttpError 400 ''failed to parse config update request'', s)
          | Some (raw, signature) \<Rightarrow> (case env_ParseConfig env raw of
              None \<Rightarrow> (HttpError 400 ''failed to parse proposed config'', s)
            | Some newConfig \<Rightarrow>
                (case VerifySignature (env_edVerify env)
                        (votePayload (env_H env) (EnclaveConfig_Hash (env_H env) newConfig)) signature
                        (ec_Signers (sv_config s)) of
                   VPanic \<Rightarrow> (HttpPanic, s)
                 | VBadLength _ \<Rightarrow> (HttpError 400 ''config update signature verification failed'', s)
                 | VNotAllowed \<Rightarrow> (HttpError 400 ''config update signature verification failed'', s)
                 | VSigner signer \<Rightarrow>
                     if EnclaveConfig_Hash (env_H env) newConfig = EnclaveConfig_Hash (env_H env) (sv_config s)
                     then (ackCurrentConfig env s, s)
                     else recordVote env now newConfig signer s))))"

section \<open>POST /requests\<close>

definition requestPayload :: "(bytes \<Rightarrow> bytes) \<Rightarrow> bytes \<Rightarrow> bytes" where
  "requestPayload H reqHash = MakePeerIDSignatureDomainSeparatedPayload H
     GetConfidentialComputePayloadPrefix reqHash"

datatype batchResult =
    BatchOk "bytes set"
  | BatchHashMismatch nat
  | BatchBadSignature nat
  | BatchPanic

text \<open>The loop over the batch: equal hashes, valid signatures, the set of signer hashes.\<close>

primrec verifyBatch ::
    "('a, 'pk, 'ct, 'sh) ServerEnv \<Rightarrow> bytes list \<Rightarrow> bytes \<Rightarrow> nat \<Rightarrow> bytes set \<Rightarrow> SignedComputeRequest list
     \<Rightarrow> batchResult" where
  "verifyBatch env signers hash i signerSet [] = BatchOk signerSet"
| "verifyBatch env signers hash i signerSet (req # reqs) =
     (let reqHash = ComputeRequest_Hash (env_H env) (scr_ComputeRequest req) in
      if reqHash \<noteq> hash then BatchHashMismatch i
      else case VerifySignature (env_edVerify env) (requestPayload (env_H env) reqHash)
                  (scr_Signature req) signers of
          VPanic \<Rightarrow> BatchPanic
        | VBadLength _ \<Rightarrow> BatchBadSignature i
        | VNotAllowed \<Rightarrow> BatchBadSignature i
        | VSigner signer \<Rightarrow>
            verifyBatch env signers hash (Suc i) (insert (env_H env signer) signerSet) reqs)"

datatype shareError =
    ShareCountMismatch nat nat nat
  | AggregationFailed aggregateError

definition decryptShares ::
    "('a, 'pk, 'ct, 'sh) ServerEnv \<Rightarrow> time \<Rightarrow> boxKeypair \<Rightarrow> bytes list \<Rightarrow> bytes list" where
  "decryptShares env now keypair encryptedShares = List.map_filter
     (\<lambda>e. case Keypair_Decrypt (env_OpenAnonymous env) now keypair e of Inl _ \<Rightarrow> None | Inr d \<Rightarrow> Some d)
     encryptedShares"

text \<open>
  The loop over the ciphertexts for one node, on the ciphertext, its name and
  that node's encrypted shares, zipped by index.
\<close>

primrec nodeSecretsLoop ::
    "('a, 'pk, 'ct, 'sh) ServerEnv \<Rightarrow> time \<Rightarrow> boxKeypair \<Rightarrow> bytes \<Rightarrow> int \<Rightarrow> (string \<rightharpoonup> bytes)
     \<Rightarrow> (bytes \<times> string \<times> bytes list) list \<Rightarrow> aggregateError + (string \<rightharpoonup> bytes)" where
  "nodeSecretsLoop env now keypair mpk T nodeSecrets [] = Inr nodeSecrets"
| "nodeSecretsLoop env now keypair mpk T nodeSecrets (x # xs) =
     (case x of (ciphertext, name, encryptedShares) \<Rightarrow>
        (case AggregateShares (env_TDH2 env) ciphertext (decryptShares env now keypair encryptedShares) mpk T of
           Inl e \<Rightarrow> Inl e
         | Inr secret \<Rightarrow> nodeSecretsLoop env now keypair mpk T (nodeSecrets(name \<mapsto> secret)) xs))"

text \<open>The loop over the nodes: the first node whose shares decrypt everything wins.\<close>

primrec secretsLoop ::
    "('a, 'pk, 'ct, 'sh) ServerEnv \<Rightarrow> time \<Rightarrow> boxKeypair \<Rightarrow> bytes \<Rightarrow> int \<Rightarrow> ComputeRequest \<Rightarrow> nat
     \<Rightarrow> shareError option \<Rightarrow> SignedComputeRequest list \<Rightarrow> (string \<rightharpoonup> bytes) option \<times> shareError option" where
  "secretsLoop env now keypair mpk T req nodeIdx lastErr [] = (None, lastErr)"
| "secretsLoop env now keypair mpk T req nodeIdx lastErr (nodeReq # reqs) =
     (let shares = cr_EncryptedDecryptionKeyShares (scr_ComputeRequest nodeReq) in
      if length shares \<noteq> length (cr_Ciphertexts req)
      then secretsLoop env now keypair mpk T req (Suc nodeIdx)
             (Some (ShareCountMismatch nodeIdx (length shares) (length (cr_Ciphertexts req)))) reqs
      else case nodeSecretsLoop env now keypair mpk T Map.empty
                  (zip (cr_Ciphertexts req) (zip (cr_CiphertextNames req) shares)) of
          Inl e \<Rightarrow> secretsLoop env now keypair mpk T req (Suc nodeIdx) (Some (AggregationFailed e)) reqs
        | Inr secrets \<Rightarrow> (Some secrets, lastErr))"

text \<open>\<^verbatim>\<open>WriteErrorResponse\<close> emits \<open>request_completed\<close> before it writes the body.\<close>

definition execError :: "string list \<Rightarrow> nat \<Rightarrow> string \<Rightarrow> execResponse" where
  "execError events code msg = ExecFail code msg (events @ [''request_completed''])"

definition admittedEvents :: "string list" where
  "admittedEvents = [''request_started'', ''signature_verification_completed'']"

text \<open>Everything before the request is marked in progress.\<close>

definition admitBatch ::
    "('a, 'pk, 'ct, 'sh) ServerEnv \<Rightarrow> EnclaveConfig \<Rightarrow> HttpRequest
     \<Rightarrow> execResponse + (bytes \<times> SignedComputeRequest list)" where
  "admitBatch env config r =
     (let started = [''request_started''] in
      if rq_Method r \<noteq> POST then Inl (execError started 405 ''method not allowed'')
      else case rq_Body r of
          None \<Rightarrow> Inl (execError started 400 ''failed to read request body'')
        | Some body \<Rightarrow> (case env_ParseRequests env body of
            None \<Rightarrow> Inl (execError started 400 ''invalid json'')
          | Some [] \<Rightarrow> Inl (execError started 400 ''empty request batch'')
          | Some (req # reqs) \<Rightarrow>
              let hash = ComputeRequest_Hash (env_H env) (scr_ComputeRequest req) in
              (case verifyBatch env (ec_Signers config) hash 0 {} (req # reqs) of
                 BatchPanic \<Rightarrow> Inl ExecPanic
               | BatchHashMismatch i \<Rightarrow> Inl (execError started 400 ''request hash mismatch'')
               | BatchBadSignature i \<Rightarrow> Inl (execError started 400 ''signature verification failed'')
               | BatchOk signerSet \<Rightarrow>
                   if card signerSet < quorum config
                   then Inl (execError admittedEvents 400
                          ''not enough requests by unique signers to reach quorum'')
                   else Inr (hash, req # reqs))))"

definition masterKeyFor :: "EnclaveConfig \<Rightarrow> ComputeRequest \<Rightarrow> bytes" where
  "masterKeyFor config req =
     (if length (cr_MasterPublicKey req) > 0 then cr_MasterPublicKey req else ec_MasterPublicKey config)"

text \<open>The checks on the first request and the decryption of its secrets.\<close>

definition prepareSecrets ::
    "('a, 'pk, 'ct, 'sh) ServerEnv \<Rightarrow> time \<Rightarrow> EnclaveConfig \<Rightarrow> SignedComputeRequest list \<Rightarrow> 'a enclaveServer
     \<Rightarrow> execResponse + (string \<rightharpoonup> bytes)" where
  "prepareSecrets env now config reqs s =
     (let req = scr_ComputeRequest (hd reqs);
          ev = admittedEvents @ [''request_id'']
      in if length (cr_Ciphertexts req) \<noteq> length (cr_CiphertextNames req)
         then Inl (execError ev 400 ''number of ciphertexts does not match number of ciphertext names'')
         else if cr_AppID req = [] then Inl (execError ev 400 ''missing AppID in request'')
         else if cr_Version req = [] then Inl (execError ev 400 ''missing Version in request'')
         else case GetKeyPair now (cr_EnclaveEphemeralPublicKey req) (sv_keychain s) of
             Inl _ \<Rightarrow> Inl (execError (ev @ [''keypair_not_found'']) 400 ''failed to retrieve keypair for request'')
           | Inr keypair \<Rightarrow>
               (case secretsLoop env now keypair (masterKeyFor config req) (int (unat (ec_T config))) req 0 None reqs of
                  (Some secrets, _) \<Rightarrow> Inr secrets
                | (None, None) \<Rightarrow> Inl ExecPanic
                | (None, Some lastErr) \<Rightarrow> Inl (execError (ev @ [''share_aggregation_failed'']) 500
                    ''no node's shares produced valid decryption'')))"

text \<open>The application call and the attestation of its output.\<close>

definition callApp ::
    "('a, 'pk, 'ct, 'sh) ServerEnv \<Rightarrow> EnclaveConfig \<Rightarrow> bytes \<Rightarrow> SignedComputeRequest list
     \<Rightarrow> (string \<rightharpoonup> bytes) \<Rightarrow> 'a enclaveServer \<Rightarrow> execResponse \<times> 'a enclaveServer" where
  "callApp env config hash reqs secrets s =
     (let req = scr_ComputeRequest (hd reqs) in
      case env_AppExecute env (cr_RequestID req) (cr_AppID req) (cr_PublicData req) secrets reqs (sv_app s) of
        (result, appEvents, a) \<Rightarrow>
          let s1 = s\<lparr>sv_app := a\<rparr>;
              ev = admittedEvents @ [''request_id'', ''shares_combining_completed''] @ appEvents @
                   [''app_execution_completed'']
          in (case result of
                Inl execErr \<Rightarrow> (execError (ev @ [''app_execution_failed'']) 500
                                 ''error executing enclave app request'', s1)
              | Inr output \<Rightarrow>
                  let resp = \<lparr>er_RequestID = cr_RequestID req,
                              er_ApplicationRequestID = cr_ApplicationRequestID req,
                              er_RequestHash = hash, er_Output = output, er_Config = config,
                              er_Attestation = []\<rparr>;
                      evc = ev @ [''request_completed'']
                  in (case env_CreateAttestation env
                             (ExecuteResponse_UserDataHash (env_H env) (cr_Version req) resp) of
                        None \<Rightarrow> (execError (evc @ [''attestation_creation_failed'']) 500
                                  ''error creating attestation'', s1)
                      | Some att \<Rightarrow>
                          let resp' = resp\<lparr>er_Attestation := att\<rparr> in
                          if \<not> env_MarshalOk env resp'
                          then (execError evc 500 ''error encoding response'', s1)
                          else (ExecDone resp' evc, s1))))"

text \<open>A success is recorded so that the same signed request can be rejected later.\<close>

definition recordExecuted :: "time \<Rightarrow> bytes \<Rightarrow> execResponse \<Rightarrow> 'a enclaveServer \<Rightarrow> 'a enclaveServer" where
  "recordExecuted fin hash resp s = (case resp of
     ExecDone _ _ \<Rightarrow> s\<lparr>sv_executedReqs := Cache_Set fin hash () None (sv_executedReqs s)\<rparr>
   | _ \<Rightarrow> s)"

definition runApp ::
    "('a, 'pk, 'ct, 'sh) ServerEnv \<Rightarrow> time \<Rightarrow> EnclaveConfig \<Rightarrow> bytes \<Rightarrow> SignedComputeRequest list
     \<Rightarrow> (string \<rightharpoonup> bytes) \<Rightarrow> 'a enclaveServer \<Rightarrow> execResponse \<times> 'a enclaveServer" where
  "runApp env fin config hash reqs secrets s =
     (case callApp env config hash reqs secrets s of
        (resp, s1) \<Rightarrow> (resp, recordExecuted fin hash resp s1))"

definition executeBatch ::
    "('a, 'pk, 'ct, 'sh) ServerEnv \<Rightarrow> time \<Rightarrow> time \<Rightarrow> EnclaveConfig \<Rightarrow> bytes \<Rightarrow> SignedComputeRequest list
     \<Rightarrow> 'a enclaveServer \<Rightarrow> execResponse \<times> 'a enclaveServer" where
  "executeBatch env now fin config hash reqs s = (case prepareSecrets env now config reqs s of
     Inl resp \<Rightarrow> (resp, s)
   | Inr secrets \<Rightarrow> runApp env fin config hash reqs secrets s)"

definition checkInProgress :: "time \<Rightarrow> bytes \<Rightarrow> 'a enclaveServer \<Rightarrow> bool" where
  "checkInProgress now hash s \<longleftrightarrow> Cache_Get now hash (sv_inProgressReqs s) \<noteq> None"

definition markInProgress :: "time \<Rightarrow> bytes \<Rightarrow> 'a enclaveServer \<Rightarrow> 'a enclaveServer" where
  "markInProgress now hash s = s\<lparr>sv_inProgressReqs := Cache_Set now hash () None (sv_inProgressReqs s)\<rparr>"

definition unmarkInProgress :: "bytes \<Rightarrow> 'a enclaveServer \<Rightarrow> 'a enclaveServer" where
  "unmarkInProgress hash s = s\<lparr>sv_inProgressReqs := Cache_Delete hash (sv_inProgressReqs s)\<rparr>"

definition checkExecuted :: "time \<Rightarrow> bytes \<Rightarrow> 'a enclaveServer \<Rightarrow> bool" where
  "checkExecuted now hash s \<longleftrightarrow> Cache_Get now hash (sv_executedReqs s) \<noteq> None"

definition handleExecute ::
    "('a, 'pk, 'ct, 'sh) ServerEnv \<Rightarrow> time \<Rightarrow> time \<Rightarrow> HttpRequest \<Rightarrow> 'a enclaveServer
     \<Rightarrow> execResponse \<times> 'a enclaveServer" where
  "handleExecute env now fin r s =
     (let config = EnclaveConfig_Copy (Some (sv_config s)) in
      case admitBatch env config r of
        Inl resp \<Rightarrow> (resp, s)
      | Inr (hash, reqs) \<Rightarrow>
          if checkInProgress now hash s
          then (execError admittedEvents 409 ''request is already being processed'', s)
          else
            let s1 = markInProgress now hash s;
                out = (if checkExecuted now hash s1
                       then (execError admittedEvents 409
                              ''replay detected: request hash has already been executed'', s1)
                       else executeBatch env now fin config hash reqs s1)
            in (fst out, unmarkInProgress hash (snd out)))"

text \<open>The collectors of the server's caches and the keychain's own activity.\<close>

definition serverGC :: "time \<Rightarrow> 'a enclaveServer \<Rightarrow> 'a enclaveServer" where
  "serverGC now s = s\<lparr>sv_inProgressReqs := gcTick now (sv_inProgressReqs s),
     sv_executedReqs := gcTick now (sv_executedReqs s),
     sv_pendingConfigVotes := gcTick now (sv_pendingConfigVotes s),
     sv_pubKeyAttestations := gcTick now (sv_pubKeyAttestations s)\<rparr>"

definition serverKeychainEvent :: "keychainEvent \<Rightarrow> 'a enclaveServer \<Rightarrow> 'a enclaveServer" where
  "serverKeychainEvent e s = s\<lparr>sv_keychain := applyEvent e (sv_keychain s)\<rparr>"

section \<open>Histories of the server\<close>

datatype serverEvent =
    SPublicKeys time HttpRequest
  | SSetConfig HttpRequest
  | SInjectSettings HttpRequest
  | SUpdateConfig time HttpRequest
  | SExecute time time HttpRequest
  | SCollect time
  | SKeychain keychainEvent

fun serve :: "('a, 'pk, 'ct, 'sh) ServerEnv \<Rightarrow> serverEvent \<Rightarrow> 'a enclaveServer \<Rightarrow> 'a enclaveServer" where
  "serve env (SPublicKeys now r) s = snd (handleGetPublicKeys env now r s)"
| "serve env (SSetConfig r) s = snd (handleSetConfig env r s)"
| "serve env (SInjectSettings r) s = snd (handleInjectSettings env r s)"
| "serve env (SUpdateConfig now r) s = snd (handleUpdateConfig env now r s)"
| "serve env (SExecute now fin r) s = snd (handleExecute env now fin r s)"
| "serve env (SCollect now) s = serverGC now s"
| "serve env (SKeychain e) s = serverKeychainEvent e s"

section \<open>The quorum behind a batch\<close>

text \<open>The signers whose signature on \<open>payload\<close> some request of the batch carries.\<close>

definition batchSigners ::
    "('a, 'pk, 'ct, 'sh) ServerEnv \<Rightarrow> bytes list \<Rightarrow> bytes \<Rightarrow> SignedComputeRequest list \<Rightarrow> bytes set" where
  "batchSigners env signers payload reqs =
     {pk. \<exists>req\<in>set reqs. VerifySignature (env_edVerify env) payload (scr_Signature req) signers = VSigner pk}"

lemma finite_batchSigners: "finite (batchSigners env signers payload reqs)"
  by (rule finite_subset [of _ "set signers"]) (auto simp: batchSigners_def dest: VerifySignature_signer)

lemma batchSigners_Cons:
  "batchSigners env signers payload (req # reqs) =
    {pk. VerifySignature (env_edVerify env) payload (scr_Signature req) signers = VSigner pk}
    \<union> batchSigners env signers payload reqs"
  by (auto simp: batchSigners_def)

lemma verifyBatch_Ok:
  assumes "verifyBatch env signers hash i acc reqs = BatchOk signerSet"
  shows "signerSet = acc \<union> env_H env ` batchSigners env signers (requestPayload (env_H env) hash) reqs
    \<and> (\<forall>req\<in>set reqs. ComputeRequest_Hash (env_H env) (scr_ComputeRequest req) = hash)"
  using assms
proof (induction reqs arbitrary: i acc)
  case Nil
  then show ?case by (simp add: batchSigners_def)
next
  case (Cons req reqs)
  from Cons.prems obtain signer where eq: "ComputeRequest_Hash (env_H env) (scr_ComputeRequest req) = hash"
    and ver: "VerifySignature (env_edVerify env) (requestPayload (env_H env) hash) (scr_Signature req) signers
      = VSigner signer"
    and rest: "verifyBatch env signers hash (Suc i) (insert (env_H env signer) acc) reqs = BatchOk signerSet"
    by (auto simp: Let_def split: if_splits verifyResult.splits)
  from Cons.IH [OF rest] eq ver show ?case by (auto simp: batchSigners_Cons)
qed

lemma admitBatch_Inr:
  assumes "admitBatch env config r = Inr (hash, reqs)"
  shows "reqs \<noteq> []" "\<forall>req\<in>set reqs. ComputeRequest_Hash (env_H env) (scr_ComputeRequest req) = hash"
    "quorum config \<le> card (batchSigners env (ec_Signers config) (requestPayload (env_H env) hash) reqs)"
proof -
  from assms obtain req rest signerSet where reqs: "reqs = req # rest"
    "hash = ComputeRequest_Hash (env_H env) (scr_ComputeRequest req)"
    and ver: "verifyBatch env (ec_Signers config) hash 0 {} reqs = BatchOk signerSet"
    and card: "quorum config \<le> card signerSet"
    by (auto simp: admitBatch_def Let_def not_less split: if_splits option.splits list.splits batchResult.splits)
  note ok = verifyBatch_Ok [OF ver]
  show "reqs \<noteq> []" using reqs by simp
  show "\<forall>req\<in>set reqs. ComputeRequest_Hash (env_H env) (scr_ComputeRequest req) = hash" using ok by simp
  have "card signerSet \<le> card (batchSigners env (ec_Signers config) (requestPayload (env_H env) hash) reqs)"
    using ok card_image_le [OF finite_batchSigners] by simp
  with card show "quorum config \<le> card (batchSigners env (ec_Signers config) (requestPayload (env_H env) hash) reqs)"
    by (rule le_trans)
qed

lemma EnclaveConfig_Copy_Some [simp]: "EnclaveConfig_Copy (Some ec) = ec"
  by (simp add: EnclaveConfig_Copy_def)

section \<open>When the application is called\<close>

text \<open>
  The arguments \<open>handleExecute\<close> calls the application with, if it does: the
  specification the handler is compared with.
\<close>

definition executes ::
    "('a, 'pk, 'ct, 'sh) ServerEnv \<Rightarrow> time \<Rightarrow> HttpRequest \<Rightarrow> 'a enclaveServer
     \<Rightarrow> (bytes \<times> SignedComputeRequest list \<times> (string \<rightharpoonup> bytes)) option" where
  "executes env now r s = (case admitBatch env (sv_config s) r of
     Inl _ \<Rightarrow> None
   | Inr (hash, reqs) \<Rightarrow>
       if checkInProgress now hash s \<or> checkExecuted now hash s then None
       else (case prepareSecrets env now (sv_config s) reqs s of
           Inl _ \<Rightarrow> None
         | Inr secrets \<Rightarrow> Some (hash, reqs, secrets)))"

lemma prepareSecrets_mark [simp]:
  "prepareSecrets env now config reqs (markInProgress now' hash s) = prepareSecrets env now config reqs s"
  by (simp add: prepareSecrets_def markInProgress_def Let_def)

lemma checkExecuted_mark [simp]: "checkExecuted now h (markInProgress now' hash s) = checkExecuted now h s"
  by (simp add: checkExecuted_def markInProgress_def)

lemma execError_not_done [simp]: "execError ev code msg \<noteq> ExecDone resp ev'"
  by (simp add: execError_def)

lemma admitBatch_Inl_not_done:
  assumes "admitBatch env config r = Inl resp"
  shows "resp \<noteq> ExecDone er ev"
  using assms
  by (auto simp: admitBatch_def Let_def split: if_splits option.splits list.splits batchResult.splits)

lemma prepareSecrets_Inl_not_done:
  assumes "prepareSecrets env now config reqs s = Inl resp"
  shows "resp \<noteq> ExecDone er ev"
  using assms
  by (auto simp: prepareSecrets_def Let_def split: if_splits option.splits sum.splits prod.splits)

lemma handleExecute_executes:
  assumes "executes env now r s = Some (hash, reqs, secrets)"
  shows "handleExecute env now fin r s =
    (let out = runApp env fin (sv_config s) hash reqs secrets (markInProgress now hash s)
     in (fst out, unmarkInProgress hash (snd out)))"
  using assms
  by (auto simp: executes_def handleExecute_def executeBatch_def Let_def split: sum.splits prod.splits if_splits)

lemma executes_None_cases:
  assumes "executes env now r s = None"
  obtains resp where "handleExecute env now fin r s = (resp, s)" "\<And>er ev. resp \<noteq> ExecDone er ev"
  | resp hash where "handleExecute env now fin r s =
      (resp, unmarkInProgress hash (markInProgress now hash s))" "\<And>er ev. resp \<noteq> ExecDone er ev"
proof (cases "admitBatch env (sv_config s) r")
  case (Inl resp)
  then have "handleExecute env now fin r s = (resp, s)" by (simp add: handleExecute_def)
  then show ?thesis using admitBatch_Inl_not_done [OF Inl] by (rule that(1))
next
  case (Inr hr)
  obtain hash reqs where hr: "hr = (hash, reqs)" by (cases hr)
  show ?thesis
  proof (cases "checkInProgress now hash s")
    case True
    with Inr hr show ?thesis using that(1) by (simp add: handleExecute_def)
  next
    case inp: False
    show ?thesis
    proof (cases "checkExecuted now hash s")
      case True
      with inp Inr hr show ?thesis using that(2) by (simp add: handleExecute_def Let_def)
    next
      case False
      with inp Inr hr assms obtain resp where prep: "prepareSecrets env now (sv_config s) reqs s = Inl resp"
        by (auto simp: executes_def split: sum.splits)
      with inp Inr hr False have "handleExecute env now fin r s =
          (resp, unmarkInProgress hash (markInProgress now hash s))"
        by (simp add: handleExecute_def executeBatch_def Let_def)
      then show ?thesis using prepareSecrets_Inl_not_done [OF prep] by (rule that(2))
    qed
  qed
qed

lemma handleExecute_not_executed:
  assumes "executes env now r s = None"
  shows "sv_app (snd (handleExecute env now fin r s)) = sv_app s"
    "sv_executedReqs (snd (handleExecute env now fin r s)) = sv_executedReqs s"
    "fst (handleExecute env now fin r s) \<noteq> ExecDone er ev"
  using assms
  by (cases rule: executes_None_cases [OF assms, of fin];
      simp add: markInProgress_def unmarkInProgress_def)+

lemma callApp_state: "snd (callApp env config hash reqs secrets s) =
    s\<lparr>sv_app := sv_app (snd (callApp env config hash reqs secrets s))\<rparr>"
  by (simp add: callApp_def Let_def split: prod.split sum.split option.split)

lemma callApp_fields [simp]:
  "sv_config (snd (callApp env config hash reqs secrets s)) = sv_config s"
  "sv_configSet (snd (callApp env config hash reqs secrets s)) = sv_configSet s"
  "sv_allowReconfig (snd (callApp env config hash reqs secrets s)) = sv_allowReconfig s"
  "sv_keychain (snd (callApp env config hash reqs secrets s)) = sv_keychain s"
  "sv_inProgressReqs (snd (callApp env config hash reqs secrets s)) = sv_inProgressReqs s"
  "sv_executedReqs (snd (callApp env config hash reqs secrets s)) = sv_executedReqs s"
  "sv_pendingConfigVotes (snd (callApp env config hash reqs secrets s)) = sv_pendingConfigVotes s"
  by (subst callApp_state; simp)+

lemma recordExecuted_fields [simp]:
  "sv_config (recordExecuted fin hash resp s) = sv_config s"
  "sv_configSet (recordExecuted fin hash resp s) = sv_configSet s"
  "sv_allowReconfig (recordExecuted fin hash resp s) = sv_allowReconfig s"
  "sv_keychain (recordExecuted fin hash resp s) = sv_keychain s"
  "sv_app (recordExecuted fin hash resp s) = sv_app s"
  "sv_inProgressReqs (recordExecuted fin hash resp s) = sv_inProgressReqs s"
  "sv_pendingConfigVotes (recordExecuted fin hash resp s) = sv_pendingConfigVotes s"
  by (simp_all add: recordExecuted_def split: execResponse.split)

lemma runApp_fields [simp]:
  "sv_config (snd (runApp env fin config hash reqs secrets s)) = sv_config s"
  "sv_configSet (snd (runApp env fin config hash reqs secrets s)) = sv_configSet s"
  "sv_allowReconfig (snd (runApp env fin config hash reqs secrets s)) = sv_allowReconfig s"
  "sv_keychain (snd (runApp env fin config hash reqs secrets s)) = sv_keychain s"
  "sv_inProgressReqs (snd (runApp env fin config hash reqs secrets s)) = sv_inProgressReqs s"
  "sv_pendingConfigVotes (snd (runApp env fin config hash reqs secrets s)) = sv_pendingConfigVotes s"
  by (simp_all add: runApp_def split_beta)

lemma runApp_executed:
  "sv_executedReqs (snd (runApp env fin config hash reqs secrets s)) =
    (case fst (runApp env fin config hash reqs secrets s) of
       ExecDone _ _ \<Rightarrow> Cache_Set fin hash () None (sv_executedReqs s)
     | _ \<Rightarrow> sv_executedReqs s)"
  by (simp add: runApp_def split_beta) (simp add: recordExecuted_def split: execResponse.split)

lemma mark_fields [simp]:
  "sv_app (markInProgress now h s) = sv_app s" "sv_app (unmarkInProgress h s) = sv_app s"
  "sv_config (markInProgress now h s) = sv_config s" "sv_config (unmarkInProgress h s) = sv_config s"
  "sv_configSet (markInProgress now h s) = sv_configSet s" "sv_configSet (unmarkInProgress h s) = sv_configSet s"
  "sv_allowReconfig (markInProgress now h s) = sv_allowReconfig s"
  "sv_allowReconfig (unmarkInProgress h s) = sv_allowReconfig s"
  "sv_keychain (markInProgress now h s) = sv_keychain s" "sv_keychain (unmarkInProgress h s) = sv_keychain s"
  "sv_executedReqs (markInProgress now h s) = sv_executedReqs s"
  "sv_executedReqs (unmarkInProgress h s) = sv_executedReqs s"
  "sv_pendingConfigVotes (markInProgress now h s) = sv_pendingConfigVotes s"
  "sv_pendingConfigVotes (unmarkInProgress h s) = sv_pendingConfigVotes s"
  by (simp_all add: markInProgress_def unmarkInProgress_def)

lemma handleExecute_fields:
  "sv_config (snd (handleExecute env now fin r s)) = sv_config s"
  "sv_configSet (snd (handleExecute env now fin r s)) = sv_configSet s"
  "sv_allowReconfig (snd (handleExecute env now fin r s)) = sv_allowReconfig s"
  "sv_keychain (snd (handleExecute env now fin r s)) = sv_keychain s"
  "sv_pendingConfigVotes (snd (handleExecute env now fin r s)) = sv_pendingConfigVotes s"
  by (cases "executes env now r s";
      auto simp: handleExecute_executes Let_def elim!: executes_None_cases [where fin = fin])+

section \<open>Replays\<close>

text \<open>What an event does to the record of executed requests.\<close>

definition executedOp ::
    "('a, 'pk, 'ct, 'sh) ServerEnv \<Rightarrow> serverEvent \<Rightarrow> 'a enclaveServer \<Rightarrow> (bytes, unit) cacheOp option" where
  "executedOp env e s = (case e of
     SExecute now fin r \<Rightarrow> (case executes env now r s of
         None \<Rightarrow> None
       | Some (hash, _) \<Rightarrow> (case fst (handleExecute env now fin r s) of
             ExecDone _ _ \<Rightarrow> Some (OSet fin hash () None)
           | _ \<Rightarrow> None))
   | SCollect now \<Rightarrow> Some (OTick now)
   | _ \<Rightarrow> None)"

lemma handleExecute_executedReqs:
  "sv_executedReqs (snd (handleExecute env now fin r s)) =
    (case executedOp env (SExecute now fin r) s of
       None \<Rightarrow> sv_executedReqs s
     | Some op \<Rightarrow> applyOp op (sv_executedReqs s))"
  by (cases "executes env now r s")
    (auto simp: executedOp_def handleExecute_not_executed handleExecute_executes Let_def runApp_executed
      split: execResponse.split)

lemma selectKeypairs_state: "\<exists>kc. snd (selectKeypairs env now param s) = s\<lparr>sv_keychain := kc\<rparr>"
  by (cases "GetKeyPairForRequest now (the (parseRequestID env param)) (sv_keychain s)")
    (auto simp: selectKeypairs_def intro: exI [of _ "sv_keychain s"] split: option.split sum.split)

lemma attestPublicKeys_state:
  "\<exists>c. snd (attestPublicKeys env now d s) = s\<lparr>sv_pubKeyAttestations := c\<rparr>"
  by (auto simp: attestPublicKeys_def intro: exI [of _ "sv_pubKeyAttestations s"] split: option.split)

lemma getPublicKeys_state: "\<exists>kc c. snd (handleGetPublicKeys env now r s) =
    s\<lparr>sv_keychain := kc, sv_pubKeyAttestations := c\<rparr>"
proof -
  obtain res s' where sel: "selectKeypairs env now (rq_RequestIDParam r) s = (res, s')" by fastforce
  then obtain kc where s': "s' = s\<lparr>sv_keychain := kc\<rparr>"
    using selectKeypairs_state [of env now "rq_RequestIDParam r" s] by auto
  have id: "s = s\<lparr>sv_keychain := sv_keychain s, sv_pubKeyAttestations := sv_pubKeyAttestations s\<rparr>"
    "s' = s\<lparr>sv_keychain := kc, sv_pubKeyAttestations := sv_pubKeyAttestations s\<rparr>"
    using s' by simp_all
  define d where "d = PublicKeyHash (env_H env) (publicKeysOf (sv_config s) (projr res))"
  obtain oatt s'' where att: "attestPublicKeys env now d s' = (oatt, s'')" by fastforce
  then obtain c where "s'' = s\<lparr>sv_keychain := kc, sv_pubKeyAttestations := c\<rparr>"
    using attestPublicKeys_state [of env now d s'] s' by auto
  with id sel att have "snd (handleGetPublicKeys env now r s) \<in> {s, s', s''}"
    by (auto simp: handleGetPublicKeys_def Let_def d_def split: sum.split option.split)
  with id \<open>s'' = _\<close> show ?thesis by (metis insertE singletonD)
qed

lemma getPublicKeys_fields [simp]:
  "sv_executedReqs (snd (handleGetPublicKeys env now r s)) = sv_executedReqs s"
  "sv_config (snd (handleGetPublicKeys env now r s)) = sv_config s"
  "sv_configSet (snd (handleGetPublicKeys env now r s)) = sv_configSet s"
  "sv_allowReconfig (snd (handleGetPublicKeys env now r s)) = sv_allowReconfig s"
  "sv_pendingConfigVotes (snd (handleGetPublicKeys env now r s)) = sv_pendingConfigVotes s"
  "sv_app (snd (handleGetPublicKeys env now r s)) = sv_app s"
  using getPublicKeys_state [of env now r s] by auto

lemma setConfig_fields [simp]:
  "sv_executedReqs (snd (handleSetConfig env r s)) = sv_executedReqs s"
  "sv_allowReconfig (snd (handleSetConfig env r s)) = sv_allowReconfig s"
  "sv_pendingConfigVotes (snd (handleSetConfig env r s)) = sv_pendingConfigVotes s"
  "sv_keychain (snd (handleSetConfig env r s)) = sv_keychain s"
  by (simp_all add: handleSetConfig_def Let_def split: option.split)

lemma injectSettings_fields [simp]:
  "sv_executedReqs (snd (handleInjectSettings env r s)) = sv_executedReqs s"
  "sv_config (snd (handleInjectSettings env r s)) = sv_config s"
  "sv_configSet (snd (handleInjectSettings env r s)) = sv_configSet s"
  "sv_allowReconfig (snd (handleInjectSettings env r s)) = sv_allowReconfig s"
  "sv_pendingConfigVotes (snd (handleInjectSettings env r s)) = sv_pendingConfigVotes s"
  by (simp_all add: handleInjectSettings_def split: option.split prod.split)

lemma recordVote_fields [simp]:
  "sv_executedReqs (snd (recordVote env now nc pk s)) = sv_executedReqs s"
  "sv_configSet (snd (recordVote env now nc pk s)) = sv_configSet s"
  "sv_allowReconfig (snd (recordVote env now nc pk s)) = sv_allowReconfig s"
  "sv_keychain (snd (recordVote env now nc pk s)) = sv_keychain s"
  by (simp_all add: recordVote_def Let_def split: option.split)

lemma updateConfig_fields [simp]:
  "sv_executedReqs (snd (handleUpdateConfig env now r s)) = sv_executedReqs s"
  "sv_configSet (snd (handleUpdateConfig env now r s)) = sv_configSet s"
  "sv_allowReconfig (snd (handleUpdateConfig env now r s)) = sv_allowReconfig s"
  by (simp_all add: handleUpdateConfig_def split: option.split prod.split verifyResult.split)

lemma serve_executedReqs:
  "sv_executedReqs (serve env e s) = (case executedOp env e s of
     None \<Rightarrow> sv_executedReqs s | Some op \<Rightarrow> applyOp op (sv_executedReqs s))"
  by (cases e) (simp_all add: handleExecute_executedReqs, simp_all add: executedOp_def serverGC_def serverKeychainEvent_def)

text \<open>Until \<open>t\<close>, the hash \<open>h\<close> is recorded as executed and at most \<open>r\<close> records are newer.\<close>

definition recorded :: "time \<Rightarrow> bytes \<Rightarrow> nat \<Rightarrow> 'a enclaveServer \<Rightarrow> bool" where
  "recorded t h r s \<longleftrightarrow> cache_inv (sv_executedReqs s) \<and>
     ca_maxEntries (sv_executedReqs s) = MaxReplayCacheEntries \<and> recent h r (ca_keyList (sv_executedReqs s)) \<and>
     (\<exists>it. ca_items (sv_executedReqs s) h = Some it \<and> \<not> expired t it)"

lemma recorded_check: "recorded t h r s \<Longrightarrow> now \<le> t \<Longrightarrow> checkExecuted now h s"
  by (auto simp: recorded_def checkExecuted_def Cache_Get_def dest: not_expired_earlier)

fun eventBy :: "time \<Rightarrow> serverEvent \<Rightarrow> bool" where
  "eventBy t (SExecute now fin r) = (now \<le> t)"
| "eventBy t (SCollect now) = (now \<le> t)"
| "eventBy t _ = True"

fun executions :: "serverEvent \<Rightarrow> nat" where
  "executions (SExecute _ _ _) = 1"
| "executions _ = 0"

lemma recorded_op:
  assumes rec: "recorded t h r s" and op: "unrelated h t op"
    and room: "int (r + adds op) < MaxReplayCacheEntries - MaxReplayCacheEntries div 10"
    and ex: "sv_executedReqs s' = applyOp op (sv_executedReqs s)"
  shows "recorded t h (r + adds op) s'"
proof -
  from rec obtain it where "cache_inv (sv_executedReqs s)" "recent h r (ca_keyList (sv_executedReqs s))"
    "ca_items (sv_executedReqs s) h = Some it" "\<not> expired t it"
    and max: "ca_maxEntries (sv_executedReqs s) = MaxReplayCacheEntries"
    unfolding recorded_def by blast
  with op room applyOp_keeps [of "sv_executedReqs s" h t op r it] show ?thesis
    by (simp add: recorded_def ex applyOp_inv)
qed

lemma recorded_mono: "recorded t h r s \<Longrightarrow> r \<le> r' \<Longrightarrow> recorded t h r' s"
  by (auto simp: recorded_def intro: recent_mono)

lemma recorded_serve:
  assumes rec: "recorded t h r s" and "eventBy t e"
    and room: "int (r + executions e) < MaxReplayCacheEntries - MaxReplayCacheEntries div 10"
  shows "recorded t h (r + executions e) (serve env e s)"
proof (cases "executedOp env e s")
  case None
  then have "recorded t h r (serve env e s)" using rec by (simp add: recorded_def serve_executedReqs)
  then show ?thesis by (rule recorded_mono) simp
next
  case (Some op)
  have "unrelated h t op \<and> adds op \<le> executions e"
  proof (cases e)
    case (SExecute now fin q)
    with Some obtain hash x where op: "op = OSet fin hash () None" and ex: "executes env now q s = Some (hash, x)"
      by (auto simp: executedOp_def split: option.splits execResponse.splits)
    from ex have "\<not> checkExecuted now hash s"
      by (auto simp: executes_def split: sum.splits prod.splits if_splits)
    with recorded_check [OF rec, of now] assms(2) SExecute have "hash \<noteq> h" by auto
    with op SExecute show ?thesis by simp
  qed (use Some assms(2) in \<open>auto simp: executedOp_def\<close>)
  with recorded_op [OF rec, of op "serve env e s"] Some room show ?thesis
    by (auto simp: serve_executedReqs intro: recorded_mono)
qed

lemma recorded_history:
  assumes "recorded t h r s" "\<forall>e\<in>set es. eventBy t e"
    and "int (r + sum_list (map executions es)) < MaxReplayCacheEntries - MaxReplayCacheEntries div 10"
  shows "\<exists>r'. recorded t h r' (fold (serve env) es s)"
  using assms
proof (induction es arbitrary: s r)
  case (Cons e es)
  then have "recorded t h (r + executions e) (serve env e s)" by (intro recorded_serve) auto
  with Cons.IH [of "r + executions e" "serve env e s"] Cons.prems show ?case by (simp add: add.assoc)
qed auto

section \<open>Votes\<close>

text \<open>The signers of \<open>config\<close> with a signature over the configuration hash \<open>h\<close>.\<close>

definition voted :: "('a, 'pk, 'ct, 'sh) ServerEnv \<Rightarrow> EnclaveConfig \<Rightarrow> bytes \<Rightarrow> bytes set" where
  "voted env config h =
     {pk \<in> set (ec_Signers config). \<exists>sig. env_edVerify env pk (votePayload (env_H env) h) sig}"

lemma finite_voted: "finite (voted env config h)"
  by (simp add: voted_def)

text \<open>
  What holds of an enclave that cannot be reconfigured: every pending vote comes
  from a signer of the configuration in force, and there are none before the
  first configuration.
\<close>

definition vote_inv :: "('a, 'pk, 'ct, 'sh) ServerEnv \<Rightarrow> 'a enclaveServer \<Rightarrow> bool" where
  "vote_inv env s \<longleftrightarrow> \<not> sv_allowReconfig s \<and> store_inv (sv_pendingConfigVotes s) \<and>
     cs.holds_all (\<lambda>h vs. vs \<subseteq> env_H env ` voted env (sv_config s) h) (sv_pendingConfigVotes s) \<and>
     (\<not> sv_configSet s \<longrightarrow> cs.holds_all (\<lambda>h vs. False) (sv_pendingConfigVotes s))"

lemma holds_all_False: "cs.holds_all (\<lambda>h vs. False) c \<Longrightarrow> cs.holds_all P c"
  by (simp add: cs.holds_all_def)

lemma store_inv_New: "0 \<le> d \<Longrightarrow> store_inv (NewBoundedCache (Some d) gci m)"
  by (simp add: store_inv_def cache_inv_New) (simp add: NewBoundedCache_def)

lemma store_inv_Flush: "store_inv c \<Longrightarrow> store_inv (Cache_Flush c)"
  by (simp add: store_inv_def cache_inv_Flush) (simp add: Cache_Flush_def)

lemma store_inv_gcTick: "store_inv c \<Longrightarrow> store_inv (gcTick now c)"
  by (simp add: store_inv_def cache_inv_gcTick gcTick_fields(2))

lemma Get_gcTick:
  assumes "cache_inv c" "Cache_Get t k (gcTick now c) = Some v"
  shows "Cache_Get t k c = Some v"
  using assms gcTick_fields(3) [OF assms(1)]
  by (auto simp: Cache_Get_def split: option.splits if_splits)

lemma holds_all_gcTick: "store_inv c \<Longrightarrow> cs.holds_all P c \<Longrightarrow> cs.holds_all P (gcTick now c)"
  unfolding cs.holds_all_def store_inv_def by (meson Get_gcTick)

lemma holds_all_New: "cs.holds_all P (NewBoundedCache ttl gci m)"
  by (simp add: cs.holds_all_def)

lemma holds_all_Flush: "cs.holds_all P (Cache_Flush c)"
  by (simp add: cs.holds_all_def)

lemma vote_inv_New: "vote_inv env (NewEnclaveServer app kc config False)"
  by (simp add: vote_inv_def NewEnclaveServer_def NewCache_def store_inv_New holds_all_New cc_const)

text \<open>The vote set after recording a vote of a current signer.\<close>

definition votesAfter :: "('a, 'pk, 'ct, 'sh) ServerEnv \<Rightarrow> time \<Rightarrow> bytes \<Rightarrow> bytes \<Rightarrow> 'a enclaveServer \<Rightarrow> bytes set" where
  "votesAfter env now h signer s = insert (env_H env signer)
     (case Cache_Get now h (sv_pendingConfigVotes s) of None \<Rightarrow> {} | Some v \<Rightarrow> v)"

lemma votesAfter_subset:
  assumes "vote_inv env s" "signer \<in> voted env (sv_config s) h"
  shows "votesAfter env now h signer s \<subseteq> env_H env ` voted env (sv_config s) h"
  using assms cs.holds_all_get [of _ "sv_pendingConfigVotes s" now h]
  by (fastforce simp: votesAfter_def vote_inv_def split: option.splits)

lemma recordVote_cases:
  "sv_config (snd (recordVote env now nc signer s)) =
     (if card (votesAfter env now (EnclaveConfig_Hash (env_H env) nc) signer s) < quorum (sv_config s)
      then sv_config s else nc)"
  "sv_pendingConfigVotes (snd (recordVote env now nc signer s)) =
     (let h = EnclaveConfig_Hash (env_H env) nc;
          c = Cache_Set now h (votesAfter env now h signer s) None (sv_pendingConfigVotes s)
      in if card (votesAfter env now h signer s) < quorum (sv_config s) then c else Cache_Flush c)"
  by (simp_all add: recordVote_def votesAfter_def Let_def split: option.split)

lemma vote_inv_recordVote:
  assumes inv: "vote_inv env s" and set: "sv_configSet s"
    and signer: "signer \<in> voted env (sv_config s) (EnclaveConfig_Hash (env_H env) nc)"
  shows "vote_inv env (snd (recordVote env now nc signer s))"
proof -
  note sub = votesAfter_subset [OF inv signer, of now]
  from inv have "store_inv (sv_pendingConfigVotes s)"
    "cs.holds_all (\<lambda>h vs. vs \<subseteq> env_H env ` voted env (sv_config s) h) (sv_pendingConfigVotes s)"
    by (simp_all add: vote_inv_def)
  with sub inv set show ?thesis
    by (simp add: vote_inv_def recordVote_cases Let_def cs.inv_put cs.holds_all_put store_inv_Flush
        holds_all_Flush)
qed

lemma updateConfig_cases:
  assumes "snd (handleUpdateConfig env now r s) \<noteq> s"
  obtains nc signer where "sv_configSet s"
    "signer \<in> voted env (sv_config s) (EnclaveConfig_Hash (env_H env) nc)"
    "handleUpdateConfig env now r s = recordVote env now nc signer s"
proof -
  from assms obtain nc signature signer where "sv_configSet s"
    and ver: "VerifySignature (env_edVerify env)
        (votePayload (env_H env) (EnclaveConfig_Hash (env_H env) nc)) signature (ec_Signers (sv_config s))
      = VSigner signer"
    and eq: "handleUpdateConfig env now r s = recordVote env now nc signer s"
    by (auto simp: handleUpdateConfig_def split: if_splits option.splits verifyResult.splits)
  moreover have "signer \<in> voted env (sv_config s) (EnclaveConfig_Hash (env_H env) nc)"
    using VerifySignature_signer [OF ver] by (auto simp: voted_def)
  ultimately show thesis using that by blast
qed

lemma vote_inv_serve:
  assumes inv: "vote_inv env s"
  shows "vote_inv env (serve env e s)"
proof (cases e)
  case (SSetConfig r)
  show ?thesis
  proof (cases "sv_configSet s")
    case True
    with inv have "serve env e s = s" using SSetConfig by (simp add: handleSetConfig_def vote_inv_def)
    with inv show ?thesis by simp
  next
    case False
    with inv have "cs.holds_all (\<lambda>h vs. False) (sv_pendingConfigVotes s)" by (simp add: vote_inv_def)
    with inv SSetConfig show ?thesis by (simp add: vote_inv_def holds_all_False)
  qed
next
  case (SUpdateConfig now r)
  show ?thesis
  proof (cases "serve env e s = s")
    case True
    with inv show ?thesis by simp
  next
    case False
    with SUpdateConfig obtain nc signer where "sv_configSet s"
      "signer \<in> voted env (sv_config s) (EnclaveConfig_Hash (env_H env) nc)"
      "serve env e s = snd (recordVote env now nc signer s)"
      by (auto elim: updateConfig_cases)
    with inv vote_inv_recordVote [OF inv] show ?thesis by simp
  qed
next
  case (SCollect now)
  with inv show ?thesis
    by (simp add: vote_inv_def serverGC_def store_inv_gcTick holds_all_gcTick)
qed (use inv in \<open>simp_all add: vote_inv_def handleExecute_fields serverKeychainEvent_def\<close>)

lemma vote_inv_history: "vote_inv env s \<Longrightarrow> vote_inv env (fold (serve env) es s)"
  by (induction es arbitrary: s) (simp_all add: vote_inv_serve)

lemma config_change_quorum:
  assumes inv: "vote_inv env s" and set: "sv_configSet s" and change: "sv_config (serve env e s) \<noteq> sv_config s"
  shows "quorum (sv_config s) \<le>
    card (voted env (sv_config s) (EnclaveConfig_Hash (env_H env) (sv_config (serve env e s))))"
proof (cases e)
  case (SSetConfig r)
  with inv set change show ?thesis by (simp add: handleSetConfig_def vote_inv_def)
next
  case (SUpdateConfig now r)
  with change obtain nc signer where
    signer: "signer \<in> voted env (sv_config s) (EnclaveConfig_Hash (env_H env) nc)"
    and eq: "serve env e s = snd (recordVote env now nc signer s)"
    by (metis serve.simps(4) updateConfig_cases)
  let ?votes = "votesAfter env now (EnclaveConfig_Hash (env_H env) nc) signer s"
  from change eq have "quorum (sv_config s) \<le> card ?votes" "sv_config (serve env e s) = nc"
    by (auto simp: recordVote_cases split: if_splits)
  moreover have "card ?votes \<le> card (voted env (sv_config s) (EnclaveConfig_Hash (env_H env) nc))"
    using votesAfter_subset [OF inv signer, of now] finite_voted by (rule surj_card_le [rotated])
  ultimately show ?thesis by simp
qed (use change in \<open>simp_all add: handleExecute_fields serverGC_def serverKeychainEvent_def\<close>)

section \<open>Decryption of the secrets\<close>

text \<open>The secrets one node's shares yield, if they all aggregate.\<close>

definition nodeSecrets ::
    "('a, 'pk, 'ct, 'sh) ServerEnv \<Rightarrow> time \<Rightarrow> boxKeypair \<Rightarrow> bytes \<Rightarrow> int \<Rightarrow> ComputeRequest
     \<Rightarrow> SignedComputeRequest \<Rightarrow> (string \<rightharpoonup> bytes) option" where
  "nodeSecrets env now keypair mpk T req nodeReq =
     (let shares = cr_EncryptedDecryptionKeyShares (scr_ComputeRequest nodeReq) in
      if length shares \<noteq> length (cr_Ciphertexts req) then None
      else case nodeSecretsLoop env now keypair mpk T Map.empty
                  (zip (cr_Ciphertexts req) (zip (cr_CiphertextNames req) shares)) of
          Inl _ \<Rightarrow> None
        | Inr secrets \<Rightarrow> Some secrets)"

text \<open>The loop returns the result of the first node that yields one; a failure always has a reason.\<close>

lemma secretsLoop_spec:
  "fst (secretsLoop env now keypair mpk T req i lastErr reqs) =
     (case List.map_filter (nodeSecrets env now keypair mpk T req) reqs of [] \<Rightarrow> None | m # _ \<Rightarrow> Some m)"
  "fst (secretsLoop env now keypair mpk T req i lastErr reqs) = None \<Longrightarrow> reqs \<noteq> [] \<or> lastErr \<noteq> None \<Longrightarrow>
     snd (secretsLoop env now keypair mpk T req i lastErr reqs) \<noteq> None"
  by (induction reqs arbitrary: i lastErr)
    (auto simp: List.map_filter_simps nodeSecrets_def Let_def split: sum.splits option.splits)

text \<open>With distinct names, each name is bound to the aggregate of its ciphertext.\<close>

lemma nodeSecretsLoop_lookup:
  assumes "nodeSecretsLoop env now keypair mpk T m xs = Inr m'"
    and "distinct (map (\<lambda>x. fst (snd x)) xs)"
  shows "(\<forall>(c, n, es)\<in>set xs. AggregateShares (env_TDH2 env) c (decryptShares env now keypair es) mpk T
            = Inr (the (m' n)) \<and> m' n \<noteq> None) \<and>
         (\<forall>n. n \<notin> (\<lambda>x. fst (snd x)) ` set xs \<longrightarrow> m' n = m n)"
  using assms
proof (induction xs arbitrary: m)
  case (Cons x xs)
  obtain c n es where x: "x = (c, n, es)" by (cases x) auto
  with Cons.prems obtain sec where agg: "AggregateShares (env_TDH2 env) c (decryptShares env now keypair es) mpk T = Inr sec"
    and rest: "nodeSecretsLoop env now keypair mpk T (m(n \<mapsto> sec)) xs = Inr m'"
    by (auto split: sum.splits)
  from Cons.prems(2) x have "distinct (map (\<lambda>x. fst (snd x)) xs)" "n \<notin> (\<lambda>x. fst (snd x)) ` set xs"
    by auto
  with Cons.IH [OF rest] agg x show ?case by auto
qed simp

lemma verifyLoop_no_panic:
  assumes "\<forall>pk\<in>set signers. length pk = PublicKeySize"
  shows "verifyLoop edVerify h sig signers \<noteq> VPanic"
  using assms by (induction signers) auto

lemma verifyBatch_no_panic:
  assumes "\<forall>pk\<in>set signers. length pk = PublicKeySize"
  shows "verifyBatch env signers hash i acc reqs \<noteq> BatchPanic"
  by (induction reqs arbitrary: i acc)
    (auto simp: Let_def VerifySignature_def verifyLoop_no_panic [OF assms] split: verifyResult.split)

section \<open>Sample environment\<close>

definition toyHash :: "bytes \<Rightarrow> bytes" where
  "toyHash x = (if length x = 32 then x else replicate 31 0 @ [of_nat (length x)])"

definition signedBy :: "byte \<Rightarrow> ComputeRequest \<Rightarrow> SignedComputeRequest" where
  "signedBy b cr = \<lparr>scr_ComputeRequest = cr, scr_Signature = replicate 64 b\<rparr>"

definition sampleBatch :: "SignedComputeRequest list" where
  "sampleBatch = (let cr = sampleRequest\<lparr>cr_EnclaveEphemeralPublicKey := id32 1,
       cr_EncryptedDecryptionKeyShares := [[[1], [2]], [[3], [4]]]\<rparr>
     in [signedBy 1 cr, signedBy 2 cr])"

text \<open>Configurations \<open>[n]\<close>: the sample one with a master key of \<open>n\<close> bytes; a vote is \<open>[n, signer]\<close>.\<close>

definition sampleEnv :: "(nat, bytes, bytes, byte) ServerEnv" where
  "sampleEnv = \<lparr>env_H = toyHash, env_edVerify = toyVerify, env_CreateAttestation = Some,
     env_OpenAnonymous = (\<lambda>c pub priv. Some c), env_TDH2 = toyTDH2,
     env_AppExecute = (\<lambda>rid app pd sec reqs a. (Inr [1, 2], [], Suc a)),
     env_OnConfigUpdate = Some (\<lambda>c a. a), env_InjectSettings = None,
     env_ParseRequests = (\<lambda>b. Some sampleBatch),
     env_ParseConfigRequest = Some,
     env_ParseUpdateRequest = (\<lambda>b. case b of [n, k] \<Rightarrow> Some ([n], replicate 64 k) | _ \<Rightarrow> None),
     env_ParseConfig = (\<lambda>b. case b of
        [n] \<Rightarrow> Some (sampleConfig\<lparr>ec_MasterPublicKey := replicate (unat n) 5\<rparr>)
      | _ \<Rightarrow> None),
     env_HexDecode = (\<lambda>_. None), env_Base64Decode = (\<lambda>_. None), env_MarshalOk = (\<lambda>_. True)\<rparr>"

definition sampleServer :: "nat enclaveServer" where
  "sampleServer = (NewEnclaveServer 0 sampleKeychain sampleConfig False)\<lparr>sv_configSet := True\<rparr>"

definition postRequest :: "bytes \<Rightarrow> HttpRequest" where
  "postRequest b = \<lparr>rq_Method = POST, rq_Body = Some b, rq_RequestIDParam = []\<rparr>"

lemma sample_batch_signers:
  "VerifySignature toyVerify p (replicate 64 1) (ec_Signers sampleConfig) = VSigner (id32 1)"
  "VerifySignature toyVerify p (replicate 64 2) (ec_Signers sampleConfig) = VSigner (id32 2)"
  by (simp_all add: VerifySignature_def toyVerify_def sampleConfig_def id32_def cc_const)

lemma sample_distinct_ids: "id32 1 \<noteq> id32 2"
  by (simp add: id32_def)

lemma sample_admit:
  "\<exists>hash. admitBatch sampleEnv sampleConfig (postRequest b) = Inr (hash, sampleBatch) \<and>
     hash = ComputeRequest_Hash toyHash (scr_ComputeRequest (hd sampleBatch))"
  using sample_distinct_ids
  by (simp add: admitBatch_def postRequest_def sampleEnv_def sampleBatch_def signedBy_def Let_def
      sample_batch_signers quorum_def toyHash_def)
    (simp add: sampleConfig_def id32_def)

lemma sample_keypair: "\<exists>kp. GetKeyPair 5 (id32 1) sampleKeychain = Inr kp \<and> kp_creationTime kp + kp_ttl kp \<ge> 5"
  by (simp add: GetKeyPair_def sampleKeychain_simp Let_def NewBoxKeychain_def NewCache_def
      NewBoundedCache_def Cache_Get_def Cache_Set_def setLocked_def expired_def cc_const)
    (simp add: id32_def)

lemma sample_secrets:
  "prepareSecrets sampleEnv 5 sampleConfig sampleBatch sampleServer =
     Inr [''a'' \<mapsto> [10, 1, 2], ''b'' \<mapsto> [11, 12, 3, 4]]"
proof -
  obtain kp where kp: "GetKeyPair 5 (id32 1) sampleKeychain = Inr kp" "5 \<le> kp_creationTime kp + kp_ttl kp"
    using sample_keypair by blast
  have dec: "decryptShares sampleEnv 5 kp es = es" for es
    using kp(2) by (induction es)
      (simp_all add: decryptShares_def List.map_filter_simps Keypair_Decrypt_def sampleEnv_def)
  have agg: "AggregateShares (env_TDH2 sampleEnv) c [[x], [y]] mpk 2 = Inr (c @ [x, y])"
    if "x \<noteq> 0" "y \<noteq> 0" for c mpk x y
    using that by (simp add: AggregateShares_def TDH2AggregateDecryptionShares_def gatherShares_Cons
        validShare_def sampleEnv_def toyTDH2_def)
  show ?thesis
    using kp
    by (simp add: prepareSecrets_def sampleServer_def NewEnclaveServer_def sampleBatch_def signedBy_def
        sampleRequest_def Let_def dec agg masterKeyFor_def sampleConfig_def)
qed

lemma sample_executes:
  "executes sampleEnv 5 (postRequest b) sampleServer =
     Some (ComputeRequest_Hash toyHash (scr_ComputeRequest (hd sampleBatch)), sampleBatch,
       [''a'' \<mapsto> [10, 1, 2], ''b'' \<mapsto> [11, 12, 3, 4]])"
  using sample_admit [of b] sample_secrets
  by (auto simp: executes_def sampleServer_def NewEnclaveServer_def checkInProgress_def checkExecuted_def)

lemma sample_done:
  "\<exists>er ev. fst (handleExecute sampleEnv 5 6 (postRequest b) sampleServer) = ExecDone er ev"
  by (simp add: handleExecute_executes [OF sample_executes] Let_def runApp_def callApp_def)
    (simp add: sampleEnv_def)

section \<open>Properties\<close>

lemma executed_batch_honest:
  assumes ex: "executes env now r s = Some (hash, reqs, secrets)"
    and "finite bad" "card bad \<le> unat (ec_F (sv_config s))"
  shows "(\<forall>req\<in>set reqs. ComputeRequest_Hash (env_H env) (scr_ComputeRequest req) = hash) \<and>
    (\<exists>pk\<in>set (ec_Signers (sv_config s)) - bad. \<exists>req\<in>set reqs.
       env_edVerify env pk (requestPayload (env_H env) hash) (scr_Signature req))"
proof -
  from ex have admit: "admitBatch env (sv_config s) r = Inr (hash, reqs)"
    by (auto simp: executes_def split: sum.splits prod.splits if_splits)
  let ?S = "batchSigners env (ec_Signers (sv_config s)) (requestPayload (env_H env) hash) reqs"
  have "card bad < card ?S" using admitBatch_Inr(3) [OF admit] assms(3) by (simp add: quorum_def)
  then obtain pk where "pk \<in> ?S" "pk \<notin> bad"
    using card_mono [OF assms(2), of ?S] by (auto simp: not_le [symmetric])
  then show ?thesis
    using admitBatch_Inr(2) [OF admit] VerifySignature_signer unfolding batchSigners_def by fastforce
qed

text \<open>
  C1. The application runs, or a result is returned, only for a batch in which
  every request has the same hash and at least one signer outside any given set
  of \<open>F\<close> faulty ones has signed that hash.
\<close>

theorem execution_needs_honest_signer:
  assumes "sv_app (snd (handleExecute env now fin r s)) \<noteq> sv_app s \<or>
      (\<exists>er ev. fst (handleExecute env now fin r s) = ExecDone er ev)"
    and "finite bad" "card bad \<le> unat (ec_F (sv_config s))"
  shows "\<exists>hash reqs. env_ParseRequests env (the (rq_Body r)) = Some reqs \<and>
    (\<forall>req\<in>set reqs. ComputeRequest_Hash (env_H env) (scr_ComputeRequest req) = hash) \<and>
    (\<exists>pk\<in>set (ec_Signers (sv_config s)) - bad. \<exists>req\<in>set reqs.
       env_edVerify env pk (requestPayload (env_H env) hash) (scr_Signature req))"
proof -
  have "executes env now r s \<noteq> None"
  proof
    assume "executes env now r s = None"
    from handleExecute_not_executed [OF this, of fin] assms(1) show False by auto
  qed
  then obtain hash reqs secrets where ex: "executes env now r s = Some (hash, reqs, secrets)" by auto
  then have "env_ParseRequests env (the (rq_Body r)) = Some reqs"
    by (auto simp: executes_def admitBatch_def Let_def
        split: sum.splits prod.splits if_splits option.splits list.splits batchResult.splits)
  with executed_batch_honest [OF ex assms(2,3)] show ?thesis by blast
qed

theorem execution_needs_honest_signer_witness:
  "\<exists>hash reqs. env_ParseRequests sampleEnv (the (rq_Body (postRequest []))) = Some reqs \<and>
    (\<forall>req\<in>set reqs. ComputeRequest_Hash (env_H sampleEnv) (scr_ComputeRequest req) = hash) \<and>
    (\<exists>pk\<in>set (ec_Signers (sv_config sampleServer)) - {id32 1}. \<exists>req\<in>set reqs.
       env_edVerify sampleEnv pk (requestPayload (env_H sampleEnv) hash) (scr_Signature req))"
  by (rule execution_needs_honest_signer [of sampleEnv 5 6])
    (simp_all add: sample_done, simp add: sampleServer_def NewEnclaveServer_def sampleConfig_def)

text \<open>
  C3. Replay protection: after a successful execution, a batch with the same
  request hash is refused with a conflict and does not reach the application,
  for 24 hours and through every history of requests of all kinds with fewer
  than 450000 executions.
\<close>

theorem replay_rejected:
  assumes "cache_inv (sv_executedReqs s)" "ca_maxEntries (sv_executedReqs s) = MaxReplayCacheEntries"
    and "handleExecute env now fin r s = (ExecDone er ev, s')"
    and "er_RequestHash er \<notin> set (Cache_Keys (sv_executedReqs s))"
    and "t \<le> fin + ca_timeToLive (sv_executedReqs s)"
    and "\<forall>e\<in>set es. eventBy t e" "sum_list (map executions es) < 450000"
    and "admitBatch env (sv_config (fold (serve env) es s')) r' = Inr (er_RequestHash er, reqs)"
  shows "(\<exists>msg ev'. fst (handleExecute env t fin' r' (fold (serve env) es s')) = ExecFail 409 msg ev') \<and>
    sv_app (snd (handleExecute env t fin' r' (fold (serve env) es s'))) = sv_app (fold (serve env) es s')"
proof -
  let ?s = "fold (serve env) es s'" and ?h = "er_RequestHash er"
  obtain hash reqs' secrets where ex: "executes env now r s = Some (hash, reqs', secrets)"
    using handleExecute_not_executed(3) assms(3) by (metis fst_conv not_Some_eq prod_cases3)
  have hash: "hash = ?h"
    using assms(3) ex by (auto simp: handleExecute_executes Let_def runApp_def callApp_def execError_def
        split: prod.splits sum.splits option.splits if_splits)
  have set: "sv_executedReqs s' = Cache_Set fin ?h () None (sv_executedReqs s)"
    using handleExecute_executedReqs [of env now fin r s] assms(3) ex hash by (simp add: executedOp_def)
  have "?h \<notin> dom (ca_items (sv_executedReqs s))"
    using assms(1,4) by (simp add: Cache_Keys_def cache_invD(2))
  then have "recorded t ?h 0 s'"
    using assms(2,5) cache_inv_Set [OF assms(1)] cache_invD(2) [OF assms(1)]
    by (cases rule: setLocked_cases [OF assms(1), of fin ?h "()" None])
      (auto simp: recorded_def set Cache_Set_def expired_def deleteAll_apply recent_def dest: in_set_takeD)
  with assms(6,7) obtain r'' where rec: "recorded t ?h r'' ?s"
    using recorded_history [of t ?h 0 s' es env] by (auto simp: MaxReplayCacheEntries_def)
  then have "checkExecuted t ?h ?s" using recorded_check by blast
  with assms(8) show ?thesis
    by (simp add: handleExecute_def Let_def execError_def)
qed

theorem replay_rejected_witness:
  "let s' = snd (handleExecute sampleEnv 5 6 (postRequest []) sampleServer) in
   \<exists>msg ev'. fst (handleExecute sampleEnv 1000 1001 (postRequest [])
     (fold (serve sampleEnv) [SCollect 500, SExecute 700 701 (postRequest [])] s')) = ExecFail 409 msg ev'"
proof -
  let ?s' = "snd (handleExecute sampleEnv 5 6 (postRequest []) sampleServer)"
  let ?es = "[SCollect 500, SExecute 700 701 (postRequest [])]"
  obtain er ev where done1: "handleExecute sampleEnv 5 6 (postRequest []) sampleServer = (ExecDone er ev, ?s')"
    using sample_done [of "[]"] by (metis prod.collapse)
  have h: "er_RequestHash er = ComputeRequest_Hash toyHash (scr_ComputeRequest (hd sampleBatch))"
    using done1 by (auto simp: handleExecute_executes [OF sample_executes] Let_def runApp_def callApp_def execError_def
        split: prod.splits sum.splits option.splits if_splits)
  have cfg: "sv_config (fold (serve sampleEnv) ?es ?s') = sampleConfig"
    by (simp add: handleExecute_fields serverGC_def sampleServer_def NewEnclaveServer_def)
  have cache: "cache_inv (sv_executedReqs sampleServer)"
    "ca_maxEntries (sv_executedReqs sampleServer) = MaxReplayCacheEntries"
    "er_RequestHash er \<notin> set (Cache_Keys (sv_executedReqs sampleServer))"
    "1000 \<le> 6 + ca_timeToLive (sv_executedReqs sampleServer)"
    by (simp_all add: sampleServer_def NewEnclaveServer_def cache_inv_New)
      (simp_all add: NewBoundedCache_def Cache_Keys_def cc_const)
  have admit: "admitBatch sampleEnv (sv_config (fold (serve sampleEnv) ?es ?s')) (postRequest []) =
      Inr (er_RequestHash er, sampleBatch)"
    unfolding cfg h using sample_admit [of "[]"] by blast
  have "\<forall>e\<in>set ?es. eventBy 1000 e" "sum_list (map executions ?es) < 450000" by simp_all
  from replay_rejected [OF cache(1,2) done1 cache(3,4) this admit] show ?thesis by (simp add: Let_def)
qed

lemma length_EnclaveConfig_preimage:
  "length (EnclaveConfig_preimage ec) =
     67 + sum_list (map (\<lambda>s. 8 + length s) (ec_Signers ec)) + length (ec_MasterPublicKey ec)"
  by (simp add: EnclaveConfig_preimage_def typeTag_def DomainSeparator_def writeEach_def writeWithLength_def
      writeLengthPrefix_def putUint32_def length_concat comp_def)

definition voteRequest :: "bytes \<Rightarrow> HttpRequest" where
  "voteRequest b = \<lparr>rq_Method = PATCH, rq_Body = Some b, rq_RequestIDParam = []\<rparr>"

definition configN :: "nat \<Rightarrow> EnclaveConfig" where
  "configN n = sampleConfig\<lparr>ec_MasterPublicKey := replicate n 5\<rparr>"

lemma configN_hash: "EnclaveConfig_Hash toyHash (configN n) = replicate 31 0 @ [of_nat (227 + n)]"
  by (simp add: EnclaveConfig_Hash_def toyHash_def length_EnclaveConfig_preimage configN_def
      sampleConfig_def id32_def)

lemma configN_fields: "ec_Signers (configN n) = ec_Signers sampleConfig" "quorum (configN n) = 2"
  by (simp_all add: configN_def quorum_def sampleConfig_def)

lemma sampleEnv_parse:
  "env_H sampleEnv = toyHash" "env_edVerify sampleEnv = toyVerify"
  "env_ParseUpdateRequest sampleEnv [n, k] = Some ([n], replicate 64 k)"
  "env_ParseConfig sampleEnv [n] = Some (configN (unat n))"
  by (simp_all add: sampleEnv_def configN_def)

lemma sample_vote:
  assumes "sv_configSet s" "sv_config s = configN 2" "unat n \<noteq> 2" "unat n < 20" "k = 1 \<or> k = 2"
  shows "handleUpdateConfig sampleEnv now (voteRequest [n, k]) s =
    recordVote sampleEnv now (configN (unat n)) (id32 k) s"
proof -
  have val: "unat (of_nat m :: byte) = m" if "m < 256" for m
    using that by (simp add: unat_of_nat)
  have "unat (of_nat (227 + unat n) :: byte) \<noteq> unat (of_nat (227 + 2) :: byte)"
    using assms(3,4) val [of "227 + unat n"] val [of "227 + 2"] by (simp del: of_nat_add of_nat_numeral)
  then have "(of_nat (227 + unat n) :: byte) \<noteq> of_nat (227 + 2)" by metis
  then have "EnclaveConfig_Hash toyHash (configN (unat n)) \<noteq> EnclaveConfig_Hash toyHash (configN 2)"
    by (simp add: configN_hash del: of_nat_add)
  moreover have "VerifySignature toyVerify p (replicate 64 k) (ec_Signers sampleConfig) = VSigner (id32 k)" for p
    using assms(5) sample_batch_signers by auto
  ultimately show ?thesis
    using assms(1,2)
    by (simp add: handleUpdateConfig_def voteRequest_def sampleEnv_parse configN_fields)
qed

text \<open>
  C2. An enclave that does not allow reconfiguration changes a configuration
  that is set only when at least \<open>F + 1\<close> of its current signers have signed the
  new one, whatever has happened before.
\<close>

theorem config_change_needs_quorum:
  assumes "s = fold (serve env) es (NewEnclaveServer app kc config False)"
    and "sv_configSet s" "sv_config (serve env e s) \<noteq> sv_config s"
  shows "unat (ec_F (sv_config s)) + 1 \<le> card {pk \<in> set (ec_Signers (sv_config s)).
    \<exists>sig. env_edVerify env pk
      (votePayload (env_H env) (EnclaveConfig_Hash (env_H env) (sv_config (serve env e s)))) sig}"
  using config_change_quorum [OF vote_inv_history [OF vote_inv_New] assms(2,3) [unfolded assms(1)]]
  unfolding assms(1) voted_def quorum_def .

lemma sample_config_change:
  defines "s0 \<equiv> NewEnclaveServer 0 sampleKeychain zeroConfig False"
  shows "sv_config (serve sampleEnv (SSetConfig (postRequest [2])) s0) = configN 2"
    "sv_configSet (serve sampleEnv (SSetConfig (postRequest [2])) s0)"
    "sv_pendingConfigVotes (serve sampleEnv (SSetConfig (postRequest [2])) s0) = NewCache (Some ConfigVoteTTL) None"
  by (simp_all add: s0_def handleSetConfig_def postRequest_def sampleEnv_def NewEnclaveServer_def configN_def)

theorem config_change_needs_quorum_witness:
  "let s = fold (serve sampleEnv) [SSetConfig (postRequest [2]), SUpdateConfig 10 (voteRequest [3, 1])]
        (NewEnclaveServer 0 sampleKeychain zeroConfig False);
       e = SUpdateConfig 20 (voteRequest [3, 2])
   in sv_config s = configN 2 \<and> sv_config (serve sampleEnv e s) = configN 3 \<and>
     unat (ec_F (sv_config s)) + 1 \<le> card {pk \<in> set (ec_Signers (sv_config s)).
       \<exists>sig. env_edVerify sampleEnv pk (votePayload (env_H sampleEnv)
         (EnclaveConfig_Hash (env_H sampleEnv) (sv_config (serve sampleEnv e s)))) sig}"
proof -
  let ?s0 = "NewEnclaveServer 0 sampleKeychain zeroConfig False"
  let ?s1 = "serve sampleEnv (SSetConfig (postRequest [2])) ?s0"
  let ?s2 = "serve sampleEnv (SUpdateConfig 10 (voteRequest [3, 1])) ?s1"
  let ?e = "SUpdateConfig 20 (voteRequest [3, 2])"
  note H = sampleEnv_parse(1)
  note s1 = sample_config_change
  have s2: "?s2 = snd (recordVote sampleEnv 10 (configN 3) (id32 1) ?s1)"
    using sample_vote [OF s1(2,1), of 3 1 10] by simp
  have s2c: "sv_config ?s2 = configN 2" "sv_configSet ?s2" "sv_pendingConfigVotes ?s2 =
      Cache_Set 10 (EnclaveConfig_Hash toyHash (configN 3)) {id32 1} None (NewCache (Some ConfigVoteTTL) None)"
    unfolding s2 using s1
    by (simp_all add: recordVote_cases votesAfter_def NewCache_def H configN_fields Let_def toyHash_def id32_def)
  have s3: "serve sampleEnv ?e ?s2 = snd (recordVote sampleEnv 20 (configN 3) (id32 2) ?s2)"
    using sample_vote [OF s2c(2,1), of 3 2 20] by simp
  have "sv_config (serve sampleEnv ?e ?s2) = configN 3"
    unfolding s3
    by (simp add: recordVote_cases votesAfter_def s2c H configN_fields Get_Set_same cache_inv_New NewCache_def
        itemTTL_def toyHash_def del: serve.simps) (simp add: NewBoundedCache_def cc_const id32_def)
  moreover have "configN 3 \<noteq> configN 2" by (simp add: configN_def sampleConfig_def)
  ultimately show ?thesis
    using config_change_needs_quorum [of ?s2 sampleEnv "[SSetConfig (postRequest [2]), SUpdateConfig 10 (voteRequest [3, 1])]"
        0 sampleKeychain zeroConfig ?e] s2c
    by (simp add: Let_def del: serve.simps)
qed

text \<open>
  The window for collecting votes restarts with every vote: a pending set of
  votes that is still live when another vote arrives is kept whole for another
  full \<open>ConfigVoteTTL\<close>, however old its first votes are.
\<close>

theorem vote_window_restarts:
  assumes "store_inv (sv_pendingConfigVotes s)" "ca_timeToLive (sv_pendingConfigVotes s) = ConfigVoteTTL"
    and "Cache_Get now (EnclaveConfig_Hash (env_H env) nc) (sv_pendingConfigVotes s) = Some vs"
    and "card (insert (env_H env signer) vs) < quorum (sv_config s)"
  shows "Cache_Get (now + ConfigVoteTTL) (EnclaveConfig_Hash (env_H env) nc)
    (sv_pendingConfigVotes (snd (recordVote env now nc signer s))) = Some (insert (env_H env signer) vs)"
  using assms
  by (simp add: recordVote_cases votesAfter_def Let_def store_inv_def Get_Set_same itemTTL_def)

theorem vote_window_restarts_witness:
  "let s = sampleServer\<lparr>sv_config := sampleConfig\<lparr>ec_F := 2\<rparr>,
         sv_pendingConfigVotes := Cache_Set 0 (EnclaveConfig_Hash toyHash (configN 3)) {id32 1} None
           (NewCache (Some ConfigVoteTTL) None)\<rparr>
   in Cache_Get (9 * minute + ConfigVoteTTL) (EnclaveConfig_Hash toyHash (configN 3))
        (sv_pendingConfigVotes (snd (recordVote sampleEnv (9 * minute) (configN 3) (id32 2) s)))
      = Some {id32 2, id32 1}"
proof -
  let ?c = "Cache_Set 0 (EnclaveConfig_Hash toyHash (configN 3)) {id32 1} None (NewCache (Some ConfigVoteTTL) None)"
  let ?s = "sampleServer\<lparr>sv_config := sampleConfig\<lparr>ec_F := 2\<rparr>, sv_pendingConfigVotes := ?c\<rparr>"
  have "store_inv ?c" "ca_timeToLive ?c = ConfigVoteTTL"
    by (simp_all add: store_inv_def cache_inv_Set cache_inv_New NewCache_def)
      (simp_all add: NewBoundedCache_def cc_const)
  moreover have "Cache_Get (9 * minute) (EnclaveConfig_Hash toyHash (configN 3)) ?c = Some {id32 1}"
    by (simp add: Get_Set_same cache_inv_New NewCache_def itemTTL_def)
      (simp add: NewBoundedCache_def cc_const)
  moreover have "card (insert (toyHash (id32 2)) {id32 1}) < quorum (sampleConfig\<lparr>ec_F := 2\<rparr>)"
    by (simp add: quorum_def toyHash_def id32_def)
  ultimately show ?thesis
    using vote_window_restarts [of ?s "9 * minute" sampleEnv "configN 3" "{id32 1}" "id32 2"]
    by (simp add: Let_def sampleEnv_parse toyHash_def id32_def)
qed

definition otherConfig :: EnclaveConfig where
  "otherConfig = (configN 9)\<lparr>ec_Signers := [id32 2, id32 5, id32 6]\<rparr>"

definition reconfigEnv :: "(nat, bytes, bytes, byte) ServerEnv" where
  "reconfigEnv = sampleEnv\<lparr>env_ParseConfig := (\<lambda>b. case b of
     [n] \<Rightarrow> Some (if n = 9 then otherConfig else configN (unat n)) | _ \<Rightarrow> None)\<rparr>"

text \<open>
  Reconfiguration leaves votes behind: on an enclave that allows it, a vote
  cast by a signer of the previous configuration still counts towards the
  quorum of the next one, so a configuration that needs two current signers is
  replaced on the vote of one.
\<close>

theorem reconfiguration_keeps_votes:
  "let s = fold (serve reconfigEnv) [SSetConfig (postRequest [2]), SUpdateConfig 10 (voteRequest [3, 1]),
          SSetConfig (postRequest [9])] (NewEnclaveServer 0 sampleKeychain zeroConfig True)
   in sv_config s = otherConfig \<and> quorum otherConfig = 2 \<and> id32 1 \<notin> set (ec_Signers otherConfig) \<and>
      sv_config (serve reconfigEnv (SUpdateConfig 20 (voteRequest [3, 2])) s) = configN 3"
proof -
  let ?s1 = "serve reconfigEnv (SSetConfig (postRequest [2])) (NewEnclaveServer 0 sampleKeychain zeroConfig True)"
  let ?s2 = "serve reconfigEnv (SUpdateConfig 10 (voteRequest [3, 1])) ?s1"
  let ?s3 = "serve reconfigEnv (SSetConfig (postRequest [9])) ?s2"
  have env: "env_H reconfigEnv = toyHash" "env_edVerify reconfigEnv = toyVerify"
    "env_ParseUpdateRequest reconfigEnv [n, k] = Some ([n], replicate 64 k)"
    "env_ParseConfig reconfigEnv [3] = Some (configN 3)" for n k
    by (simp_all add: reconfigEnv_def sampleEnv_parse)
  have s1: "sv_config ?s1 = configN 2" "sv_configSet ?s1" "sv_allowReconfig ?s1"
    "sv_pendingConfigVotes ?s1 = NewCache (Some ConfigVoteTTL) None"
    by (simp_all add: handleSetConfig_def postRequest_def reconfigEnv_def sampleEnv_def NewEnclaveServer_def)
  have hash: "EnclaveConfig_Hash toyHash (configN 3) \<noteq> EnclaveConfig_Hash toyHash (configN 2)"
    "EnclaveConfig_Hash toyHash (configN 3) \<noteq> EnclaveConfig_Hash toyHash otherConfig"
    by (simp_all add: configN_hash)
      (simp add: EnclaveConfig_Hash_def toyHash_def length_EnclaveConfig_preimage otherConfig_def configN_def
        id32_def)
  have s2: "?s2 = snd (recordVote reconfigEnv 10 (configN 3) (id32 1) ?s1)"
    using s1 hash by (simp add: handleUpdateConfig_def voteRequest_def env configN_fields sample_batch_signers
        del: serve.simps add: serve.simps(4))
  have s2c: "sv_config ?s2 = configN 2" "sv_configSet ?s2" "sv_allowReconfig ?s2" "sv_pendingConfigVotes ?s2 =
      Cache_Set 10 (EnclaveConfig_Hash toyHash (configN 3)) {id32 1} None (NewCache (Some ConfigVoteTTL) None)"
    unfolding s2 using s1
    by (simp_all add: recordVote_cases votesAfter_def NewCache_def env configN_fields Let_def toyHash_def id32_def
        del: serve.simps)
  have s3c: "sv_config ?s3 = otherConfig" "sv_configSet ?s3" "sv_pendingConfigVotes ?s3 = sv_pendingConfigVotes ?s2"
    using s2c by (simp_all add: handleSetConfig_def postRequest_def reconfigEnv_def sampleEnv_def
        del: serve.simps(4))
  have s4: "serve reconfigEnv (SUpdateConfig 20 (voteRequest [3, 2])) ?s3 =
      snd (recordVote reconfigEnv 20 (configN 3) (id32 2) ?s3)"
  proof -
    have "VerifySignature toyVerify p (replicate 64 2) (ec_Signers otherConfig) = VSigner (id32 2)" for p
      by (simp add: VerifySignature_def toyVerify_def otherConfig_def id32_def cc_const)
    with s3c hash show ?thesis
      by (simp add: handleUpdateConfig_def voteRequest_def env del: serve.simps add: serve.simps(4))
  qed
  have q: "quorum otherConfig = 2" by (simp add: otherConfig_def quorum_def configN_def sampleConfig_def)
  have "sv_config (serve reconfigEnv (SUpdateConfig 20 (voteRequest [3, 2])) ?s3) = configN 3"
    unfolding s4
    by (simp add: recordVote_cases votesAfter_def s3c s2c env q Get_Set_same cache_inv_New NewCache_def
        itemTTL_def toyHash_def del: serve.simps) (simp add: NewBoundedCache_def cc_const id32_def)
  then show ?thesis
    using s3c q by (simp add: Let_def del: serve.simps) (simp add: otherConfig_def id32_def)
qed



text \<open>
  C21. A successful response is what the application returned on the decrypted
  secrets of the first request, carries that request's hash and the
  configuration in force, and its attestation is over exactly its contents.
\<close>

theorem execute_response_attested:
  assumes "handleExecute env now fin r s = (ExecDone er ev, s')"
  shows "\<exists>reqs secrets a. executes env now r s = Some (er_RequestHash er, reqs, secrets) \<and>
    (let req = scr_ComputeRequest (hd reqs) in
      env_AppExecute env (cr_RequestID req) (cr_AppID req) (cr_PublicData req) secrets reqs (sv_app s)
        = (Inr (er_Output er), a, sv_app s') \<and>
      er_RequestID er = cr_RequestID req \<and> er_RequestHash er = ComputeRequest_Hash (env_H env) req \<and>
      er_Config er = sv_config s \<and>
      env_CreateAttestation env (ExecuteResponse_UserDataHash (env_H env) (cr_Version req) er)
        = Some (er_Attestation er))"
proof -
  from assms obtain hash reqs secrets where ex: "executes env now r s = Some (hash, reqs, secrets)"
    using handleExecute_not_executed(3) by (metis fst_conv not_Some_eq prod_cases3)
  then have "reqs \<noteq> []" "ComputeRequest_Hash (env_H env) (scr_ComputeRequest (hd reqs)) = hash"
    using admitBatch_Inr(1,2) [of env "sv_config s" r hash reqs]
    by (auto simp: executes_def split: sum.splits prod.splits if_splits)
  moreover have "ExecuteResponse_UserDataHash H v (x\<lparr>er_Attestation := att\<rparr>) = ExecuteResponse_UserDataHash H v x"
    for H v x att by (simp add: ExecuteResponse_UserDataHash_def ExecuteResponse_preimage_def)
  ultimately show ?thesis
    using assms ex
    by (auto simp: handleExecute_executes runApp_def callApp_def execError_def Let_def ExecuteResponse_UserDataHash_def
        ExecuteResponse_preimage_def split: prod.splits sum.splits option.splits if_splits)
qed

theorem execute_response_attested_witness:
  "\<exists>er ev s' reqs secrets. handleExecute sampleEnv 5 6 (postRequest []) sampleServer = (ExecDone er ev, s') \<and>
     executes sampleEnv 5 (postRequest []) sampleServer = Some (er_RequestHash er, reqs, secrets) \<and>
     er_Config er = sv_config sampleServer"
proof -
  obtain er ev s' where e: "handleExecute sampleEnv 5 6 (postRequest []) sampleServer = (ExecDone er ev, s')"
    using sample_done [of "[]"] by (metis prod.collapse)
  with execute_response_attested [OF e] show ?thesis by (auto simp: Let_def)
qed



end
