(* ===== verification/CC_ServerConc.thy ===== *)
theory CC_ServerConc
  imports CC_Server
begin

text \<open>
  Concurrent calls of the execute handler. \<^verbatim>\<open>handleExecute\<close> takes
  \<^verbatim>\<open>reqsLock\<close> separately for each access to the two request caches, so other
  goroutines run between its phases. A handler in flight is a \<open>phase\<close>; one step
  of one handler, or any other request, is a transition. The lemmas show that a
  handler running alone is \<open>handleExecute\<close>, what the recorded executions still
  guarantee under interleaving, and that two handlers can pass the in-progress
  check together.
\<close>

section \<open>Phases of one handler\<close>

datatype phase =
    Idle HttpRequest
  | Admitted EnclaveConfig bytes "SignedComputeRequest list"
  | Unmarked EnclaveConfig bytes "SignedComputeRequest list"
  | Marked EnclaveConfig bytes "SignedComputeRequest list"
  | Ready EnclaveConfig bytes "SignedComputeRequest list"
  | Called bytes execResponse
  | Ran bytes execResponse
  | Finished execResponse

text \<open>One critical section, or the work between two of them. The third component is a call of the application.\<close>

fun handlerStep ::
    "('a, 'pk, 'ct, 'sh) ServerEnv \<Rightarrow> time \<Rightarrow> time \<Rightarrow> phase \<Rightarrow> 'a enclaveServer
     \<Rightarrow> phase \<times> 'a enclaveServer \<times> bytes option" where
  "handlerStep env now fin (Idle r) s = (case admitBatch env (EnclaveConfig_Copy (Some (sv_config s))) r of
     Inl resp \<Rightarrow> (Finished resp, s, None)
   | Inr (hash, reqs) \<Rightarrow> (Admitted (EnclaveConfig_Copy (Some (sv_config s))) hash reqs, s, None))"
| "handlerStep env now fin (Admitted config hash reqs) s =
     (if checkInProgress now hash s
      then (Finished (execError admittedEvents 409 ''request is already being processed''), s, None)
      else (Unmarked config hash reqs, s, None))"
| "handlerStep env now fin (Unmarked config hash reqs) s =
     (Marked config hash reqs, markInProgress now hash s, None)"
| "handlerStep env now fin (Marked config hash reqs) s =
     (if checkExecuted now hash s
      then (Ran hash (execError admittedEvents 409
             ''replay detected: request hash has already been executed''), s, None)
      else (Ready config hash reqs, s, None))"
| "handlerStep env now fin (Ready config hash reqs) s = (case prepareSecrets env now config reqs s of
     Inl resp \<Rightarrow> (Ran hash resp, s, None)
   | Inr secrets \<Rightarrow> (case callApp env config hash reqs secrets s of
       (resp, s') \<Rightarrow> (Called hash resp, s', Some hash)))"
| "handlerStep env now fin (Called hash resp) s = (Ran hash resp, recordExecuted fin hash resp s, None)"
| "handlerStep env now fin (Ran hash resp) s = (Finished resp, unmarkInProgress hash s, None)"
| "handlerStep env now fin (Finished resp) s = (Finished resp, s, None)"

section \<open>Interleavings\<close>

text \<open>The server, its handlers in flight, and the log of application calls, newest first.\<close>

record 'a conc =
  co_server :: "'a enclaveServer"
  co_threads :: "nat \<Rightarrow> phase"
  co_log :: "(nat \<times> bytes) list"

datatype label =
    LThread nat time time
  | LServe serverEvent

inductive cstep :: "('a, 'pk, 'ct, 'sh) ServerEnv \<Rightarrow> label \<Rightarrow> 'a conc \<Rightarrow> 'a conc \<Rightarrow> bool" for env where
  thread: "handlerStep env now fin (co_threads \<sigma> i) (co_server \<sigma>) = (ph, s, call) \<Longrightarrow>
    cstep env (LThread i now fin) \<sigma>
      (\<sigma>\<lparr>co_server := s, co_threads := (co_threads \<sigma>)(i := ph),
         co_log := (case call of None \<Rightarrow> co_log \<sigma> | Some h \<Rightarrow> (i, h) # co_log \<sigma>)\<rparr>)"
| serve: "(\<And>now fin r. e \<noteq> SExecute now fin r) \<Longrightarrow>
    cstep env (LServe e) \<sigma> (\<sigma>\<lparr>co_server := serve env e (co_server \<sigma>)\<rparr>)"

inductive ctrace :: "('a, 'pk, 'ct, 'sh) ServerEnv \<Rightarrow> 'a conc \<Rightarrow> label list \<Rightarrow> 'a conc \<Rightarrow> bool" for env where
  nil: "ctrace env \<sigma> [] \<sigma>"
| snoc: "ctrace env \<sigma> ls \<sigma>' \<Longrightarrow> cstep env l \<sigma>' \<sigma>'' \<Longrightarrow> ctrace env \<sigma> (ls @ [l]) \<sigma>''"

inductive_cases cstepE [elim!]: "cstep env (LThread i now fin) \<sigma> \<sigma>'" "cstep env (LServe e) \<sigma> \<sigma>'"

text \<open>One handler running without interference: at most seven steps.\<close>

primrec runAlone ::
    "('a, 'pk, 'ct, 'sh) ServerEnv \<Rightarrow> time \<Rightarrow> time \<Rightarrow> nat \<Rightarrow> phase \<Rightarrow> 'a enclaveServer
     \<Rightarrow> phase \<times> 'a enclaveServer" where
  "runAlone env now fin 0 ph s = (ph, s)"
| "runAlone env now fin (Suc n) ph s =
     (case handlerStep env now fin ph s of (ph', s', _) \<Rightarrow> runAlone env now fin n ph' s')"

section \<open>Lemmas\<close>

lemma runAlone_Finished [simp]: "runAlone env now fin n (Finished resp) s = (Finished resp, s)"
  by (induction n) simp_all

lemma ctrace_step: "cstep env l \<sigma> \<sigma>' \<Longrightarrow> ctrace env \<sigma> [l] \<sigma>'"
  using ctrace.snoc [OF ctrace.nil] by simp

text \<open>Hash \<open>h\<close> is recorded until \<open>t\<close>, in a cache with the server's time to live.\<close>

definition keeps :: "time \<Rightarrow> bytes \<Rightarrow> nat \<Rightarrow> 'a enclaveServer \<Rightarrow> bool" where
  "keeps t h r s \<longleftrightarrow> recorded t h r s \<and> ca_timeToLive (sv_executedReqs s) = DefaultKeypairExpiration"

text \<open>A step that reads the clock by \<open>t\<close> and records no earlier than 24 hours before it.\<close>

fun labelBy :: "time \<Rightarrow> label \<Rightarrow> bool" where
  "labelBy t (LThread i now fin) = (now \<le> t \<and> t \<le> fin + DefaultKeypairExpiration)"
| "labelBy t (LServe e) = eventBy t e"

fun readyFor :: "bytes \<Rightarrow> phase \<Rightarrow> bool" where
  "readyFor h (Ready _ h' _) = (h' = h)"
| "readyFor h _ = False"

lemma keeps_mono: "keeps t h r s \<Longrightarrow> r \<le> r' \<Longrightarrow> keeps t h r' s"
  by (auto simp: keeps_def intro: recorded_mono)

lemma keeps_cong:
  assumes "sv_executedReqs s' = sv_executedReqs s"
  shows "keeps t h r s' = keeps t h r s"
  using assms by (simp add: keeps_def recorded_def)

lemma recent_nonempty: "recent k r ks \<Longrightarrow> k \<in> set ks"
  by (auto simp: recent_def dest: in_set_dropD)

text \<open>Recording any hash, \<open>h\<close> itself included, keeps the record of \<open>h\<close>.\<close>

lemma keeps_record:
  assumes k: "keeps t h r s" and t: "t \<le> fin + DefaultKeypairExpiration"
    and room: "int (r + 1) < MaxReplayCacheEntries - MaxReplayCacheEntries div 10"
  shows "keeps t h (r + 1) (recordExecuted fin hash resp s)"
proof (cases "\<exists>er ev. resp = ExecDone er ev")
  case False
  then have "sv_executedReqs (recordExecuted fin hash resp s) = sv_executedReqs s"
    by (auto simp: recordExecuted_def split: execResponse.split)
  from keeps_cong [OF this, of t h "r + 1"] keeps_mono [OF k, of "r + 1"] show ?thesis by simp
next
  case True
  let ?c = "sv_executedReqs s" and ?s' = "recordExecuted fin hash resp s"
  from True have c': "sv_executedReqs ?s' = Cache_Set fin hash () None ?c"
    by (auto simp: recordExecuted_def)
  show ?thesis
  proof (cases "hash = h")
    case False
    from k have "recorded t h r s" by (simp add: keeps_def)
    from recorded_op [OF this, of "OSet fin hash () None" ?s'] False room c' have "recorded t h (r + 1) ?s'"
      by simp
    with k c' show ?thesis by (simp add: keeps_def)
  next
    case True
    from k have inv: "cache_inv ?c" and rec: "recent h r (ca_keyList ?c)" and "h \<in> dom (ca_items ?c)"
      and ttl: "ca_timeToLive ?c = DefaultKeypairExpiration"
      by (auto simp: keeps_def recorded_def)
    with True have "ca_items (Cache_Set fin hash () None ?c) h = Some \<lparr>ci_Value = (), ci_CreationTime = fin,
        ci_TimeToLive = DefaultKeypairExpiration\<rparr> \<and> ca_keyList (Cache_Set fin hash () None ?c) = ca_keyList ?c"
      by (cases rule: setLocked_cases [OF inv, of fin hash "()" None]) (auto simp: Cache_Set_def)
    with k c' t rec cache_inv_Set [OF inv] show ?thesis
      by (auto simp: keeps_def recorded_def expired_def intro: recent_mono)
  qed
qed

text \<open>A step of a handler keeps the record, makes no handler ready for \<open>h\<close>, and calls the application for \<open>h\<close> only from a ready one.\<close>

lemma keeps_handlerStep:
  assumes k: "keeps t h r s" and step: "handlerStep env now fin ph s = (ph', s', call)"
    and "now \<le> t" "t \<le> fin + DefaultKeypairExpiration"
    and room: "int (r + 1) < MaxReplayCacheEntries - MaxReplayCacheEntries div 10"
  shows "keeps t h (r + 1) s' \<and> \<not> readyFor h ph' \<and> (call = Some h \<longrightarrow> readyFor h ph)"
proof (cases ph)
  case (Called hash resp)
  with step keeps_record [OF k assms(4) room] show ?thesis by auto
next
  case (Marked config hash reqs)
  have "checkExecuted now h s" using k recorded_check [OF _ assms(3)] by (auto simp: keeps_def)
  with Marked step keeps_mono [OF k, of "r + 1"] show ?thesis by (auto split: if_splits)
next
  case (Ready config hash reqs)
  have "sv_executedReqs s' = sv_executedReqs s"
    using Ready step by (auto split: sum.splits prod.splits dest: arg_cong [of _ _ snd])
      (metis callApp_fields(6) snd_conv)
  from keeps_cong [OF this, of t h "r + 1"] keeps_mono [OF k, of "r + 1"] Ready step show ?thesis
    by (auto split: sum.splits prod.splits)
next
  case (Unmarked config hash reqs)
  with step keeps_mono [OF k, of "r + 1"] show ?thesis by (auto simp: keeps_def recorded_def)
next
  case (Ran hash resp)
  with step keeps_mono [OF k, of "r + 1"] show ?thesis by (auto simp: keeps_def recorded_def)
qed (use step keeps_mono [OF k, of "r + 1"] in \<open>auto split: sum.splits if_splits\<close>)

lemma keeps_serve:
  assumes k: "keeps t h r s" and "eventBy t e" "\<And>now fin r. e \<noteq> SExecute now fin r"
    and room: "int r < MaxReplayCacheEntries - MaxReplayCacheEntries div 10"
  shows "keeps t h r (serve env e s)"
proof -
  have ex: "executions e = 0" using assms(3) by (cases e) auto
  have "recorded t h r (serve env e s)"
    using recorded_serve [of t h r s e env] k assms(2) room ex by (simp add: keeps_def)
  moreover have "executedOp env e s \<in> {None} \<union> range (\<lambda>now. Some (OTick now))"
    using assms(3) by (cases e) (auto simp: executedOp_def)
  then have "ca_timeToLive (sv_executedReqs (serve env e s)) = ca_timeToLive (sv_executedReqs s)"
    using k by (auto simp: serve_executedReqs keeps_def recorded_def gcTick_fields)
  ultimately show ?thesis using k by (simp add: keeps_def)
qed

lemma ctrace_keeps:
  assumes "ctrace env \<sigma> ls \<sigma>'" "keeps t h r (co_server \<sigma>)" "\<forall>l\<in>set ls. labelBy t l"
    and "int (r + length ls) < MaxReplayCacheEntries - MaxReplayCacheEntries div 10"
  shows "keeps t h (r + length ls) (co_server \<sigma>') \<and>
    (\<forall>i. readyFor h (co_threads \<sigma>' i) \<longrightarrow> readyFor h (co_threads \<sigma> i)) \<and>
    (\<exists>new. co_log \<sigma>' = new @ co_log \<sigma> \<and> (\<forall>i. (i, h) \<in> set new \<longrightarrow> readyFor h (co_threads \<sigma> i)))"
  using assms
proof (induction rule: ctrace.induct)
  case (snoc \<sigma> ls \<sigma>' l \<sigma>'')
  then have IH: "keeps t h (r + length ls) (co_server \<sigma>')"
    "\<And>i. readyFor h (co_threads \<sigma>' i) \<Longrightarrow> readyFor h (co_threads \<sigma> i)"
    and room: "int ((r + length ls) + 1) < MaxReplayCacheEntries - MaxReplayCacheEntries div 10"
    by auto
  from snoc obtain new where new: "co_log \<sigma>' = new @ co_log \<sigma>"
    "\<And>i. (i, h) \<in> set new \<Longrightarrow> readyFor h (co_threads \<sigma> i)" by auto
  show ?case
  proof (cases l)
    case (LThread i now fin)
    with snoc.hyps(2) obtain ph s call where
      step: "handlerStep env now fin (co_threads \<sigma>' i) (co_server \<sigma>') = (ph, s, call)"
      and \<sigma>'': "\<sigma>'' = \<sigma>'\<lparr>co_server := s, co_threads := (co_threads \<sigma>')(i := ph),
         co_log := (case call of None \<Rightarrow> co_log \<sigma>' | Some h \<Rightarrow> (i, h) # co_log \<sigma>')\<rparr>" by auto
    from snoc.prems(2) LThread have "now \<le> t" "t \<le> fin + DefaultKeypairExpiration" by auto
    note step' = keeps_handlerStep [OF IH(1) step this room]
    have "\<exists>new'. co_log \<sigma>'' = new' @ co_log \<sigma> \<and> (\<forall>j. (j, h) \<in> set new' \<longrightarrow> readyFor h (co_threads \<sigma> j))"
      using new step' IH(2) \<sigma>''
      by (cases call) (auto intro: exI [of _ "(i, the call) # new"] exI [of _ new])
    with step' IH(2) \<sigma>'' show ?thesis by (auto simp: add.assoc)
  next
    case (LServe e)
    with snoc.hyps(2) have e: "\<And>now fin r. e \<noteq> SExecute now fin r"
      and \<sigma>'': "\<sigma>'' = \<sigma>'\<lparr>co_server := serve env e (co_server \<sigma>')\<rparr>" by auto
    from snoc.prems(2) LServe have "eventBy t e" by auto
    from keeps_serve [OF IH(1) this e] room have "keeps t h (r + length ls) (serve env e (co_server \<sigma>'))" by simp
    then have "keeps t h (r + length (ls @ [l])) (co_server \<sigma>'')" using \<sigma>'' by (auto intro: keeps_mono)
    with IH(2) new \<sigma>'' show ?thesis by auto
  qed
qed auto

text \<open>Schedules of handlers at one instant, executed.\<close>

definition schedule1 :: "('a, 'pk, 'ct, 'sh) ServerEnv \<Rightarrow> time \<Rightarrow> time \<Rightarrow> nat \<Rightarrow> 'a conc \<Rightarrow> 'a conc" where
  "schedule1 env now fin i \<sigma> = (case handlerStep env now fin (co_threads \<sigma> i) (co_server \<sigma>) of
     (ph, s, call) \<Rightarrow> \<sigma>\<lparr>co_server := s, co_threads := (co_threads \<sigma>)(i := ph),
        co_log := (case call of None \<Rightarrow> co_log \<sigma> | Some h \<Rightarrow> (i, h) # co_log \<sigma>)\<rparr>)"

lemma cstep_schedule1: "cstep env (LThread i now fin) \<sigma> (schedule1 env now fin i \<sigma>)"
  by (cases "handlerStep env now fin (co_threads \<sigma> i) (co_server \<sigma>)")
    (auto simp: schedule1_def intro: cstep.thread)

lemma ctrace_schedule:
  "ctrace env \<sigma> (map (\<lambda>i. LThread i now fin) is) (fold (schedule1 env now fin) is \<sigma>)"
proof (induction "is" rule: rev_induct)
  case (snoc i "is")
  from ctrace.snoc [OF this cstep_schedule1 [of env i now fin]] show ?case by simp
qed (simp add: ctrace.nil)

lemma prepareSecrets_keychain:
  assumes "sv_keychain s' = sv_keychain s"
  shows "prepareSecrets env now config reqs s' = prepareSecrets env now config reqs s"
  using assms by (simp add: prepareSecrets_def Let_def)

section \<open>Properties\<close>


text \<open>
  C17. Once a hash is recorded as executed, no handler that has not already passed
  the replay check calls the application for it again, under every interleaving
  of handlers and other requests within the next 24 hours and 450000 steps.
\<close>

theorem no_execution_after_record:
  assumes "ctrace env \<sigma> ls \<sigma>'" "recorded t h 0 (co_server \<sigma>)"
    and "ca_timeToLive (sv_executedReqs (co_server \<sigma>)) = DefaultKeypairExpiration"
    and "\<forall>l\<in>set ls. labelBy t l" "length ls < 450000"
  shows "\<exists>new. co_log \<sigma>' = new @ co_log \<sigma> \<and> (\<forall>i. (i, h) \<in> set new \<longrightarrow> readyFor h (co_threads \<sigma> i))"
proof -
  have "keeps t h 0 (co_server \<sigma>)" using assms(2,3) by (simp add: keeps_def)
  moreover have "int (0 + length ls) < MaxReplayCacheEntries - MaxReplayCacheEntries div 10"
    using assms(5) by (simp add: MaxReplayCacheEntries_def)
  ultimately show ?thesis using ctrace_keeps [OF assms(1) _ assms(4)] by blast
qed

theorem no_execution_after_record_witness:
  "let s = recordExecuted 6 (id32 7) (ExecDone sampleResponse []) sampleServer;
       \<sigma> = \<lparr>co_server = s, co_threads = (\<lambda>_. Idle (postRequest [])), co_log = []\<rparr>;
       \<sigma>' = fold (schedule1 sampleEnv 50 60) [0, 1, 0, 1] \<sigma>
   in \<exists>new. co_log \<sigma>' = new @ co_log \<sigma> \<and> (\<forall>i. (i, id32 7) \<in> set new \<longrightarrow> readyFor (id32 7) (co_threads \<sigma> i))"
proof -
  let ?s = "recordExecuted 6 (id32 7) (ExecDone sampleResponse []) sampleServer"
  let ?\<sigma> = "\<lparr>co_server = ?s, co_threads = (\<lambda>_. Idle (postRequest [])), co_log = []\<rparr>"
  have "cache_inv (sv_executedReqs sampleServer)"
    by (simp add: sampleServer_def NewEnclaveServer_def cache_inv_New)
  then have "cache_inv (sv_executedReqs ?s)" by (simp add: recordExecuted_def cache_inv_Set)
  then have "recorded 100 (id32 7) 0 ?s" "ca_timeToLive (sv_executedReqs ?s) = DefaultKeypairExpiration"
    by (simp_all add: recorded_def)
      (simp_all add: recordExecuted_def sampleServer_def NewEnclaveServer_def NewBoundedCache_def
        Cache_Set_def setLocked_def Let_def recent_def expired_def cc_const)
  then show ?thesis
    using no_execution_after_record [OF ctrace_schedule [of sampleEnv ?\<sigma> 50 60 "[0, 1, 0, 1]"], of 100 "id32 7"]
    by (simp add: Let_def cc_const)
qed

text \<open>
  C38. The in-progress check does not exclude a concurrent duplicate: whenever a
  request would be executed, two handlers that receive it together can both
  call the application for it.
\<close>

theorem double_execution:
  assumes "executes env now r (co_server \<sigma>) = Some (h, reqs, secrets)"
    and "co_threads \<sigma> 0 = Idle r" "co_threads \<sigma> 1 = Idle r"
  shows "\<exists>ls \<sigma>'. ctrace env \<sigma> ls \<sigma>' \<and> co_log \<sigma>' = (1, h) # (0, h) # co_log \<sigma>"
proof -
  let ?s = "co_server \<sigma>"
  from assms(1) have admit: "admitBatch env (sv_config ?s) r = Inr (h, reqs)"
    and free: "\<not> checkInProgress now h ?s" "\<not> checkExecuted now h ?s"
    and prep: "prepareSecrets env now (sv_config ?s) reqs ?s = Inr secrets"
    by (auto simp: executes_def split: sum.splits prod.splits if_splits)
  let ?\<sigma>' = "fold (schedule1 env now fin) [0, 1, 0, 1, 0, 1, 0, 1, 0, 1] \<sigma>"
  have prep': "prepareSecrets env now (sv_config ?s) reqs s' = Inr secrets" if "sv_keychain s' = sv_keychain ?s" for s'
    unfolding prepareSecrets_keychain [OF that] by (rule prep)
  have "co_log ?\<sigma>' = (1, h) # (0, h) # co_log \<sigma>"
    using assms(2,3) admit free prep'
    by (simp add: schedule1_def split_beta)
  with ctrace_schedule show ?thesis by blast
qed

theorem double_execution_witness:
  "\<exists>ls \<sigma>' h. ctrace sampleEnv \<lparr>co_server = sampleServer, co_threads = (\<lambda>_. Idle (postRequest [])), co_log = []\<rparr> ls \<sigma>' \<and>
     co_log \<sigma>' = [(1, h), (0, h)]"
  using double_execution [of sampleEnv 5 "postRequest []"
      "\<lparr>co_server = sampleServer, co_threads = (\<lambda>_. Idle (postRequest [])), co_log = []\<rparr>"] sample_executes
  by fastforce

end
