(* ===== verification/CC_Resources.thy ===== *)
theory CC_Resources
  imports CC_Server
begin

text \<open>
  What the enclave reports about itself: \<^verbatim>\<open>src/enclave/server/memory.go\<close>,
  \<^verbatim>\<open>src/enclave/server/cpu.go\<close>, the \<open>/memory\<close> handler, and the emitter that
  collects the metric events of one request
  (\<^verbatim>\<open>src/enclave/server/response_emitter.go\<close>). Counters are 64-bit words, and the
  contents of the files under \<^verbatim>\<open>/proc\<close> are arguments. The lemmas show that the
  parser reads what the kernel prints, that sums reject overflow, and how far
  the rounded figures are from the exact ones.
\<close>

section \<open>Strings\<close>

text \<open>\<^verbatim>\<open>strings.Split(s, sep)\<close> for a one-character separator: never empty.\<close>

fun splitOn :: "char \<Rightarrow> string \<Rightarrow> string list" where
  "splitOn c [] = [[]]"
| "splitOn c (x # xs) =
     (if x = c then [] # splitOn c xs
      else case splitOn c xs of [] \<Rightarrow> [[x]] | y # ys \<Rightarrow> (x # y) # ys)"

text \<open>\<^verbatim>\<open>strings.Cut(s, sep)\<close>.\<close>

fun cut :: "char \<Rightarrow> string \<Rightarrow> (string \<times> string) option" where
  "cut c [] = None"
| "cut c (x # xs) = (if x = c then Some ([], xs) else map_option (\<lambda>(a, b). (x # a, b)) (cut c xs))"

text \<open>\<^verbatim>\<open>strings.CutPrefix(s, p)\<close>.\<close>

fun cutPrefix :: "string \<Rightarrow> string \<Rightarrow> string option" where
  "cutPrefix [] s = Some s"
| "cutPrefix (p # ps) [] = None"
| "cutPrefix (p # ps) (x # xs) = (if p = x then cutPrefix ps xs else None)"

text \<open>White space of \<^verbatim>\<open>strings.Fields\<close> within ASCII: tab, line feed, vertical tab, form feed, return, blank.\<close>

definition isSpace :: "char \<Rightarrow> bool" where
  "isSpace c \<longleftrightarrow> (let n = of_char c :: nat in n = 32 \<or> (9 \<le> n \<and> n \<le> 13))"

fun fieldsAcc :: "string \<Rightarrow> string \<Rightarrow> string list" where
  "fieldsAcc w [] = (if w = [] then [] else [w])"
| "fieldsAcc w (x # xs) =
     (if isSpace x then (if w = [] then fieldsAcc [] xs else w # fieldsAcc [] xs)
      else fieldsAcc (w @ [x]) xs)"

definition wsFields :: "string \<Rightarrow> string list" where
  "wsFields s = fieldsAcc [] s"

definition digitVal :: "char \<Rightarrow> nat option" where
  "digitVal c = (let n = of_char c in if 48 \<le> n \<and> n \<le> 57 then Some (n - 48) else None)"

fun digitsVal :: "nat \<Rightarrow> string \<Rightarrow> nat option" where
  "digitsVal acc [] = Some acc"
| "digitsVal acc (c # cs) = (case digitVal c of None \<Rightarrow> None | Some d \<Rightarrow> digitsVal (acc * 10 + d) cs)"

text \<open>\<^verbatim>\<open>strconv.ParseUint(s, 10, 64)\<close>: digits only, at least one, in range.\<close>

definition parseUint64 :: "string \<Rightarrow> 64 word option" where
  "parseUint64 s = (if s = [] then None else case digitsVal 0 s of
     None \<Rightarrow> None
   | Some n \<Rightarrow> if n < 2 ^ 64 then Some (of_nat n) else None)"

section \<open>Memory\<close>

text \<open>One line of \<open>parseSizeFields\<close>: the key and the byte count it assigns, if it assigns.\<close>

definition parseSizeLine :: "string list \<Rightarrow> string \<Rightarrow> (string \<times> 64 word) option" where
  "parseSizeLine want line = (case cut CHR '':'' line of
     None \<Rightarrow> None
   | Some (key, rest) \<Rightarrow>
       if key \<notin> set want then None
       else (case wsFields rest of
           [n, u] \<Rightarrow> if u \<noteq> ''kB'' then None
             else (case parseUint64 n of
                 None \<Rightarrow> None
               | Some kb \<Rightarrow> if kb > (- 1) div 1024 then None else Some (key, kb * 1024))
         | _ \<Rightarrow> None))"

primrec parseSizeLoop :: "string list \<Rightarrow> string list \<Rightarrow> (string \<Rightarrow> 64 word) \<Rightarrow> (string \<Rightarrow> 64 word)" where
  "parseSizeLoop want [] dst = dst"
| "parseSizeLoop want (line # lines) dst = (case parseSizeLine want line of
     None \<Rightarrow> parseSizeLoop want lines dst
   | Some (key, v) \<Rightarrow> parseSizeLoop want lines (dst(key := v)))"

definition parseSizeFields :: "string \<Rightarrow> string list \<Rightarrow> (string \<Rightarrow> 64 word) \<Rightarrow> (string \<Rightarrow> 64 word)" where
  "parseSizeFields data want dst = parseSizeLoop want (splitOn (CHR 0x0A) data) dst"

record memInfo =
  mi_totalBytes :: "64 word"
  mi_availableBytes :: "64 word"

record procStatus =
  ps_rssBytes :: "64 word"
  ps_peakRSSBytes :: "64 word"

text \<open>The file is \<open>None\<close> when it cannot be read.\<close>

definition readMemInfo :: "string option \<Rightarrow> memInfo" where
  "readMemInfo file = (case file of
     None \<Rightarrow> \<lparr>mi_totalBytes = 0, mi_availableBytes = 0\<rparr>
   | Some data \<Rightarrow>
       let dst = parseSizeFields data [''MemTotal'', ''MemAvailable''] (\<lambda>_. 0)
       in \<lparr>mi_totalBytes = dst ''MemTotal'', mi_availableBytes = dst ''MemAvailable''\<rparr>)"

definition readProcStatus :: "string option \<Rightarrow> procStatus" where
  "readProcStatus file = (case file of
     None \<Rightarrow> \<lparr>ps_rssBytes = 0, ps_peakRSSBytes = 0\<rparr>
   | Some data \<Rightarrow>
       let dst = parseSizeFields data [''VmRSS'', ''VmHWM''] (\<lambda>_. 0)
       in \<lparr>ps_rssBytes = dst ''VmRSS'', ps_peakRSSBytes = dst ''VmHWM''\<rparr>)"

definition mb :: "64 word" where
  [cc_const]: "mb = 1024 * 1024"

definition bytesToMB :: "64 word \<Rightarrow> 64 word" where
  "bytesToMB b = (b + mb div 2) div mb"

section \<open>CPU time\<close>

definition microsecondsPerSecond :: "64 word" where
  [cc_const]: "microsecondsPerSecond = 1000000"

text \<open>\<open>unix.Timeval\<close> is seconds and microseconds, both \<open>int64\<close>; the sums wrap as the conversions do.\<close>

definition cpuSecondsFromRusage :: "64 word \<Rightarrow> 64 word \<Rightarrow> 64 word \<Rightarrow> 64 word \<Rightarrow> 64 word" where
  "cpuSecondsFromRusage userSec userUsec systemSec systemUsec =
     (let microseconds = (userSec + systemSec) * microsecondsPerSecond + (userUsec + systemUsec)
      in (microseconds + microsecondsPerSecond div 2) div microsecondsPerSecond)"

text \<open>Linux or not, and the result of \<^verbatim>\<open>getrusage\<close>, \<open>None\<close> on an error.\<close>

definition readProcessCPUSeconds :: "bool \<Rightarrow> (64 word \<times> 64 word \<times> 64 word \<times> 64 word) option \<Rightarrow> 64 word" where
  "readProcessCPUSeconds linux usage =
     (if \<not> linux then 0
      else case usage of None \<Rightarrow> 0 | Some (us, uu, ss, su) \<Rightarrow> cpuSecondsFromRusage us uu ss su)"

primrec sumCPUTicksLoop :: "64 word \<Rightarrow> 64 word list \<Rightarrow> 64 word option" where
  "sumCPUTicksLoop acc [] = Some acc"
| "sumCPUTicksLoop acc (v # vs) =
     (if v > (- 1) - acc then None else sumCPUTicksLoop (acc + v) vs)"

definition sumCPUTicks :: "64 word list \<Rightarrow> 64 word option" where
  "sumCPUTicks vs = sumCPUTicksLoop 0 vs"

definition procStatClockTicksPerSecond :: "64 word" where
  [cc_const]: "procStatClockTicksPerSecond = 100"

definition cpuTicksToSeconds :: "64 word \<Rightarrow> 64 word" where
  "cpuTicksToSeconds ticks =
     (let seconds = ticks div procStatClockTicksPerSecond
      in if ticks mod procStatClockTicksPerSecond \<ge> procStatClockTicksPerSecond div 2 then seconds + 1 else seconds)"

text \<open>All values or nothing, in order.\<close>

primrec parseAll :: "string list \<Rightarrow> 64 word list option" where
  "parseAll [] = Some []"
| "parseAll (s # ss) = (case parseUint64 s of
     None \<Rightarrow> None | Some v \<Rightarrow> map_option (Cons v) (parseAll ss))"

definition cpuStatFieldCount :: nat where
  [cc_const]: "cpuStatFieldCount = 8"

text \<open>Busy and total ticks of the aggregate line; fields user, nice, system, idle, iowait, irq, softirq, steal.\<close>

definition guestTicks :: "string \<Rightarrow> (64 word \<times> 64 word) option" where
  "guestTicks rest =
     (let fs = wsFields rest in
      if length fs < cpuStatFieldCount then None
      else case parseAll (take cpuStatFieldCount fs) of
          Some [user, nice, system, idle, iowait, irq, softirq, steal] \<Rightarrow>
            (case sumCPUTicks [user, nice, system, irq, softirq] of
               None \<Rightarrow> None
             | Some busy \<Rightarrow> map_option (Pair busy) (sumCPUTicks [busy, idle, iowait, steal]))
        | _ \<Rightarrow> None)"

primrec parseGuestCPULines :: "string list \<Rightarrow> (64 word \<times> 64 word) option" where
  "parseGuestCPULines [] = None"
| "parseGuestCPULines (line # lines) = (case cutPrefix ''cpu '' line of
     None \<Rightarrow> parseGuestCPULines lines
   | Some rest \<Rightarrow> guestTicks rest)"

definition parseGuestCPUTicks :: "string \<Rightarrow> (64 word \<times> 64 word) option" where
  "parseGuestCPUTicks stat = parseGuestCPULines (splitOn (CHR 0x0A) stat)"

definition readGuestCPUSeconds :: "string option \<Rightarrow> 64 word \<times> 64 word" where
  "readGuestCPUSeconds file = (case file of
     None \<Rightarrow> (0, 0)
   | Some data \<Rightarrow> (case parseGuestCPUTicks data of
       None \<Rightarrow> (0, 0)
     | Some (busy, tot) \<Rightarrow> (cpuTicksToSeconds busy, cpuTicksToSeconds tot)))"

section \<open>GET /memory\<close>

record MemoryEstimateResponse =
  me_UsedMB :: "64 word"
  me_RSSMB :: "64 word"
  me_TotalMB :: "64 word"
  me_AvailableMB :: "64 word"
  me_PeakRSSMB :: "64 word"
  me_ProcessCPUSeconds :: "64 word"
  me_GuestCPUBusySeconds :: "64 word"
  me_GuestCPUTotalSeconds :: "64 word"

text \<open>What the handler reads from the operating system.\<close>

record osView =
  os_meminfo :: "string option"
  os_status :: "string option"
  os_stat :: "string option"
  os_runtimeBytes :: "64 word option"
  os_linux :: bool
  os_rusage :: "(64 word \<times> 64 word \<times> 64 word \<times> 64 word) option"

definition readRuntimeMemoryBytes :: "osView \<Rightarrow> 64 word" where
  "readRuntimeMemoryBytes os = (case os_runtimeBytes os of None \<Rightarrow> 0 | Some b \<Rightarrow> b)"

definition handleMemory :: "osView \<Rightarrow> HttpRequest \<Rightarrow> MemoryEstimateResponse httpResponse" where
  "handleMemory os r =
     (if rq_Method r \<noteq> GET then HttpError 405 ''method not allowed''
      else let info = readMemInfo (os_meminfo os);
               status = readProcStatus (os_status os);
               guest = readGuestCPUSeconds (os_stat os)
           in HttpOk 200 \<lparr>me_UsedMB = bytesToMB (readRuntimeMemoryBytes os),
                me_RSSMB = bytesToMB (ps_rssBytes status),
                me_TotalMB = bytesToMB (mi_totalBytes info),
                me_AvailableMB = bytesToMB (mi_availableBytes info),
                me_PeakRSSMB = bytesToMB (ps_peakRSSBytes status),
                me_ProcessCPUSeconds = readProcessCPUSeconds (os_linux os) (os_rusage os),
                me_GuestCPUBusySeconds = fst guest,
                me_GuestCPUTotalSeconds = snd guest\<rparr>)"

section \<open>The response emitter\<close>

text \<open>
  A detail is a float or something else. \<open>roundBucket\<close> is the floating-point
  expression \<^verbatim>\<open>math.Round(f/durationBucketSeconds) * durationBucketSeconds\<close>.
\<close>

datatype ('f, 'v) detail = DFloat 'f | DOther 'v

type_synonym ('f, 'v) details = "(string \<rightharpoonup> ('f, 'v) detail) option"

record ('f, 'v) ResponseEmitter =
  re_metrics :: "(string \<times> ('f, 'v) details) list"
  re_startTime :: time

definition NewResponseEmitter :: "time \<Rightarrow> ('f, 'v) ResponseEmitter" where
  "NewResponseEmitter now = \<lparr>re_metrics = [], re_startTime = now\<rparr>"

definition roundDurations :: "('f \<Rightarrow> 'f) \<Rightarrow> ('f, 'v) details \<Rightarrow> ('f, 'v) details" where
  "roundDurations roundBucket d = (case d of
     None \<Rightarrow> None
   | Some m \<Rightarrow> Some (case m ''duration_seconds'' of
       Some (DFloat x) \<Rightarrow> m(''duration_seconds'' \<mapsto> DFloat (roundBucket x))
     | _ \<Rightarrow> m))"

definition Emit :: "('f \<Rightarrow> 'f) \<Rightarrow> string \<Rightarrow> ('f, 'v) details \<Rightarrow> ('f, 'v) ResponseEmitter \<Rightarrow> ('f, 'v) ResponseEmitter" where
  "Emit roundBucket event details e =
     e\<lparr>re_metrics := re_metrics e @ [(event, roundDurations roundBucket details)]\<rparr>"

primrec snapshotLoop :: "(string \<times> 'd) list \<Rightarrow> (string \<rightharpoonup> 'd) \<Rightarrow> (string \<rightharpoonup> 'd)" where
  "snapshotLoop [] metrics = metrics"
| "snapshotLoop (ev # evs) metrics = snapshotLoop evs (metrics(fst ev \<mapsto> snd ev))"

definition Snapshot :: "('f, 'v) ResponseEmitter
     \<Rightarrow> (string \<rightharpoonup> ('f, 'v) details) \<times> (string \<times> ('f, 'v) details) list" where
  "Snapshot e = (snapshotLoop (re_metrics e) Map.empty, re_metrics e)"

definition GetMetrics :: "('f, 'v) ResponseEmitter \<Rightarrow> (string \<rightharpoonup> ('f, 'v) details)" where
  "GetMetrics e = fst (Snapshot e)"

definition GetMetricEvents :: "('f, 'v) ResponseEmitter \<Rightarrow> (string \<times> ('f, 'v) details) list" where
  "GetMetricEvents e = snd (Snapshot e)"

text \<open>Status, message and snapshot; \<open>mk\<close> makes the details of \<open>request_completed\<close> from status and duration.\<close>

definition WriteErrorResponse ::
    "('f \<Rightarrow> 'f) \<Rightarrow> (nat \<Rightarrow> duration \<Rightarrow> ('f, 'v) details) \<Rightarrow> time \<Rightarrow> string \<Rightarrow> nat \<Rightarrow> ('f, 'v) ResponseEmitter
     \<Rightarrow> (nat \<times> string \<times> (string \<rightharpoonup> ('f, 'v) details) \<times> (string \<times> ('f, 'v) details) list) \<times> ('f, 'v) ResponseEmitter" where
  "WriteErrorResponse roundBucket mk now msg statusCode e =
     (let e' = Emit roundBucket ''request_completed'' (mk statusCode (now - re_startTime e)) e
      in ((statusCode, msg, Snapshot e'), e'))"

section \<open>Printing and parsing\<close>

definition digit :: "nat \<Rightarrow> char" where
  "digit d = char_of (48 + d)"

fun decimal :: "nat \<Rightarrow> string" where
  "decimal n = (if n < 10 then [digit n] else decimal (n div 10) @ [digit (n mod 10)])"

declare decimal.simps [simp del]

text \<open>A line of \<^verbatim>\<open>/proc/meminfo\<close> or \<^verbatim>\<open>/proc/self/status\<close>, with the value padded to a column.\<close>

definition sizeLine :: "nat \<Rightarrow> string \<Rightarrow> nat \<Rightarrow> string" where
  "sizeLine pad key n = key @ '':'' @ replicate pad (CHR '' '') @ decimal n @ '' kB''"

definition sizeFile :: "nat \<Rightarrow> (string \<times> nat) list \<Rightarrow> string" where
  "sizeFile pad kvs = concat (map (\<lambda>(k, n). sizeLine pad k n @ [CHR 0x0A]) kvs)"

lemma digitVal_digit: "d < 10 \<Longrightarrow> digitVal (digit d) = Some d"
  by (simp add: digitVal_def digit_def)

lemma digit_not_space: "d < 10 \<Longrightarrow> \<not> isSpace (digit d) \<and> digit d \<noteq> CHR 0x0A \<and> digit d \<noteq> CHR '':''"
proof -
  assume d: "d < 10"
  have "(of_char (digit d) :: nat) = 48 + d" using d by (simp add: digit_def)
  moreover have "(of_char (CHR 0x0A) :: nat) = 10" "(of_char (CHR '':'') :: nat) = 58" by simp_all
  ultimately show ?thesis using d by (auto simp: isSpace_def Let_def)
qed

lemma digitsVal_append:
  "digitsVal acc (a @ b) = (case digitsVal acc a of None \<Rightarrow> None | Some x \<Rightarrow> digitsVal x b)"
  by (induction acc a rule: digitsVal.induct) (auto split: option.split)

lemma digitsVal_decimal: "digitsVal 0 (decimal n) = Some n"
proof (induction n rule: decimal.induct)
  case (1 n)
  show ?case
  proof (cases "n < 10")
    case True
    then show ?thesis by (subst decimal.simps) (simp add: digitVal_digit)
  next
    case False
    with 1 show ?thesis by (subst decimal.simps) (simp add: digitsVal_append digitVal_digit)
  qed
qed

lemma decimal_chars: "c \<in> set (decimal n) \<Longrightarrow> \<not> isSpace c \<and> c \<noteq> CHR 0x0A \<and> c \<noteq> CHR '':''"
proof (induction n rule: decimal.induct)
  case (1 n)
  show ?case
  proof (cases "n < 10")
    case True
    with 1(2) digit_not_space show ?thesis by (subst (asm) decimal.simps) auto
  next
    case False
    have "c \<in> set (decimal (n div 10)) \<or> c = digit (n mod 10)" using 1(2) False by (subst (asm) decimal.simps) auto
    with False 1(1) digit_not_space [of "n mod 10"] show ?thesis by auto
  qed
qed

lemma decimal_nonempty: "decimal n \<noteq> []"
  by (subst decimal.simps) simp

lemma parseUint64_decimal: "n < 2 ^ 64 \<Longrightarrow> parseUint64 (decimal n) = Some (of_nat n)"
  by (simp add: parseUint64_def decimal_nonempty digitsVal_decimal)

lemma fieldsAcc_word: "\<forall>c\<in>set w. \<not> isSpace c \<Longrightarrow> fieldsAcc u (w @ s) = fieldsAcc (u @ w) s"
  by (induction w arbitrary: u) auto

lemma fieldsAcc_blanks: "fieldsAcc [] (replicate n (CHR '' '') @ s) = fieldsAcc [] s"
  by (induction n) (simp_all add: isSpace_def)

lemma wsFields_line: "wsFields (replicate pad (CHR '' '') @ decimal n @ '' kB'') = [decimal n, ''kB'']"
proof -
  have "\<forall>c\<in>set (decimal n). \<not> isSpace c" using decimal_chars by blast
  then show ?thesis
    by (simp add: wsFields_def fieldsAcc_blanks fieldsAcc_word [where u = "[]"] decimal_nonempty isSpace_def)
qed

lemma cut_key: "c \<notin> set k \<Longrightarrow> cut c (k @ c # s) = Some (k, s)"
  by (induction k) auto

lemma splitOn_line: "c \<notin> set l \<Longrightarrow> splitOn c (l @ c # s) = l # splitOn c s"
  by (induction l) auto

lemma parseSizeLine_line:
  assumes "CHR '':'' \<notin> set k" "n \<le> (2 ^ 64 - 1) div 1024"
  shows "parseSizeLine want (sizeLine pad k n) = (if k \<in> set want then Some (k, of_nat (n * 1024)) else None)"
proof -
  have n: "n < 2 ^ 64" using assms(2) by simp
  have "\<not> (of_nat n :: 64 word) > (- 1) div 1024"
    using assms(2) n by (simp add: word_less_nat_alt unat_div unat_of_nat unsigned_minus_1_eq_mask mask_eq_exp_minus_1)
  then show ?thesis
    using assms n by (simp add: parseSizeLine_def sizeLine_def cut_key wsFields_line parseUint64_decimal)
qed

lemma sizeLine_no_newline: "CHR 0x0A \<notin> set k \<Longrightarrow> CHR 0x0A \<notin> set (sizeLine pad k n)"
  using decimal_chars by (fastforce simp: sizeLine_def)

text \<open>
  The parser reads what the kernel prints: from a file of \<^verbatim>\<open>Key: n kB\<close> lines it
  sets each wanted key to 1024 times its last value and nothing else, whatever
  the padding and the other lines.
\<close>

theorem parse_print_sizes:
  assumes "\<forall>(k, n)\<in>set kvs. CHR '':'' \<notin> set k \<and> CHR 0x0A \<notin> set k \<and> n \<le> (2 ^ 64 - 1) div 1024"
  shows "parseSizeFields (sizeFile pad kvs) want dst k =
    (if k \<in> set want then case map_of (rev kvs) k of Some n \<Rightarrow> of_nat (n * 1024) | None \<Rightarrow> dst k else dst k)"
proof -
  have split: "splitOn (CHR 0x0A) (sizeFile pad kvs) = map (\<lambda>(k, n). sizeLine pad k n) kvs @ [[]]"
    using assms by (induction kvs) (auto simp: sizeFile_def sizeLine_no_newline splitOn_line)
  have "parseSizeLoop want (map (\<lambda>(k, n). sizeLine pad k n) kvs @ [[]]) dst k =
    (if k \<in> set want then case map_of (rev kvs) k of Some n \<Rightarrow> of_nat (n * 1024) | None \<Rightarrow> dst k else dst k)"
    using assms
  proof (induction kvs arbitrary: dst)
    case (Cons a kvs)
    obtain k' n where a: "a = (k', n)" by (cases a)
    with Cons.prems have "parseSizeLine want (sizeLine pad k' n) = (if k' \<in> set want then Some (k', of_nat (n * 1024)) else None)"
      by (intro parseSizeLine_line) auto
    with Cons a show ?case by (auto simp: map_add_def split: option.splits)
  qed (simp add: parseSizeLine_def)
  then show ?thesis by (simp add: parseSizeFields_def split)
qed

theorem parse_print_sizes_witness:
  "parseSizeFields (sizeFile 3 [(''MemTotal'', 2048), (''MemFree'', 1), (''MemAvailable'', 12)])
     [''MemTotal'', ''MemAvailable''] (\<lambda>_. 0) ''MemAvailable'' = 12288"
  using parse_print_sizes [of "[(''MemTotal'', 2048), (''MemFree'', 1), (''MemAvailable'', 12)]" 3
      "[''MemTotal'', ''MemAvailable'']" "\<lambda>_. 0" "''MemAvailable''"] by simp

section \<open>Arithmetic\<close>

lemma unat64: "unat (w :: 64 word) < 2 ^ 64"
  using unsigned_less [of w, where ?'a = nat] by simp

lemma sumCPUTicksLoop_exact:
  "sumCPUTicksLoop acc vs = (if unat acc + sum_list (map unat vs) < 2 ^ 64
     then Some (of_nat (unat acc + sum_list (map unat vs))) else None)"
proof (induction vs arbitrary: acc)
  case (Cons v vs)
  have room: "v > (- 1) - acc \<longleftrightarrow> unat acc + unat v \<ge> 2 ^ 64"
  proof -
    have "unat ((- 1) - acc) = 2 ^ 64 - 1 - unat acc"
      using unat64 [of acc] by (simp add: unat_sub word_le_nat_alt unsigned_minus_1_eq_mask mask_eq_exp_minus_1)
    then show ?thesis using unat64 [of acc] by (auto simp: word_less_nat_alt)
  qed
  show ?case
  proof (cases "unat acc + unat v < 2 ^ 64")
    case True
    then have "unat (acc + v) = unat acc + unat v" by (simp add: unat_word_ariths)
    with True room Cons show ?thesis by (simp add: add.assoc)
  next
    case False
    with room show ?thesis by simp
  qed
qed (use unat64 in simp)

lemma sumCPUTicks_of_nat:
  assumes "\<forall>n\<in>set ns. n < 2 ^ 64"
  shows "sumCPUTicks (map of_nat ns) = (if sum_list ns < 2 ^ 64 then Some (of_nat (sum_list ns)) else None)"
proof -
  have "map (unat \<circ> (of_nat :: nat \<Rightarrow> 64 word)) ns = ns" using assms by (intro map_idI) (simp add: unat_of_nat)
  then show ?thesis by (simp add: sumCPUTicks_def sumCPUTicksLoop_exact)
qed

lemma cpuTicksToSeconds_unat: "unat (cpuTicksToSeconds t) = (unat t + 50) div 100"
proof -
  have t: "unat t < 2 ^ 64" using unat64 [of t] .
  have d: "unat (t div 100) = unat t div 100" "unat (t mod 100) = unat t mod 100"
    by (simp_all add: unat_div unat_mod)
  have "unat (t div 100 + 1) = unat t div 100 + 1" using t d by (simp add: unat_word_ariths)
  moreover have "(t mod 100 \<ge> 50) \<longleftrightarrow> unat t mod 100 \<ge> 50" using d by (simp add: word_le_nat_alt)
  moreover have "(if n mod 100 \<ge> 50 then n div 100 + 1 else n div 100) = (n + 50) div 100" if "n = unat t" for n
    using mod_less_divisor [of 100 n] by (simp add: div_add1_eq [of n 50] div_if [of "n mod 100 + 50"] del: mod_less_divisor)
  ultimately show ?thesis
    using d by (simp add: cpuTicksToSeconds_def procStatClockTicksPerSecond_def Let_def split: if_splits)
qed

lemma bytesToMB_unat: "unat b + 2 ^ 19 < 2 ^ 64 \<Longrightarrow> unat (bytesToMB b) = (unat b + 2 ^ 19) div 2 ^ 20"
  by (simp add: bytesToMB_def mb_def unat_div unat_word_ariths)

text \<open>
  The guest CPU ticks of a well-formed aggregate line are exact: the sum of the
  busy counters and the sum of all eight counters, whatever fields follow, and
  the line is rejected rather than wrapped when a sum exceeds 64 bits.
\<close>

theorem guestTicks_exact:
  assumes "wsFields rest = map decimal [user, nice, system, idle, iowait, irq, softirq, steal] @ others"
    and "\<forall>n\<in>set [user, nice, system, idle, iowait, irq, softirq, steal]. n < 2 ^ 64"
  shows "guestTicks rest = (if user + nice + system + irq + softirq + idle + iowait + steal < 2 ^ 64
      then Some (of_nat (user + nice + system + irq + softirq),
                 of_nat (user + nice + system + irq + softirq + idle + iowait + steal))
      else None)"
proof -
  let ?b = "user + nice + system + irq + softirq"
  have eq: "guestTicks rest = (case sumCPUTicks (map of_nat [user, nice, system, irq, softirq]) of
      None \<Rightarrow> None
    | Some busy \<Rightarrow> map_option (Pair busy) (sumCPUTicks [busy, of_nat idle, of_nat iowait, of_nat steal]))"
    using assms by (simp add: guestTicks_def Let_def cpuStatFieldCount_def parseUint64_decimal)
  have busy: "sumCPUTicks (map of_nat [user, nice, system, irq, softirq]) = (if ?b < 2 ^ 64 then Some (of_nat ?b) else None)"
    using sumCPUTicks_of_nat [of "[user, nice, system, irq, softirq]"] assms(2) by (simp add: add.assoc)
  show ?thesis
  proof (cases "?b < 2 ^ 64")
    case True
    then have "sumCPUTicks (map of_nat [?b, idle, iowait, steal]) = (if ?b + idle + iowait + steal < 2 ^ 64
        then Some (of_nat (?b + idle + iowait + steal)) else None)"
      using sumCPUTicks_of_nat [of "[?b, idle, iowait, steal]"] assms(2) by (simp add: add.assoc)
    with True show ?thesis unfolding eq busy by (simp del: of_nat_add)
  next
    case False
    then show ?thesis unfolding eq busy by simp
  qed
qed

theorem guestTicks_exact_witness:
  "guestTicks ''1 2 3 4 5 6 7 8 0 0'' = Some (19, 36)"
proof -
  have "wsFields ''1 2 3 4 5 6 7 8 0 0'' = map decimal [1, 2, 3, 4, 5, 6, 7, 8] @ [''0'', ''0'']"
    by (simp add: wsFields_def isSpace_def decimal.simps digit_def) code_simp
  from guestTicks_exact [OF this] show ?thesis by simp
qed

end
