(* ===== verification/CC_Host.thy ===== *)
theory CC_Host
  imports CC_Server
begin

text \<open>
  The host beside the enclave: \<^verbatim>\<open>src/enclave/nitro/host/host.go\<close>. It collects the
  signed requests of the nodes into one batch per request hash, dispatches a
  batch once a quorum of distinct signers has joined, answers every waiting
  connection with the enclave's response, and forwards configuration traffic.
  Each critical section under \<^verbatim>\<open>processRequestMutex\<close> is one state transformer;
  the goroutines that run between them (a dispatched batch, a quorum timer, a
  connection waiting on its channel) are entries of the state, and
  \<open>hostStep\<close> lets them run in any order. The enclave's answers are arguments.
  The lemmas show what a dispatched batch contains, that it is dispatched once
  while the configuration stands, and that no waiting connection is lost
  unless its batch outlives the cache.
\<close>

section \<open>State\<close>

definition InboundProxyRequestCacheTTL :: duration where
  [cc_const]: "InboundProxyRequestCacheTTL = 5 * minute"

definition QuorumTimeout :: duration where
  [cc_const]: "QuorumTimeout = 20 * second"

definition cacheGCInterval :: duration where
  [cc_const]: "cacheGCInterval = 10 * minute"

text \<open>
  A metric event: its name and the two details the host looks at, where
  \<open>None\<close> is a detail that is absent or of another type.
\<close>

record MetricEvent =
  me_Event :: string
  me_success :: "bool option"
  me_error_type :: "string option"

record EnclaveErrorResponse =
  ee_Error :: string
  ee_MetricEvents :: "MetricEvent list"

datatype batchErr =
    EnclaveFailed string
  | EnclaveErrored EnclaveErrorResponse
  | QuorumTimedOut nat int
  | ServerShutdown

record batchResponse =
  bp_response :: "ExecuteResponse option"
  bp_err :: "batchErr option"

text \<open>
  A batch. Its channels are named by numbers: \<open>br_doneCh\<close> is the one its quorum
  timer selects on, \<open>br_responseCh\<close> those of the waiting connections.
\<close>

record batchRequest =
  br_requests :: "SignedComputeRequest list"
  br_responseCh :: "nat list"
  br_signersSeen :: "bytes set"
  br_createdAt :: time
  br_processingRequest :: bool
  br_doneCh :: nat

text \<open>A running goroutine that has dispatched a batch, and one that waits for its quorum.\<close>

record dispatchedBatch =
  db_doneCh :: nat
  db_requestHash :: bytes
  db_requests :: "SignedComputeRequest list"
  db_finished :: bool

record quorumTimer =
  qt_requestHash :: bytes
  qt_f :: "32 word"
  qt_doneCh :: nat
  qt_start :: time
  qt_exited :: bool

text \<open>
  The server. \<open>hs_chans\<close> holds the content of the one-slot response channels,
  \<open>hs_done\<close> the closed \<open>doneCh\<close>s, \<open>hs_locked\<close> a mutex that a panicking handler
  never unlocked.
\<close>

record hostServer =
  hs_config :: EnclaveConfig
  hs_pending :: "(bytes, batchRequest) Cache"
  hs_responses :: "(bytes, ExecuteResponse) Cache"
  hs_chans :: "nat \<rightharpoonup> batchResponse"
  hs_nextCh :: nat
  hs_nextDone :: nat
  hs_done :: "nat set"
  hs_jobs :: "dispatchedBatch list"
  hs_timers :: "quorumTimer list"
  hs_locked :: bool

record HostEnv =
  he_H :: "bytes \<Rightarrow> bytes"
  he_edVerify :: "bytes \<Rightarrow> bytes \<Rightarrow> bytes \<Rightarrow> bool"
  he_ParseRequest :: "bytes \<Rightarrow> SignedComputeRequest option"
  he_requireBFTQuorum :: bool
  he_quorumTimeout :: duration

definition NewHostServer :: hostServer where
  "NewHostServer = \<lparr>hs_config = zeroConfig,
     hs_pending = NewCache (Some InboundProxyRequestCacheTTL) (Some cacheGCInterval),
     hs_responses = NewCache (Some InboundProxyRequestCacheTTL) (Some cacheGCInterval),
     hs_chans = Map.empty, hs_nextCh = 0, hs_nextDone = 0, hs_done = {},
     hs_jobs = [], hs_timers = [], hs_locked = False\<rparr>"

definition applicationRequestID :: "batchRequest \<Rightarrow> string" where
  "applicationRequestID br = (case br_requests br of
     [] \<Rightarrow> [] | r # _ \<Rightarrow> cr_ApplicationRequestID (scr_ComputeRequest r))"

section \<open>POST /requests: joining a batch\<close>

text \<open>\<^verbatim>\<open>int(2*f + 1)\<close> or \<^verbatim>\<open>int(f + 1)\<close>, the sum taken in \<^verbatim>\<open>uint32\<close>.\<close>

definition quorumThreshold :: "bool \<Rightarrow> 32 word \<Rightarrow> int" where
  "quorumThreshold requireBFTQuorum f =
     (if requireBFTQuorum then uint (2 * f + 1) else uint (f + 1))"

text \<open>The batch of a request hash: the pending one, or a new one with its timer started.\<close>

definition newBatch :: "time \<Rightarrow> nat \<Rightarrow> batchRequest" where
  "newBatch now doneCh = \<lparr>br_requests = [], br_responseCh = [], br_signersSeen = {}, br_createdAt = now,
     br_processingRequest = False, br_doneCh = doneCh\<rparr>"

definition batchFor :: "time \<Rightarrow> bytes \<Rightarrow> 32 word \<Rightarrow> hostServer \<Rightarrow> batchRequest \<times> hostServer" where
  "batchFor now requestHash f s = (case Cache_Get now requestHash (hs_pending s) of
     Some br \<Rightarrow> (br, s)
   | None \<Rightarrow> (newBatch now (hs_nextDone s),
       s\<lparr>hs_nextDone := Suc (hs_nextDone s),
         hs_timers := hs_timers s @ [\<lparr>qt_requestHash = requestHash, qt_f = f,
           qt_doneCh = hs_nextDone s, qt_start = now, qt_exited = False\<rparr>]\<rparr>))"

definition addToBatch :: "HostEnv \<Rightarrow> bytes \<Rightarrow> SignedComputeRequest \<Rightarrow> 32 word \<Rightarrow> nat \<Rightarrow> batchRequest
     \<Rightarrow> bool \<times> batchRequest" where
  "addToBatch env signer execReq f responseCh br =
     (if signer \<in> br_signersSeen br
      then (False, br\<lparr>br_responseCh := br_responseCh br @ [responseCh]\<rparr>)
      else let br1 = br\<lparr>br_signersSeen := insert signer (br_signersSeen br),
                        br_requests := br_requests br @ [execReq],
                        br_responseCh := br_responseCh br @ [responseCh]\<rparr>;
               shouldProcess = (int (length (br_requests br1)) = quorumThreshold (he_requireBFTQuorum env) f)
           in (shouldProcess, if shouldProcess then br1\<lparr>br_processingRequest := True\<rparr> else br1))"

definition joinBatch :: "HostEnv \<Rightarrow> time \<Rightarrow> bytes \<Rightarrow> bytes \<Rightarrow> SignedComputeRequest \<Rightarrow> 32 word \<Rightarrow> hostServer
     \<Rightarrow> nat \<times> hostServer" where
  "joinBatch env now requestHash signer execReq f s =
     (let responseCh = hs_nextCh s;
          (br, s1) = batchFor now requestHash f (s\<lparr>hs_nextCh := Suc responseCh\<rparr>);
          (shouldProcess, br') = addToBatch env signer execReq f responseCh br;
          s2 = s1\<lparr>hs_pending := Cache_Set now requestHash br' None (hs_pending s1)\<rparr>
      in (responseCh,
          if shouldProcess
          then s2\<lparr>hs_jobs := hs_jobs s2 @ [\<lparr>db_doneCh = br_doneCh br', db_requestHash = requestHash,
                 db_requests = br_requests br', db_finished = False\<rparr>]\<rparr>
          else s2))"

datatype hostReply =
    HReject nat string
  | HCached ExecuteResponse
  | HWait nat
  | HBlocked
  | HPanic

text \<open>
  The handler up to the point where it answers or waits on its channel. The
  signature is checked while the mutex is held, and a panic there leaves it so.
\<close>

definition host_handleExecute :: "HostEnv \<Rightarrow> time \<Rightarrow> HttpRequest \<Rightarrow> hostServer \<Rightarrow> hostReply \<times> hostServer" where
  "host_handleExecute env now r s =
     (if rq_Method r \<noteq> POST then (HReject 405 ''method not allowed'', s)
      else case rq_Body r of
          None \<Rightarrow> (HReject 400 ''failed to read request body'', s)
        | Some body \<Rightarrow> (case he_ParseRequest env body of
            None \<Rightarrow> (HReject 400 ''invalid json'', s)
          | Some execReq \<Rightarrow>
              let requestHash = ComputeRequest_Hash (he_H env) (scr_ComputeRequest execReq);
                  config = EnclaveConfig_Copy (Some (hs_config s))
              in if ec_T config = 0 \<and> ec_F config = 0
                 then (HReject 503 ''service not accepting requests (T and F are zero)'', s)
                 else if hs_locked s then (HBlocked, s)
                 else (case VerifySignature (he_edVerify env) (requestPayload (he_H env) requestHash)
                              (scr_Signature execReq) (ec_Signers config) of
                     VPanic \<Rightarrow> (HPanic, s\<lparr>hs_locked := True\<rparr>)
                   | VBadLength _ \<Rightarrow> (HReject 400 ''invalid signature'', s)
                   | VNotAllowed \<Rightarrow> (HReject 400 ''invalid signature'', s)
                   | VSigner signer \<Rightarrow> (case Cache_Get now requestHash (hs_responses s) of
                         Some cachedResp \<Rightarrow> (HCached cachedResp, s)
                       | None \<Rightarrow> (case joinBatch env now requestHash signer execReq (ec_F config) s of
                           (ch, s') \<Rightarrow> (HWait ch, s'))))))"

text \<open>The end of the handler: what a connection answers once its channel delivers.\<close>

datatype hostFinal =
    FinalOk ExecuteResponse
  | FinalError batchErr
  | FinalRelay EnclaveErrorResponse
  | FinalPanic

definition replyWith :: "batchResponse \<Rightarrow> hostFinal" where
  "replyWith batchResp = (case bp_err batchResp of
       Some (EnclaveErrored errResp) \<Rightarrow> FinalRelay errResp
     | Some e \<Rightarrow> FinalError e
     | None \<Rightarrow> (case bp_response batchResp of Some resp \<Rightarrow> FinalOk resp | None \<Rightarrow> FinalPanic))"

section \<open>Talking to the enclave\<close>

definition executionFailureReasonForStatus :: "nat \<Rightarrow> string" where
  "executionFailureReasonForStatus status =
     (if status = 408 \<or> status = 504 then ''timeout''
      else if status = 409 then ''conflict''
      else if status = 429 then ''capacity''
      else if status \<ge> 400 \<and> status < 500 then ''invalid_request''
      else if status \<ge> 500 \<and> status < 600 then ''internal''
      else ''unknown'')"

definition normalizeSubCapabilityErrorType :: "string \<Rightarrow> string" where
  "normalizeSubCapabilityErrorType errorType =
     (if errorType = ''dispatch'' \<or> errorType = ''capability'' then errorType else ''unknown'')"

text \<open>The error types \<open>recordSubCapabilityFailures\<close> reports, in order.\<close>

definition recordSubCapabilityFailures :: "SignedComputeRequest list \<Rightarrow> MetricEvent list \<Rightarrow> string list" where
  "recordSubCapabilityFailures reqs events = (case reqs of
       [] \<Rightarrow> []
     | r # _ \<Rightarrow>
         if cr_AppID (scr_ComputeRequest r) \<noteq> AppIDConfidentialWorkflows then []
         else List.map_filter (\<lambda>event.
           if me_Event event \<noteq> ''capability_finished'' then None
           else (case me_success event of
               None \<Rightarrow> None
             | Some success \<Rightarrow> if success then None
                 else Some (normalizeSubCapabilityErrorType
                   (case me_error_type event of None \<Rightarrow> [] | Some e \<Rightarrow> e)))) events)"

text \<open>
  How the round trip to the enclave can end, up to its response: a failure to
  build the request, a transport error (timed out or not), or a status with
  the body, \<open>None\<close> when reading it fails.
\<close>

datatype enclaveReply =
    NotSent
  | TransportError bool
  | Replied nat "bytes option"

record EnclaveCodec =
  cd_ParseErrorResponse :: "bytes \<Rightarrow> EnclaveErrorResponse option"
  cd_ParseExecuteResponse :: "bytes \<Rightarrow> (ExecuteResponse \<times> MetricEvent list) option"
  cd_ParsePublicKeys :: "bytes \<Rightarrow> PublicKeyResponse option"
  cd_ParseSetConfig :: "bytes \<Rightarrow> SetConfigResponse option"
  cd_ParseUpdateConfig :: "bytes \<Rightarrow> UpdateConfigResponse option"

text \<open>Response, failure reason, error, and the failures reported to the metrics.\<close>

definition processBatch :: "EnclaveCodec \<Rightarrow> SignedComputeRequest list \<Rightarrow> enclaveReply
     \<Rightarrow> ExecuteResponse option \<times> string \<times> batchErr option \<times> string list" where
  "processBatch cd reqs reply = (case reply of
     NotSent \<Rightarrow> (None, ''internal'', Some (EnclaveFailed ''failed to create request''), [])
   | TransportError timedOut \<Rightarrow> (None, if timedOut then ''timeout'' else ''transport'',
       Some (EnclaveFailed ''failed to communicate with enclave''), [])
   | Replied status obody \<Rightarrow>
       if status \<noteq> 200
       then let failureReason = executionFailureReasonForStatus status in
         (case obody of
            None \<Rightarrow> (None, failureReason, Some (EnclaveFailed ''no message provided''), [])
          | Some body \<Rightarrow> (case cd_ParseErrorResponse cd body of
              None \<Rightarrow> (None, failureReason, Some (EnclaveFailed ''enclave returned error''), [])
            | Some errResp \<Rightarrow>
                (None, failureReason,
                 Some (if ee_Error errResp \<noteq> [] then EnclaveErrored errResp
                       else EnclaveFailed ''enclave returned error''),
                 recordSubCapabilityFailures reqs (ee_MetricEvents errResp))))
       else (case obody of
           None \<Rightarrow> (None, ''protocol'', Some (EnclaveFailed ''failed to decode response''), [])
         | Some body \<Rightarrow> (case cd_ParseExecuteResponse cd body of
             None \<Rightarrow> (None, ''protocol'', Some (EnclaveFailed ''failed to decode response''), [])
           | Some (execResp, events) \<Rightarrow>
               (Some execResp, [], None, recordSubCapabilityFailures reqs events))))"

section \<open>Completing and failing a batch\<close>

text \<open>Non-blocking sends on one-slot channels, counting those sent and those dropped.\<close>

primrec notifyLoop :: "batchResponse \<Rightarrow> nat list \<Rightarrow> (nat \<rightharpoonup> batchResponse) \<Rightarrow> nat \<Rightarrow> nat
     \<Rightarrow> (nat \<rightharpoonup> batchResponse) \<times> nat \<times> nat" where
  "notifyLoop v [] chans notified dropped = (chans, notified, dropped)"
| "notifyLoop v (ch # chs) chans notified dropped =
     (if chans ch = None then notifyLoop v chs (chans(ch \<mapsto> v)) (Suc notified) dropped
      else notifyLoop v chs chans notified (Suc dropped))"

definition notifyWaiters :: "batchRequest \<Rightarrow> ExecuteResponse option \<Rightarrow> batchErr option \<Rightarrow> hostServer \<Rightarrow> hostServer" where
  "notifyWaiters br resp err s = s\<lparr>hs_chans :=
     fst (notifyLoop \<lparr>bp_response = resp, bp_err = err\<rparr> (br_responseCh br) (hs_chans s) 0 0)\<rparr>"

definition completeBatch :: "time \<Rightarrow> bytes \<Rightarrow> ExecuteResponse option \<Rightarrow> batchErr option \<Rightarrow> hostServer \<Rightarrow> hostServer" where
  "completeBatch now requestHash resp err s = (case Cache_Get now requestHash (hs_pending s) of
     None \<Rightarrow> s
   | Some br \<Rightarrow>
       let s1 = notifyWaiters br resp err (s\<lparr>hs_done := insert (br_doneCh br) (hs_done s)\<rparr>);
           s2 = (case resp of None \<Rightarrow> s1
             | Some rsp \<Rightarrow> s1\<lparr>hs_responses := Cache_Set now requestHash rsp None (hs_responses s1)\<rparr>)
       in s2\<lparr>hs_pending := Cache_Delete requestHash (hs_pending s2)\<rparr>)"

definition failBatchIfNotProcessed ::
    "HostEnv \<Rightarrow> time \<Rightarrow> bytes \<Rightarrow> 32 word \<Rightarrow> bool \<Rightarrow> hostServer \<Rightarrow> bool \<times> hostServer" where
  "failBatchIfNotProcessed env now requestHash f isShutdown s =
     (case Cache_Get now requestHash (hs_pending s) of
        None \<Rightarrow> (False, s)
      | Some br \<Rightarrow>
          if br_processingRequest br then (False, s)
          else let threshold = quorumThreshold (he_requireBFTQuorum env) f;
                   received = length (br_requests br);
                   batchErr = (if isShutdown then ServerShutdown else QuorumTimedOut received threshold);
                   s1 = notifyWaiters br None (Some batchErr) s
               in (True, s1\<lparr>hs_pending := Cache_Delete requestHash (hs_pending s1)\<rparr>))"

text \<open>What wakes the quorum timer: the timeout, the closed \<open>doneCh\<close>, or the cancelled context.\<close>

datatype timerWake = WakeTimeout | WakeDone | WakeShutdown

definition handleQuorumTimeout ::
    "HostEnv \<Rightarrow> time \<Rightarrow> bytes \<Rightarrow> 32 word \<Rightarrow> timerWake \<Rightarrow> hostServer \<Rightarrow> hostServer" where
  "handleQuorumTimeout env now requestHash f wake s = (case wake of
     WakeDone \<Rightarrow> s
   | WakeTimeout \<Rightarrow> snd (failBatchIfNotProcessed env now requestHash f False s)
   | WakeShutdown \<Rightarrow> snd (failBatchIfNotProcessed env now requestHash f True s))"

section \<open>Forwarding configuration, settings and key requests\<close>

definition maybeRecoverConfig :: "EnclaveCodec \<Rightarrow> bytes \<Rightarrow> hostServer \<Rightarrow> string option \<times> hostServer" where
  "maybeRecoverConfig cd body s =
     (if \<not> EnclaveConfig_IsZero (Some (hs_config s)) then (None, s)
      else case cd_ParsePublicKeys cd body of
          None \<Rightarrow> (Some ''invalid json'', s)
        | Some resp \<Rightarrow>
            if ec_T (pk_Config resp) = 0 \<or> ec_Signers (pk_Config resp) = []
               \<or> ec_MasterPublicKey (pk_Config resp) = []
            then (Some ''incomplete enclave config'', s)
            else (None, s\<lparr>hs_config := pk_Config resp\<rparr>))"

text \<open>
  The enclave is a function from the forwarded request to its reply;
  \<open>clientGone\<close> is an error of the client's context.
\<close>

definition host_handleGetPublicKeys ::
    "EnclaveCodec \<Rightarrow> (HttpRequest \<Rightarrow> enclaveReply) \<Rightarrow> bool \<Rightarrow> HttpRequest \<Rightarrow> hostServer
     \<Rightarrow> bytes httpResponse \<times> hostServer" where
  "host_handleGetPublicKeys cd enclave clientGone r s =
     (if rq_Method r \<noteq> GET then (HttpError 405 ''method not allowed'', s)
      else case enclave \<lparr>rq_Method = GET, rq_Body = Some [], rq_RequestIDParam = rq_RequestIDParam r\<rparr> of
          NotSent \<Rightarrow> (HttpError 500 ''failed to create request'', s)
        | TransportError _ \<Rightarrow>
            (if clientGone then HttpError 408 ''client disconnected''
             else HttpError 500 ''failed to communicate with enclave'', s)
        | Replied status obody \<Rightarrow> (case obody of
            None \<Rightarrow> (HttpError 502 ''failed to read enclave publicKeys response'', s)
          | Some body \<Rightarrow>
              if length body > MaxEnclaveResponseBodyBytes
              then (HttpError 502 ''enclave publicKeys response exceeds size limit'', s)
              else (HttpOk status body,
                    if status = 200 then snd (maybeRecoverConfig cd body s) else s)))"

text \<open>
  \<open>applyConfig\<close> reads the configuration the enclave now has from the body:
  \<open>None\<close> when it does not parse, \<open>Some None\<close> when nothing changed.
\<close>

definition proxyConfig ::
    "(HttpRequest \<Rightarrow> enclaveReply) \<Rightarrow> HttpRequest \<Rightarrow> Method \<Rightarrow> (bytes \<Rightarrow> EnclaveConfig option option)
     \<Rightarrow> hostServer \<Rightarrow> bytes httpResponse \<times> hostServer" where
  "proxyConfig enclave r method applyConfig s = (case rq_Body r of
     None \<Rightarrow> (HttpError 400 ''failed to read request body'', s)
   | Some body \<Rightarrow>
       (case enclave \<lparr>rq_Method = method, rq_Body = Some body, rq_RequestIDParam = []\<rparr> of
          NotSent \<Rightarrow> (HttpError 500 ''failed to create request'', s)
        | TransportError _ \<Rightarrow> (HttpError 500 ''failed to communicate with enclave'', s)
        | Replied status obody \<Rightarrow> (case obody of
            None \<Rightarrow> (HttpError 500 ''failed to read response body'', s)
          | Some respBody \<Rightarrow>
              if status = 200
              then (case applyConfig respBody of
                  None \<Rightarrow> (HttpError 500 ''failed to parse response'', s)
                | Some None \<Rightarrow> (HttpOk status respBody, s)
                | Some (Some config) \<Rightarrow> (HttpOk status respBody, s\<lparr>hs_config := config\<rparr>))
              else (HttpOk status respBody, s))))"

definition host_handleSetConfig ::
    "EnclaveCodec \<Rightarrow> (HttpRequest \<Rightarrow> enclaveReply) \<Rightarrow> HttpRequest \<Rightarrow> hostServer \<Rightarrow> bytes httpResponse \<times> hostServer" where
  "host_handleSetConfig cd enclave r s = proxyConfig enclave r POST
     (\<lambda>respBody. map_option (\<lambda>resp. Some (sc_Config resp)) (cd_ParseSetConfig cd respBody)) s"

definition host_handleUpdateConfig ::
    "EnclaveCodec \<Rightarrow> (HttpRequest \<Rightarrow> enclaveReply) \<Rightarrow> HttpRequest \<Rightarrow> hostServer \<Rightarrow> bytes httpResponse \<times> hostServer" where
  "host_handleUpdateConfig cd enclave r s = proxyConfig enclave r PATCH
     (\<lambda>respBody. map_option (\<lambda>resp. if uc_Applied resp then Some (uc_Config resp) else None)
        (cd_ParseUpdateConfig cd respBody)) s"

definition host_handleInjectSettings ::
    "(HttpRequest \<Rightarrow> enclaveReply) \<Rightarrow> HttpRequest \<Rightarrow> bytes httpResponse" where
  "host_handleInjectSettings enclave r =
     (if rq_Method r \<noteq> POST then HttpError 405 ''method not allowed''
      else case rq_Body r of
          None \<Rightarrow> HttpError 400 ''failed to read request body''
        | Some body \<Rightarrow> (case enclave \<lparr>rq_Method = POST, rq_Body = Some body, rq_RequestIDParam = []\<rparr> of
            NotSent \<Rightarrow> HttpError 500 ''failed to build request''
          | TransportError _ \<Rightarrow> HttpError 502 ''failed to reach enclave''
          | Replied status obody \<Rightarrow> HttpOk status (case obody of None \<Rightarrow> [] | Some b \<Rightarrow> b)))"

text \<open>
  The retry loop of \<open>injectSettings\<close>, on the outcomes of its attempts in order:
  the context already done, or a reply and whether the context ends during the
  delay that follows. The result is \<open>None\<close> while it is still retrying; the
  delays it has waited for come with it.
\<close>

datatype injectAttempt = CtxDone | Attempt enclaveReply bool

datatype injectResult = InjectOk | InjectCancelled | InjectBuildFailed

definition initialRetryDelay :: duration where
  [cc_const]: "initialRetryDelay = 2 * second"

definition maxRetryDelay :: duration where
  [cc_const]: "maxRetryDelay = 30 * second"

primrec injectLoop :: "duration \<Rightarrow> injectAttempt list \<Rightarrow> injectResult option \<times> duration list" where
  "injectLoop retryDelay [] = (None, [])"
| "injectLoop retryDelay (a # as) = (case a of
     CtxDone \<Rightarrow> (Some InjectCancelled, [])
   | Attempt reply cancelled \<Rightarrow>
       (case reply of
          NotSent \<Rightarrow> (Some InjectBuildFailed, [])
        | _ \<Rightarrow>
          if (case reply of Replied status _ \<Rightarrow> status = 204 \<or> status = 200 | _ \<Rightarrow> False)
          then (Some InjectOk, [])
          else if cancelled then (Some InjectCancelled, [retryDelay])
          else (case injectLoop (min (retryDelay * 2) maxRetryDelay) as of
              (res, delays) \<Rightarrow> (res, retryDelay # delays))))"

definition injectSettings :: "injectAttempt list \<Rightarrow> injectResult option \<times> duration list" where
  "injectSettings as = injectLoop initialRetryDelay as"

definition hostEndpoint :: "string \<Rightarrow> string" where
  "hostEndpoint path =
     (if path \<in> {''/publicKeys'', ''/requests'', ''/config'', ''/settings''} then path else ''unmatched'')"

text \<open>The flag checks at the start of \<open>main\<close>: the first that fails ends the process.\<close>

definition validateFlags :: "duration \<Rightarrow> duration \<Rightarrow> duration \<Rightarrow> int \<Rightarrow> string option" where
  "validateFlags quorumTimeout writeTimeout shutdownTimeout enclaveCID =
     (if quorumTimeout \<ge> InboundProxyRequestCacheTTL then Some ''quorum-timeout''
      else if writeTimeout \<le> quorumTimeout then Some ''write-timeout''
      else if shutdownTimeout \<le> 0 then Some ''shutdown-timeout''
      else if enclaveCID \<le> 0 \<or> enclaveCID > 2 ^ 32 - 1 then Some ''enclave-cid''
      else None)"

section \<open>Histories\<close>

text \<open>
  The goroutines in any order: a new connection, the return of the \<open>i\<close>-th
  dispatched batch from the enclave, the waking of the \<open>i\<close>-th timer, the
  collectors of the two caches, and a configuration response passing through.
\<close>

datatype hostEvent =
    EvExecute time HttpRequest
  | EvReturn time nat enclaveReply
  | EvTimer time nat timerWake
  | EvGC time
  | EvSetConfig "HttpRequest \<Rightarrow> enclaveReply" HttpRequest
  | EvUpdateConfig "HttpRequest \<Rightarrow> enclaveReply" HttpRequest
  | EvPublicKeys "HttpRequest \<Rightarrow> enclaveReply" bool HttpRequest

definition returnBatch :: "EnclaveCodec \<Rightarrow> time \<Rightarrow> nat \<Rightarrow> enclaveReply \<Rightarrow> hostServer \<Rightarrow> hostServer" where
  "returnBatch cd now i reply s =
     (if hs_locked s \<or> i \<ge> length (hs_jobs s) \<or> db_finished (hs_jobs s ! i) then s
      else let job = hs_jobs s ! i;
               (resp, failureReason, err, failures) = processBatch cd (db_requests job) reply;
               s1 = completeBatch now (db_requestHash job) resp err s
           in s1\<lparr>hs_jobs := (hs_jobs s1)[i := job\<lparr>db_finished := True\<rparr>]\<rparr>)"

definition timerReady :: "HostEnv \<Rightarrow> time \<Rightarrow> quorumTimer \<Rightarrow> timerWake \<Rightarrow> hostServer \<Rightarrow> bool" where
  "timerReady env now tm wake s \<longleftrightarrow> \<not> qt_exited tm \<and> (case wake of
     WakeTimeout \<Rightarrow> now - qt_start tm \<ge> he_quorumTimeout env
   | WakeDone \<Rightarrow> qt_doneCh tm \<in> hs_done s
   | WakeShutdown \<Rightarrow> True)"

definition wakeTimer :: "HostEnv \<Rightarrow> time \<Rightarrow> nat \<Rightarrow> timerWake \<Rightarrow> hostServer \<Rightarrow> hostServer" where
  "wakeTimer env now i wake s =
     (if i \<ge> length (hs_timers s) \<or> \<not> timerReady env now (hs_timers s ! i) wake s
         \<or> (hs_locked s \<and> wake \<noteq> WakeDone) then s
      else let tm = hs_timers s ! i;
               s1 = handleQuorumTimeout env now (qt_requestHash tm) (qt_f tm) wake s
           in s1\<lparr>hs_timers := (hs_timers s1)[i := tm\<lparr>qt_exited := True\<rparr>]\<rparr>)"

primrec hostStep :: "HostEnv \<Rightarrow> EnclaveCodec \<Rightarrow> hostEvent \<Rightarrow> hostServer \<Rightarrow> hostServer" where
  "hostStep env cd (EvExecute now r) s = snd (host_handleExecute env now r s)"
| "hostStep env cd (EvReturn now i reply) s = returnBatch cd now i reply s"
| "hostStep env cd (EvTimer now i wake) s = wakeTimer env now i wake s"
| "hostStep env cd (EvGC now) s =
     s\<lparr>hs_pending := gcTick now (hs_pending s), hs_responses := gcTick now (hs_responses s)\<rparr>"
| "hostStep env cd (EvSetConfig enclave r) s = snd (host_handleSetConfig cd enclave r s)"
| "hostStep env cd (EvUpdateConfig enclave r) s = snd (host_handleUpdateConfig cd enclave r s)"
| "hostStep env cd (EvPublicKeys enclave clientGone r) s =
     snd (host_handleGetPublicKeys cd enclave clientGone r s)"

primrec hostRun :: "HostEnv \<Rightarrow> EnclaveCodec \<Rightarrow> hostEvent list \<Rightarrow> hostServer \<Rightarrow> hostServer" where
  "hostRun env cd [] s = s"
| "hostRun env cd (e # es) s = hostRun env cd es (hostStep env cd e s)"

section \<open>What is pending\<close>

text \<open>The batch stored under a hash, expired or not.\<close>

definition batchAt :: "hostServer \<Rightarrow> bytes \<Rightarrow> batchRequest option" where
  "batchAt s h = map_option ci_Value (ca_items (hs_pending s) h)"

lemma batchAt_cong: "hs_pending s' = hs_pending s \<Longrightarrow> batchAt s' = batchAt s"
  by (rule ext) (simp add: batchAt_def)

lemma Get_batchAt: "Cache_Get now h (hs_pending s) = Some br \<Longrightarrow> batchAt s h = Some br"
  by (auto simp: Cache_Get_def batchAt_def split: option.splits if_splits)

lemma batchAt_Get:
  "batchAt s h = Some br \<Longrightarrow> \<not> (\<exists>it. ca_items (hs_pending s) h = Some it \<and> expired now it)
   \<Longrightarrow> Cache_Get now h (hs_pending s) = Some br"
  by (auto simp: Cache_Get_def batchAt_def split: option.splits)

lemma batchAt_put:
  assumes "ca_maxEntries (hs_pending s) = 0" "hs_pending s' = Cache_Set now h br ttl (hs_pending s)"
  shows "batchAt s' = (batchAt s)(h \<mapsto> br)"
  using assms by (auto simp: batchAt_def Cache_Set_def setLocked_def Let_def)

lemma batchAt_delete:
  assumes "hs_pending s' = Cache_Delete h (hs_pending s)"
  shows "batchAt s' = (batchAt s)(h := None)"
  using assms by (auto simp: batchAt_def Cache_Delete_def)

lemma Cache_Delete_max [simp]: "ca_maxEntries (Cache_Delete k c) = ca_maxEntries c"
  by (simp add: Cache_Delete_def)

lemma Cache_Set_max [simp]: "ca_maxEntries (Cache_Set now k v ttl c) = ca_maxEntries c"
  by (simp add: Cache_Set_def)

section \<open>The invariant of the collected batches\<close>

text \<open>
  \<open>C\<close> is the set of configurations in force so far. A request is vouched for
  under a hash by the signer its signature verifies to, and a list of requests
  is gathered when distinct signers vouch for its members.
\<close>

definition vouched :: "HostEnv \<Rightarrow> EnclaveConfig set \<Rightarrow> bytes \<Rightarrow> SignedComputeRequest \<Rightarrow> bytes \<Rightarrow> bool" where
  "vouched env C h r sg \<longleftrightarrow> ComputeRequest_Hash (he_H env) (scr_ComputeRequest r) = h \<and>
     (\<exists>cfg\<in>C. VerifySignature (he_edVerify env) (requestPayload (he_H env) h) (scr_Signature r)
                (ec_Signers cfg) = VSigner sg)"

definition gathered :: "HostEnv \<Rightarrow> EnclaveConfig set \<Rightarrow> bytes \<Rightarrow> SignedComputeRequest list \<Rightarrow> bytes list \<Rightarrow> bool" where
  "gathered env C h reqs sgs \<longleftrightarrow> distinct sgs \<and> list_all2 (vouched env C h) reqs sgs"

definition batch_ok :: "HostEnv \<Rightarrow> EnclaveConfig set \<Rightarrow> hostServer \<Rightarrow> bytes \<Rightarrow> batchRequest \<Rightarrow> bool" where
  "batch_ok env C s h br \<longleftrightarrow> br_doneCh br < hs_nextDone s \<and>
     (\<exists>sgs. gathered env C h (br_requests br) sgs \<and> set sgs = br_signersSeen br) \<and>
     distinct (br_responseCh br) \<and>
     (\<forall>ch\<in>set (br_responseCh br). ch < hs_nextCh s \<and> hs_chans s ch = None)"

definition apart :: "batchRequest \<Rightarrow> batchRequest \<Rightarrow> bool" where
  "apart br br' \<longleftrightarrow> br_doneCh br \<noteq> br_doneCh br' \<and> set (br_responseCh br) \<inter> set (br_responseCh br') = {}"

definition job_ok :: "HostEnv \<Rightarrow> EnclaveConfig set \<Rightarrow> nat \<Rightarrow> dispatchedBatch \<Rightarrow> bool" where
  "job_ok env C n job \<longleftrightarrow> db_doneCh job < n \<and>
     (\<exists>cfg\<in>C. \<exists>sgs. gathered env C (db_requestHash job) (db_requests job) sgs \<and>
        int (length sgs) = quorumThreshold (he_requireBFTQuorum env) (ec_F cfg))"

definition host_inv :: "HostEnv \<Rightarrow> EnclaveConfig set \<Rightarrow> hostServer \<Rightarrow> bool" where
  "host_inv env C s \<longleftrightarrow> cache_inv (hs_pending s) \<and> ca_maxEntries (hs_pending s) = 0 \<and>
     (\<forall>h br. batchAt s h = Some br \<longrightarrow> batch_ok env C s h br) \<and>
     (\<forall>h h' br br'. batchAt s h = Some br \<longrightarrow> batchAt s h' = Some br' \<longrightarrow> h \<noteq> h' \<longrightarrow> apart br br') \<and>
     (\<forall>job\<in>set (hs_jobs s). job_ok env C (hs_nextDone s) job) \<and>
     (\<forall>ch. hs_nextCh s \<le> ch \<longrightarrow> hs_chans s ch = None)"

lemma host_invD:
  assumes "host_inv env C s"
  shows "cache_inv (hs_pending s)" "ca_maxEntries (hs_pending s) = 0"
    "\<And>h br. batchAt s h = Some br \<Longrightarrow> batch_ok env C s h br"
    "\<And>h h' br br'. batchAt s h = Some br \<Longrightarrow> batchAt s h' = Some br' \<Longrightarrow> h \<noteq> h' \<Longrightarrow> apart br br'"
    "\<And>job. job \<in> set (hs_jobs s) \<Longrightarrow> job_ok env C (hs_nextDone s) job"
    "\<And>ch. hs_nextCh s \<le> ch \<Longrightarrow> hs_chans s ch = None"
  using assms unfolding host_inv_def by blast+

lemma host_invI:
  assumes "cache_inv (hs_pending s)" "ca_maxEntries (hs_pending s) = 0"
    "\<And>h br. batchAt s h = Some br \<Longrightarrow> batch_ok env C s h br"
    "\<And>h h' br br'. batchAt s h = Some br \<Longrightarrow> batchAt s h' = Some br' \<Longrightarrow> h \<noteq> h' \<Longrightarrow> apart br br'"
    "\<And>job. job \<in> set (hs_jobs s) \<Longrightarrow> job_ok env C (hs_nextDone s) job"
    "\<And>ch. hs_nextCh s \<le> ch \<Longrightarrow> hs_chans s ch = None"
  shows "host_inv env C s"
  using assms unfolding host_inv_def by blast

lemma host_inv_New: "host_inv env C NewHostServer"
  by (simp add: host_inv_def NewHostServer_def NewCache_def cache_inv_New batchAt_def NewBoundedCache_def
      cache_inv_def)

text \<open>Steps that leave the batches alone or drop some of them.\<close>

lemma host_inv_quiet:
  assumes inv: "host_inv env C s"
    and "cache_inv (hs_pending s')" "ca_maxEntries (hs_pending s') = 0"
    and sub: "\<And>h br. batchAt s' h = Some br \<Longrightarrow> batchAt s h = Some br"
    and same: "hs_nextDone s' = hs_nextDone s" "hs_nextCh s' = hs_nextCh s" "hs_chans s' = hs_chans s"
    and jobs: "\<And>job. job \<in> set (hs_jobs s') \<Longrightarrow> \<exists>job'\<in>set (hs_jobs s).
      db_doneCh job = db_doneCh job' \<and> db_requestHash job = db_requestHash job' \<and> db_requests job = db_requests job'"
  shows "host_inv env C s'"
proof -
  have "batch_ok env C s' h br = batch_ok env C s h br" for h br
    by (simp add: batch_ok_def same)
  moreover have "job_ok env C (hs_nextDone s') job" if "job \<in> set (hs_jobs s')" for job
    using host_invD(5) [OF inv] jobs [OF that] same(1) unfolding job_ok_def by metis
  ultimately show ?thesis
    unfolding host_inv_def using assms(2,3) host_invD [OF inv] sub same by metis
qed

lemma notifyLoop_chans:
  "distinct chs \<Longrightarrow> \<forall>ch\<in>set chs. chans ch = None \<Longrightarrow>
   notifyLoop v chs chans n d = (\<lambda>ch. if ch \<in> set chs then Some v else chans ch, n + length chs, d)"
proof (induction chs arbitrary: chans n)
  case (Cons c chs)
  then have "notifyLoop v (c # chs) chans n d = notifyLoop v chs (chans(c \<mapsto> v)) (Suc n) d" by simp
  also have "\<dots> = (\<lambda>ch. if ch \<in> set chs then Some v else (chans(c \<mapsto> v)) ch, Suc n + length chs, d)"
    using Cons by (intro Cons.IH) auto
  finally show ?case by (auto simp: fun_eq_iff)
qed simp

text \<open>Every waiter of a stored batch gets the response; no channel is full.\<close>

lemma notifyWaiters_chans:
  assumes "host_inv env C s" "batchAt s h = Some br"
  shows "hs_chans (notifyWaiters br resp err s) ch =
      (if ch \<in> set (br_responseCh br) then Some \<lparr>bp_response = resp, bp_err = err\<rparr> else hs_chans s ch)"
    and "snd (snd (notifyLoop \<lparr>bp_response = resp, bp_err = err\<rparr> (br_responseCh br) (hs_chans s) 0 0)) = 0"
  using host_invD(3) [OF assms] by (auto simp: notifyWaiters_def batch_ok_def notifyLoop_chans)

lemma notifyWaiters_fields [simp]:
  "hs_pending (notifyWaiters br resp err s) = hs_pending s" "hs_jobs (notifyWaiters br resp err s) = hs_jobs s"
  "hs_nextCh (notifyWaiters br resp err s) = hs_nextCh s" "hs_nextDone (notifyWaiters br resp err s) = hs_nextDone s"
  "hs_timers (notifyWaiters br resp err s) = hs_timers s" "hs_done (notifyWaiters br resp err s) = hs_done s"
  "hs_responses (notifyWaiters br resp err s) = hs_responses s" "hs_config (notifyWaiters br resp err s) = hs_config s"
  "hs_locked (notifyWaiters br resp err s) = hs_locked s"
  by (simp_all add: notifyWaiters_def)

text \<open>A batch settled with a response: its waiters notified, its entry gone.\<close>

lemma host_inv_settled:
  assumes inv: "host_inv env C s" and br: "batchAt s h = Some br"
    and pend: "hs_pending s' = Cache_Delete h (hs_pending s)"
    and same: "hs_nextDone s' = hs_nextDone s" "hs_nextCh s' = hs_nextCh s" "hs_jobs s' = hs_jobs s"
    and chans: "\<And>ch. hs_chans s' ch = (if ch \<in> set (br_responseCh br) then Some v else hs_chans s ch)"
  shows "host_inv env C s'"
proof -
  have at: "batchAt s' = (batchAt s)(h := None)" using pend by (rule batchAt_delete)
  have "batch_ok env C s' h' br'" if "batchAt s' h' = Some br'" for h' br'
  proof -
    from that at have h': "h' \<noteq> h" "batchAt s h' = Some br'" by (auto split: if_splits)
    with host_invD(3,4) [OF inv] br have "batch_ok env C s h' br'" "apart br' br" by blast+
    then show ?thesis using chans same by (auto simp: batch_ok_def apart_def)
  qed
  moreover have "hs_chans s' ch = None" if "hs_nextCh s' \<le> ch" for ch
    using that host_invD(3) [OF inv br] host_invD(6) [OF inv] same chans by (fastforce simp: batch_ok_def)
  moreover have "cache_inv (hs_pending s')" "ca_maxEntries (hs_pending s') = 0"
    using host_invD(1,2) [OF inv] pend by (simp_all add: cache_inv_Delete)
  ultimately show ?thesis
    unfolding host_inv_def using host_invD(4,5) [OF inv] at same by (auto split: if_splits)
qed

lemma completeBatch_cases:
  obtains (gone) "Cache_Get now h (hs_pending s) = None" "completeBatch now h resp err s = s"
  | (settled) br where "Cache_Get now h (hs_pending s) = Some br" "batchAt s h = Some br"
      "hs_pending (completeBatch now h resp err s) = Cache_Delete h (hs_pending s)"
      "hs_chans (completeBatch now h resp err s) = hs_chans (notifyWaiters br resp err s)"
      "hs_done (completeBatch now h resp err s) = insert (br_doneCh br) (hs_done s)"
      "hs_responses (completeBatch now h resp err s) = (case resp of None \<Rightarrow> hs_responses s
         | Some rsp \<Rightarrow> Cache_Set now h rsp None (hs_responses s))"
  by (cases "Cache_Get now h (hs_pending s)")
    (auto simp: completeBatch_def Let_def notifyWaiters_def dest: Get_batchAt split: option.splits)

lemma completeBatch_fields [simp]:
  "hs_jobs (completeBatch now h resp err s) = hs_jobs s" "hs_nextCh (completeBatch now h resp err s) = hs_nextCh s"
  "hs_nextDone (completeBatch now h resp err s) = hs_nextDone s" "hs_timers (completeBatch now h resp err s) = hs_timers s"
  "hs_config (completeBatch now h resp err s) = hs_config s" "hs_locked (completeBatch now h resp err s) = hs_locked s"
  by (simp_all add: completeBatch_def Let_def split: option.split)

lemma failBatch_cases:
  obtains (skipped) "failBatchIfNotProcessed env now h f sd s = (False, s)"
      "\<And>br. Cache_Get now h (hs_pending s) = Some br \<Longrightarrow> br_processingRequest br"
  | (settled) br err s' where "failBatchIfNotProcessed env now h f sd s = (True, s')"
      "Cache_Get now h (hs_pending s) = Some br" "batchAt s h = Some br" "\<not> br_processingRequest br"
      "hs_pending s' = Cache_Delete h (hs_pending s)"
      "hs_chans s' = hs_chans (notifyWaiters br None (Some err) s)"
      "err = (if sd then ServerShutdown
              else QuorumTimedOut (length (br_requests br)) (quorumThreshold (he_requireBFTQuorum env) f))"
proof (cases "\<exists>br. Cache_Get now h (hs_pending s) = Some br \<and> \<not> br_processingRequest br")
  case True
  then obtain br where "Cache_Get now h (hs_pending s) = Some br" "\<not> br_processingRequest br" by blast
  then show thesis
    by (intro settled [where s' = "snd (failBatchIfNotProcessed env now h f sd s)", OF _ _ _ _ _ _ refl])
      (simp_all add: failBatchIfNotProcessed_def Let_def Get_batchAt)
next
  case False
  then show thesis by (intro skipped) (auto simp: failBatchIfNotProcessed_def split: option.split)
qed

lemma failBatch_fields [simp]:
  "hs_jobs (snd (failBatchIfNotProcessed env now h f sd s)) = hs_jobs s"
  "hs_nextCh (snd (failBatchIfNotProcessed env now h f sd s)) = hs_nextCh s"
  "hs_nextDone (snd (failBatchIfNotProcessed env now h f sd s)) = hs_nextDone s"
  "hs_timers (snd (failBatchIfNotProcessed env now h f sd s)) = hs_timers s"
  "hs_config (snd (failBatchIfNotProcessed env now h f sd s)) = hs_config s"
  "hs_locked (snd (failBatchIfNotProcessed env now h f sd s)) = hs_locked s"
  "hs_done (snd (failBatchIfNotProcessed env now h f sd s)) = hs_done s"
  "hs_responses (snd (failBatchIfNotProcessed env now h f sd s)) = hs_responses s"
  by (simp_all add: failBatchIfNotProcessed_def Let_def split: option.split)

lemma host_inv_complete:
  assumes inv: "host_inv env C s"
  shows "host_inv env C (completeBatch now h resp err s)"
proof (cases rule: completeBatch_cases [of now h s resp err])
  case gone
  with inv show ?thesis by simp
next
  case (settled br)
  show ?thesis
    by (rule host_inv_settled [OF inv settled(2,3), where v = "\<lparr>bp_response = resp, bp_err = err\<rparr>"])
      (simp_all add: settled(4) notifyWaiters_chans(1) [OF inv settled(2)])
qed

lemma host_inv_fail:
  assumes inv: "host_inv env C s"
  shows "host_inv env C (snd (failBatchIfNotProcessed env' now h f sd s))"
proof (cases rule: failBatch_cases [of env' now h f sd s])
  case skipped
  with inv show ?thesis by simp
next
  case (settled br err s')
  have "hs_nextDone s' = hs_nextDone s" "hs_nextCh s' = hs_nextCh s" "hs_jobs s' = hs_jobs s"
    using failBatch_fields [of env' now h f sd s] settled(1) by simp_all
  then have "host_inv env C s'"
    by (rule host_inv_settled [OF inv settled(3,5), where v = "\<lparr>bp_response = None, bp_err = Some err\<rparr>"])
      (simp add: settled(6) notifyWaiters_chans(1) [OF inv settled(3)])
  with settled(1) show ?thesis by simp
qed

lemma host_inv_return:
  assumes "host_inv env C s"
  shows "host_inv env C (returnBatch cd now i reply s)"
proof -
  have "host_inv env C (s'\<lparr>hs_jobs := (hs_jobs s')[i := (hs_jobs s' ! i)\<lparr>db_finished := True\<rparr>]\<rparr>)"
    if inv: "host_inv env C s'" for s'
  proof (rule host_inv_quiet [OF inv])
    fix job assume "job \<in> set (hs_jobs (s'\<lparr>hs_jobs := (hs_jobs s')[i := (hs_jobs s' ! i)\<lparr>db_finished := True\<rparr>]\<rparr>))"
    then obtain j where j: "j < length (hs_jobs s')" "job = (hs_jobs s')[i := (hs_jobs s' ! i)\<lparr>db_finished := True\<rparr>] ! j"
      by (auto simp: in_set_conv_nth)
    then show "\<exists>job'\<in>set (hs_jobs s'). db_doneCh job = db_doneCh job' \<and>
        db_requestHash job = db_requestHash job' \<and> db_requests job = db_requests job'"
      by (intro bexI [of _ "hs_jobs s' ! j"]) (cases "i = j"; simp)+
  qed (use host_invD [OF inv] in \<open>simp_all add: batchAt_def\<close>)
  from this [OF host_inv_complete [OF assms]] show ?thesis
    using assms by (auto simp: returnBatch_def Let_def split: prod.splits)
qed

lemma host_inv_timer:
  assumes "host_inv env C s"
  shows "host_inv env C (wakeTimer env' now i wake s)"
proof -
  have "host_inv env C (s'\<lparr>hs_timers := ts\<rparr>)" if inv: "host_inv env C s'" for s' ts
    by (rule host_inv_quiet [OF inv]) (use host_invD [OF inv] in \<open>auto simp: batchAt_def\<close>)
  then show ?thesis using assms
    by (auto simp: wakeTimer_def Let_def handleQuorumTimeout_def host_inv_fail split: timerWake.splits)
qed

text \<open>Joining: what \<open>joinBatch\<close> changes, for a pending batch and for a new one.\<close>

definition joined :: "HostEnv \<Rightarrow> time \<Rightarrow> bytes \<Rightarrow> bytes \<Rightarrow> SignedComputeRequest \<Rightarrow> 32 word
     \<Rightarrow> batchRequest \<Rightarrow> bool \<Rightarrow> batchRequest \<Rightarrow> hostServer \<Rightarrow> hostServer \<Rightarrow> bool" where
  "joined env now h signer r f br p br' s s' \<longleftrightarrow>
     addToBatch env signer r f (hs_nextCh s) br = (p, br') \<and>
     batchAt s' = (batchAt s)(h \<mapsto> br') \<and> cache_inv (hs_pending s') \<and> ca_maxEntries (hs_pending s') = 0 \<and>
     hs_nextCh s' = Suc (hs_nextCh s) \<and> hs_chans s' = hs_chans s \<and> hs_done s' = hs_done s \<and>
     hs_locked s' = hs_locked s \<and> hs_config s' = hs_config s \<and>
     hs_jobs s' = hs_jobs s @ (if p then [\<lparr>db_doneCh = br_doneCh br', db_requestHash = h,
        db_requests = br_requests br', db_finished = False\<rparr>] else [])"

lemma joinBatch_cases:
  assumes "cache_inv (hs_pending s)" "ca_maxEntries (hs_pending s) = 0"
  obtains (pending) br p br' where "joined env now h signer r f br p br' s (snd (joinBatch env now h signer r f s))"
      "Cache_Get now h (hs_pending s) = Some br"
      "hs_nextDone (snd (joinBatch env now h signer r f s)) = hs_nextDone s"
      "hs_timers (snd (joinBatch env now h signer r f s)) = hs_timers s"
  | (new) p br' where
      "joined env now h signer r f (newBatch now (hs_nextDone s)) p br' s (snd (joinBatch env now h signer r f s))"
      "Cache_Get now h (hs_pending s) = None"
      "hs_nextDone (snd (joinBatch env now h signer r f s)) = Suc (hs_nextDone s)"
      "hs_timers (snd (joinBatch env now h signer r f s)) = hs_timers s @ [\<lparr>qt_requestHash = h, qt_f = f,
         qt_doneCh = hs_nextDone s, qt_start = now, qt_exited = False\<rparr>]"
proof -
  let ?s' = "snd (joinBatch env now h signer r f s)"
  define br where "br = fst (batchFor now h f s)"
  obtain p br' where add: "addToBatch env signer r f (hs_nextCh s) br = (p, br')" by fastforce
  have put: "hs_pending ?s' = Cache_Set now h br' None (hs_pending s)"
    using add by (auto simp: joinBatch_def batchFor_def br_def Let_def split: option.splits)
  have j: "joined env now h signer r f br p br' s ?s'"
    using add put batchAt_put [OF assms(2) put] assms
    by (auto simp: joined_def joinBatch_def batchFor_def br_def Let_def cache_inv_Set split: option.splits)
  show thesis
  proof (cases "Cache_Get now h (hs_pending s)")
    case None
    then have br: "br = newBatch now (hs_nextDone s)" by (simp add: br_def batchFor_def)
    show thesis
      by (rule new [OF j [unfolded br] None])
        (use None add br in \<open>simp_all add: joinBatch_def batchFor_def Let_def\<close>)
  next
    case (Some br0)
    then have br: "br = br0" by (simp add: br_def batchFor_def)
    show thesis
      by (rule pending [OF j [unfolded br] Some])
        (use Some add br in \<open>simp_all add: joinBatch_def batchFor_def Let_def\<close>)
  qed
qed

lemma addToBatch_cases:
  assumes "addToBatch env signer r f ch br = (p, br')"
  obtains (duplicate) "signer \<in> br_signersSeen br" "\<not> p" "br' = br\<lparr>br_responseCh := br_responseCh br @ [ch]\<rparr>"
  | (added) "signer \<notin> br_signersSeen br" "br_signersSeen br' = insert signer (br_signersSeen br)"
      "br_requests br' = br_requests br @ [r]"
      "br_processingRequest br' \<longleftrightarrow> br_processingRequest br \<or> p"
      "p \<longleftrightarrow> int (Suc (length (br_requests br))) = quorumThreshold (he_requireBFTQuorum env) f"
proof (cases "signer \<in> br_signersSeen br")
  case True
  with assms show thesis by (intro duplicate) (simp_all add: addToBatch_def)
next
  case False
  have "br_signersSeen br' = insert signer (br_signersSeen br) \<and> br_requests br' = br_requests br @ [r] \<and>
      (br_processingRequest br' \<longleftrightarrow> br_processingRequest br \<or> p) \<and>
      (p \<longleftrightarrow> int (Suc (length (br_requests br))) = quorumThreshold (he_requireBFTQuorum env) f)"
    using assms False by (cases p) (simp_all add: addToBatch_def Let_def, safe, simp_all)
  with False show thesis by (intro added) simp_all
qed

lemma addToBatch_fields:
  assumes "addToBatch env signer r f ch br = (p, br')"
  shows "br_doneCh br' = br_doneCh br" "br_responseCh br' = br_responseCh br @ [ch]" "br_createdAt br' = br_createdAt br"
  using assms by (auto simp: addToBatch_def Let_def split: if_splits)

lemma gathered_snoc:
  assumes "gathered env C h reqs sgs" "vouched env C h r sg" "sg \<notin> set sgs"
  shows "gathered env C h (reqs @ [r]) (sgs @ [sg])"
  using assms by (auto simp: gathered_def intro: list_all2_appendI)

lemma addToBatch_gathered:
  assumes "addToBatch env signer r f ch br = (p, br')" "vouched env C h r signer"
    and "gathered env C h (br_requests br) sgs" "set sgs = br_signersSeen br"
  obtains sgs' where "gathered env C h (br_requests br') sgs'" "set sgs' = br_signersSeen br'"
    "p \<Longrightarrow> int (length sgs') = quorumThreshold (he_requireBFTQuorum env) f"
  using assms(1)
proof (cases rule: addToBatch_cases)
  case duplicate
  then show ?thesis using assms(3,4) by (intro that [of sgs]) auto
next
  case added
  have "length sgs = length (br_requests br)" using assms(3) by (auto simp: gathered_def list_all2_lengthD)
  then show ?thesis
    using gathered_snoc [OF assms(3,2)] assms(4) added by (intro that [of "sgs @ [signer]"]) auto
qed

lemma batch_ok_mono:
  assumes "batch_ok env C s h br" "hs_chans s' = hs_chans s" "hs_nextDone s \<le> hs_nextDone s'" "hs_nextCh s \<le> hs_nextCh s'"
  shows "batch_ok env C s' h br"
  using assms by (fastforce simp: batch_ok_def)

text \<open>The batch a request joins satisfies the invariant, and joining keeps it.\<close>

lemma host_inv_joined:
  assumes inv: "host_inv env C s" and j: "joined env now h signer r f br p br' s s'"
    and v: "vouched env C h r signer" and f: "\<exists>cfg\<in>C. ec_F cfg = f"
    and sgs: "gathered env C h (br_requests br) sgs" "set sgs = br_signersSeen br"
    and dist: "distinct (br_responseCh br)"
    and ch: "\<forall>ch\<in>set (br_responseCh br). ch < hs_nextCh s \<and> hs_chans s ch = None"
    and nxt: "br_doneCh br < hs_nextDone s'" "hs_nextDone s \<le> hs_nextDone s'"
    and apart: "\<And>h' br0. h' \<noteq> h \<Longrightarrow> batchAt s h' = Some br0 \<Longrightarrow> apart br br0"
  shows "host_inv env C s'"
proof -
  from j have add: "addToBatch env signer r f (hs_nextCh s) br = (p, br')"
    and at: "batchAt s' = (batchAt s)(h \<mapsto> br')" and c: "hs_chans s' = hs_chans s" "hs_nextCh s' = Suc (hs_nextCh s)"
    and jobs: "hs_jobs s' = hs_jobs s @ (if p then [\<lparr>db_doneCh = br_doneCh br', db_requestHash = h,
        db_requests = br_requests br', db_finished = False\<rparr>] else [])"
    by (simp_all add: joined_def)
  obtain sgs' where sgs': "gathered env C h (br_requests br') sgs'" "set sgs' = br_signersSeen br'"
    "p \<Longrightarrow> int (length sgs') = quorumThreshold (he_requireBFTQuorum env) f"
    using addToBatch_gathered [OF add v sgs] by metis
  note fields = addToBatch_fields [OF add]
  have "batch_ok env C s' h br'"
    unfolding batch_ok_def
  proof (intro conjI)
    show "\<exists>sgs. gathered env C h (br_requests br') sgs \<and> set sgs = br_signersSeen br'" using sgs' by blast
    show "distinct (br_responseCh br')" using dist ch fields by auto
    show "\<forall>ch\<in>set (br_responseCh br'). ch < hs_nextCh s' \<and> hs_chans s' ch = None"
      using ch c fields host_invD(6) [OF inv] by (auto simp: less_Suc_eq)
  qed (use nxt fields in simp)
  then have ok: "batch_ok env C s' h' br0" if "batchAt s' h' = Some br0" for h' br0
    using that host_invD(3) [OF inv, of h' br0] c nxt
    by (cases "h' = h") (auto simp: at intro: batch_ok_mono [of env C s])
  have ap: "apart br' br0 \<and> apart br0 br'" if "h' \<noteq> h" "batchAt s h' = Some br0" for h' br0
    using apart [OF that] host_invD(3) [OF inv that(2)] fields by (auto simp: apart_def batch_ok_def)
  have job: "job_ok env C (hs_nextDone s') job" if "job \<in> set (hs_jobs s')" for job
  proof (cases "job \<in> set (hs_jobs s)")
    case True
    then show ?thesis using host_invD(5) [OF inv] nxt by (fastforce simp: job_ok_def)
  next
    case False
    with that jobs have p and "job = \<lparr>db_doneCh = br_doneCh br', db_requestHash = h,
        db_requests = br_requests br', db_finished = False\<rparr>" by (auto split: if_splits)
    then show ?thesis using sgs' f nxt fields by (auto simp: job_ok_def)
  qed
  show ?thesis
  proof (rule host_invI)
    fix h1 h2 b1 b2 assume "batchAt s' h1 = Some b1" "batchAt s' h2 = Some b2" "h1 \<noteq> h2"
    then show "apart b1 b2"
      using ap [of h1 b1] ap [of h2 b2] host_invD(4) [OF inv, of h1 b1 h2 b2] by (auto simp: at split: if_splits)
  qed (use j host_invD(6) [OF inv] c ok job in \<open>auto simp: joined_def\<close>)
qed

lemma host_inv_joinBatch:
  assumes inv: "host_inv env C s" and v: "vouched env C h r signer" and f: "\<exists>cfg\<in>C. ec_F cfg = f"
  shows "host_inv env C (snd (joinBatch env now h signer r f s))"
proof (cases rule: joinBatch_cases [OF host_invD(1,2) [OF inv], of env now h signer r f])
  case (1 br p br')
  then have at: "batchAt s h = Some br" by (simp add: Get_batchAt)
  note ok = host_invD(3) [OF inv at, unfolded batch_ok_def]
  then obtain sgs where "gathered env C h (br_requests br) sgs" "set sgs = br_signersSeen br" by blast
  then show ?thesis
    using ok host_invD(4) [OF inv at] 1(3) by (intro host_inv_joined [OF inv 1(1) v f]) auto
next
  case (2 p br')
  have "apart (newBatch now (hs_nextDone s)) br0" if "batchAt s h' = Some br0" for h' br0
    using host_invD(3) [OF inv that] by (simp add: apart_def batch_ok_def newBatch_def)
  then show ?thesis
    by (intro host_inv_joined [OF inv 2(1) v f, where sgs = "[]"])
      (simp_all add: newBatch_def gathered_def 2(3))
qed

text \<open>The host is configured.\<close>

definition accepting :: "EnclaveConfig \<Rightarrow> bool" where
  "accepting cfg \<longleftrightarrow> \<not> (ec_T cfg = 0 \<and> ec_F cfg = 0)"

text \<open>How the handler ends: in a join under the configuration in force, or without touching a batch.\<close>

lemma host_handleExecute_cases:
  obtains (joins) req signer where
      "VerifySignature (he_edVerify env) (requestPayload (he_H env)
         (ComputeRequest_Hash (he_H env) (scr_ComputeRequest req))) (scr_Signature req)
         (ec_Signers (hs_config s)) = VSigner signer"
      "\<not> hs_locked s" "accepting (hs_config s)"
      "Cache_Get now (ComputeRequest_Hash (he_H env) (scr_ComputeRequest req)) (hs_responses s) = None"
      "host_handleExecute env now r s =
        (HWait (hs_nextCh s), snd (joinBatch env now (ComputeRequest_Hash (he_H env) (scr_ComputeRequest req))
           signer req (ec_F (hs_config s)) s))"
  | (answers) "snd (host_handleExecute env now r s) = s" "\<And>ch. fst (host_handleExecute env now r s) \<noteq> HWait ch"
  | (panics) "host_handleExecute env now r s = (HPanic, s\<lparr>hs_locked := True\<rparr>)"
proof -
  have ch: "fst (joinBatch env now h signer req f s) = hs_nextCh s" for h signer req f
    by (simp add: joinBatch_def Let_def split: prod.splits)
  show thesis
  proof (cases "\<exists>body req signer. rq_Method r = POST \<and> rq_Body r = Some body \<and> he_ParseRequest env body = Some req \<and>
      \<not> (ec_T (hs_config s) = 0 \<and> ec_F (hs_config s) = 0) \<and> \<not> hs_locked s \<and>
      VerifySignature (he_edVerify env) (requestPayload (he_H env)
         (ComputeRequest_Hash (he_H env) (scr_ComputeRequest req))) (scr_Signature req)
         (ec_Signers (hs_config s)) = VSigner signer \<and>
      Cache_Get now (ComputeRequest_Hash (he_H env) (scr_ComputeRequest req)) (hs_responses s) = None")
    case True
    then obtain body req signer where *: "rq_Method r = POST" "rq_Body r = Some body" "he_ParseRequest env body = Some req"
      "\<not> (ec_T (hs_config s) = 0 \<and> ec_F (hs_config s) = 0)" "\<not> hs_locked s"
      "VerifySignature (he_edVerify env) (requestPayload (he_H env)
         (ComputeRequest_Hash (he_H env) (scr_ComputeRequest req))) (scr_Signature req)
         (ec_Signers (hs_config s)) = VSigner signer"
      "Cache_Get now (ComputeRequest_Hash (he_H env) (scr_ComputeRequest req)) (hs_responses s) = None"
      by blast
    show thesis
      by (rule joins [OF *(6) *(5) *(4) [folded accepting_def] *(7)])
        (use * ch [of "ComputeRequest_Hash (he_H env) (scr_ComputeRequest req)" signer req "ec_F (hs_config s)"]
         in \<open>auto simp: host_handleExecute_def EnclaveConfig_Copy_def Let_def split: prod.splits\<close>)
  next
    case False
    then have "snd (host_handleExecute env now r s) = s \<and> (\<forall>ch. fst (host_handleExecute env now r s) \<noteq> HWait ch) \<or>
        host_handleExecute env now r s = (HPanic, s\<lparr>hs_locked := True\<rparr>)"
      by (auto simp: host_handleExecute_def EnclaveConfig_Copy_def Let_def
          split: option.splits verifyResult.splits)
    then show thesis using answers panics by blast
  qed
qed

text \<open>The configurations in force when the events of a run start, and at its end.\<close>

primrec hostConfigs :: "HostEnv \<Rightarrow> EnclaveCodec \<Rightarrow> hostEvent list \<Rightarrow> hostServer \<Rightarrow> EnclaveConfig set" where
  "hostConfigs env cd [] s = {hs_config s}"
| "hostConfigs env cd (e # es) s = insert (hs_config s) (hostConfigs env cd es (hostStep env cd e s))"

lemma hostConfigs_start: "hs_config s \<in> hostConfigs env cd es s"
  by (cases es) simp_all

lemma gcTick_max: "cache_inv c \<Longrightarrow> ca_maxEntries (gcTick now c) = ca_maxEntries c"
  by (simp add: gcTick_def garbageCollect_spec)

lemma gcTick_sub: "cache_inv c \<Longrightarrow> ca_items (gcTick now c) k = Some it \<Longrightarrow> ca_items c k = Some it"
  by (auto simp: gcTick_def garbageCollect_spec restrict_map_def split: if_splits)

lemma same_config: "\<exists>cfg. s = s\<lparr>hs_config := cfg\<rparr>"
  by (rule exI [of _ "hs_config s"]) simp

lemma proxyConfig_state: "\<exists>cfg. snd (proxyConfig enclave r m f s) = s\<lparr>hs_config := cfg\<rparr>"
  by (auto simp: proxyConfig_def same_config split: option.split enclaveReply.split)

lemma maybeRecoverConfig_state: "\<exists>cfg. snd (maybeRecoverConfig cd body s) = s\<lparr>hs_config := cfg\<rparr>"
  by (auto simp: maybeRecoverConfig_def same_config split: option.split)

lemma host_handleGetPublicKeys_state:
  "\<exists>cfg. snd (host_handleGetPublicKeys cd enclave gone r s) = s\<lparr>hs_config := cfg\<rparr>"
  using maybeRecoverConfig_state [of cd _ s]
  by (auto simp: host_handleGetPublicKeys_def same_config split: option.split enclaveReply.split)

text \<open>Every step is one of five: a join, a return, a timer, a collection, or a change of configuration or lock.\<close>

lemma hostStep_cases:
  obtains (join) now req signer where
      "hostStep env cd e s = snd (joinBatch env now (ComputeRequest_Hash (he_H env) (scr_ComputeRequest req))
         signer req (ec_F (hs_config s)) s)"
      "VerifySignature (he_edVerify env) (requestPayload (he_H env)
         (ComputeRequest_Hash (he_H env) (scr_ComputeRequest req))) (scr_Signature req)
         (ec_Signers (hs_config s)) = VSigner signer"
      "accepting (hs_config s)" "\<exists>r. e = EvExecute now r"
  | (return) now i reply where "e = EvReturn now i reply" "hostStep env cd e s = returnBatch cd now i reply s"
  | (timer) now i wake where "e = EvTimer now i wake" "hostStep env cd e s = wakeTimer env now i wake s"
  | (collect) now where "e = EvGC now" "hostStep env cd e s =
      s\<lparr>hs_pending := gcTick now (hs_pending s), hs_responses := gcTick now (hs_responses s)\<rparr>"
  | (other) cfg l where "hostStep env cd e s = s\<lparr>hs_config := cfg, hs_locked := l\<rparr>" "hs_locked s \<Longrightarrow> l"
proof -
  have id: "s = s\<lparr>hs_config := hs_config s, hs_locked := hs_locked s\<rparr>" by simp
  have cfg: thesis if "\<exists>c. hostStep env cd e s = s\<lparr>hs_config := c\<rparr>"
    using that other [where l = "hs_locked s"] by auto
  have lk: "s\<lparr>hs_locked := True\<rparr> = s\<lparr>hs_config := hs_config s, hs_locked := True\<rparr>" by simp
  show thesis
  proof (cases e)
    case (EvExecute now r)
    show thesis
    proof (cases rule: host_handleExecute_cases [of env s now r])
      case joins
      with EvExecute show thesis by (intro join [of now]) auto
    next
      case answers
      with EvExecute id show thesis by (intro other [where cfg = "hs_config s" and l = "hs_locked s"]) simp_all
    next
      case panics
      with EvExecute lk show thesis by (intro other [where cfg = "hs_config s" and l = True]) simp_all
    qed
  next
    case (EvSetConfig enclave r)
    with proxyConfig_state show thesis by (intro cfg) (simp add: host_handleSetConfig_def)
  next
    case (EvUpdateConfig enclave r)
    with proxyConfig_state show thesis by (intro cfg) (simp add: host_handleUpdateConfig_def)
  next
    case (EvPublicKeys enclave gone r)
    with host_handleGetPublicKeys_state show thesis by (intro cfg) simp
  qed (use return timer collect in auto)
qed

lemma host_inv_step:
  assumes inv: "host_inv env C s" and C: "hs_config s \<in> C"
  shows "host_inv env C (hostStep env cd e s)"
proof (cases rule: hostStep_cases [of env cd e s])
  case (join now req signer)
  have "vouched env C (ComputeRequest_Hash (he_H env) (scr_ComputeRequest req)) req signer"
    using join(2) C by (auto simp: vouched_def)
  with join(1) C show ?thesis by (auto intro: host_inv_joinBatch [OF inv])
next
  case (return now i reply)
  with host_inv_return [OF inv] show ?thesis by simp
next
  case (timer now i wake)
  with host_inv_timer [OF inv] show ?thesis by simp
next
  case (collect now)
  have "host_inv env C (s\<lparr>hs_pending := gcTick now (hs_pending s), hs_responses := gcTick now (hs_responses s)\<rparr>)"
    by (rule host_inv_quiet [OF inv])
      (use host_invD(1,2) [OF inv] in
        \<open>auto simp: cache_inv_gcTick gcTick_max batchAt_def dest: gcTick_sub [OF host_invD(1) [OF inv]]\<close>)
  with collect show ?thesis by simp
next
  case (other cfg l)
  have "host_inv env C (s\<lparr>hs_config := cfg, hs_locked := l\<rparr>)"
    by (rule host_inv_quiet [OF inv]) (use host_invD(1,2) [OF inv] in \<open>auto simp: batchAt_def\<close>)
  with other show ?thesis by simp
qed

lemma host_inv_run:
  "host_inv env C s \<Longrightarrow> hostConfigs env cd es s \<subseteq> C \<Longrightarrow> host_inv env C (hostRun env cd es s)"
  by (induction es arbitrary: s) (auto simp: host_inv_step)

lemmas host_inv_reach = host_inv_run [OF host_inv_New order_refl]

section \<open>One dispatch per batch\<close>

text \<open>While the threshold is \<open>thr\<close>: a processed batch has reached it, an unprocessed one was never dispatched.\<close>

definition once_inv :: "int \<Rightarrow> hostServer \<Rightarrow> bool" where
  "once_inv thr s \<longleftrightarrow> distinct (map db_doneCh (hs_jobs s)) \<and>
     (\<forall>h br. batchAt s h = Some br \<longrightarrow>
        (br_processingRequest br \<longrightarrow> thr \<le> int (length (br_requests br))) \<and>
        (\<not> br_processingRequest br \<longrightarrow> br_doneCh br \<notin> db_doneCh ` set (hs_jobs s)))"

lemma once_inv_quiet:
  assumes "once_inv thr s" "map db_doneCh (hs_jobs s') = map db_doneCh (hs_jobs s)"
    and "\<And>h br. batchAt s' h = Some br \<Longrightarrow> batchAt s h = Some br"
  shows "once_inv thr s'"
proof -
  have "db_doneCh ` set (hs_jobs s') = db_doneCh ` set (hs_jobs s)" using assms(2) by (metis list.set_map)
  then show ?thesis using assms unfolding once_inv_def by (simp del: imp_disjL) blast
qed

lemma map_update_finished:
  "map db_doneCh (xs[i := (xs ! i)\<lparr>db_finished := b\<rparr>]) = map db_doneCh xs"
  by (cases "i < length xs") (auto simp: list_eq_iff_nth_eq nth_list_update)

lemma completeBatch_sub: "batchAt (completeBatch now h resp err s) h' = Some br \<Longrightarrow> batchAt s h' = Some br"
proof (cases rule: completeBatch_cases [of now h s resp err])
  case (settled br')
  moreover assume "batchAt (completeBatch now h resp err s) h' = Some br"
  ultimately show ?thesis using batchAt_delete [OF settled(3)] by (simp split: if_splits)
qed simp

lemma failBatch_sub:
  "batchAt (snd (failBatchIfNotProcessed env now h f sd s)) h' = Some br \<Longrightarrow> batchAt s h' = Some br"
proof (cases rule: failBatch_cases [of env now h f sd s])
  case (settled br' err s')
  moreover assume "batchAt (snd (failBatchIfNotProcessed env now h f sd s)) h' = Some br"
  ultimately show ?thesis using batchAt_delete [OF settled(5)] by (simp split: if_splits)
qed simp

lemma returnBatch_sub: "batchAt (returnBatch cd now i reply s) h = Some br \<Longrightarrow> batchAt s h = Some br"
proof -
  have "batchAt (s'\<lparr>hs_jobs := js\<rparr>) = batchAt s'" for s' js by (rule batchAt_cong) simp
  then show "batchAt (returnBatch cd now i reply s) h = Some br \<Longrightarrow> batchAt s h = Some br"
    by (auto simp: returnBatch_def Let_def dest: completeBatch_sub split: if_splits prod.splits)
qed

lemma wakeTimer_sub: "batchAt (wakeTimer env now i wake s) h = Some br \<Longrightarrow> batchAt s h = Some br"
proof -
  have "batchAt (s'\<lparr>hs_timers := ts\<rparr>) = batchAt s'" for s' ts by (rule batchAt_cong) simp
  then show "batchAt (wakeTimer env now i wake s) h = Some br \<Longrightarrow> batchAt s h = Some br"
    by (auto simp: wakeTimer_def handleQuorumTimeout_def Let_def dest: failBatch_sub
        split: if_splits timerWake.splits)
qed

lemma returnBatch_jobs: "map db_doneCh (hs_jobs (returnBatch cd now i reply s)) = map db_doneCh (hs_jobs s)"
  by (simp add: returnBatch_def Let_def map_update_finished split: prod.split)

lemma wakeTimer_jobs: "hs_jobs (wakeTimer env now i wake s) = hs_jobs s"
  by (simp add: wakeTimer_def Let_def handleQuorumTimeout_def split: timerWake.split)

lemma addToBatch_once:
  assumes "addToBatch env signer r f ch br = (p, br')" "thr = quorumThreshold (he_requireBFTQuorum env) f"
    and "br_processingRequest br \<Longrightarrow> thr \<le> int (length (br_requests br))"
  shows "br_processingRequest br' \<Longrightarrow> thr \<le> int (length (br_requests br'))"
    and "p \<Longrightarrow> \<not> br_processingRequest br" and "\<not> br_processingRequest br' \<Longrightarrow> \<not> br_processingRequest br \<and> \<not> p"
  using assms by (auto simp: addToBatch_def Let_def split: if_splits)

lemma once_inv_joined:
  assumes once: "once_inv thr s" and inv: "host_inv env C s" and j: "joined env now h signer r f br p br' s s'"
    and thr: "thr = quorumThreshold (he_requireBFTQuorum env) f"
    and len: "br_processingRequest br \<Longrightarrow> thr \<le> int (length (br_requests br))"
    and fresh: "\<not> br_processingRequest br \<Longrightarrow> br_doneCh br \<notin> db_doneCh ` set (hs_jobs s)"
    and apart: "\<And>h' br0. h' \<noteq> h \<Longrightarrow> batchAt s h' = Some br0 \<Longrightarrow> br_doneCh br \<noteq> br_doneCh br0"
  shows "once_inv thr s'"
proof -
  from j have add: "addToBatch env signer r f (hs_nextCh s) br = (p, br')"
    and at: "batchAt s' = (batchAt s)(h \<mapsto> br')"
    and jobs: "hs_jobs s' = hs_jobs s @ (if p then [\<lparr>db_doneCh = br_doneCh br', db_requestHash = h,
        db_requests = br_requests br', db_finished = False\<rparr>] else [])"
    by (simp_all add: joined_def)
  note dn = addToBatch_fields(1) [OF add] and step = addToBatch_once [OF add thr len]
  have "distinct (map db_doneCh (hs_jobs s'))"
    using once step(2) fresh jobs dn by (auto simp: once_inv_def)
  moreover have "(br_processingRequest b \<longrightarrow> thr \<le> int (length (br_requests b))) \<and>
      (\<not> br_processingRequest b \<longrightarrow> br_doneCh b \<notin> db_doneCh ` set (hs_jobs s'))" if "batchAt s' h' = Some b" for h' b
  proof (cases "h' = h")
    case True
    with that at have "b = br'" by simp
    then show ?thesis using step fresh jobs dn by auto
  next
    case False
    with that at have "batchAt s h' = Some b" by simp
    with once apart [OF False this] show ?thesis using jobs dn by (auto simp: once_inv_def)
  qed
  ultimately show ?thesis unfolding once_inv_def by blast
qed

lemma once_inv_joinBatch:
  assumes once: "once_inv thr s" and inv: "host_inv env C s"
    and thr: "thr = quorumThreshold (he_requireBFTQuorum env) f"
  shows "once_inv thr (snd (joinBatch env now h signer r f s))"
proof (cases rule: joinBatch_cases [OF host_invD(1,2) [OF inv], of env now h signer r f])
  case (1 br p br')
  then have at: "batchAt s h = Some br" by (simp add: Get_batchAt)
  show ?thesis
    by (rule once_inv_joined [OF once inv 1(1) thr])
      (use once at host_invD(4) [OF inv at] in \<open>auto simp: once_inv_def apart_def\<close>)
next
  case (2 p br')
  have "hs_nextDone s \<notin> db_doneCh ` set (hs_jobs s)"
    using host_invD(5) [OF inv] by (force simp: job_ok_def)
  moreover have "hs_nextDone s \<noteq> br_doneCh b" if "batchAt s h' = Some b" for h' b
    using host_invD(3) [OF inv that] by (auto simp: batch_ok_def)
  ultimately show ?thesis
    by (intro once_inv_joined [OF once inv 2(1) thr]) (auto simp: newBatch_def)
qed

lemma once_inv_step:
  assumes once: "once_inv thr s" and inv: "host_inv env C s"
    and thr: "accepting (hs_config s) \<Longrightarrow> thr = quorumThreshold (he_requireBFTQuorum env) (ec_F (hs_config s))"
  shows "once_inv thr (hostStep env cd e s)"
proof (cases rule: hostStep_cases [of env cd e s])
  case (join now req signer)
  show ?thesis unfolding join(1) by (rule once_inv_joinBatch [OF once inv thr [OF join(3)]])
next
  case (return now i reply)
  with once_inv_quiet [OF once returnBatch_jobs returnBatch_sub] show ?thesis by simp
next
  case (timer now i wake)
  then show ?thesis by (auto intro: once_inv_quiet [OF once] dest: wakeTimer_sub simp: wakeTimer_jobs)
next
  case (collect now)
  then show ?thesis
    using gcTick_sub [OF host_invD(1) [OF inv]]
    by (intro once_inv_quiet [OF once]) (auto simp: batchAt_def)
next
  case (other cfg l)
  then show ?thesis by (intro once_inv_quiet [OF once]) (auto simp: batchAt_def)
qed

lemma once_inv_run:
  "once_inv thr s \<Longrightarrow> host_inv env C s \<Longrightarrow> hostConfigs env cd es s \<subseteq> C \<Longrightarrow>
   (\<And>cfg. cfg \<in> hostConfigs env cd es s \<Longrightarrow> accepting cfg \<Longrightarrow>
     thr = quorumThreshold (he_requireBFTQuorum env) (ec_F cfg)) \<Longrightarrow>
   once_inv thr (hostRun env cd es s)"
proof (induction es arbitrary: s)
  case (Cons e es)
  have "once_inv thr (hostStep env cd e s)"
    using Cons.prems by (intro once_inv_step) auto
  moreover have "host_inv env C (hostStep env cd e s)" using Cons.prems by (intro host_inv_step) auto
  ultimately show ?case using Cons by simp
qed simp

lemma once_inv_New: "once_inv thr NewHostServer"
  by (simp add: once_inv_def NewHostServer_def NewCache_def batchAt_def NewBoundedCache_def)

section \<open>No waiting connection is lost\<close>

text \<open>
  Whoever will settle a pending batch: the goroutine that dispatched it when it
  is being processed, its quorum timer otherwise.
\<close>

definition settler :: "hostServer \<Rightarrow> bytes \<Rightarrow> batchRequest \<Rightarrow> bool" where
  "settler s h br \<longleftrightarrow>
     (if br_processingRequest br
      then \<exists>job\<in>set (hs_jobs s). \<not> db_finished job \<and> db_doneCh job = br_doneCh br \<and> db_requestHash job = h
      else \<exists>tm\<in>set (hs_timers s). \<not> qt_exited tm \<and> qt_doneCh tm = br_doneCh br \<and> qt_requestHash tm = h)"

definition live_inv :: "hostServer \<Rightarrow> bool" where
  "live_inv s \<longleftrightarrow> (\<forall>h br. batchAt s h = Some br \<longrightarrow> br_doneCh br \<notin> hs_done s \<and> settler s h br) \<and>
     (\<forall>d\<in>hs_done s. d < hs_nextDone s) \<and>
     (\<forall>ch<hs_nextCh s. hs_chans s ch \<noteq> None \<or> (\<exists>h br. batchAt s h = Some br \<and> ch \<in> set (br_responseCh br)))"

lemma live_invD:
  assumes "live_inv s"
  shows "\<And>h br. batchAt s h = Some br \<Longrightarrow> br_doneCh br \<notin> hs_done s" "\<And>h br. batchAt s h = Some br \<Longrightarrow> settler s h br"
    "\<And>d. d \<in> hs_done s \<Longrightarrow> d < hs_nextDone s"
    "\<And>ch. ch < hs_nextCh s \<Longrightarrow> hs_chans s ch = None \<Longrightarrow> \<exists>h br. batchAt s h = Some br \<and> ch \<in> set (br_responseCh br)"
  using assms unfolding live_inv_def by blast+

lemma live_invI:
  assumes "\<And>h br. batchAt s h = Some br \<Longrightarrow> br_doneCh br \<notin> hs_done s" "\<And>h br. batchAt s h = Some br \<Longrightarrow> settler s h br"
    "\<And>d. d \<in> hs_done s \<Longrightarrow> d < hs_nextDone s"
    "\<And>ch. ch < hs_nextCh s \<Longrightarrow> hs_chans s ch = None \<Longrightarrow> \<exists>h br. batchAt s h = Some br \<and> ch \<in> set (br_responseCh br)"
  shows "live_inv s"
  using assms unfolding live_inv_def by blast

lemma live_inv_New: "live_inv NewHostServer"
  by (simp add: live_inv_def NewHostServer_def NewCache_def batchAt_def NewBoundedCache_def)

text \<open>No entry of the pending cache is expired at \<open>now\<close>.\<close>

definition allFresh :: "time \<Rightarrow> hostServer \<Rightarrow> bool" where
  "allFresh now s \<longleftrightarrow> (\<forall>h it. ca_items (hs_pending s) h = Some it \<longrightarrow> \<not> expired now it)"

lemma allFresh_Get: "allFresh now s \<Longrightarrow> batchAt s h = Some br \<Longrightarrow> Cache_Get now h (hs_pending s) = Some br"
  by (rule batchAt_Get) (auto simp: allFresh_def)

text \<open>Settling a batch keeps the others' settlers and answers its own waiters.\<close>

lemma live_inv_settled:
  assumes live: "live_inv s" and inv: "host_inv env C s" and br: "batchAt s h = Some br"
    and at: "batchAt s' = (batchAt s)(h := None)"
    and same: "hs_nextDone s' = hs_nextDone s" "hs_nextCh s' = hs_nextCh s"
    and dn: "hs_done s' \<subseteq> insert (br_doneCh br) (hs_done s)"
    and chans: "\<And>ch. hs_chans s' ch = (if ch \<in> set (br_responseCh br) then Some v else hs_chans s ch)"
    and settler: "\<And>h' b. h' \<noteq> h \<Longrightarrow> settler s h' b \<Longrightarrow> settler s' h' b"
  shows "live_inv s'"
proof (rule live_invI)
  fix h' b assume b: "batchAt s' h' = Some b"
  then have h': "h' \<noteq> h" "batchAt s h' = Some b" by (auto simp: at split: if_splits)
  show "settler s' h' b" using settler [OF h'(1)] live_invD(2) [OF live h'(2)] by blast
  show "br_doneCh b \<notin> hs_done s'"
    using live_invD(1) [OF live h'(2)] dn host_invD(4) [OF inv h'(2) br h'(1)] by (auto simp: apart_def)
next
  fix d assume "d \<in> hs_done s'"
  then show "d < hs_nextDone s'"
    using dn same live_invD(3) [OF live] host_invD(3) [OF inv br] by (auto simp: batch_ok_def)
next
  fix ch assume ch: "ch < hs_nextCh s'" "hs_chans s' ch = None"
  then have "ch \<notin> set (br_responseCh br)" "ch < hs_nextCh s" "hs_chans s ch = None"
    using chans same by (auto split: if_splits)
  with live_invD(4) [OF live, of ch] obtain h' b where b: "batchAt s h' = Some b" "ch \<in> set (br_responseCh b)"
    by blast
  with br \<open>ch \<notin> set (br_responseCh br)\<close> have "h' \<noteq> h" by auto
  with b show "\<exists>h br. batchAt s' h = Some br \<and> ch \<in> set (br_responseCh br)"
    by (intro exI [of _ h'] exI [of _ b]) (simp add: at)
qed

lemma settler_jobs:
  assumes "i < length (hs_jobs s)" "db_requestHash (hs_jobs s ! i) \<noteq> h" "settler s h b"
    "hs_jobs s' = (hs_jobs s)[i := j]" "hs_timers s' = hs_timers s"
  shows "settler s' h b"
proof -
  have "job \<in> set ((hs_jobs s)[i := j])" if "job \<in> set (hs_jobs s)" "db_requestHash job = h" for job
    using that assms(2) by (metis in_set_conv_nth length_list_update nth_list_update_neq)
  then show ?thesis using assms(3-) unfolding settler_def by (auto split: if_splits)
qed

lemma settler_timers:
  assumes "i < length (hs_timers s)" "settler s h b"
    "qt_requestHash (hs_timers s ! i) = h \<longrightarrow> br_processingRequest b \<or> qt_doneCh (hs_timers s ! i) \<noteq> br_doneCh b"
    "hs_timers s' = (hs_timers s)[i := t]" "hs_jobs s' = hs_jobs s"
  shows "settler s' h b"
proof (cases "br_processingRequest b")
  case True
  then show ?thesis using assms by (simp add: settler_def)
next
  case False
  have "tm \<in> set ((hs_timers s)[i := t])"
    if "tm \<in> set (hs_timers s)" "qt_requestHash tm = h" "qt_doneCh tm = br_doneCh b" for tm
    using that assms(3) False by (metis in_set_conv_nth length_list_update nth_list_update_neq)
  then show ?thesis using assms False unfolding settler_def by auto
qed

lemma live_inv_return:
  assumes live: "live_inv s" and inv: "host_inv env C s" and fresh: "allFresh now s"
  shows "live_inv (returnBatch cd now i reply s)"
proof (cases "hs_locked s \<or> i \<ge> length (hs_jobs s) \<or> db_finished (hs_jobs s ! i)")
  case True
  then show ?thesis using live by (simp add: returnBatch_def)
next
  case False
  define h where "h = db_requestHash (hs_jobs s ! i)"
  obtain resp why err fails where pb: "processBatch cd (db_requests (hs_jobs s ! i)) reply = (resp, why, err, fails)"
    by (metis surj_pair)
  define s1 where "s1 = completeBatch now h resp err s"
  define s2 where "s2 = s1\<lparr>hs_jobs := (hs_jobs s)[i := (hs_jobs s ! i)\<lparr>db_finished := True\<rparr>]\<rparr>"
  have eq: "returnBatch cd now i reply s = s2"
    using False pb by (simp add: returnBatch_def Let_def h_def s1_def s2_def)
  have settler: "settler s2 h' b" if "h' \<noteq> h" "settler s h' b" for h' b
    by (rule settler_jobs [of i s h' b]) (use False that in \<open>auto simp: s2_def s1_def h_def\<close>)
  show ?thesis
  proof (cases rule: completeBatch_cases [of now h s resp err])
    case gone
    then have none: "batchAt s h = None" using allFresh_Get [OF fresh] by (cases "batchAt s h") auto
    have same: "batchAt s2 = batchAt s" using gone by (intro batchAt_cong) (simp add: s2_def s1_def)
    have "settler s2 h' b" if "batchAt s h' = Some b" for h' b
      using that none settler live_invD(2) [OF live that] by (cases "h' = h") auto
    then show ?thesis
      unfolding eq by (intro live_invI)
        (use live_invD(1,3,4) [OF live] same gone in \<open>auto simp: s2_def s1_def\<close>)
  next
    case (settled br)
    have at: "batchAt s2 = (batchAt s)(h := None)"
      using settled(3) by (intro batchAt_delete) (simp add: s2_def s1_def)
    have dn: "hs_done s2 \<subseteq> insert (br_doneCh br) (hs_done s)"
      by (simp add: s2_def s1_def settled(5))
    show ?thesis
      unfolding eq
      by (rule live_inv_settled [OF live inv settled(2) at _ _ dn, where v = "\<lparr>bp_response = resp, bp_err = err\<rparr>"])
        (use settler in \<open>simp_all add: s2_def s1_def settled(4) notifyWaiters_chans(1) [OF inv settled(2)]\<close>)
  qed
qed

lemma live_inv_timer:
  assumes live: "live_inv s" and inv: "host_inv env C s" and fresh: "allFresh now s"
  shows "live_inv (wakeTimer env' now i wake s)"
proof (cases "i \<ge> length (hs_timers s) \<or> \<not> timerReady env' now (hs_timers s ! i) wake s
    \<or> (hs_locked s \<and> wake \<noteq> WakeDone)")
  case True
  then show ?thesis using live by (simp add: wakeTimer_def)
next
  case False
  let ?tm = "hs_timers s ! i"
  define s1 where "s1 = handleQuorumTimeout env' now (qt_requestHash ?tm) (qt_f ?tm) wake s"
  define s2 where "s2 = s1\<lparr>hs_timers := (hs_timers s)[i := ?tm\<lparr>qt_exited := True\<rparr>]\<rparr>"
  have t1: "hs_timers s1 = hs_timers s" "hs_jobs s1 = hs_jobs s"
    by (simp_all add: s1_def handleQuorumTimeout_def split: timerWake.split)
  have eq: "wakeTimer env' now i wake s = s2"
    using False t1 by (auto simp: wakeTimer_def Let_def s1_def [symmetric] s2_def)
  have settler: "settler s2 h' b"
    if "qt_requestHash ?tm = h' \<longrightarrow> br_processingRequest b \<or> qt_doneCh ?tm \<noteq> br_doneCh b" "settler s h' b" for h' b
    by (rule settler_timers [of i s h' b]) (use False that t1 in \<open>auto simp: s2_def\<close>)
  have kept: ?thesis if same: "s1 = s"
    and idle: "\<And>b. batchAt s (qt_requestHash ?tm) = Some b \<Longrightarrow> br_processingRequest b \<or> qt_doneCh ?tm \<noteq> br_doneCh b"
  proof -
    have "batchAt s2 = batchAt s" using same by (intro batchAt_cong) (simp add: s2_def)
    moreover have "settler s2 h' b" if "batchAt s h' = Some b" for h' b
      by (rule settler [OF _ live_invD(2) [OF live that]]) (use idle that in auto)
    ultimately show ?thesis
      unfolding eq by (intro live_invI)
        (use live_invD(1,3,4) [OF live] same in \<open>auto simp: s2_def\<close>)
  qed
  have failed: ?thesis if sd: "s1 = snd (failBatchIfNotProcessed env' now (qt_requestHash ?tm) (qt_f ?tm) sd s)" for sd
  proof (cases rule: failBatch_cases [of env' now "qt_requestHash ?tm" "qt_f ?tm" sd s])
    case skipped
    then show ?thesis using sd allFresh_Get [OF fresh] by (intro kept) auto
  next
    case (settled br err s')
    have s': "s1 = s'" using sd settled(1) by simp
    have f: "hs_nextDone s' = hs_nextDone s" "hs_nextCh s' = hs_nextCh s" "hs_done s' = hs_done s"
      by (simp_all add: sd flip: s')
    have at: "batchAt s2 = (batchAt s)(qt_requestHash ?tm := None)"
      using settled(5) s' by (intro batchAt_delete) (simp add: s2_def)
    show ?thesis
      unfolding eq
      by (rule live_inv_settled [OF live inv settled(3) at, where v = "\<lparr>bp_response = None, bp_err = Some err\<rparr>"])
        (use settler in \<open>auto simp: s2_def s' f settled(6) notifyWaiters_chans(1) [OF inv settled(3)]\<close>)
  qed
  show ?thesis
  proof (cases wake)
    case WakeDone
    with False have "qt_doneCh ?tm \<in> hs_done s" by (simp add: timerReady_def)
    with live_invD(1) [OF live] WakeDone show ?thesis
      by (intro kept) (auto simp: s1_def handleQuorumTimeout_def)
  next
    case WakeTimeout
    then show ?thesis by (intro failed [of False]) (simp add: s1_def handleQuorumTimeout_def)
  next
    case WakeShutdown
    then show ?thesis by (intro failed [of True]) (simp add: s1_def handleQuorumTimeout_def)
  qed
qed

lemma live_inv_joined:
  assumes live: "live_inv s" and inv: "host_inv env C s" and j: "joined env now h signer r f br p br' s s'"
    and nxt: "hs_nextDone s \<le> hs_nextDone s'"
    and old: "batchAt s h = None \<or> batchAt s h = Some br"
    and dn: "br_doneCh br \<notin> hs_done s"
    and own: "settler s' h br" and timers: "set (hs_timers s) \<subseteq> set (hs_timers s')"
  shows "live_inv s'"
proof -
  from j have add: "addToBatch env signer r f (hs_nextCh s) br = (p, br')"
    and at: "batchAt s' = (batchAt s)(h \<mapsto> br')" and c: "hs_chans s' = hs_chans s" "hs_nextCh s' = Suc (hs_nextCh s)"
    "hs_done s' = hs_done s"
    and jobs: "hs_jobs s' = hs_jobs s @ (if p then [\<lparr>db_doneCh = br_doneCh br', db_requestHash = h,
        db_requests = br_requests br', db_finished = False\<rparr>] else [])"
    by (simp_all add: joined_def)
  note fields = addToBatch_fields [OF add]
  have proc: "br_processingRequest br' \<longleftrightarrow> br_processingRequest br \<or> p"
    using add by (cases rule: addToBatch_cases) auto
  have own': "settler s' h br'"
  proof (cases p)
    case True
    then show ?thesis using jobs proc by (auto simp: settler_def)
  next
    case False
    then show ?thesis using own proc fields by (simp add: settler_def)
  qed
  have others: "settler s' h' b" if "settler s h' b" for h' b
    using that jobs timers by (auto simp: settler_def split: if_splits)
  show ?thesis
  proof (rule live_invI)
    fix h' b assume b: "batchAt s' h' = Some b"
    show "settler s' h' b"
      using b own' others live_invD(2) [OF live] by (auto simp: at split: if_splits)
    show "br_doneCh b \<notin> hs_done s'"
      using b dn fields live_invD(1) [OF live] by (auto simp: at c split: if_splits)
  next
    fix d assume "d \<in> hs_done s'"
    then show "d < hs_nextDone s'" using live_invD(3) [OF live] c nxt by fastforce
  next
    fix ch assume ch: "ch < hs_nextCh s'" "hs_chans s' ch = None"
    show "\<exists>h br. batchAt s' h = Some br \<and> ch \<in> set (br_responseCh br)"
    proof (cases "ch = hs_nextCh s")
      case True
      then show ?thesis using fields by (intro exI [of _ h] exI [of _ br']) (simp add: at)
    next
      case False
      with ch c live_invD(4) [OF live, of ch] obtain h' b where b: "batchAt s h' = Some b" "ch \<in> set (br_responseCh b)"
        by auto
      then show ?thesis
        using old fields by (intro exI [of _ h'] exI [of _ "if h' = h then br' else b"]) (auto simp: at)
    qed
  qed
qed

lemma live_inv_joinBatch:
  assumes live: "live_inv s" and inv: "host_inv env C s" and fresh: "allFresh now s"
  shows "live_inv (snd (joinBatch env now h signer r f s))"
proof (cases rule: joinBatch_cases [OF host_invD(1,2) [OF inv], of env now h signer r f])
  case (1 br p br')
  then have at: "batchAt s h = Some br" by (simp add: Get_batchAt)
  have "settler (snd (joinBatch env now h signer r f s)) h br"
    using live_invD(2) [OF live at] 1(1,4) by (auto simp: settler_def joined_def split: if_splits)
  then show ?thesis
    using 1(3,4) at live_invD(1) [OF live at] by (intro live_inv_joined [OF live inv 1(1)]) auto
next
  case (2 p br')
  have "batchAt s h = None" using 2(2) allFresh_Get [OF fresh, of h] by (cases "batchAt s h") auto
  moreover have "settler (snd (joinBatch env now h signer r f s)) h (newBatch now (hs_nextDone s))"
    by (simp add: settler_def newBatch_def 2(4))
  moreover have "hs_nextDone s \<notin> hs_done s" using live_invD(3) [OF live] by blast
  ultimately show ?thesis
    by (intro live_inv_joined [OF live inv 2(1)]) (auto simp: 2(3,4), simp add: newBatch_def)
qed

text \<open>The run during which no pending batch outlives its time in the cache.\<close>

primrec eventTime :: "hostEvent \<Rightarrow> time option" where
  "eventTime (EvExecute now r) = Some now"
| "eventTime (EvReturn now i reply) = Some now"
| "eventTime (EvTimer now i wake) = Some now"
| "eventTime (EvGC now) = Some now"
| "eventTime (EvSetConfig enclave r) = None"
| "eventTime (EvUpdateConfig enclave r) = None"
| "eventTime (EvPublicKeys enclave gone r) = None"

primrec neverExpires :: "HostEnv \<Rightarrow> EnclaveCodec \<Rightarrow> hostEvent list \<Rightarrow> hostServer \<Rightarrow> bool" where
  "neverExpires env cd [] s \<longleftrightarrow> True"
| "neverExpires env cd (e # es) s \<longleftrightarrow>
     (case eventTime e of None \<Rightarrow> True | Some now \<Rightarrow> allFresh now s) \<and>
     neverExpires env cd es (hostStep env cd e s)"

lemma batchAt_gc_fresh:
  assumes "cache_inv (hs_pending s)" "allFresh now s"
  shows "batchAt (s\<lparr>hs_pending := gcTick now (hs_pending s), hs_responses := c\<rparr>) = batchAt s"
proof (rule ext)
  fix h
  show "batchAt (s\<lparr>hs_pending := gcTick now (hs_pending s), hs_responses := c\<rparr>) h = batchAt s h"
    using assms by (cases "ca_items (hs_pending s) h")
      (auto simp: batchAt_def gcTick_def garbageCollect_spec restrict_map_def live_def allFresh_def)
qed

lemma live_inv_step:
  assumes live: "live_inv s" and inv: "host_inv env C s"
    and fresh: "case eventTime e of None \<Rightarrow> True | Some now \<Rightarrow> allFresh now s"
  shows "live_inv (hostStep env cd e s)"
proof (cases rule: hostStep_cases [of env cd e s])
  case (join now req signer)
  with fresh live_inv_joinBatch [OF live inv] show ?thesis by auto
next
  case (return now i reply)
  with fresh live_inv_return [OF live inv] show ?thesis by simp
next
  case (timer now i wake)
  with fresh live_inv_timer [OF live inv] show ?thesis by simp
next
  case (collect now)
  with fresh have "batchAt (hostStep env cd e s) = batchAt s"
    using batchAt_gc_fresh [OF host_invD(1) [OF inv]] by simp
  with collect show ?thesis using live by (simp add: live_inv_def settler_def)
next
  case (other cfg l)
  then have "batchAt (hostStep env cd e s) = batchAt s" by (intro batchAt_cong) simp
  with other show ?thesis using live by (simp add: live_inv_def settler_def)
qed

lemma live_inv_run:
  "live_inv s \<Longrightarrow> host_inv env C s \<Longrightarrow> hostConfigs env cd es s \<subseteq> C \<Longrightarrow> neverExpires env cd es s \<Longrightarrow>
   live_inv (hostRun env cd es s)"
proof (induction es arbitrary: s)
  case (Cons e es)
  have "live_inv (hostStep env cd e s)" using Cons.prems by (intro live_inv_step) auto
  moreover have "host_inv env C (hostStep env cd e s)" using Cons.prems by (intro host_inv_step) auto
  ultimately show ?case using Cons by simp
qed simp

section \<open>Sample host\<close>

text \<open>
  A body \<open>[k]\<close> is the sample request signed by \<open>k\<close>; the enclave answers a
  configuration request \<open>[f]\<close> with the sample configuration at \<open>F = f\<close>, and
  \<open>[0]\<close> with one whose first signer is malformed.
\<close>

definition sampleHostEnv :: HostEnv where
  "sampleHostEnv = \<lparr>he_H = zeroHash, he_edVerify = toyVerify,
     he_ParseRequest = (\<lambda>b. case b of [k] \<Rightarrow> Some (signedBy k sampleRequest) | _ \<Rightarrow> None),
     he_requireBFTQuorum = False, he_quorumTimeout = QuorumTimeout\<rparr>"

definition configF :: "byte \<Rightarrow> EnclaveConfig" where
  "configF f = (if f = 0 then sampleConfig\<lparr>ec_Signers := [[]]\<rparr> else sampleConfig\<lparr>ec_F := ucast f\<rparr>)"

definition sampleCodec :: EnclaveCodec where
  "sampleCodec = \<lparr>cd_ParseErrorResponse = (\<lambda>b. None), cd_ParseExecuteResponse = (\<lambda>b. Some (sampleResponse, [])),
     cd_ParsePublicKeys = (\<lambda>b. None),
     cd_ParseSetConfig = (\<lambda>b. case b of [f] \<Rightarrow> Some \<lparr>sc_Config = configF f, sc_Attestation = []\<rparr> | _ \<Rightarrow> None),
     cd_ParseUpdateConfig = (\<lambda>b. None)\<rparr>"

definition echoEnclave :: "HttpRequest \<Rightarrow> enclaveReply" where
  "echoEnclave r = Replied 200 (rq_Body r)"

definition setF :: "byte \<Rightarrow> hostEvent" where
  "setF f = EvSetConfig echoEnclave (postRequest [f])"

definition submit :: "time \<Rightarrow> byte \<Rightarrow> hostEvent" where
  "submit now k = EvExecute now (postRequest [k])"

lemma sample_setF: "hostStep sampleHostEnv sampleCodec (setF f) s = s\<lparr>hs_config := configF f\<rparr>"
  by (simp add: setF_def host_handleSetConfig_def proxyConfig_def postRequest_def echoEnclave_def sampleCodec_def)

lemma sample_verify:
  assumes "k \<in> {1, 2, 3, 4}" "f \<noteq> 0"
  shows "VerifySignature toyVerify p (replicate 64 k) (ec_Signers (configF f)) = VSigner (id32 k)"
  using assms by (auto simp: VerifySignature_def toyVerify_def configF_def sampleConfig_def id32_def cc_const)

lemma sample_submit:
  assumes "k \<in> {1, 2, 3, 4}" "f \<noteq> 0" "hs_config s = configF f" "\<not> hs_locked s" "Cache_Get now (id32 0) (hs_responses s) = None"
  shows "hostStep sampleHostEnv sampleCodec (submit now k) s =
    snd (joinBatch sampleHostEnv now (id32 0) (id32 k) (signedBy k sampleRequest) (ucast f) s)"
proof -
  have "ec_T (configF f) = 2" "ec_F (configF f) = ucast f" using assms(2) by (simp_all add: configF_def sampleConfig_def)
  then show ?thesis
    using assms sample_verify [OF assms(1,2)]
    by (simp add: submit_def host_handleExecute_def postRequest_def sampleHostEnv_def signedBy_def Let_def
        EnclaveConfig_Copy_def ComputeRequest_Hash_def zeroHash_def split: prod.split)
qed

lemma quorumThreshold_sample [simp]:
  "quorumThreshold False 1 = 2" "quorumThreshold False 2 = 3" "quorumThreshold False 3 = 4"
  by (simp_all add: quorumThreshold_def)

lemma id32_eq: "id32 a = id32 b \<longleftrightarrow> a = b"
  by (simp add: id32_def)

lemmas sample_cache = NewCache_def NewBoundedCache_def Cache_Get_def Cache_Set_def Cache_Delete_def setLocked_def expired_def cc_const

lemmas sample_join = sample_submit [where f = 1] sample_submit [where f = 3] joinBatch_def batchFor_def addToBatch_def newBatch_def id32_eq

lemma sample_env [simp]: "he_requireBFTQuorum sampleHostEnv = False" "he_quorumTimeout sampleHostEnv = QuorumTimeout"
  "cd_ParseExecuteResponse sampleCodec body = Some (sampleResponse, [])"
  by (simp_all add: sampleHostEnv_def sampleCodec_def)

section \<open>Properties\<close>

text \<open>
  C4. Every batch the host dispatches holds exactly a quorum of requests: they all
  have the batch's hash and are vouched for by as many distinct signers, each
  verified under a configuration that was in force.
\<close>

theorem host_dispatch_quorum:
  "\<forall>job\<in>set (hs_jobs (hostRun env cd es NewHostServer)).
     \<exists>cfg\<in>hostConfigs env cd es NewHostServer. \<exists>sgs. distinct sgs \<and>
       int (length sgs) = quorumThreshold (he_requireBFTQuorum env) (ec_F cfg) \<and>
       list_all2 (vouched env (hostConfigs env cd es NewHostServer) (db_requestHash job)) (db_requests job) sgs"
proof
  fix job assume job: "job \<in> set (hs_jobs (hostRun env cd es NewHostServer))"
  show "\<exists>cfg\<in>hostConfigs env cd es NewHostServer. \<exists>sgs. distinct sgs \<and>
       int (length sgs) = quorumThreshold (he_requireBFTQuorum env) (ec_F cfg) \<and>
       list_all2 (vouched env (hostConfigs env cd es NewHostServer) (db_requestHash job)) (db_requests job) sgs"
    using host_invD(5) [OF host_inv_reach job] by (auto simp: job_ok_def gathered_def)
qed

theorem host_dispatch_quorum_witness:
  "\<exists>cfg\<in>hostConfigs sampleHostEnv sampleCodec [setF 1, submit 0 1, submit 1 2] NewHostServer. \<exists>sgs. distinct sgs \<and>
     int (length sgs) = quorumThreshold False (ec_F cfg) \<and>
     list_all2 (vouched sampleHostEnv (hostConfigs sampleHostEnv sampleCodec [setF 1, submit 0 1, submit 1 2]
       NewHostServer) (id32 0)) [signedBy 1 sampleRequest, signedBy 2 sampleRequest] sgs"
proof -
  have "hs_jobs (hostRun sampleHostEnv sampleCodec [setF 1, submit 0 1, submit 1 2] NewHostServer) =
    [\<lparr>db_doneCh = 0, db_requestHash = id32 0,
      db_requests = [signedBy 1 sampleRequest, signedBy 2 sampleRequest], db_finished = False\<rparr>]"
    by (simp add: NewHostServer_def sample_setF sample_join sample_cache Let_def)
  with host_dispatch_quorum [of sampleHostEnv sampleCodec "[setF 1, submit 0 1, submit 1 2]"]
  show ?thesis by (simp del: hostRun.simps hostConfigs.simps)
qed

text \<open>
  C18. As long as every configuration in force that accepts requests asks for the
  same threshold, a batch is dispatched to the enclave at most once, however
  connections, returns and timers interleave.
\<close>

theorem host_dispatch_once:
  assumes "\<forall>cfg\<in>hostConfigs env cd es NewHostServer. accepting cfg \<longrightarrow>
    quorumThreshold (he_requireBFTQuorum env) (ec_F cfg) = thr"
  shows "distinct (map db_doneCh (hs_jobs (hostRun env cd es NewHostServer)))"
  using once_inv_run [OF once_inv_New host_inv_New order_refl, of env cd es thr] assms by (auto simp: once_inv_def)

theorem host_dispatch_once_witness:
  "distinct (map db_doneCh (hs_jobs (hostRun sampleHostEnv sampleCodec
     [setF 1, submit 0 1, submit 1 2, submit 2 3] NewHostServer)))"
  by (rule host_dispatch_once [where thr = 2])
    (simp add: NewHostServer_def sample_setF sample_join sample_cache Let_def,
     simp add: accepting_def zeroConfig_def configF_def sampleConfig_def)




text \<open>The response cache is an uncapped cache with the host's time to live.\<close>

definition responses_ok :: "hostServer \<Rightarrow> bool" where
  "responses_ok s \<longleftrightarrow> cache_inv (hs_responses s) \<and> ca_timeToLive (hs_responses s) = InboundProxyRequestCacheTTL"

lemma responses_ok_put: "responses_ok s \<Longrightarrow> hs_responses s' = Cache_Set now h v None (hs_responses s) \<Longrightarrow> responses_ok s'"
  by (auto simp: responses_ok_def cache_inv_Set Cache_Set_def cache_inv_setLocked)

lemma responses_ok_complete: "responses_ok s \<Longrightarrow> responses_ok (completeBatch now h resp err s)"
proof (cases rule: completeBatch_cases [of now h s resp err])
  case (settled br)
  moreover assume "responses_ok s"
  ultimately show ?thesis
    using responses_ok_put [of s "completeBatch now h resp err s" now h] by (cases resp) (auto simp: responses_ok_def)
qed simp

lemma responses_ok_cong: "hs_responses s' = hs_responses s \<Longrightarrow> responses_ok s \<Longrightarrow> responses_ok s'"
  by (simp add: responses_ok_def)

lemma gcTick_ttl: "cache_inv c \<Longrightarrow> ca_timeToLive (gcTick now c) = ca_timeToLive c"
  by (simp add: gcTick_def garbageCollect_spec)

lemma responses_ok_step:
  assumes ok: "responses_ok s"
  shows "responses_ok (hostStep env cd e s)"
proof (cases rule: hostStep_cases [of env cd e s])
  case (join now req signer)
  have "hs_responses (snd (joinBatch env now h sg r f s)) = hs_responses s" for h sg r f
    by (cases "Cache_Get now h (hs_pending s)") (auto simp: joinBatch_def batchFor_def Let_def split: prod.split)
  with join(1) ok show ?thesis by (auto intro: responses_ok_cong)
next
  case (return now i reply)
  then show ?thesis
    using responses_ok_complete [OF ok] ok
    by (auto simp: returnBatch_def Let_def responses_ok_def split: prod.splits)
next
  case (timer now i wake)
  then have "hs_responses (hostStep env cd e s) = hs_responses s"
    by (simp add: wakeTimer_def Let_def handleQuorumTimeout_def split: timerWake.split)
  with ok show ?thesis by (auto intro: responses_ok_cong)
next
  case (collect now)
  with ok show ?thesis by (simp add: responses_ok_def cache_inv_gcTick gcTick_ttl)
next
  case (other cfg l)
  with ok show ?thesis by (auto intro: responses_ok_cong)
qed

lemma responses_ok_run: "responses_ok s \<Longrightarrow> responses_ok (hostRun env cd es s)"
  by (induction es arbitrary: s) (simp_all add: responses_ok_step)

lemma responses_ok_New: "responses_ok NewHostServer"
  by (simp add: responses_ok_def NewHostServer_def NewCache_def cache_inv_New, simp add: NewBoundedCache_def)

text \<open>
  C19. When the enclave's answer to a dispatched batch returns and the batch is
  still in the cache, every connection waiting for it receives exactly that
  response, no other connection is touched, the batch is gone, and a successful
  response is served from the cache to later requests with the same hash.
\<close>

theorem host_completion_notifies:
  assumes "s = hostRun env cd es NewHostServer" "\<not> hs_locked s"
    and i: "i < length (hs_jobs s)" "\<not> db_finished (hs_jobs s ! i)" "h = db_requestHash (hs_jobs s ! i)"
    and br: "Cache_Get now h (hs_pending s) = Some br"
    and pb: "processBatch cd (db_requests (hs_jobs s ! i)) reply = (resp, why, err, fails)"
    and s': "s' = hostStep env cd (EvReturn now i reply) s"
  shows "(\<forall>ch. hs_chans s' ch = (if ch \<in> set (br_responseCh br) then Some \<lparr>bp_response = resp, bp_err = err\<rparr>
            else hs_chans s ch)) \<and>
    Cache_Get now h (hs_pending s') = None \<and>
    (\<forall>rsp. resp = Some rsp \<longrightarrow> Cache_Get now h (hs_responses s') = Some rsp)"
proof -
  have inv: "host_inv env (hostConfigs env cd es NewHostServer) s" using host_inv_reach assms(1) by blast
  have ok: "responses_ok s" using responses_ok_run [OF responses_ok_New] assms(1) by blast
  have eq: "s' = (completeBatch now h resp err s)\<lparr>hs_jobs := (hs_jobs s)[i := (hs_jobs s ! i)\<lparr>db_finished := True\<rparr>]\<rparr>"
    using assms by (simp add: returnBatch_def Let_def)
  have at: "batchAt s h = Some br" using br by (rule Get_batchAt)
  show ?thesis
  proof (cases rule: completeBatch_cases [of now h s resp err])
    case gone
    with br show ?thesis by simp
  next
    case (settled br')
    then have [simp]: "br' = br" using br by simp
    have "hs_chans s' ch = (if ch \<in> set (br_responseCh br) then Some \<lparr>bp_response = resp, bp_err = err\<rparr>
        else hs_chans s ch)" for ch
      using settled(4) by (simp add: eq notifyWaiters_chans(1) [OF inv at])
    moreover have "Cache_Get now h (hs_pending s') = None" using settled(3) by (simp add: eq Get_Delete)
    moreover have "Cache_Get now h (hs_responses s') = Some rsp" if "resp = Some rsp" for rsp
      using settled(6) that ok by (simp add: eq Get_Set_same responses_ok_def itemTTL_def cc_const)
    ultimately show ?thesis by blast
  qed
qed

theorem host_completion_notifies_witness:
  "let s' = hostStep sampleHostEnv sampleCodec (EvReturn 2 0 (Replied 200 (Some [])))
        (hostRun sampleHostEnv sampleCodec [setF 1, submit 0 1, submit 1 2] NewHostServer)
   in hs_chans s' 0 = Some \<lparr>bp_response = Some sampleResponse, bp_err = None\<rparr> \<and>
      Cache_Get 2 (id32 0) (hs_responses s') = Some sampleResponse"
proof -
  let ?s = "hostRun sampleHostEnv sampleCodec [setF 1, submit 0 1, submit 1 2] NewHostServer"
  have job: "hs_jobs ?s = [\<lparr>db_doneCh = 0, db_requestHash = id32 0,
      db_requests = [signedBy 1 sampleRequest, signedBy 2 sampleRequest], db_finished = False\<rparr>]"
    and lk: "\<not> hs_locked ?s"
    by (simp_all add: NewHostServer_def sample_setF sample_join sample_cache Let_def)
  obtain br where br: "Cache_Get 2 (id32 0) (hs_pending ?s) = Some br" "0 \<in> set (br_responseCh br)"
    by (simp add: NewHostServer_def sample_setF sample_join sample_cache Let_def)
  have pb: "processBatch sampleCodec (db_requests (hs_jobs ?s ! 0)) (Replied 200 (Some [])) =
      (Some sampleResponse, [], None, recordSubCapabilityFailures (db_requests (hs_jobs ?s ! 0)) [])"
    by (simp add: processBatch_def)
  have i: "0 < length (hs_jobs ?s)" "\<not> db_finished (hs_jobs ?s ! 0)" "id32 0 = db_requestHash (hs_jobs ?s ! 0)"
    by (simp_all add: job del: hostRun.simps)
  from host_completion_notifies [OF refl lk i br(1) pb refl] br(2) show ?thesis
    by (simp add: Let_def del: hostRun.simps hostStep.simps)
qed

lemma locked_step:
  assumes "hs_locked s"
  shows "hs_locked (hostStep env cd e s) \<and> hs_chans (hostStep env cd e s) = hs_chans s"
proof (cases rule: hostStep_cases [of env cd e s])
  case (join now req signer)
  then obtain r where r: "e = EvExecute now r" by blast
  show ?thesis
    by (cases rule: host_handleExecute_cases [of env s now r]) (use assms r in \<open>simp_all\<close>)
next
  case (timer now i wake)
  with assms show ?thesis
    by (cases wake) (simp_all add: wakeTimer_def Let_def handleQuorumTimeout_def)
next
  case (other cfg l)
  then show ?thesis using assms
    by simp
qed (use assms in \<open>simp_all add: returnBatch_def\<close>)

lemma locked_run:
  "hs_locked s \<Longrightarrow> hs_locked (hostRun env cd es s) \<and> hs_chans (hostRun env cd es s) = hs_chans s"
  by (induction es arbitrary: s) (auto dest: locked_step [THEN conjunct1] simp: locked_step)

lemma locked_reply:
  assumes "hs_locked s"
  shows "fst (host_handleExecute env now r s) \<notin> range HWait \<union> range HCached"
  using assms by (auto simp: host_handleExecute_def Let_def split: option.split)

text \<open>
  A panic of the signature check happens with the mutex held, and nothing
  releases it: from then on no request is admitted or answered from the cache,
  and no waiting connection ever gets a response.
\<close>

theorem host_panic_blocks:
  assumes "host_handleExecute env now r s = (HPanic, s')" "s'' = hostRun env cd es s'"
  shows "hs_chans s'' = hs_chans s \<and> fst (host_handleExecute env now' r' s'') \<notin> range HWait \<union> range HCached"
proof -
  have s': "s' = s\<lparr>hs_locked := True\<rparr>"
    by (cases rule: host_handleExecute_cases [of env s now r])
      (use assms in \<open>auto simp: host_handleExecute_def Let_def split: option.splits verifyResult.splits if_splits prod.splits\<close>)
  then have "hs_locked s'" by simp
  from locked_run [OF this, of env cd es] locked_reply show ?thesis using assms(2) s' by auto
qed

theorem host_panic_blocks_witness:
  "\<exists>s'. host_handleExecute sampleHostEnv 1 (postRequest [1]) (NewHostServer\<lparr>hs_config := configF 0\<rparr>) = (HPanic, s') \<and>
     fst (host_handleExecute sampleHostEnv 2 (postRequest [2])
        (hostRun sampleHostEnv sampleCodec [setF 1] s')) \<notin> range HWait \<union> range HCached"
proof -
  have "host_handleExecute sampleHostEnv 1 (postRequest [1]) (NewHostServer\<lparr>hs_config := configF 0\<rparr>) =
    (HPanic, NewHostServer\<lparr>hs_config := configF 0, hs_locked := True\<rparr>)"
    by (simp add: host_handleExecute_def postRequest_def sampleHostEnv_def configF_def sampleConfig_def Let_def
        EnclaveConfig_Copy_def VerifySignature_def signedBy_def cc_const NewHostServer_def)
  with host_panic_blocks [OF this refl] show ?thesis by blast
qed

text \<open>
  A batch that takes longer in the enclave than its time in the cache strands
  its waiters: in some history the enclave has answered, every goroutine has
  ended, and a connection still waits on an empty channel.
\<close>

theorem expired_batch_strands_waiters:
  "\<exists>env cd es ch. let s = hostRun env cd es NewHostServer in ch < hs_nextCh s \<and> hs_chans s ch = None \<and>
     hs_jobs s \<noteq> [] \<and> list_all db_finished (hs_jobs s) \<and> list_all qt_exited (hs_timers s)"
proof -
  let ?late = "6 * minute"
  let ?es = "[setF 1, submit 0 1, submit 1 2, EvTimer QuorumTimeout 0 WakeTimeout,
    EvReturn ?late 0 (Replied 200 (Some []))]"
  have "let s = hostRun sampleHostEnv sampleCodec ?es NewHostServer in 0 < hs_nextCh s \<and> hs_chans s 0 = None \<and>
     hs_jobs s \<noteq> [] \<and> list_all db_finished (hs_jobs s) \<and> list_all qt_exited (hs_timers s)"
    by (simp add: NewHostServer_def sample_setF sample_join sample_cache Let_def wakeTimer_def timerReady_def
        handleQuorumTimeout_def failBatchIfNotProcessed_def returnBatch_def completeBatch_def
        processBatch_def)
  then show ?thesis by blast
qed

text \<open>
  The threshold is the intended \<open>F + 1\<close> or \<open>2F + 1\<close> exactly while the 32-bit sum
  does not wrap; at the first values beyond, it falls to zero and to one.
\<close>

theorem quorumThreshold_bounds:
  "(quorumThreshold False f = uint f + 1 \<longleftrightarrow> f \<noteq> - 1) \<and> (quorumThreshold True f = 2 * uint f + 1 \<longleftrightarrow> uint f < 2 ^ 31) \<and>
   quorumThreshold False (- 1) = 0 \<and> quorumThreshold True (2 ^ 31) = 1"
proof -
  have lt: "uint f < 2 ^ 32" "0 \<le> uint f" using uint_bounded [of f] by simp_all
  have m1: "f = - 1 \<longleftrightarrow> uint f = 2 ^ 32 - 1" by (simp add: word_uint_eq_iff unsigned_minus_1_eq_mask mask_eq_exp_minus_1)
  have "uint (f + 1) = (uint f + 1) mod 2 ^ 32" by (simp add: uint_word_ariths)
  then have "quorumThreshold False f = uint f + 1 \<longleftrightarrow> f \<noteq> - 1"
    unfolding m1 quorumThreshold_def using lt by (auto simp: mod_eq_self_iff_div_eq_0)
  moreover have "uint (2 * f + 1) = (2 * uint f + 1) mod 2 ^ 32" by (simp add: uint_word_ariths mod_simps)
  then have "quorumThreshold True f = 2 * uint f + 1 \<longleftrightarrow> uint f < 2 ^ 31"
    unfolding quorumThreshold_def using lt by (auto simp: mod_eq_self_iff_div_eq_0)
  ultimately show ?thesis by (simp add: quorumThreshold_def)
qed

end
