(* ===== verification/CC_HostMetrics.thy ===== *)
theory CC_HostMetrics
  imports CC_Resources CC_Host
begin

text \<open>
  The host's own bookkeeping for its metrics: \<^verbatim>\<open>src/enclave/nitro/host/metrics.go\<close>,
  the classification of requests in \<^verbatim>\<open>public_data.go\<close> and the telemetry settings
  of \<^verbatim>\<open>telemetry.go\<close>. The OpenTelemetry instruments themselves are outputs: an
  operation returns what it records. The functions returned by
  \<open>startExecution\<close> are entries of the state. The lemmas show that the load and
  its peak since the last collection are exact, that the CPU counter adds up
  over restarts of the enclave, and that the utilization is a fraction.
\<close>

section \<open>Metadata of a request\<close>

record executionMetadata =
  xm_appID :: string
  xm_workflowID :: string
  xm_requestKind :: string

datatype sdkRequest = Subscribe | Trigger | PreHook | NoRequest

record WorkflowExecution =
  we_WorkflowId :: string
  we_SdkExecuteRequest :: "sdkRequest option"

definition workflowRequestKind :: "WorkflowExecution \<Rightarrow> string" where
  "workflowRequestKind execution = (case we_SdkExecuteRequest execution of
     Some Subscribe \<Rightarrow> ''subscribe''
   | Some Trigger \<Rightarrow> ''trigger''
   | Some PreHook \<Rightarrow> ''pre_hook''
   | _ \<Rightarrow> ''unset'')"

definition httpExecutionMetadata :: executionMetadata where
  "httpExecutionMetadata = \<lparr>xm_appID = AppIDConfidentialHTTP, xm_workflowID = [], xm_requestKind = ''action''\<rparr>"

definition workflowExecutionMetadata :: "WorkflowExecution \<Rightarrow> executionMetadata" where
  "workflowExecutionMetadata execution = \<lparr>xm_appID = AppIDConfidentialWorkflows,
     xm_workflowID = we_WorkflowId execution, xm_requestKind = workflowRequestKind execution\<rparr>"

text \<open>The two decoders are protocol-buffer code; a failure gives the application id only.\<close>

definition inspectPublicData :: "(bytes \<Rightarrow> unit option) \<Rightarrow> (bytes \<Rightarrow> WorkflowExecution option) \<Rightarrow> string \<Rightarrow> bytes
     \<Rightarrow> executionMetadata" where
  "inspectPublicData decodeHTTP decodeWorkflow appID publicData =
     (let bare = \<lparr>xm_appID = appID, xm_workflowID = [], xm_requestKind = []\<rparr> in
      if appID = AppIDConfidentialHTTP
      then (case decodeHTTP publicData of None \<Rightarrow> bare | Some _ \<Rightarrow> httpExecutionMetadata)
      else if appID = AppIDConfidentialWorkflows
      then (case decodeWorkflow publicData of None \<Rightarrow> bare | Some execution \<Rightarrow> workflowExecutionMetadata execution)
      else bare)"

section \<open>Telemetry settings\<close>

record hostTelemetryConfig =
  tc_Endpoint :: string
  tc_MemoryPollInterval :: duration

definition enclaveMemoryPollInterval :: duration where
  [cc_const]: "enclaveMemoryPollInterval = 5 * second"

definition minEnclaveMemoryPollInterval :: duration where
  "minEnclaveMemoryPollInterval = 250000000"

definition telemetryEnabled :: "hostTelemetryConfig \<Rightarrow> bool" where
  "telemetryEnabled c \<longleftrightarrow> tc_Endpoint c \<noteq> []"

text \<open>\<^verbatim>\<open>strings.TrimSpace\<close> within ASCII; \<open>parseDuration\<close> is \<^verbatim>\<open>time.ParseDuration\<close>.\<close>

definition trimSpace :: "string \<Rightarrow> string" where
  "trimSpace s = rev (dropWhile isSpace (rev (dropWhile isSpace s)))"

definition loadHostTelemetryConfig :: "(string \<Rightarrow> duration option) \<Rightarrow> (string \<Rightarrow> string) \<Rightarrow> hostTelemetryConfig option" where
  "loadHostTelemetryConfig parseDuration getenv =
     (let cfg = \<lparr>tc_Endpoint = trimSpace (getenv ''OTEL_EXPORTER_OTLP_ENDPOINT''),
                 tc_MemoryPollInterval = enclaveMemoryPollInterval\<rparr>;
          raw = trimSpace (getenv ''ENCLAVE_MEMORY_POLL_INTERVAL'')
      in if raw = [] then Some cfg
         else case parseDuration raw of
             None \<Rightarrow> None
           | Some interval \<Rightarrow> if interval < minEnclaveMemoryPollInterval then None
               else Some (cfg\<lparr>tc_MemoryPollInterval := interval\<rparr>))"

section \<open>State\<close>

record enclaveMemorySnapshot =
  ms_totalBytes :: int
  ms_goRuntimeBytes :: int
  ms_processRSSBytes :: int
  ms_availableBytes :: int
  ms_peakRSSBytes :: int

text \<open>A started execution: the variables its finishing function closes over.\<close>

record execution =
  ex_metadata :: executionMetadata
  ex_quorumWait :: duration
  ex_startedAt :: time
  ex_finished :: bool

text \<open>\<open>hm_processCPUTime\<close> is the value of the counter; a utilization is busy over total.\<close>

record hostMetrics =
  hm_inflight :: int
  hm_inflightMax :: int
  hm_workflowCountMax :: int
  hm_workflowRefs :: "string \<rightharpoonup> int"
  hm_executions :: "execution list"
  hm_memory :: "enclaveMemorySnapshot option"
  hm_memoryWindow :: "enclaveMemorySnapshot option"
  hm_guestCPUSample :: "(nat \<times> nat) option"
  hm_processCPUTime :: int
  hm_lastProcessCPUSeconds :: "64 word"
  hm_hasProcessCPUBaseline :: bool
  hm_lastGuestCPUBusySeconds :: "64 word"
  hm_lastGuestCPUTotalSeconds :: "64 word"
  hm_hasGuestCPUBaseline :: bool
  hm_lastGuestCPUSampleAt :: time

definition newHostMetrics :: "time \<Rightarrow> hostMetrics" where
  "newHostMetrics zeroTime = \<lparr>hm_inflight = 0, hm_inflightMax = 0, hm_workflowCountMax = 0, hm_workflowRefs = Map.empty,
     hm_executions = [], hm_memory = None, hm_memoryWindow = None, hm_guestCPUSample = None, hm_processCPUTime = 0,
     hm_lastProcessCPUSeconds = 0, hm_hasProcessCPUBaseline = False, hm_lastGuestCPUBusySeconds = 0,
     hm_lastGuestCPUTotalSeconds = 0, hm_hasGuestCPUBaseline = False, hm_lastGuestCPUSampleAt = zeroTime\<rparr>"

section \<open>Execution load\<close>

text \<open>\<^verbatim>\<open>m.workflowRefs[id]\<close> reads zero when absent.\<close>

definition refs :: "hostMetrics \<Rightarrow> string \<Rightarrow> int" where
  "refs m w = (case hm_workflowRefs m w of None \<Rightarrow> 0 | Some n \<Rightarrow> n)"

definition activeWorkflows :: "hostMetrics \<Rightarrow> int" where
  "activeWorkflows m = int (card (dom (hm_workflowRefs m)))"

definition startExecution :: "time \<Rightarrow> executionMetadata \<Rightarrow> duration \<Rightarrow> hostMetrics \<Rightarrow> nat \<times> hostMetrics" where
  "startExecution now metadata quorumWait m =
     (let m1 = m\<lparr>hm_inflight := hm_inflight m + 1,
                 hm_inflightMax := max (hm_inflightMax m) (hm_inflight m + 1),
                 hm_executions := hm_executions m @ [\<lparr>ex_metadata = metadata, ex_quorumWait = quorumWait,
                    ex_startedAt = now, ex_finished = False\<rparr>]\<rparr>;
          w = xm_workflowID metadata;
          m2 = m1\<lparr>hm_workflowRefs := (hm_workflowRefs m1)(w \<mapsto> refs m1 w + 1)\<rparr>
      in (length (hm_executions m),
          if w \<noteq> [] then m2\<lparr>hm_workflowCountMax := max (hm_workflowCountMax m2) (activeWorkflows m2)\<rparr> else m1))"

record executionReport =
  xr_outcome :: string
  xr_failureReason :: string
  xr_duration :: duration
  xr_total :: duration
  xr_rejected :: bool

text \<open>The function \<open>startExecution\<close> returned for execution \<open>i\<close>; its body runs once.\<close>

definition finishExecution :: "time \<Rightarrow> nat \<Rightarrow> string \<Rightarrow> string \<Rightarrow> hostMetrics \<Rightarrow> executionReport option \<times> hostMetrics" where
  "finishExecution now i outcome failureReason m =
     (let x = hm_executions m ! i in
      if i \<ge> length (hm_executions m) \<or> ex_finished x then (None, m)
      else let outcome' = (if outcome \<noteq> ''success'' then ''error'' else outcome);
               reason = (if outcome \<noteq> ''success''
                         then (if failureReason = [] then ''unknown'' else failureReason) else []);
               w = xm_workflowID (ex_metadata x);
               m1 = m\<lparr>hm_inflight := hm_inflight m - 1,
                      hm_executions := (hm_executions m)[i := x\<lparr>ex_finished := True\<rparr>]\<rparr>;
               m2 = (if w = [] then m1
                     else m1\<lparr>hm_workflowRefs := (hm_workflowRefs m1)(w :=
                            (if refs m1 w - 1 = 0 then None else Some (refs m1 w - 1)))\<rparr>);
               duration = max 0 (now - ex_startedAt x)
           in (Some \<lparr>xr_outcome = outcome', xr_failureReason = reason, xr_duration = duration,
                 xr_total = ex_quorumWait x + duration, xr_rejected = (reason = ''capacity'')\<rparr>, m2))"

record loadReport =
  lr_inflight :: int
  lr_inflightMax :: int
  lr_workflowsActiveMax :: int
  lr_workflowIDs :: "string set"

definition observeExecutionLoad :: "hostMetrics \<Rightarrow> loadReport \<times> hostMetrics" where
  "observeExecutionLoad m =
     (\<lparr>lr_inflight = hm_inflight m, lr_inflightMax = hm_inflightMax m,
       lr_workflowsActiveMax = hm_workflowCountMax m, lr_workflowIDs = dom (hm_workflowRefs m)\<rparr>,
      m\<lparr>hm_inflightMax := hm_inflight m, hm_workflowCountMax := activeWorkflows m\<rparr>)"

section \<open>Enclave memory and CPU\<close>

definition MaxInt64 :: int where
  [cc_const]: "MaxInt64 = 2 ^ 63 - 1"

definition mibToBytes :: "64 word \<Rightarrow> int" where
  "mibToBytes v = (let bytesPerMiB = 1024 * 1024 :: int in
     if uint v > MaxInt64 div bytesPerMiB then MaxInt64 else uint v * bytesPerMiB)"

definition saturatingInt64 :: "64 word \<Rightarrow> int" where
  "saturatingInt64 v = (if uint v > MaxInt64 then MaxInt64 else uint v)"

definition mergeMemoryExtremes :: "enclaveMemorySnapshot option \<Rightarrow> enclaveMemorySnapshot \<Rightarrow> enclaveMemorySnapshot" where
  "mergeMemoryExtremes window reading = (case window of
     None \<Rightarrow> reading
   | Some w \<Rightarrow>
       \<lparr>ms_totalBytes = (if ms_totalBytes reading > 0 then ms_totalBytes reading else ms_totalBytes w),
        ms_goRuntimeBytes = max (ms_goRuntimeBytes w) (ms_goRuntimeBytes reading),
        ms_processRSSBytes = max (ms_processRSSBytes w) (ms_processRSSBytes reading),
        ms_availableBytes = (if ms_availableBytes reading > 0 \<and>
            (ms_availableBytes w = 0 \<or> ms_availableBytes reading < ms_availableBytes w)
          then ms_availableBytes reading else ms_availableBytes w),
        ms_peakRSSBytes = max (ms_peakRSSBytes w) (ms_peakRSSBytes reading)\<rparr>)"

definition recordProcessCPUTime :: "64 word \<Rightarrow> hostMetrics \<Rightarrow> hostMetrics" where
  "recordProcessCPUTime current m =
     (if current = 0 then m
      else if \<not> hm_hasProcessCPUBaseline m
      then m\<lparr>hm_lastProcessCPUSeconds := current, hm_hasProcessCPUBaseline := True\<rparr>
      else let delta = (if current < hm_lastProcessCPUSeconds m then current
                        else current - hm_lastProcessCPUSeconds m)
           in m\<lparr>hm_lastProcessCPUSeconds := current,
                hm_processCPUTime := hm_processCPUTime m + saturatingInt64 delta\<rparr>)"

definition recordGuestCPUUtilization :: "64 word \<Rightarrow> 64 word \<Rightarrow> hostMetrics \<Rightarrow> hostMetrics" where
  "recordGuestCPUUtilization busy tot m =
     (if tot = 0 \<or> busy > tot then m\<lparr>hm_hasGuestCPUBaseline := False, hm_guestCPUSample := None\<rparr>
      else let previousBusy = hm_lastGuestCPUBusySeconds m;
               previousTotal = hm_lastGuestCPUTotalSeconds m;
               m1 = m\<lparr>hm_lastGuestCPUBusySeconds := busy, hm_lastGuestCPUTotalSeconds := tot,
                      hm_hasGuestCPUBaseline := True\<rparr>
           in if \<not> hm_hasGuestCPUBaseline m \<or> busy < previousBusy \<or> tot < previousTotal
              then m1\<lparr>hm_guestCPUSample := None\<rparr>
              else let totalDelta = tot - previousTotal in
                if totalDelta = 0 then m1
                else let d = busy - previousBusy;
                         busyDelta = (if d > totalDelta \<and> d - totalDelta = 1 then totalDelta else d)
                     in if busyDelta > totalDelta then m1\<lparr>hm_guestCPUSample := None\<rparr>
                        else m1\<lparr>hm_guestCPUSample := Some (unat busyDelta, unat totalDelta)\<rparr>)"

definition guestCPUSampleInterval :: duration where
  [cc_const]: "guestCPUSampleInterval = 5 * second"

definition recordEnclaveMemory :: "time \<Rightarrow> MemoryEstimateResponse \<Rightarrow> hostMetrics \<Rightarrow> hostMetrics" where
  "recordEnclaveMemory now estimate m =
     (let reading = \<lparr>ms_totalBytes = mibToBytes (me_TotalMB estimate),
            ms_goRuntimeBytes = mibToBytes (me_UsedMB estimate),
            ms_processRSSBytes = mibToBytes (me_RSSMB estimate),
            ms_availableBytes = mibToBytes (me_AvailableMB estimate),
            ms_peakRSSBytes = mibToBytes (me_PeakRSSMB estimate)\<rparr>;
          m1 = m\<lparr>hm_memory := Some reading,
                 hm_memoryWindow := Some (mergeMemoryExtremes (hm_memoryWindow m) reading)\<rparr>;
          m2 = recordProcessCPUTime (me_ProcessCPUSeconds estimate) m1
      in if now - hm_lastGuestCPUSampleAt m2 \<ge> guestCPUSampleInterval
         then recordGuestCPUUtilization (me_GuestCPUBusySeconds estimate) (me_GuestCPUTotalSeconds estimate)
                (m2\<lparr>hm_lastGuestCPUSampleAt := now\<rparr>)
         else m2)"

definition clearEnclaveMemory :: "hostMetrics \<Rightarrow> hostMetrics" where
  "clearEnclaveMemory m = m\<lparr>hm_memory := None, hm_guestCPUSample := None\<rparr>"

text \<open>The gauges exported, in the order of the code, zero values skipped.\<close>

definition observeEnclaveMemory :: "hostMetrics \<Rightarrow> (string \<times> int) list \<times> hostMetrics" where
  "observeEnclaveMemory m =
     (let m1 = m\<lparr>hm_memoryWindow := None\<rparr>;
          snapshot = (case hm_memoryWindow m of Some w \<Rightarrow> Some w | None \<Rightarrow> hm_memory m)
      in (case snapshot of
            None \<Rightarrow> ([], m1)
          | Some s \<Rightarrow> (filter (\<lambda>g. snd g > 0)
              [(''total'', ms_totalBytes s), (''go_runtime'', ms_goRuntimeBytes s),
               (''rss'', ms_processRSSBytes s), (''available'', ms_availableBytes s),
               (''rss_peak'', ms_peakRSSBytes s)], m1)))"

definition observeGuestCPUUtilization :: "hostMetrics \<Rightarrow> (nat \<times> nat) option" where
  "observeGuestCPUUtilization m = hm_guestCPUSample m"

definition maxEnclaveMemoryResponseBytes :: nat where
  [cc_const]: "maxEnclaveMemoryResponseBytes = 64 * 1024"

definition collectEnclaveMemory :: "(bytes \<Rightarrow> MemoryEstimateResponse option) \<Rightarrow> time \<Rightarrow> enclaveReply \<Rightarrow> hostMetrics
     \<Rightarrow> bool \<times> hostMetrics" where
  "collectEnclaveMemory parse now reply m = (case reply of
     Replied status (Some body) \<Rightarrow>
       if length body > maxEnclaveMemoryResponseBytes then (False, m)
       else if status \<noteq> 200 then (False, m)
       else (case parse body of None \<Rightarrow> (False, m) | Some estimate \<Rightarrow> (True, recordEnclaveMemory now estimate m))
   | _ \<Rightarrow> (False, m))"

text \<open>One round of the polling loop; \<open>stopping\<close> is a cancelled context, which ends the loop.\<close>

definition monitorRound :: "(bytes \<Rightarrow> MemoryEstimateResponse option) \<Rightarrow> time \<Rightarrow> enclaveReply \<Rightarrow> bool \<Rightarrow> hostMetrics
     \<Rightarrow> hostMetrics" where
  "monitorRound parse now reply stopping m = (case collectEnclaveMemory parse now reply m of
     (True, m') \<Rightarrow> m'
   | (False, m') \<Rightarrow> if stopping then m' else clearEnclaveMemory m')"

section \<open>The load is exact\<close>

datatype loadEvent =
    LStart time executionMetadata duration
  | LFinish time nat string string
  | LPoll time MemoryEstimateResponse

primrec loadStep :: "loadEvent \<Rightarrow> hostMetrics \<Rightarrow> hostMetrics" where
  "loadStep (LStart now metadata wait) m = snd (startExecution now metadata wait m)"
| "loadStep (LFinish now i outcome reason) m = snd (finishExecution now i outcome reason m)"
| "loadStep (LPoll now estimate) m = recordEnclaveMemory now estimate m"

text \<open>The states a list of events passes through, the first one included.\<close>

primrec loadStates :: "loadEvent list \<Rightarrow> hostMetrics \<Rightarrow> hostMetrics list" where
  "loadStates [] m = [m]"
| "loadStates (e # es) m = m # loadStates es (loadStep e m)"

definition loadRun :: "loadEvent list \<Rightarrow> hostMetrics \<Rightarrow> hostMetrics" where
  "loadRun es m = last (loadStates es m)"

lemma loadStates_nonempty [simp]: "loadStates es m \<noteq> []"
  by (cases es) simp_all

lemma loadRun_simps [simp]: "loadRun [] m = m" "loadRun (e # es) m = loadRun es (loadStep e m)"
  by (simp_all add: loadRun_def)

definition running :: "hostMetrics \<Rightarrow> execution list" where
  "running m = filter (\<lambda>x. \<not> ex_finished x) (hm_executions m)"

definition runningOf :: "hostMetrics \<Rightarrow> string \<Rightarrow> nat" where
  "runningOf m w = length (filter (\<lambda>x. xm_workflowID (ex_metadata x) = w) (running m))"

definition load_inv :: "hostMetrics \<Rightarrow> bool" where
  "load_inv m \<longleftrightarrow> hm_inflight m = int (length (running m)) \<and>
     (\<forall>w. hm_workflowRefs m w = (if w = [] \<or> runningOf m w = 0 then None else Some (int (runningOf m w)))) \<and>
     hm_inflight m \<le> hm_inflightMax m \<and> activeWorkflows m \<le> hm_workflowCountMax m"

lemma length_filter_update:
  assumes "i < length xs" "P (xs ! i)" "\<not> P y"
  shows "length (filter P (xs[i := y])) = length (filter P xs) - 1"
proof -
  have xs: "xs = take i xs @ xs ! i # drop (Suc i) xs" using assms(1) by (rule id_take_nth_drop)
  have "length (filter P xs) = length (filter P (take i xs)) + Suc (length (filter P (drop (Suc i) xs)))"
    by (subst xs) (simp add: assms(2) del: append_take_drop_id)
  moreover have "xs[i := y] = take i xs @ y # drop (Suc i) xs" using assms(1) by (rule upd_conv_take_nth_drop)
  ultimately show ?thesis using assms(3) by simp
qed

lemma filter_update_same:
  assumes "\<not> P (xs ! i)" "\<not> P y"
  shows "filter P (xs[i := y]) = filter P xs"
proof (cases "i < length xs")
  case True
  have xs: "xs = take i xs @ xs ! i # drop (Suc i) xs" using True by (rule id_take_nth_drop)
  have "xs[i := y] = take i xs @ y # drop (Suc i) xs" using True by (rule upd_conv_take_nth_drop)
  with assms show ?thesis by (subst (2) xs) (simp del: append_take_drop_id)
qed (simp add: list_update_beyond)

lemma load_invD:
  assumes "load_inv m"
  shows "hm_inflight m = int (length (running m))"
    "\<And>w. hm_workflowRefs m w = (if w = [] \<or> runningOf m w = 0 then None else Some (int (runningOf m w)))"
    "hm_inflight m \<le> hm_inflightMax m" "activeWorkflows m \<le> hm_workflowCountMax m"
  using assms unfolding load_inv_def by blast+

lemma refs_eq: "load_inv m \<Longrightarrow> w \<noteq> [] \<Longrightarrow> refs m w = int (runningOf m w)"
  by (simp add: refs_def load_invD(2))

lemma startExecution_fields:
  assumes "m' = snd (startExecution now metadata wait m)"
  shows "running m' = running m @ [\<lparr>ex_metadata = metadata, ex_quorumWait = wait, ex_startedAt = now, ex_finished = False\<rparr>]"
    "hm_inflight m' = hm_inflight m + 1" "hm_inflightMax m' = max (hm_inflightMax m) (hm_inflight m + 1)"
    "hm_workflowRefs m' = (if xm_workflowID metadata = [] then hm_workflowRefs m
       else (hm_workflowRefs m)(xm_workflowID metadata \<mapsto> refs m (xm_workflowID metadata) + 1))"
    "hm_workflowCountMax m' = (if xm_workflowID metadata = [] then hm_workflowCountMax m
       else max (hm_workflowCountMax m) (activeWorkflows m'))"
  using assms by (simp_all add: startExecution_def Let_def running_def refs_def activeWorkflows_def)

lemma load_inv_start:
  assumes inv: "load_inv m"
  shows "load_inv (snd (startExecution now metadata wait m))"
proof -
  define m' where "m' = snd (startExecution now metadata wait m)"
  note f = startExecution_fields [OF m'_def]
  have of: "runningOf m' w = runningOf m w + (if w = xm_workflowID metadata then 1 else 0)" for w
    by (auto simp: runningOf_def f(1))
  have "activeWorkflows m' \<le> hm_workflowCountMax m'"
    using load_invD(4) [OF inv] by (simp add: f(5)) (simp add: activeWorkflows_def f(4))
  moreover have "hm_workflowRefs m' w = (if w = [] \<or> runningOf m' w = 0 then None else Some (int (runningOf m' w)))" for w
    using load_invD(2) [OF inv] refs_eq [OF inv, of w] by (auto simp: f(4) of)
  ultimately show ?thesis
    using load_invD(1) [OF inv] unfolding m'_def [symmetric] load_inv_def by (simp add: f(1-3))
qed

lemma finishExecution_fields:
  assumes "m' = snd (finishExecution now i outcome reason m)" "i < length (hm_executions m)"
    "\<not> ex_finished (hm_executions m ! i)" "w = xm_workflowID (ex_metadata (hm_executions m ! i))"
  shows "hm_executions m' = (hm_executions m)[i := (hm_executions m ! i)\<lparr>ex_finished := True\<rparr>]"
    "hm_inflight m' = hm_inflight m - 1" "hm_inflightMax m' = hm_inflightMax m"
    "hm_workflowCountMax m' = hm_workflowCountMax m"
    "hm_workflowRefs m' = (if w = [] then hm_workflowRefs m
       else (hm_workflowRefs m)(w := (if refs m w - 1 = 0 then None else Some (refs m w - 1))))"
  using assms by (simp_all add: finishExecution_def Let_def refs_def)

lemma load_inv_finish:
  assumes inv: "load_inv m"
  shows "load_inv (snd (finishExecution now i outcome reason m))"
proof (cases "i < length (hm_executions m) \<and> \<not> ex_finished (hm_executions m ! i)")
  case False
  then show ?thesis using inv by (auto simp: finishExecution_def Let_def)
next
  case True
  define x where "x = hm_executions m ! i"
  define m' where "m' = snd (finishExecution now i outcome reason m)"
  note f = finishExecution_fields [OF m'_def, of "xm_workflowID (ex_metadata x)"]
  have len: "length (running m') = length (running m) - 1"
    unfolding running_def using True by (subst f(1)) (simp_all add: x_def length_filter_update)
  have pos: "length (running m) > 0"
    using True by (auto simp: running_def filter_empty_conv)
  have run: "filter P (running m') = filter (\<lambda>y. P y \<and> \<not> ex_finished y) (hm_executions m')" for P
    by (simp add: running_def conj_commute)
  have run0: "filter P (running m) = filter (\<lambda>y. P y \<and> \<not> ex_finished y) (hm_executions m)" for P
    by (simp add: running_def conj_commute)
  have of: "runningOf m' w = runningOf m w - (if w = xm_workflowID (ex_metadata x) then 1 else 0)" for w
    unfolding runningOf_def run run0 using True
    by (subst f(1)) (auto simp: x_def length_filter_update filter_update_same)
  have of_pos: "runningOf m (xm_workflowID (ex_metadata x)) > 0"
    unfolding runningOf_def run0 using True by (auto simp: x_def filter_empty_conv)
  have refs': "hm_workflowRefs m' w = (if w = [] \<or> runningOf m' w = 0 then None else Some (int (runningOf m' w)))" for w
    using load_invD(2) [OF inv] refs_eq [OF inv, of w] True of_pos by (auto simp: f(5) x_def of)
  then have "dom (hm_workflowRefs m') \<subseteq> dom (hm_workflowRefs m)"
    using load_invD(2) [OF inv] of by (auto simp: dom_def split: if_splits)
  moreover have "finite (dom (hm_workflowRefs m))"
  proof (rule finite_subset)
    show "dom (hm_workflowRefs m) \<subseteq> (\<lambda>y. xm_workflowID (ex_metadata y)) ` set (running m)"
      using load_invD(2) [OF inv] by (auto simp: dom_def runningOf_def filter_empty_conv split: if_splits)
  qed simp
  ultimately have "activeWorkflows m' \<le> activeWorkflows m" by (simp add: activeWorkflows_def card_mono)
  moreover have "int (length (running m')) = int (length (running m)) - 1" using len pos by linarith
  ultimately show ?thesis
    using load_invD(1,3,4) [OF inv] refs' True unfolding m'_def [symmetric] load_inv_def
    by (auto simp: f(2-4) x_def)
qed

lemma poll_fields:
  "hm_inflight (recordEnclaveMemory now estimate m) = hm_inflight m"
  "hm_inflightMax (recordEnclaveMemory now estimate m) = hm_inflightMax m"
  "hm_workflowCountMax (recordEnclaveMemory now estimate m) = hm_workflowCountMax m"
  "hm_workflowRefs (recordEnclaveMemory now estimate m) = hm_workflowRefs m"
  "hm_executions (recordEnclaveMemory now estimate m) = hm_executions m"
  by (simp_all add: recordEnclaveMemory_def recordGuestCPUUtilization_def recordProcessCPUTime_def Let_def)

lemma load_inv_step:
  assumes "load_inv m"
  shows "load_inv (loadStep e m)"
proof (cases e)
  case (LPoll now estimate)
  with assms show ?thesis by (simp add: load_inv_def poll_fields running_def runningOf_def activeWorkflows_def)
qed (simp_all add: load_inv_start [OF assms] load_inv_finish [OF assms])

lemma load_inv_observe: "load_inv m \<Longrightarrow> load_inv (snd (observeExecutionLoad m))"
  by (simp add: load_inv_def observeExecutionLoad_def running_def runningOf_def activeWorkflows_def)

lemma load_inv_run: "load_inv m \<Longrightarrow> load_inv (loadRun es m)"
  by (induction es arbitrary: m) (simp_all add: load_inv_step)

lemma inflightMax_step:
  assumes "load_inv m"
  shows "hm_inflightMax (loadStep e m) = max (hm_inflightMax m) (hm_inflight (loadStep e m))"
proof (cases e)
  case (LStart now metadata wait)
  then show ?thesis by (simp add: startExecution_fields [OF refl])
next
  case (LFinish now i outcome reason)
  then show ?thesis using load_invD(3) [OF assms] by (simp add: finishExecution_def Let_def)
next
  case (LPoll now estimate)
  then show ?thesis using load_invD(3) [OF assms] by (simp add: poll_fields)
qed

lemma workflowCountMax_step:
  assumes "load_inv m"
  shows "hm_workflowCountMax (loadStep e m) = max (hm_workflowCountMax m) (activeWorkflows (loadStep e m))"
proof -
  have le: "activeWorkflows (loadStep e m) \<le> hm_workflowCountMax (loadStep e m)"
    using load_invD(4) [OF load_inv_step [OF assms]] .
  show ?thesis
  proof (cases e)
    case (LStart now metadata wait)
    then show ?thesis using le load_invD(4) [OF assms] by (auto simp: startExecution_fields [OF refl] activeWorkflows_def)
  next
    case (LFinish now i outcome reason)
    then have "hm_workflowCountMax (loadStep e m) = hm_workflowCountMax m" by (simp add: finishExecution_def Let_def)
    with le show ?thesis by simp
  next
    case (LPoll now estimate)
    then show ?thesis using le by (simp add: poll_fields)
  qed
qed

lemma loadStates_first: "m \<in> set (loadStates es m)"
  by (cases es) simp_all

lemma running_max:
  assumes "\<And>m e. load_inv m \<Longrightarrow> peak (loadStep e m) = max (peak m) (cur (loadStep e m))"
    and "\<And>m. load_inv m \<Longrightarrow> cur m \<le> peak m" and "load_inv m"
  shows "peak (loadRun es m) = max (peak m) (Max (cur ` set (loadStates es m)) :: int)"
  using assms(3)
proof (induction es arbitrary: m)
  case Nil
  then show ?case using assms(2) [of m] by simp
next
  case (Cons e es)
  let ?A = "cur ` set (loadStates es (loadStep e m))"
  have ge: "cur (loadStep e m) \<le> Max ?A" by (rule Max_ge) (auto simp: loadStates_first)
  have "Max (cur ` set (loadStates (e # es) m)) = max (cur m) (Max ?A)" by simp
  then show ?case
    using Cons.IH [OF load_inv_step [OF Cons.prems]] assms(1) [OF Cons.prems, of e] assms(2) [OF Cons.prems] ge
    by auto
qed

lemma load_inv_states: "load_inv m \<Longrightarrow> m' \<in> set (loadStates es m) \<Longrightarrow> load_inv m'"
proof (induction es arbitrary: m)
  case (Cons e es)
  then show ?case using load_inv_step [OF Cons.prems(1), of e] by auto
qed simp

lemma load_inv_New: "load_inv (newHostMetrics t)"
  by (simp add: load_inv_def newHostMetrics_def running_def runningOf_def activeWorkflows_def)

text \<open>
  A collection reports the exact load: the executions in flight and the
  workflows they belong to, and as maxima the highest numbers reached at any
  moment since the previous collection, whatever was started, finished (once or
  repeatedly) and polled in between.
\<close>

theorem load_report_exact:
  "let m = snd (observeExecutionLoad (loadRun es0 (newHostMetrics t)));
       r = fst (observeExecutionLoad (loadRun es m))
   in lr_inflight r = int (length (running (loadRun es m))) \<and>
    lr_workflowIDs r = {w. w \<noteq> [] \<and> runningOf (loadRun es m) w > 0} \<and>
    lr_inflightMax r = Max ((\<lambda>m. int (length (running m))) ` set (loadStates es m)) \<and>
    lr_workflowsActiveMax r = Max ((\<lambda>m. int (card {w. w \<noteq> [] \<and> runningOf m w > 0})) ` set (loadStates es m))"
proof -
  define m where "m = snd (observeExecutionLoad (loadRun es0 (newHostMetrics t)))"
  have inv: "load_inv m"
    unfolding m_def by (rule load_inv_observe [OF load_inv_run [OF load_inv_New]])
  have states: "load_inv m'" if "m' \<in> set (loadStates es m)" for m'
    using load_inv_states [OF inv that] .
  have act: "dom (hm_workflowRefs m') = {w. w \<noteq> [] \<and> runningOf m' w > 0}" if "load_inv m'" for m'
    using load_invD(2) [OF that] by (auto simp: dom_def split: if_splits)
  have start: "hm_inflightMax m = hm_inflight m" "hm_workflowCountMax m = activeWorkflows m"
    unfolding m_def by (simp_all add: observeExecutionLoad_def activeWorkflows_def)
  have first: "f m \<le> Max (f ` set (loadStates es m))" for f :: "hostMetrics \<Rightarrow> int"
    by (rule Max_ge) (auto simp: loadStates_first)
  have "hm_inflightMax (loadRun es m) = Max (hm_inflight ` set (loadStates es m))"
    using running_max [where peak = hm_inflightMax and cur = hm_inflight, OF inflightMax_step load_invD(3) inv, of es] start first [of hm_inflight] by simp
  also have "\<dots> = Max ((\<lambda>m. int (length (running m))) ` set (loadStates es m))"
    using states load_invD(1) by (intro arg_cong [where f = Max] image_cong) auto
  finally have peak: "hm_inflightMax (loadRun es m) = Max ((\<lambda>m. int (length (running m))) ` set (loadStates es m))" .
  have "hm_workflowCountMax (loadRun es m) = Max (activeWorkflows ` set (loadStates es m))"
    using running_max [where peak = hm_workflowCountMax and cur = activeWorkflows, OF workflowCountMax_step load_invD(4) inv, of es] start first [of activeWorkflows] by simp
  also have "\<dots> = Max ((\<lambda>m. int (card {w. w \<noteq> [] \<and> runningOf m w > 0})) ` set (loadStates es m))"
    using states act by (intro arg_cong [where f = Max] image_cong) (auto simp: activeWorkflows_def)
  finally show ?thesis
    using peak load_invD(1) [OF load_inv_run [OF inv]] act [OF load_inv_run [OF inv]]
    unfolding m_def [symmetric] Let_def by (simp add: observeExecutionLoad_def)
qed

section \<open>The CPU counter\<close>

primrec cpuRun :: "64 word list \<Rightarrow> hostMetrics \<Rightarrow> hostMetrics" where
  "cpuRun [] m = m"
| "cpuRun (v # vs) m = cpuRun vs (recordProcessCPUTime v m)"

lemma cpuRun_append: "cpuRun (vs @ ws) m = cpuRun ws (cpuRun vs m)"
  by (induction vs arbitrary: m) simp_all

lemma saturating_small: "unat v < 2 ^ 63 \<Longrightarrow> saturatingInt64 v = int (unat v)"
proof -
  assume "unat v < 2 ^ 63"
  then have "int (unat v) < int (2 ^ 63)" by (simp only: of_nat_less_iff)
  then show ?thesis by (simp add: saturatingInt64_def MaxInt64_def)
qed

text \<open>Samples of one boot: none of them zero, none smaller than the one before.\<close>

definition bootSamples :: "64 word list \<Rightarrow> bool" where
  "bootSamples vs \<longleftrightarrow> vs \<noteq> [] \<and> sorted vs \<and> (\<forall>v\<in>set vs. v \<noteq> 0 \<and> unat v < 2 ^ 63)"

lemma unat_sub_small: "u \<le> v \<Longrightarrow> unat v < 2 ^ 63 \<Longrightarrow> saturatingInt64 (v - u) = int (unat v) - int (unat u)"
  for u v :: "64 word"
  by (subst saturating_small) (auto simp: unat_sub word_le_nat_alt of_nat_diff)

lemma cpuRun_sorted:
  assumes "hm_hasProcessCPUBaseline m" "sorted (hm_lastProcessCPUSeconds m # vs)" "\<forall>v\<in>set vs. v \<noteq> 0 \<and> unat v < 2 ^ 63"
  shows "hm_processCPUTime (cpuRun vs m) = hm_processCPUTime m +
      int (unat (last (hm_lastProcessCPUSeconds m # vs))) - int (unat (hm_lastProcessCPUSeconds m)) \<and>
    hm_hasProcessCPUBaseline (cpuRun vs m) \<and>
    hm_lastProcessCPUSeconds (cpuRun vs m) = last (hm_lastProcessCPUSeconds m # vs)"
  using assms
proof (induction vs arbitrary: m)
  case (Cons v vs)
  then have le: "hm_lastProcessCPUSeconds m \<le> v" and nz: "v \<noteq> 0" "unat v < 2 ^ 63" by auto
  have m': "hm_processCPUTime (recordProcessCPUTime v m) = hm_processCPUTime m + int (unat v) - int (unat (hm_lastProcessCPUSeconds m))"
    "hm_hasProcessCPUBaseline (recordProcessCPUTime v m)" "hm_lastProcessCPUSeconds (recordProcessCPUTime v m) = v"
    using Cons.prems(1) nz le by (simp_all add: recordProcessCPUTime_def Let_def unat_sub_small leD)
  then show ?case using Cons.IH [of "recordProcessCPUTime v m"] Cons.prems by simp
qed simp

lemma cpuRun_boot:
  assumes "hm_hasProcessCPUBaseline m" "bootSamples vs" "hd vs < hm_lastProcessCPUSeconds m"
  shows "hm_processCPUTime (cpuRun vs m) = hm_processCPUTime m + int (unat (last vs)) \<and>
    hm_hasProcessCPUBaseline (cpuRun vs m) \<and> hm_lastProcessCPUSeconds (cpuRun vs m) = last vs"
proof -
  obtain v ws where vs: "vs = v # ws" using assms(2) by (cases vs) (auto simp: bootSamples_def)
  let ?m = "recordProcessCPUTime v m"
  have m': "hm_processCPUTime ?m = hm_processCPUTime m + int (unat v)"
    "hm_hasProcessCPUBaseline ?m" "hm_lastProcessCPUSeconds ?m = v"
    using assms vs by (simp_all add: recordProcessCPUTime_def Let_def saturating_small bootSamples_def)
  from cpuRun_sorted [of ?m ws] m' assms(2) show ?thesis by (auto simp: vs bootSamples_def)
qed

text \<open>Consecutive boots: each starts below where the previous one ended.\<close>

fun boots :: "64 word list list \<Rightarrow> bool" where
  "boots (vs # ws # vss) \<longleftrightarrow> bootSamples vs \<and> hd ws < last vs \<and> boots (ws # vss)"
| "boots [vs] \<longleftrightarrow> bootSamples vs"
| "boots [] \<longleftrightarrow> False"

lemma cpuRun_boots:
  assumes "hm_hasProcessCPUBaseline m" "boots vss" "hd (hd vss) < hm_lastProcessCPUSeconds m"
  shows "hm_processCPUTime (cpuRun (concat vss) m) =
    hm_processCPUTime m + (\<Sum>vs\<leftarrow>vss. int (unat (last vs)))"
  using assms
proof (induction vss arbitrary: m rule: boots.induct)
  case (1 vs ws vss)
  from cpuRun_boot [of m vs] 1 show ?case by (simp add: cpuRun_append)
next
  case (2 vs)
  with cpuRun_boot [of m vs] show ?case by simp
qed simp

text \<open>
  Over any number of restarts of the enclave, the counter of process CPU time
  has grown by what was really consumed since the first sample: the final
  reading of every boot, less the first reading of the first one.
\<close>

theorem cpu_counter_adds_up:
  assumes "boots (vs # vss)"
  shows "hm_processCPUTime (cpuRun (concat (vs # vss)) (newHostMetrics t)) =
    (\<Sum>ws\<leftarrow>vs # vss. int (unat (last ws))) - int (unat (hd vs))"
proof -
  have boot: "bootSamples vs" using assms by (cases vss) auto
  then obtain v ws where vs: "vs = v # ws" by (cases vs) (auto simp: bootSamples_def)
  let ?m = "recordProcessCPUTime v (newHostMetrics t)" and ?m1 = "cpuRun vs (newHostMetrics t)"
  have m: "hm_processCPUTime ?m = 0" "hm_hasProcessCPUBaseline ?m" "hm_lastProcessCPUSeconds ?m = v"
    using boot by (simp_all add: recordProcessCPUTime_def newHostMetrics_def vs bootSamples_def)
  have m1: "hm_processCPUTime ?m1 = int (unat (last vs)) - int (unat v)" "hm_hasProcessCPUBaseline ?m1"
    "hm_lastProcessCPUSeconds ?m1 = last vs"
    using cpuRun_sorted [of ?m ws] m boot by (auto simp: vs bootSamples_def)
  show ?thesis
  proof (cases vss)
    case Nil
    then show ?thesis using m1 by (simp add: vs)
  next
    case (Cons us uss)
    with assms cpuRun_boots [of ?m1 vss] m1 show ?thesis by (simp add: cpuRun_append vs)
  qed
qed

theorem cpu_counter_adds_up_witness:
  "hm_processCPUTime (cpuRun (concat [[10, 15], [3, 7]]) (newHostMetrics 0)) = 15 + 7 - 10"
  using cpu_counter_adds_up [of "[10, 15]" "[[3, 7]]" 0] by (simp add: bootSamples_def)

text \<open>The exported utilization is a fraction.\<close>

lemma utilization_fraction:
  assumes "hm_guestCPUSample (recordGuestCPUUtilization busy tot m) = Some (b, n)" "hm_guestCPUSample m = Some (b, n) \<Longrightarrow> b \<le> n \<and> 0 < n"
  shows "b \<le> n \<and> 0 < n"
  using assms by (auto simp: recordGuestCPUUtilization_def Let_def word_le_nat_alt unat_gt_0 not_less split: if_splits)

end
