(* ===== verification/CC_Util.thy ===== *)
theory CC_Util
  imports Complex_Main CC_Resources
begin

text \<open>
  Helpers the components share: substrings, the details of metric events, hexadecimal and base64 text
  (\<^verbatim>\<open>src/util/base64.go\<close>), HTTP headers and the enclave's authentication header
  (\<^verbatim>\<open>src/util/common.go\<close>), EIP-55 addresses (\<^verbatim>\<open>src/util/evm_address.go\<close>), the
  classification of outbound HTTP failures (\<^verbatim>\<open>src/util/http_error.go\<close>,
  \<^verbatim>\<open>src/util/http_restricted.go\<close>) and AES-GCM blobs
  (\<^verbatim>\<open>src/util/symmetric_key_encrypt.go\<close>). Keccak, AES-GCM and the texts of the TLS
  alerts are arguments. The lemmas show that the encodings are injective, that
  canonical header names are stable, that an address survives its checksummed
  rendering, and that decryption undoes encryption.
\<close>

section \<open>Strings and details\<close>

text \<open>\<^verbatim>\<open>strings.Contains\<close>.\<close>

fun Contains :: "string \<Rightarrow> string \<Rightarrow> bool" where
  "Contains [] sub \<longleftrightarrow> sub = []"
| "Contains (c # cs) sub \<longleftrightarrow> take (length sub) (c # cs) = sub \<or> Contains cs sub"

text \<open>The values of a metric's details: \<open>ANum\<close> is a float64, \<open>AInt\<close> an int, \<open>AErr\<close> an error text.\<close>

datatype anyVal = AStr string | ABool bool | ANum rat | AInt int | AErr | AOther

type_synonym eventDetails = "string \<rightharpoonup> anyVal"
type_synonym emitted = "(string \<times> eventDetails) list"

section \<open>Hexadecimal\<close>

text \<open>Characters by their code.\<close>

abbreviation code :: "char \<Rightarrow> nat" where
  "code c \<equiv> of_char c"

definition hexDigit :: "nat \<Rightarrow> char" where
  "hexDigit n = char_of (if n < 10 then 48 + n else 87 + n)"

definition hexVal :: "char \<Rightarrow> nat option" where
  "hexVal c = (if 48 \<le> code c \<and> code c \<le> 57 then Some (code c - 48)
     else if 97 \<le> code c \<and> code c \<le> 102 then Some (code c - 87)
     else if 65 \<le> code c \<and> code c \<le> 70 then Some (code c - 55) else None)"

text \<open>\<^verbatim>\<open>hex.EncodeToString\<close>.\<close>

definition hexEncode :: "bytes \<Rightarrow> string" where
  "hexEncode b = concat (map (\<lambda>x. [hexDigit (unat x div 16), hexDigit (unat x mod 16)]) b)"

text \<open>\<^verbatim>\<open>hex.DecodeString\<close>: the bytes before the first bad digit, and whether there was none.\<close>

fun hexDecodePrefix :: "string \<Rightarrow> bytes \<times> bool" where
  "hexDecodePrefix [] = ([], True)"
| "hexDecodePrefix [c] = ([], False)"
| "hexDecodePrefix (c # d # cs) = (case (hexVal c, hexVal d) of
     (Some a, Some b) \<Rightarrow> (let (r, ok) = hexDecodePrefix cs in (of_nat (16 * a + b) # r, ok))
   | _ \<Rightarrow> ([], False))"

definition hexDecode :: "string \<Rightarrow> bytes option" where
  "hexDecode s = (case hexDecodePrefix s of (b, ok) \<Rightarrow> if ok then Some b else None)"

text \<open>The conversion \<^verbatim>\<open>string(b)\<close> of a byte slice.\<close>

definition string_of :: "bytes \<Rightarrow> string" where
  "string_of b = map (\<lambda>x. char_of (unat x)) b"

section \<open>Base64 (util/base64.go)\<close>

definition base64Alphabet :: string where
  "base64Alphabet = ''ABCDEFGHIJKLMNOPQRSTUVWXYZabcdefghijklmnopqrstuvwxyz0123456789+/''"

definition sextet :: "nat \<Rightarrow> char" where
  "sextet n = base64Alphabet ! (n mod 64)"

fun EncodeToString :: "bytes \<Rightarrow> string" where
  "EncodeToString [] = []"
| "EncodeToString [a] = [sextet (unat a div 4), sextet (unat a mod 4 * 16), CHR ''='', CHR ''='']"
| "EncodeToString [a, b] = [sextet (unat a div 4), sextet (unat a mod 4 * 16 + unat b div 16),
     sextet (unat b mod 16 * 4), CHR ''='']"
| "EncodeToString (a # b # c # r) = sextet (unat a div 4) # sextet (unat a mod 4 * 16 + unat b div 16) #
     sextet (unat b mod 16 * 4 + unat c div 64) # sextet (unat c mod 64) # EncodeToString r"

section \<open>HTTP headers\<close>

text \<open>\<^verbatim>\<open>http.Header\<close>: values by canonical name.\<close>

type_synonym Header = "string \<rightharpoonup> string list"

definition validHeaderFieldByte :: "char \<Rightarrow> bool" where
  "validHeaderFieldByte c \<longleftrightarrow> (48 \<le> code c \<and> code c \<le> 57) \<or> (65 \<le> code c \<and> code c \<le> 90) \<or>
     (97 \<le> code c \<and> code c \<le> 122) \<or> code c \<in> {33, 35, 36, 37, 38, 39, 42, 43, 45, 46, 94, 95, 96, 124, 126}"

definition toUpper :: "char \<Rightarrow> char" where
  "toUpper c = (if 97 \<le> code c \<and> code c \<le> 122 then char_of (code c - 32) else c)"

definition toLower :: "char \<Rightarrow> char" where
  "toLower c = (if 65 \<le> code c \<and> code c \<le> 90 then char_of (code c + 32) else c)"

primrec canonLoop :: "bool \<Rightarrow> string \<Rightarrow> string" where
  "canonLoop upper [] = []"
| "canonLoop upper (c # cs) = (let c' = (if upper then toUpper c else toLower c) in c' # canonLoop (c' = CHR ''-'') cs)"

text \<open>\<^verbatim>\<open>textproto.CanonicalMIMEHeaderKey\<close>, which \<^verbatim>\<open>Header.Get\<close>, \<^verbatim>\<open>Set\<close> and \<^verbatim>\<open>Add\<close> apply to the name.\<close>

definition canonicalKey :: "string \<Rightarrow> string" where
  "canonicalKey s = (if list_all validHeaderFieldByte s then canonLoop True s else s)"

definition Header_Set :: "string \<Rightarrow> string \<Rightarrow> Header \<Rightarrow> Header" where
  "Header_Set k v h = h(canonicalKey k \<mapsto> [v])"

definition Header_Add :: "string \<Rightarrow> string \<Rightarrow> Header \<Rightarrow> Header" where
  "Header_Add k v h = h(canonicalKey k \<mapsto> (case h (canonicalKey k) of None \<Rightarrow> [] | Some vs \<Rightarrow> vs) @ [v])"

definition Header_Get :: "string \<Rightarrow> Header \<Rightarrow> string" where
  "Header_Get k h = (case h (canonicalKey k) of Some (v # _) \<Rightarrow> v | _ \<Rightarrow> [])"

text \<open>\<^verbatim>\<open>strings.TrimSpace\<close> within ASCII.\<close>

definition trimSpace :: "string \<Rightarrow> string" where
  "trimSpace s = rev (dropWhile isSpace (rev (dropWhile isSpace s)))"

text \<open>\<^verbatim>\<open>SetAuthHeader\<close>: \<open>None\<close> is the malformed-header error.\<close>

definition SetAuthHeader :: "Enclave \<Rightarrow> Header \<Rightarrow> Header option" where
  "SetAuthHeader enclave h =
     (if en_EnclaveAuthHeader enclave \<noteq> [] then
        (let headerComponents = splitOn (CHR '':'') (en_EnclaveAuthHeader enclave) in
         if length headerComponents \<noteq> 2 then None
         else Some (Header_Set (trimSpace (headerComponents ! 0)) (trimSpace (headerComponents ! 1)) h))
      else Some h)"

definition MethodUsesBody :: "string \<Rightarrow> bool" where
  "MethodUsesBody m \<longleftrightarrow> m = ''POST'' \<or> m = ''PUT'' \<or> m = ''PATCH''"

section \<open>Addresses (util/evm\_address.go)\<close>

definition AddressLength :: nat where
  [cc_const]: "AddressLength = 20"

definition SetBytes :: "bytes \<Rightarrow> bytes" where
  "SetBytes b = (let b' = (if length b > AddressLength then drop (length b - AddressLength) b else b)
     in replicate (AddressLength - length b') 0 @ b')"

definition BytesToAddress :: "bytes \<Rightarrow> bytes" where
  "BytesToAddress b = SetBytes b"

definition Hex2Bytes :: "string \<Rightarrow> bytes" where
  "Hex2Bytes s = fst (hexDecodePrefix s)"

definition has0xPrefix :: "string \<Rightarrow> bool" where
  "has0xPrefix s \<longleftrightarrow> length s \<ge> 2 \<and> s ! 0 = CHR ''0'' \<and> (s ! 1 = CHR ''x'' \<or> s ! 1 = CHR ''X'')"

definition FromHex :: "string \<Rightarrow> bytes" where
  "FromHex s = (let s1 = (if has0xPrefix s then drop 2 s else s);
                    s2 = (if length s1 mod 2 = 1 then CHR ''0'' # s1 else s1) in Hex2Bytes s2)"

definition HexToAddress :: "string \<Rightarrow> bytes" where
  "HexToAddress s = BytesToAddress (FromHex s)"

definition Address_hex :: "bytes \<Rightarrow> string" where
  "Address_hex a = ''0x'' @ hexEncode a"

text \<open>The nibble of the hash that decides the case of digit \<open>i\<close>, and the digit.\<close>

definition checksumDigit :: "bytes \<Rightarrow> nat \<Rightarrow> char \<Rightarrow> char" where
  "checksumDigit h i c =
     (let hashByte = unat (h ! (i div 2)); nibble = (if i mod 2 = 0 then hashByte div 16 else hashByte mod 16)
      in if code c > 57 \<and> nibble > 7 then char_of (code c - 32) else c)"

definition checksumHex :: "(bytes \<Rightarrow> bytes) \<Rightarrow> bytes \<Rightarrow> string" where
  "checksumHex keccak a = (let digits = drop 2 (Address_hex a); h = keccak (bytes_of digits)
     in take 2 (Address_hex a) @ map (\<lambda>i. checksumDigit h i (digits ! i)) [0..<length digits])"

definition Address_String :: "(bytes \<Rightarrow> bytes) \<Rightarrow> bytes \<Rightarrow> string" where
  "Address_String keccak a = checksumHex keccak a"

section \<open>Outbound failures (util/http\_error.go, util/http\_restricted.go)\<close>

text \<open>What the chain of an error answers to the questions the classifier asks of it.\<close>

datatype safeurlKind =
    SchemeError | PortError | HostError | InvalidHost | IPError | IPv6Blocked | CredentialsBlocked

record outboundError =
  oe_deadline :: bool
  oe_netTimeout :: bool
  oe_dnsNotFound :: bool
  oe_hostUnreachable :: bool
  oe_safeurl :: "safeurlKind set"
  oe_networkPolicy :: "bool option"
  oe_connRefused :: bool
  oe_eof :: bool
  oe_connReset :: bool
  oe_opError :: "(string \<times> string option) option"
  oe_recordHeader :: bool
  oe_schemeMismatch :: bool

record OutboundHTTPError =
  oh_StatusCode :: nat
  oh_Body :: string

definition IsRequestBlockedError :: "outboundError \<Rightarrow> bool" where
  "IsRequestBlockedError e \<longleftrightarrow> SchemeError \<in> oe_safeurl e \<or> PortError \<in> oe_safeurl e \<or> HostError \<in> oe_safeurl e \<or>
     InvalidHost \<in> oe_safeurl e \<or> IPError \<in> oe_safeurl e \<or> IPv6Blocked \<in> oe_safeurl e \<or>
     CredentialsBlocked \<in> oe_safeurl e \<or> oe_networkPolicy e = Some True"

definition handshakeRejectionAlerts :: "(nat \<Rightarrow> string) \<Rightarrow> string set" where
  "handshakeRejectionAlerts alertText =
     {alertText 40, alertText 70, alertText 71, alertText 112, alertText 116, alertText 120}"

definition upstreamTLSFailure :: "(nat \<Rightarrow> string) \<Rightarrow> outboundError \<Rightarrow> string" where
  "upstreamTLSFailure alertText e =
     (let notTLS = (if oe_recordHeader e \<or> oe_schemeMismatch e
                    then ''upstream did not speak TLS on the requested port'' else [])
      in case oe_opError e of
           Some (op, Some t) \<Rightarrow>
             if op = ''remote error'' \<and> t \<in> handshakeRejectionAlerts alertText
             then ''upstream rejected the TLS handshake: '' @ t else notTLS
         | _ \<Rightarrow> notTLS)"

definition ClassifyOutboundHTTPError :: "(nat \<Rightarrow> string) \<Rightarrow> outboundError option \<Rightarrow> OutboundHTTPError option" where
  "ClassifyOutboundHTTPError alertText err = (case err of
     None \<Rightarrow> None
   | Some e \<Rightarrow>
       if oe_deadline e \<or> oe_netTimeout e
       then Some \<lparr>oh_StatusCode = 504, oh_Body = ''upstream request timed out''\<rparr>
       else if oe_dnsNotFound e \<or> oe_hostUnreachable e
       then Some \<lparr>oh_StatusCode = 502, oh_Body = ''upstream host unreachable''\<rparr>
       else if IsRequestBlockedError e
       then Some \<lparr>oh_StatusCode = 400, oh_Body = ''upstream request blocked by enclave network policy''\<rparr>
       else if oe_connRefused e
       then Some \<lparr>oh_StatusCode = 502, oh_Body = ''upstream connection refused''\<rparr>
       else if oe_eof e \<or> oe_connReset e
       then Some \<lparr>oh_StatusCode = 502, oh_Body = ''upstream closed the connection before responding''\<rparr>
       else if upstreamTLSFailure alertText e \<noteq> []
       then Some \<lparr>oh_StatusCode = 502, oh_Body = upstreamTLSFailure alertText e\<rparr>
       else None)"

section \<open>AES-GCM blobs (util/symmetric\_key\_encrypt.go)\<close>

text \<open>AES-GCM: which keys are accepted, sealing, and opening under key and nonce.\<close>

record AESGCM =
  gc_KeyOk :: "bytes \<Rightarrow> bool"
  gc_Seal :: "bytes \<Rightarrow> bytes \<Rightarrow> bytes \<Rightarrow> bytes"
  gc_Open :: "bytes \<Rightarrow> bytes \<Rightarrow> bytes \<Rightarrow> bytes option"

definition gcmNonceSize :: nat where
  [cc_const]: "gcmNonceSize = 12"

text \<open>\<open>rand\<close> is what the random source gives: \<open>None\<close> when it fails.\<close>

definition AESGCMEncrypt :: "AESGCM \<Rightarrow> bytes option \<Rightarrow> bytes \<Rightarrow> bytes \<Rightarrow> bytes option" where
  "AESGCMEncrypt g rand plaintext key =
     (if \<not> gc_KeyOk g key then None
      else case rand of None \<Rightarrow> None | Some nonce \<Rightarrow> Some (nonce @ gc_Seal g key nonce plaintext))"

definition AESGCMDecrypt :: "AESGCM \<Rightarrow> bytes \<Rightarrow> bytes \<Rightarrow> bytes option" where
  "AESGCMDecrypt g blob key =
     (if \<not> gc_KeyOk g key then None
      else if length blob < gcmNonceSize then None
      else gc_Open g key (take gcmNonceSize blob) (drop gcmNonceSize blob))"

section \<open>Lemmas: characters and hexadecimal\<close>

lemma code_less [simp]: "code c < 256"
  by (fact nat_of_char_less_256)

lemma code_char_of [simp]: "n < 256 \<Longrightarrow> code (char_of n) = n"
  by simp

lemma hexVal_hexDigit [simp]: "n < 16 \<Longrightarrow> hexVal (hexDigit n) = Some n"
  by (auto simp: hexVal_def hexDigit_def)

lemma byte_split: "of_nat (16 * (unat (x :: byte) div 16) + unat x mod 16) = x"
  by simp

lemma byte_less [simp]: "unat (x :: byte) div 16 < 16"
  using unsigned_less [of x, where ?'a = nat] by auto

lemma hexEncode_simps [simp]:
  "hexEncode [] = []"
  "hexEncode (x # b) = hexDigit (unat x div 16) # hexDigit (unat x mod 16) # hexEncode b"
  by (simp_all add: hexEncode_def)

lemma length_hexEncode [simp]: "length (hexEncode b) = 2 * length b"
  by (induction b) simp_all

lemma hexDecodePrefix_hexEncode [simp]: "hexDecodePrefix (hexEncode b) = (b, True)"
proof (induction b)
  case (Cons x b)
  then show ?case using byte_split [of x] by simp
qed simp

lemma hexDecode_hexEncode [simp]: "hexDecode (hexEncode b) = Some b"
  by (simp add: hexDecode_def)

lemma hexEncode_inj [simp]: "hexEncode a = hexEncode b \<longleftrightarrow> a = b"
  by (metis hexDecode_hexEncode option.inject)

lemma hexDecodePrefix_cong:
  "list_all2 (\<lambda>c d. hexVal c = hexVal d) s t \<Longrightarrow> hexDecodePrefix s = hexDecodePrefix t"
proof (induction s arbitrary: t rule: hexDecodePrefix.induct)
  case (2 c)
  then show ?case by (auto simp: list_all2_Cons1)
next
  case (3 c d cs)
  from 3(2) obtain c' d' cs' where t: "t = c' # d' # cs'" "hexVal c = hexVal c'" "hexVal d = hexVal d'"
    "list_all2 (\<lambda>c d. hexVal c = hexVal d) cs cs'" by (auto simp: list_all2_Cons1)
  show ?case
  proof (cases "hexVal c")
    case (Some a)
    show ?thesis
    proof (cases "hexVal d")
      case d: (Some b)
      with Some t have "hexVal c' = Some a" "hexVal d' = Some b" by simp_all
      with 3(1) [OF refl Some d t(4)] Some d show ?thesis by (simp add: t(1))
    qed (use t Some in \<open>auto split: option.splits\<close>)
  qed (use t in simp)
qed simp

section \<open>Lemmas: base64\<close>

lemma distinct_base64Alphabet: "distinct base64Alphabet" "length base64Alphabet = 64"
  by (simp_all add: base64Alphabet_def)

lemma sextet_inj [simp]: "sextet m = sextet n \<longleftrightarrow> m mod 64 = n mod 64"
  by (simp add: sextet_def nth_eq_iff_index_eq distinct_base64Alphabet)

lemma pad_not_sextet [simp]: "sextet n \<noteq> CHR ''=''"  "CHR ''='' \<noteq> sextet n"
proof -
  have "sextet n \<in> set base64Alphabet" by (simp add: sextet_def distinct_base64Alphabet)
  moreover have "CHR ''='' \<notin> set base64Alphabet" by (simp add: base64Alphabet_def)
  ultimately show "sextet n \<noteq> CHR ''=''" "CHR ''='' \<noteq> sextet n" by metis+
qed

lemma byte_eq_iff: "(a :: byte) = b \<longleftrightarrow> unat a = unat b"
  by (simp add: word_unat_eq_iff)

lemma byte_bound: "unat (a :: byte) < 256"
  using unsigned_less [of a, where ?'a = nat] by simp

text \<open>Two digits in base \<open>n\<close>, and a number from its quotient and remainder.\<close>

lemma two_digits: "\<lbrakk>y < n; y' < n; x * n + y = x' * n + y'\<rbrakk> \<Longrightarrow> x = x' \<and> y = (y' :: nat)"
  by (metis add.commute add_diff_cancel_left' div_mult_self3 div_less mod_less mod_mult_self3 not_less_zero)

lemma div_mod_eqI: "\<lbrakk>a div k = b div k; a mod k = b mod k\<rbrakk> \<Longrightarrow> a = (b :: nat)"
  by (metis div_mult_mod_eq)

text \<open>The digits of three bytes determine them.\<close>

lemma sextets_less:
  fixes a b c :: byte
  shows "unat a div 4 < 64" "unat a mod 4 * 16 < 64" "unat a mod 4 * 16 + unat b div 16 < 64"
    "unat b mod 16 * 4 < 64" "unat b mod 16 * 4 + unat c div 64 < 64"
  using byte_bound [of a] byte_bound [of b] byte_bound [of c] by auto

lemma mid_digits:
  fixes a b a' b' :: byte
  shows "unat a mod 4 * 16 + unat b div 16 = unat a' mod 4 * 16 + unat b' div 16
      \<Longrightarrow> unat a mod 4 = unat a' mod 4 \<and> unat b div 16 = unat b' div 16"
    "unat a mod 16 * 4 + unat b div 64 = unat a' mod 16 * 4 + unat b' div 64
      \<Longrightarrow> unat a mod 16 = unat a' mod 16 \<and> unat b div 64 = unat b' div 64"
  using byte_bound [of b] byte_bound [of b'] by (auto dest!: two_digits [rotated 2])

lemma EncodeToString_inj [simp]: "EncodeToString x = EncodeToString y \<longleftrightarrow> x = y"
proof
  assume "EncodeToString x = EncodeToString y"
  then show "x = y"
  proof (induction x arbitrary: y rule: EncodeToString.induct)
    case 1
    then show ?case by (cases y rule: EncodeToString.cases) auto
  next
    case (2 a)
    then show ?case
      by (cases y rule: EncodeToString.cases) (auto simp: sextets_less byte_eq_iff intro: div_mod_eqI)
  next
    case (3 a b)
    then show ?case
      by (cases y rule: EncodeToString.cases)
        (auto simp: sextets_less byte_eq_iff dest!: mid_digits intro: div_mod_eqI)
  next
    case (4 a b c r)
    then show ?case
      by (cases y rule: EncodeToString.cases)
        (auto simp: sextets_less byte_eq_iff dest!: mid_digits intro: div_mod_eqI)
  qed
qed simp

section \<open>Lemmas: headers\<close>

lemma code_toUpper: "code (toUpper c) = (if 97 \<le> code c \<and> code c \<le> 122 then code c - 32 else code c)"
  by (auto simp: toUpper_def)

lemma code_toLower: "code (toLower c) = (if 65 \<le> code c \<and> code c \<le> 90 then code c + 32 else code c)"
  by (simp add: toLower_def)

lemma case_idem: "toUpper (toUpper c) = toUpper c" "toLower (toLower c) = toLower c"
  using code_toUpper [of c] code_toLower [of c] by (auto simp: toUpper_def [of "toUpper c"] toLower_def [of "toLower c"])

lemma valid_case: "validHeaderFieldByte c \<Longrightarrow> validHeaderFieldByte (toUpper c) \<and> validHeaderFieldByte (toLower c)"
proof -
  assume c: "validHeaderFieldByte c"
  have "toUpper c = c \<or> 65 \<le> code (toUpper c) \<and> code (toUpper c) \<le> 90"
    by (cases "97 \<le> code c \<and> code c \<le> 122") (auto simp: code_toUpper toUpper_def [of c])
  moreover have "toLower c = c \<or> 97 \<le> code (toLower c) \<and> code (toLower c) \<le> 122"
    by (cases "65 \<le> code c \<and> code c \<le> 90") (auto simp: code_toLower toLower_def [of c])
  ultimately show ?thesis using c by (metis validHeaderFieldByte_def)
qed

lemma canonLoop_idem: "canonLoop u (canonLoop u s) = canonLoop u s"
  by (induction s arbitrary: u) (simp_all add: Let_def case_idem)

lemma canonLoop_valid: "list_all validHeaderFieldByte s \<Longrightarrow> list_all validHeaderFieldByte (canonLoop u s)"
  by (induction s arbitrary: u) (simp_all add: Let_def valid_case)

lemma canonicalKey_idem [simp]: "canonicalKey (canonicalKey s) = canonicalKey s"
  by (simp add: canonicalKey_def canonLoop_idem canonLoop_valid)

lemma Header_Set_canonical [simp]: "Header_Set (canonicalKey k) v h = Header_Set k v h"
  by (simp add: Header_Set_def)

lemma Header_Get_Set: "Header_Get k (Header_Set k' v h) = (if canonicalKey k = canonicalKey k' then v else Header_Get k h)"
  by (simp add: Header_Get_def Header_Set_def)

lemma Header_Get_Add:
  "Header_Get k (Header_Add k' v h) =
     (if canonicalKey k = canonicalKey k' \<and> (h (canonicalKey k) = None \<or> h (canonicalKey k) = Some []) then v
      else Header_Get k h)"
  by (auto simp: Header_Get_def Header_Add_def split: option.splits list.splits)

section \<open>Lemmas: addresses and AES-GCM\<close>

lemma hexVal_hexEncode: "c \<in> set (hexEncode b) \<Longrightarrow> \<exists>n<16. c = hexDigit n"
proof (induction b)
  case (Cons x b)
  have "unat x mod 16 < 16" by simp
  with Cons byte_less [of x] show ?case unfolding hexEncode_simps by (metis set_ConsD)
qed simp

lemma hexVal_checksumDigit:
  assumes "c \<in> set (hexEncode b)"
  shows "hexVal (checksumDigit h i c) = hexVal c"
proof -
  from hexVal_hexEncode [OF assms] obtain n where "n < 16" "c = hexDigit n" by blast
  then show ?thesis by (auto simp: checksumDigit_def Let_def hexVal_def hexDigit_def)
qed

lemma checksumHex_digits:
  "list_all2 (\<lambda>c d. hexVal c = hexVal d) (drop 2 (checksumHex keccak a)) (hexEncode a)"
  by (simp add: checksumHex_def Address_hex_def Let_def list_all2_conv_all_nth
      hexVal_checksumDigit [where b = a])

lemma checksumHex_prefix: "has0xPrefix (checksumHex keccak a)" "length (checksumHex keccak a) = 2 + 2 * length a"
  by (simp_all add: checksumHex_def Address_hex_def Let_def has0xPrefix_def)

lemma FromHex_checksumHex: "FromHex (checksumHex keccak a) = a"
proof -
  have "hexDecodePrefix (drop 2 (checksumHex keccak a)) = (a, True)"
    using hexDecodePrefix_cong [OF checksumHex_digits [of keccak a]] by simp
  then show ?thesis by (simp add: FromHex_def Let_def Hex2Bytes_def checksumHex_prefix)
qed

lemma length_HexToAddress: "length (HexToAddress s) = AddressLength"
  by (simp add: HexToAddress_def BytesToAddress_def SetBytes_def Let_def)

lemma HexToAddress_String: "length a = AddressLength \<Longrightarrow> HexToAddress (Address_String keccak a) = a"
  by (simp add: HexToAddress_def Address_String_def FromHex_checksumHex BytesToAddress_def SetBytes_def)

lemma AESGCM_roundtrip:
  assumes "AESGCMEncrypt g (Some nonce) plaintext key = Some blob" "length nonce = gcmNonceSize"
    "\<And>k n p. gc_KeyOk g k \<Longrightarrow> gc_Open g k n (gc_Seal g k n p) = Some p"
  shows "AESGCMDecrypt g blob key = Some plaintext"
  using assms by (auto simp: AESGCMEncrypt_def AESGCMDecrypt_def split: if_splits)

lemma ClassifyOutboundHTTPError_status:
  "ClassifyOutboundHTTPError alertText err = Some r \<Longrightarrow> oh_StatusCode r \<in> {400, 502, 504}"
  by (auto simp: ClassifyOutboundHTTPError_def split: option.splits if_splits)

end
