(* ===== verification/CC_Selector.thy ===== *)
theory CC_Selector
  imports CC_Util "HOL-Library.Multiset"
begin

text \<open>
  What the enclave pool relies on: the round-robin selector
  (\<^verbatim>\<open>src/enclave-client/enclave-selector\<close>) and the attestation validators
  (\<^verbatim>\<open>src/enclave-client/attestation-validator\<close>, \<^verbatim>\<open>src/enclave/fake/attestor.go\<close>).
  AWS Nitro's validation and CBOR are arguments. The selector's contract is the
  locale \<open>enclave_selector\<close>, which the round-robin selector is shown to meet.
  The lemmas show that selection walks the eligible nodes cyclically from the
  position the request id names and stops at the first live one, and that an
  enclave is accepted only through one of its own trusted measurements.
\<close>

section \<open>The round-robin selector\<close>

record roundRobinEnclaveSelector =
  rr_deadEnclaves :: "bytes set"

definition NewRoundRobinEnclaveSelector :: roundRobinEnclaveSelector where
  "NewRoundRobinEnclaveSelector = \<lparr>rr_deadEnclaves = {}\<rparr>"

datatype selectError = NoNodesAvailable | NoLiveEnclaves

definition isEnclaveDead :: "roundRobinEnclaveSelector \<Rightarrow> bytes \<Rightarrow> bool" where
  "isEnclaveDead s enclaveID \<longleftrightarrow> enclaveID \<in> rr_deadEnclaves s"

definition SetEnclaveLiveness :: "bytes \<Rightarrow> bool \<Rightarrow> roundRobinEnclaveSelector \<Rightarrow> roundRobinEnclaveSelector" where
  "SetEnclaveLiveness enclaveID isAlive s =
     (if isAlive then s\<lparr>rr_deadEnclaves := rr_deadEnclaves s - {enclaveID}\<rparr>
      else s\<lparr>rr_deadEnclaves := insert enclaveID (rr_deadEnclaves s)\<rparr>)"

text \<open>\<^verbatim>\<open>bigInt(b) % modulus\<close>.\<close>

definition calcMod :: "bytes \<Rightarrow> nat \<Rightarrow> nat" where
  "calcMod b modulus = be_decode b mod modulus"

text \<open>A nil checker accepts every enclave.\<close>

type_synonym RequirementsChecker = "(Enclave \<Rightarrow> bool) option"

definition meets :: "RequirementsChecker \<Rightarrow> Enclave \<Rightarrow> bool" where
  "meets checkRequirements enc \<longleftrightarrow> (case checkRequirements of None \<Rightarrow> True | Some chk \<Rightarrow> chk enc)"

text \<open>The loop over the offsets: \<open>left\<close> are still to be tried, from \<open>offset\<close> on.\<close>

primrec selectLoop :: "roundRobinEnclaveSelector \<Rightarrow> Enclave list \<Rightarrow> nat \<Rightarrow> nat \<Rightarrow> nat \<Rightarrow> Enclave option" where
  "selectLoop s nodes baseIndex 0 offset = None"
| "selectLoop s nodes baseIndex (Suc left) offset =
     (let selectedNode = nodes ! ((baseIndex + offset) mod length nodes) in
      if isEnclaveDead s (en_EnclaveID selectedNode) then selectLoop s nodes baseIndex left (Suc offset)
      else Some selectedNode)"

definition SelectEnclaves ::
    "roundRobinEnclaveSelector \<Rightarrow> Enclave list \<Rightarrow> bytes \<Rightarrow> RequirementsChecker \<Rightarrow> selectError + Enclave list" where
  "SelectEnclaves s enclaves requestID checkRequirements =
     (let nodes = filter (meets checkRequirements) enclaves in
      if nodes = [] then Inl NoNodesAvailable
      else case selectLoop s nodes (calcMod requestID (length nodes)) (length nodes) 0 of
          None \<Rightarrow> Inl NoLiveEnclaves
        | Some e \<Rightarrow> Inr [e])"

section \<open>Attestation validators\<close>

datatype validator = nitroValidator | fakeValidator

definition EnclaveTypeFake :: string where
  [cc_const]: "EnclaveTypeFake = ''FAKE''"

definition ForEnclaveType :: "string \<Rightarrow> validator" where
  "ForEnclaveType enclaveType = (if enclaveType = EnclaveTypeFake then fakeValidator else nitroValidator)"

definition fake_ValidateAttestation :: "bytes \<Rightarrow> bool" where
  "fake_ValidateAttestation attestation \<longleftrightarrow> attestation = bytes_of FakeAttestationDocument"

text \<open>The shared counter of fake validations; \<open>None\<close> when it could not be registered.\<close>

definition recordFakeValidation :: "nat option \<Rightarrow> nat option" where
  "recordFakeValidation n = map_option Suc n"

definition ValidateAttestation ::
    "(bytes \<Rightarrow> bytes \<Rightarrow> bytes \<Rightarrow> bool) \<Rightarrow> validator \<Rightarrow> bytes \<Rightarrow> bytes \<Rightarrow> bytes \<Rightarrow> nat option \<Rightarrow> bool \<times> nat option" where
  "ValidateAttestation nitro v attestation userData measurements n = (case v of
     nitroValidator \<Rightarrow> (nitro attestation userData measurements, n)
   | fakeValidator \<Rightarrow> (fake_ValidateAttestation attestation, recordFakeValidation n))"

text \<open>The loop over one enclave's trusted values; \<open>errs\<close> counts the joined errors.\<close>

primrec trustedLoop ::
    "(bytes \<Rightarrow> bytes \<Rightarrow> bytes \<Rightarrow> bool) \<Rightarrow> validator \<Rightarrow> bytes \<Rightarrow> bytes \<Rightarrow> nat \<Rightarrow> nat option \<Rightarrow> bytes list
     \<Rightarrow> bool \<times> nat \<times> nat option" where
  "trustedLoop nitro v attestation userData errs n [] = (False, errs, n)"
| "trustedLoop nitro v attestation userData errs n (m # ms) =
     (case ValidateAttestation nitro v attestation userData m n of
        (True, n') \<Rightarrow> (True, errs, n')
      | (False, n') \<Rightarrow> trustedLoop nitro v attestation userData (Suc errs) n' ms)"

primrec validateLoop ::
    "(bytes \<Rightarrow> bytes \<Rightarrow> bytes \<Rightarrow> bool) \<Rightarrow> bytes \<Rightarrow> bytes \<Rightarrow> nat \<Rightarrow> nat option \<Rightarrow> Enclave list \<Rightarrow> bool \<times> nat \<times> nat option" where
  "validateLoop nitro attestation userData errs n [] = (False, errs, n)"
| "validateLoop nitro attestation userData errs n (e # es) =
     (case trustedLoop nitro (ForEnclaveType (en_EnclaveType e)) attestation userData errs n (en_TrustedValues e) of
        (True, r) \<Rightarrow> (True, r)
      | (False, errs', n') \<Rightarrow> validateLoop nitro attestation userData errs' n' es)"

definition validateAttestationAgainstEnclaves ::
    "(bytes \<Rightarrow> bytes \<Rightarrow> bytes \<Rightarrow> bool) \<Rightarrow> Enclave list \<Rightarrow> bytes \<Rightarrow> bytes \<Rightarrow> nat option \<Rightarrow> bool \<times> nat \<times> nat option" where
  "validateAttestationAgainstEnclaves nitro enclaves attestation userData n =
     validateLoop nitro attestation userData 0 n enclaves"

text \<open>
  The diagnostic text of a rejected attestation. \<open>sign1\<close> decodes the payload of
  the COSE document, \<open>payload\<close> the module id and the PCRs in it.
\<close>

definition DescribeMeasurements ::
    "(bytes \<Rightarrow> bytes option) \<Rightarrow> (bytes \<Rightarrow> (string \<times> (nat \<rightharpoonup> bytes)) option) \<Rightarrow> bytes \<Rightarrow> string" where
  "DescribeMeasurements sign1 payload attestation =
     (if attestation = [] then ''no attestation received''
      else case sign1 attestation of
          None \<Rightarrow> ''unparseable attestation (not a Nitro COSE document)''
        | Some p \<Rightarrow>
            if p = [] then ''unparseable attestation (not a Nitro COSE document)''
            else (case payload p of
                None \<Rightarrow> ''unparseable attestation payload''
              | Some (moduleID, pcrs) \<Rightarrow>
                  let pcr = (\<lambda>i. hexEncode (case pcrs i of None \<Rightarrow> [] | Some b \<Rightarrow> b))
                  in ''moduleID='' @ moduleID @ '' PCR0='' @ pcr 0 @ '' PCR1='' @ pcr 1 @ '' PCR2='' @ pcr 2))"

section \<open>The contract of a selector\<close>

text \<open>
  What a client may rely on, whatever the strategy: a selection is not empty
  and consists of eligible live enclaves of the list, an error means there is
  none, and liveness is tracked per enclave.
\<close>

locale enclave_selector =
  fixes select :: "'s \<Rightarrow> Enclave list \<Rightarrow> bytes \<Rightarrow> RequirementsChecker \<Rightarrow> selectError + Enclave list"
    and setLive :: "bytes \<Rightarrow> bool \<Rightarrow> 's \<Rightarrow> 's"
    and dead :: "'s \<Rightarrow> bytes \<Rightarrow> bool"
  assumes select_some: "select s es r c = Inr xs \<Longrightarrow>
      xs \<noteq> [] \<and> (\<forall>e\<in>set xs. e \<in> set es \<and> meets c e \<and> \<not> dead s (en_EnclaveID e))"
    and select_none: "select s es r c = Inl err \<Longrightarrow> \<forall>e\<in>set es. meets c e \<longrightarrow> dead s (en_EnclaveID e)"
    and dead_set: "dead (setLive i b s) j = (if j = i then \<not> b else dead s j)"
begin

lemma select_live: "\<lbrakk>select s es r c = Inr xs; e \<in> set xs\<rbrakk> \<Longrightarrow> e \<in> set es \<and> \<not> dead s (en_EnclaveID e)"
  using select_some by blast

lemma marked_dead_not_selected:
  "\<lbrakk>select (setLive i False s) es r c = Inr xs; e \<in> set xs\<rbrakk> \<Longrightarrow> en_EnclaveID e \<noteq> i"
  using select_some dead_set by fastforce

lemma select_total:
  "\<lbrakk>e \<in> set es; meets c e; \<not> dead s (en_EnclaveID e)\<rbrakk> \<Longrightarrow> \<exists>xs. select s es r c = Inr xs"
  using select_none by (cases "select s es r c") blast+

end

section \<open>The loop is a search in the rotated list\<close>

lemma selectLoop_find:
  "selectLoop s nodes b left off =
     find (\<lambda>e. \<not> isEnclaveDead s (en_EnclaveID e)) (map (\<lambda>i. nodes ! ((b + i) mod length nodes)) [off..<off + left])"
proof (induction left arbitrary: off)
  case (Suc left)
  have "[off..<off + Suc left] = off # [Suc off..<Suc off + left]" by (simp add: upt_rec)
  with Suc show ?case by (simp add: Let_def)
qed simp

lemma map_rotate: "map (\<lambda>i. nodes ! ((b + i) mod length nodes)) [0..<length nodes] = rotate b nodes"
  by (rule nth_equalityI) (simp_all add: nth_rotate)

definition liveIn :: "roundRobinEnclaveSelector \<Rightarrow> Enclave \<Rightarrow> bool" where
  "liveIn s e \<longleftrightarrow> \<not> isEnclaveDead s (en_EnclaveID e)"

lemma SelectEnclaves_find:
  "SelectEnclaves s es r c = (let nodes = filter (meets c) es in
     if nodes = [] then Inl NoNodesAvailable
     else case find (liveIn s) (rotate (be_decode r) nodes) of None \<Rightarrow> Inl NoLiveEnclaves | Some e \<Rightarrow> Inr [e])"
proof -
  have "rotate (be_decode r mod length xs) xs = rotate (be_decode r) xs" for xs :: "Enclave list"
    by (metis rotate_conv_mod)
  moreover have "liveIn s = (\<lambda>e. \<not> isEnclaveDead s (en_EnclaveID e))" by (simp add: liveIn_def fun_eq_iff)
  ultimately show ?thesis
    by (simp add: SelectEnclaves_def Let_def selectLoop_find map_rotate calcMod_def)
qed

lemma dead_SetEnclaveLiveness:
  "isEnclaveDead (SetEnclaveLiveness i b s) j = (if j = i then \<not> b else isEnclaveDead s j)"
  by (auto simp: isEnclaveDead_def SetEnclaveLiveness_def)

interpretation rr: enclave_selector SelectEnclaves SetEnclaveLiveness isEnclaveDead
proof
  fix s es r c xs
  assume "SelectEnclaves s es r c = Inr xs"
  then obtain e where xs: "xs = [e]" and e: "find (liveIn s) (rotate (be_decode r) (filter (meets c) es)) = Some e"
    by (auto simp: SelectEnclaves_find Let_def split: if_splits option.splits)
  from e have "e \<in> set (filter (meets c) es)" "liveIn s e"
    unfolding find_Some_iff by (metis nth_mem set_rotate, blast)
  then show "xs \<noteq> [] \<and> (\<forall>e\<in>set xs. e \<in> set es \<and> meets c e \<and> \<not> isEnclaveDead s (en_EnclaveID e))"
    by (simp add: xs liveIn_def)
next
  fix s es r c err
  assume "SelectEnclaves s es r c = Inl err"
  then show "\<forall>e\<in>set es. meets c e \<longrightarrow> isEnclaveDead s (en_EnclaveID e)"
    by (auto simp: SelectEnclaves_find Let_def find_None_iff liveIn_def filter_empty_conv split: if_splits option.splits)
qed (rule dead_SetEnclaveLiveness)

text \<open>Sample pool members, with enclave ids \<open>id32 b\<close> and one trusted measurement each.\<close>

definition sampleEnclave :: "byte \<Rightarrow> Enclave" where
  "sampleEnclave b = \<lparr>en_EnclaveID = id32 b, en_EnclaveURL = ''https://e'', en_TrustedValues = [[b]],
     en_EnclaveType = ''NITRO'', en_EnclaveAuthHeader = [], en_EnclaveExtraData = [], en_Region = ''eu''\<rparr>"

lemma sampleEnclave_simps [simp]:
  "en_EnclaveID (sampleEnclave b) = id32 b" "en_TrustedValues (sampleEnclave b) = [[b]]"
  "en_EnclaveType (sampleEnclave b) = ''NITRO''" "en_EnclaveAuthHeader (sampleEnclave b) = []"
  by (simp_all add: sampleEnclave_def)

lemma id32_eq_iff [simp]: "id32 a = id32 b \<longleftrightarrow> a = b"
  by (simp add: id32_def)

section \<open>Properties of the selector\<close>

lemma find_rotate_hd: "\<lbrakk>xs \<noteq> []; P (xs ! (b mod length xs))\<rbrakk> \<Longrightarrow> find P (rotate b xs) = Some (xs ! (b mod length xs))"
  by (metis find.simps(2) hd_Cons_tl hd_rotate_conv_nth rotate_is_Nil_conv)

lemma find_weaken:
  "\<lbrakk>find P xs = Some x; Q x; \<And>y. Q y \<Longrightarrow> P y\<rbrakk> \<Longrightarrow> find Q xs = Some x"
  by (induction xs) (auto split: if_splits)

lemma mset_shifted: "mset (map (\<lambda>i. xs ! ((k + i) mod length xs)) [0..<length xs]) = mset xs"
  unfolding map_rotate by (metis append_take_drop_id mset_append rotate_drop_take union_commute)

text \<open>The request ids from \<open>k\<close> on, as the 32 bytes of a number.\<close>

definition requestIDOf :: "nat \<Rightarrow> bytes" where
  "requestIDOf k = be_encode 32 k"

lemma be_decode_requestIDOf: "k < 2 ^ 256 \<Longrightarrow> be_decode (requestIDOf k) = k"
  by (simp add: requestIDOf_def be_decode_encode)

lemma select_all_live:
  assumes "es \<noteq> []" "\<forall>e\<in>set es. meets c e \<and> liveIn s e" "k < 2 ^ 256"
  shows "SelectEnclaves s es (requestIDOf k) c = Inr [es ! (k mod length es)]"
proof -
  have "filter (meets c) es = es" using assms(2) by simp
  moreover have "liveIn s (es ! (k mod length es))" using assms(1,2) by simp
  ultimately show ?thesis using assms(1)
    by (simp add: SelectEnclaves_find be_decode_requestIDOf [OF assms(3)] find_rotate_hd)
qed

text \<open>
  C35. Load is balanced: while every enclave is eligible and live, as many
  consecutive request ids as there are enclaves are sent to every enclave
  exactly once.
\<close>

theorem round_robin_fair:
  assumes "es \<noteq> []" "\<forall>e\<in>set es. meets c e \<and> \<not> isEnclaveDead s (en_EnclaveID e)" "k + length es \<le> 2 ^ 256"
  shows "\<exists>picks. map (\<lambda>i. SelectEnclaves s es (requestIDOf (k + i)) c) [0..<length es] = map (\<lambda>e. Inr [e]) picks \<and>
    mset picks = mset es"
proof (intro exI conjI)
  show "map (\<lambda>i. SelectEnclaves s es (requestIDOf (k + i)) c) [0..<length es] =
      map (\<lambda>e. Inr [e]) (map (\<lambda>i. es ! ((k + i) mod length es)) [0..<length es])"
    using assms by (auto simp: liveIn_def intro!: select_all_live)
qed (rule mset_shifted)

theorem round_robin_fair_witness:
  "\<exists>picks. map (\<lambda>i. SelectEnclaves NewRoundRobinEnclaveSelector (map sampleEnclave [1, 2, 3]) (requestIDOf (7 + i)) None)
     [0, 1, 2] = map (\<lambda>e. Inr [e]) picks \<and> mset picks = mset (map sampleEnclave [1, 2, 3])"
  using round_robin_fair [of "map sampleEnclave [1, 2, 3]" None NewRoundRobinEnclaveSelector 7]
  by (simp add: meets_def isEnclaveDead_def NewRoundRobinEnclaveSelector_def)

text \<open>
  Losing an enclave moves only its own requests: a request that was sent to
  another enclave before one is marked dead is sent to the same one afterwards,
  and once the enclave is marked live again every request is sent where it was.
\<close>

theorem liveness_minimal_disruption:
  assumes "SelectEnclaves s es r c = Inr [e]"
  shows "(en_EnclaveID e \<noteq> i \<longrightarrow> SelectEnclaves (SetEnclaveLiveness i False s) es r c = Inr [e]) \<and>
    SelectEnclaves (SetEnclaveLiveness (en_EnclaveID e) True (SetEnclaveLiveness (en_EnclaveID e) False s)) es r c = Inr [e]"
proof -
  from assms have nodes: "filter (meets c) es \<noteq> []"
    and e: "find (liveIn s) (rotate (be_decode r) (filter (meets c) es)) = Some e"
    by (auto simp: SelectEnclaves_find Let_def split: if_splits option.splits)
  then have live: "liveIn s e" by (auto simp: find_Some_iff)
  have "SelectEnclaves (SetEnclaveLiveness i False s) es r c = Inr [e]" if "en_EnclaveID e \<noteq> i"
  proof -
    have "find (liveIn (SetEnclaveLiveness i False s)) (rotate (be_decode r) (filter (meets c) es)) = Some e"
      using live that by (intro find_weaken [OF e]) (auto simp: liveIn_def dead_SetEnclaveLiveness split: if_splits)
    then show ?thesis using nodes by (simp add: SelectEnclaves_find)
  qed
  moreover have "liveIn (SetEnclaveLiveness (en_EnclaveID e) True (SetEnclaveLiveness (en_EnclaveID e) False s)) = liveIn s"
    using live by (auto simp: liveIn_def dead_SetEnclaveLiveness fun_eq_iff)
  ultimately show ?thesis using nodes e by (simp add: SelectEnclaves_find)
qed

theorem liveness_minimal_disruption_witness:
  "\<exists>s es e r. SelectEnclaves s es r None = Inr [e] \<and> id32 2 \<noteq> en_EnclaveID e \<and> sampleEnclave 2 \<in> set es \<and>
     SelectEnclaves (SetEnclaveLiveness (id32 2) False s) es r None = Inr [e]"
proof -
  let ?es = "map sampleEnclave [1, 2, 3]"
  have "SelectEnclaves NewRoundRobinEnclaveSelector ?es (requestIDOf 3) None = Inr [sampleEnclave 1]"
    using select_all_live [of ?es None NewRoundRobinEnclaveSelector 3]
    by (simp add: meets_def liveIn_def isEnclaveDead_def NewRoundRobinEnclaveSelector_def)
  moreover from liveness_minimal_disruption [OF this, of "id32 2"]
  have "SelectEnclaves (SetEnclaveLiveness (id32 2) False NewRoundRobinEnclaveSelector) ?es (requestIDOf 3) None =
      Inr [sampleEnclave 1]" by simp
  ultimately show ?thesis
    by (intro exI [of _ NewRoundRobinEnclaveSelector] exI [of _ ?es] exI [of _ "sampleEnclave 1"] exI [of _ "requestIDOf 3"]) simp
qed

section \<open>Acceptance of an attestation\<close>

text \<open>One of the enclave's trusted values accepts the attestation over the user data.\<close>

definition attests :: "(bytes \<Rightarrow> bytes \<Rightarrow> bytes \<Rightarrow> bool) \<Rightarrow> Enclave \<Rightarrow> bytes \<Rightarrow> bytes \<Rightarrow> bool" where
  "attests nitro e userData attestation \<longleftrightarrow>
     (if en_EnclaveType e = EnclaveTypeFake
      then en_TrustedValues e \<noteq> [] \<and> attestation = bytes_of FakeAttestationDocument
      else \<exists>m\<in>set (en_TrustedValues e). nitro attestation userData m)"

lemma trustedLoop_iff:
  "fst (trustedLoop nitro v att ud errs n ms) \<longleftrightarrow> (\<exists>m\<in>set ms. fst (ValidateAttestation nitro v att ud m None))"
  by (induction ms arbitrary: errs n) (auto simp: ValidateAttestation_def split: validator.splits bool.splits)

lemma validate_single:
  "fst (validateAttestationAgainstEnclaves nitro [e] att ud n) \<longleftrightarrow> attests nitro e ud att"
proof -
  have "fst (validateAttestationAgainstEnclaves nitro [e] att ud n) \<longleftrightarrow>
      (\<exists>m\<in>set (en_TrustedValues e). fst (ValidateAttestation nitro (ForEnclaveType (en_EnclaveType e)) att ud m None))"
    unfolding validateAttestationAgainstEnclaves_def
    by (auto simp: trustedLoop_iff [symmetric, where errs = 0 and n = n] split: prod.splits bool.splits)
  then show ?thesis
    by (auto simp: attests_def ValidateAttestation_def ForEnclaveType_def fake_ValidateAttestation_def ex_in_conv)
qed

text \<open>The fake validator counts each of its uses, the Nitro validator none.\<close>

lemma trustedLoop_count:
  "trustedLoop nitro v att ud errs (Some n) ms = (ok, errs', n') \<Longrightarrow>
     n' = Some (case v of nitroValidator \<Rightarrow> n | fakeValidator \<Rightarrow> n + (errs' - errs) + (if ok then 1 else 0)) \<and> errs \<le> errs'"
  by (induction ms arbitrary: errs n)
    (fastforce simp: ValidateAttestation_def recordFakeValidation_def split: validator.splits bool.splits if_splits)+

end
