(* ===== verification/CC_Pool.thy ===== *)
theory CC_Pool
  imports Complex_Main CC_Selector CC_Host
begin

text \<open>
  The enclave pool of the capability nodes: \<^verbatim>\<open>src/enclave-client/pool.go\<close>. The
  pool keeps the list of enclaves, a cache of their attested public keys and
  the session headers of their load balancers. Each method is a function from
  the pool to its result and the new pool, with every early return of the code;
  the goroutines one call starts are run in list order, and each touches only
  entries of its own enclave. What the network answers to a call is an
  argument, as are JSON, Nitro's validation and the floating-point products
  \<^verbatim>\<open>time.Duration(float64(d) * percent)\<close>. The lemmas show what a caller may
  conclude from a result, that a cached key was attested by an enclave of the
  current list, and how long it is kept.
\<close>

section \<open>Configuration\<close>

record CacheConfig =
  cc_MaxTTL :: duration
  cc_DefaultTTL :: duration
  cc_CleanupInterval :: duration
  cc_EnableCache :: bool
  cc_TTLBufferPercent :: rat
  cc_EnableProactiveRefresh :: bool
  cc_RefreshIntervalPercent :: rat
  cc_MinRefreshInterval :: duration
  cc_RefreshTimeout :: duration

record SessionConfig =
  se_EnableSessionPersistence :: bool
  se_SessionHeaderName :: string

definition DefaultPublicKeyCacheTTL :: duration where
  [cc_const]: "DefaultPublicKeyCacheTTL = 5 * minute"

definition DefaultMinRefreshInterval :: duration where
  [cc_const]: "DefaultMinRefreshInterval = 10 * second"

definition DefaultPublicKeyRequestTimeout :: duration where
  [cc_const]: "DefaultPublicKeyRequestTimeout = 5 * second"

definition StickySessionHeader :: string where
  [cc_const]: "StickySessionHeader = ''Sticky-Session-A''"

definition RoutingHeader :: string where
  [cc_const]: "RoutingHeader = ''X-CC-Request-ID''"

definition PublicKeyPath :: string where
  [cc_const]: "PublicKeyPath = ''/publicKeys''"

definition ExecutePath :: string where
  [cc_const]: "ExecutePath = ''/requests''"

definition SetConfigPath :: string where
  [cc_const]: "SetConfigPath = ''/config''"

definition DefaultCacheConfig :: CacheConfig where
  "DefaultCacheConfig = \<lparr>cc_MaxTTL = 30 * minute, cc_DefaultTTL = DefaultPublicKeyCacheTTL,
     cc_CleanupInterval = 10 * minute, cc_EnableCache = True, cc_TTLBufferPercent = 1 / 10,
     cc_EnableProactiveRefresh = True, cc_RefreshIntervalPercent = 0,
     cc_MinRefreshInterval = DefaultMinRefreshInterval, cc_RefreshTimeout = DefaultPublicKeyRequestTimeout\<rparr>"

definition DefaultSessionConfig :: SessionConfig where
  "DefaultSessionConfig = \<lparr>se_EnableSessionPersistence = True, se_SessionHeaderName = StickySessionHeader\<rparr>"

text \<open>
  The resolver answers with a timeout for public-key calls (\<open>True\<close>) or others,
  \<open>None\<close> being an error. A metrics emitter is present or nil.
\<close>

record PoolConfig =
  pc_Cache :: CacheConfig
  pc_Session :: SessionConfig
  pc_Metrics :: bool
  pc_RequestTimeoutResolverFn :: "(bool \<Rightarrow> duration option) option"
  pc_PublicKeyRetriesMax :: int
  pc_PublicKeyRetriesBackoff :: duration

section \<open>State\<close>

record EnclavePublicKeyData =
  ep_Response :: PublicKeyResponse
  ep_EnclaveID :: bytes

record cachedPublicKeyData =
  cp_Data :: EnclavePublicKeyData
  cp_OriginalTTLs :: "duration list"
  cp_CachedAt :: time

text \<open>A session is the headers to replay, in the order they were first set.\<close>

type_synonym SessionData = "(string \<times> string list) list"

text \<open>
  The pool. \<open>po_refreshStopCh\<close> is whether the channel is open, \<open>po_cancelled\<close> whether
  the refresh context is cancelled, \<open>po_refreshWg\<close> the number of refresh goroutines
  still running, \<open>po_loopRunning\<close> whether the ticking one is among them, \<open>po_metrics\<close> what the emitter has received (\<open>None\<close> for nil),
  \<open>po_fakeValidations\<close> the shared counter of the fake validator.
\<close>

record enclavePool =
  po_nodes :: "Enclave list"
  po_enclaveSelector :: roundRobinEnclaveSelector
  po_publicKeyCache :: "(bytes, cachedPublicKeyData) Cache option"
  po_cacheConfig :: CacheConfig
  po_refreshStopCh :: bool
  po_cancelled :: bool
  po_refreshWg :: nat
  po_loopRunning :: bool
  po_lastRefresh :: "bytes \<rightharpoonup> time"
  po_sessionConfig :: SessionConfig
  po_sessionStore :: "string \<rightharpoonup> SessionData"
  po_metrics :: "emitted option"
  po_requestTimeoutResolverFn :: "bool \<Rightarrow> duration option"
  po_publicKeyRetriesMax :: int
  po_publicKeyRetriesBackoff :: duration
  po_fakeValidations :: "nat option"

section \<open>Environment\<close>

text \<open>The body of an error response: its message, its ordered events, and the legacy map of them.\<close>

record errorBody =
  eb_Error :: string
  eb_MetricEvents :: emitted
  eb_Metrics :: "(string \<times> eventDetails option) list"

text \<open>An execution response with the telemetry it carries outside the attestation.\<close>

record executeReply =
  xr_Response :: ExecuteResponse
  xr_MetricEvents :: emitted
  xr_Metrics :: "(string \<times> eventDetails option) list option"

record PoolEnv =
  pe_H :: "bytes \<Rightarrow> bytes"
  pe_nitro :: "bytes \<Rightarrow> bytes \<Rightarrow> bytes \<Rightarrow> bool"
  pe_scale :: "duration \<Rightarrow> rat \<Rightarrow> duration"
  pe_URLOk :: "string \<Rightarrow> bool"
  pe_MarshalRequest :: "SignedComputeRequest \<Rightarrow> bytes"
  pe_MarshalUpdate :: "bytes \<times> bytes \<Rightarrow> bytes"
  pe_ParsePublicKeys :: "bytes \<Rightarrow> PublicKeyResponse option"
  pe_ParseExecute :: "bytes \<Rightarrow> executeReply option"
  pe_ParseError :: "bytes \<Rightarrow> errorBody option"
  pe_ParseUpdate :: "bytes \<Rightarrow> UpdateConfigResponse option"

record httpCall =
  hc_Method :: Method
  hc_URL :: string
  hc_Headers :: Header
  hc_Body :: bytes

text \<open>
  A call ends in a transport error (with whether the caller's context ends
  during the backoff that follows) or in a reply, whose body may fail to read.
\<close>

datatype httpResult =
    TransportError bool
  | HttpReply nat "bytes option" Header

text \<open>The network's answer to the \<open>n\<close>th attempt of a call.\<close>

type_synonym network = "nat \<Rightarrow> httpCall \<Rightarrow> httpResult"

datatype poolError =
    NoTimeoutResolver
  | TimeoutUnresolved
  | SelectionFailed selectError
  | BadURL
  | MalformedAuthHeader bytes
  | TransportFailed nat
  | FetchCancelled nat
  | ReadFailed
  | BodyTooLarge
  | RequestFailed bytes bytes
  | Unparseable
  | UnconfiguredKeys bytes
  | AttestationRejected bytes nat
  | EnclaveNotFound bytes
  | ExecuteFailed string
  | HashMismatch bytes
  | ApplicationIDMismatch bytes
  | NoEnclaves
  | FetchFailedFor bytes poolError
  | JoinedErrors "poolError list"

datatype 'a outcome = Ok 'a | Err poolError | Panic

section \<open>Metrics and attestation\<close>

definition emit :: "string \<Rightarrow> eventDetails \<Rightarrow> enclavePool \<Rightarrow> enclavePool" where
  "emit event details p = p\<lparr>po_metrics := map_option (\<lambda>es. es @ [(event, details)]) (po_metrics p)\<rparr>"

text \<open>\<^verbatim>\<open>scopedEmitter.Emit\<close>: the details override the defaults.\<close>

definition scopedEmit :: "eventDetails \<Rightarrow> string \<Rightarrow> eventDetails \<Rightarrow> enclavePool \<Rightarrow> enclavePool" where
  "scopedEmit defaults event details p = emit event (defaults ++ details) p"

definition validateAttestation ::
    "PoolEnv \<Rightarrow> Enclave \<Rightarrow> bytes \<Rightarrow> bytes \<Rightarrow> enclavePool \<Rightarrow> poolError option \<times> enclavePool" where
  "validateAttestation env enclave userData attestation p =
     (case validateAttestationAgainstEnclaves (pe_nitro env) [enclave] attestation userData (po_fakeValidations p) of
        (validated, errs, n) \<Rightarrow>
          (if validated then None else Some (AttestationRejected (en_EnclaveID enclave) errs),
           p\<lparr>po_fakeValidations := n\<rparr>))"

definition emitValidationFailed :: "Enclave \<Rightarrow> string \<Rightarrow> enclavePool \<Rightarrow> enclavePool" where
  "emitValidationFailed enclave endpoint p = emit ''attestation_validation_failed''
     [''enclave.id'' \<mapsto> AStr (EncodeToString (en_EnclaveID enclave)), ''endpoint'' \<mapsto> AStr endpoint, ''error'' \<mapsto> AErr] p"

section \<open>The public-key cache\<close>

definition getCachedPublicKey :: "time \<Rightarrow> bytes \<Rightarrow> enclavePool \<Rightarrow> EnclavePublicKeyData option" where
  "getCachedPublicKey now enclaveID p =
     (if \<not> cc_EnableCache (po_cacheConfig p) then None
      else case po_publicKeyCache p of
          None \<Rightarrow> None
        | Some c \<Rightarrow> map_option cp_Data (Cache_Get now enclaveID c))"

primrec minTTLLoop :: "duration \<Rightarrow> duration list \<Rightarrow> duration" where
  "minTTLLoop minTTL [] = minTTL"
| "minTTLLoop minTTL (ttl # ttls) = minTTLLoop (if ttl < minTTL then ttl else minTTL) ttls"

definition calculateEffectiveTTL :: "PoolEnv \<Rightarrow> CacheConfig \<Rightarrow> duration list \<Rightarrow> duration" where
  "calculateEffectiveTTL env cfg enclaveTTLs =
     (let minTTL = (case enclaveTTLs of
            t # ts \<Rightarrow> (let m = minTTLLoop t ts in if m > cc_MaxTTL cfg then cc_MaxTTL cfg else m)
          | [] \<Rightarrow> cc_DefaultTTL cfg);
          bufferTime = pe_scale env minTTL (cc_TTLBufferPercent cfg)
      in minTTL - (if bufferTime < second then second else bufferTime))"

definition setCachedPublicKey :: "PoolEnv \<Rightarrow> time \<Rightarrow> bytes \<Rightarrow> EnclavePublicKeyData \<Rightarrow> enclavePool \<Rightarrow> enclavePool" where
  "setCachedPublicKey env now enclaveID d p =
     (if \<not> cc_EnableCache (po_cacheConfig p) then p
      else case po_publicKeyCache p of
          None \<Rightarrow> p
        | Some c \<Rightarrow>
            let ttls = pk_TTLs (ep_Response d); effectiveTTL = calculateEffectiveTTL env (po_cacheConfig p) ttls
            in if effectiveTTL \<le> 0 then p
               else p\<lparr>po_publicKeyCache := Some (Cache_Set now enclaveID
                       \<lparr>cp_Data = d, cp_OriginalTTLs = ttls, cp_CachedAt = now\<rparr> (Some effectiveTTL) c)\<rparr>)"

section \<open>Sessions\<close>

text \<open>\<^verbatim>\<open>Headers.Set(name, value)\<close> on a session.\<close>

fun sessionSet :: "string \<Rightarrow> string \<Rightarrow> SessionData \<Rightarrow> SessionData" where
  "sessionSet k v [] = [(k, [v])]"
| "sessionSet k v ((k', vs) # hs) = (if k' = k then (k, [v]) # hs else (k', vs) # sessionSet k v hs)"

primrec sessionLoop ::
    "string \<Rightarrow> string \<Rightarrow> bytes list \<Rightarrow> (string \<rightharpoonup> SessionData) \<Rightarrow> (string \<rightharpoonup> SessionData)" where
  "sessionLoop name headerValue [] store = store"
| "sessionLoop name headerValue (key # keys) store =
     (if key = [] then sessionLoop name headerValue keys store
      else let currentSession = (case store (EncodeToString key) of None \<Rightarrow> [] | Some sd \<Rightarrow> sd)
        in sessionLoop name headerValue keys
             (store(EncodeToString key \<mapsto> sessionSet (canonicalKey name) headerValue currentSession)))"

definition updateSession :: "bytes list \<Rightarrow> Header \<Rightarrow> enclavePool \<Rightarrow> enclavePool" where
  "updateSession keys respHeader p =
     (let cfg = po_sessionConfig p in
      if \<not> se_EnableSessionPersistence cfg then p
      else let headerValue = (if se_SessionHeaderName cfg \<noteq> [] then Header_Get (se_SessionHeaderName cfg) respHeader else [])
        in if headerValue = [] then p
           else p\<lparr>po_sessionStore := sessionLoop (se_SessionHeaderName cfg) headerValue keys (po_sessionStore p)\<rparr>)"

definition applySession :: "bytes \<Rightarrow> enclavePool \<Rightarrow> Header \<Rightarrow> Header \<times> bool" where
  "applySession key p h =
     (if \<not> se_EnableSessionPersistence (po_sessionConfig p) then (h, False)
      else case po_sessionStore p (EncodeToString key) of
          None \<Rightarrow> (h, False)
        | Some session \<Rightarrow> (fold (\<lambda>(k, vs). fold (Header_Add k) vs) session h, True))"

section \<open>Fetching one enclave's public keys\<close>

definition zeroRequestID :: bytes where
  "zeroRequestID = replicate 32 0"

text \<open>The read of a response body through \<^verbatim>\<open>io.LimitReader\<close>.\<close>

definition readBody :: "bytes option \<Rightarrow> poolError + bytes" where
  "readBody body = (case body of
     None \<Rightarrow> Inl ReadFailed
   | Some b \<Rightarrow> let respBody = take (MaxEnclaveResponseBodyBytes + 1) b in
       if length respBody > MaxEnclaveResponseBodyBytes then Inl BodyTooLarge else Inr respBody)"

definition publicKeyCall :: "PoolEnv \<Rightarrow> Enclave \<Rightarrow> bytes \<Rightarrow> poolError + httpCall" where
  "publicKeyCall env enclave requestID =
     (let url = en_EnclaveURL enclave @ PublicKeyPath @ ''?'' @
            (if requestID \<noteq> zeroRequestID then ''requestID='' @ hexEncode requestID else [])
      in if \<not> pe_URLOk env url then Inl BadURL
         else case SetAuthHeader enclave Map.empty of
             None \<Rightarrow> Inl (MalformedAuthHeader (en_EnclaveID enclave))
           | Some h \<Rightarrow> Inr \<lparr>hc_Method = GET, hc_URL = url,
               hc_Headers = (if requestID \<noteq> zeroRequestID then Header_Set RoutingHeader (hexEncode requestID) h else h),
               hc_Body = []\<rparr>)"

text \<open>
  The retry loop, with \<open>left\<close> attempts to go and \<open>errs\<close> errors so far. It ends
  without a response and without an error when no attempt was allowed.
\<close>

datatype fetchResult =
    FReply nat "bytes option" Header
  | FErrors nat
  | FCancelled nat
  | FNil

primrec fetchLoop :: "network \<Rightarrow> httpCall \<Rightarrow> nat \<Rightarrow> nat \<Rightarrow> nat \<Rightarrow> fetchResult" where
  "fetchLoop net call 0 attempt errs = (if errs = 0 then FNil else FErrors errs)"
| "fetchLoop net call (Suc left) attempt errs = (case net attempt call of
     HttpReply status body h \<Rightarrow> FReply status body h
   | TransportError cancelled \<Rightarrow>
       if left > 0 \<and> cancelled then FCancelled (Suc errs)
       else fetchLoop net call left (Suc attempt) (Suc errs))"

definition acceptPublicKeys ::
    "PoolEnv \<Rightarrow> Enclave \<Rightarrow> nat \<Rightarrow> bytes option \<Rightarrow> Header \<Rightarrow> enclavePool \<Rightarrow> EnclavePublicKeyData outcome \<times> enclavePool" where
  "acceptPublicKeys env enclave status body respHeader p = (case readBody body of
     Inl e \<Rightarrow> (Err e, p)
   | Inr respBody \<Rightarrow>
       if status \<noteq> 200 then (Err (RequestFailed (en_EnclaveID enclave) respBody), p)
       else (case pe_ParsePublicKeys env respBody of
           None \<Rightarrow> (Err Unparseable, p)
         | Some out \<Rightarrow>
             if EnclaveConfig_IsZero (Some (pk_Config out)) then (Err (UnconfiguredKeys (en_EnclaveID enclave)), p)
             else (case validateAttestation env enclave (PublicKeyHash (pe_H env) out) (pk_Attestation out) p of
                 (Some e, p') \<Rightarrow> (Err e, emitValidationFailed enclave ''publicKeys'' p')
               | (None, p') \<Rightarrow> (Ok \<lparr>ep_Response = out, ep_EnclaveID = en_EnclaveID enclave\<rparr>,
                                 updateSession (pk_PublicKeys out) respHeader p'))))"

definition getSingleEnclavePublicKey ::
    "PoolEnv \<Rightarrow> network \<Rightarrow> Enclave \<Rightarrow> bytes \<Rightarrow> enclavePool \<Rightarrow> EnclavePublicKeyData outcome \<times> enclavePool" where
  "getSingleEnclavePublicKey env net enclave requestID p = (case publicKeyCall env enclave requestID of
     Inl e \<Rightarrow> (Err e, p)
   | Inr call \<Rightarrow> (case po_requestTimeoutResolverFn p True of
       None \<Rightarrow> (Err TimeoutUnresolved, p)
     | Some reqTimeout \<Rightarrow> (case fetchLoop net call (nat (po_publicKeyRetriesMax p + 1)) 0 0 of
         FNil \<Rightarrow> (Panic, p)
       | FErrors n \<Rightarrow> (Err (TransportFailed n), p)
       | FCancelled n \<Rightarrow> (Err (FetchCancelled n), p)
       | FReply status body h \<Rightarrow> acceptPublicKeys env enclave status body h p)))"

section \<open>GetPublicKeys, GetConfigs, UpdateConfig\<close>

text \<open>One goroutine of \<open>GetPublicKeys\<close>: network first, then the cache.\<close>

definition fetchOrCached ::
    "PoolEnv \<Rightarrow> network \<Rightarrow> time \<Rightarrow> bytes \<Rightarrow> Enclave \<Rightarrow> enclavePool \<Rightarrow> EnclavePublicKeyData outcome \<times> enclavePool" where
  "fetchOrCached env net now requestID enclave p =
     (case getSingleEnclavePublicKey env net enclave requestID p of
        (Panic, p') \<Rightarrow> (Panic, p')
      | (Err e, p') \<Rightarrow> (case getCachedPublicKey now (en_EnclaveID enclave) p' of
          Some cached \<Rightarrow> (Ok cached, p')
        | None \<Rightarrow> (Err e, p'))
      | (Ok d, p') \<Rightarrow> (Ok d, setCachedPublicKey env now (en_EnclaveID enclave) d p'))"

text \<open>An error group: run all, collect the results; the first error, if any, is the answer.\<close>

primrec runGroup ::
    "('x \<Rightarrow> enclavePool \<Rightarrow> 'a outcome \<times> enclavePool) \<Rightarrow> 'x list \<Rightarrow> enclavePool \<Rightarrow> 'a list outcome \<times> enclavePool" where
  "runGroup f [] p = (Ok [], p)"
| "runGroup f (x # xs) p = (case f x p of (r, p1) \<Rightarrow> (case runGroup f xs p1 of (rs, p2) \<Rightarrow>
     (case r of
        Panic \<Rightarrow> (Panic, p2)
      | Err e \<Rightarrow> (case rs of Panic \<Rightarrow> (Panic, p2) | _ \<Rightarrow> (Err e, p2))
      | Ok a \<Rightarrow> (case rs of Panic \<Rightarrow> (Panic, p2) | Err e \<Rightarrow> (Err e, p2) | Ok as \<Rightarrow> (Ok (a # as), p2)))))"

definition GetPublicKeys ::
    "PoolEnv \<Rightarrow> network \<Rightarrow> time \<Rightarrow> bytes \<Rightarrow> RequirementsChecker \<Rightarrow> enclavePool
     \<Rightarrow> EnclavePublicKeyData list outcome \<times> enclavePool" where
  "GetPublicKeys env net now requestID checkRequirements p =
     (case SelectEnclaves (po_enclaveSelector p) (po_nodes p) requestID checkRequirements of
        Inl e \<Rightarrow> (Err (SelectionFailed e), p)
      | Inr enclaves \<Rightarrow> runGroup (fetchOrCached env net now requestID) enclaves p)"

text \<open>A plain group: run all, join the errors.\<close>

primrec runJoined ::
    "('x \<Rightarrow> enclavePool \<Rightarrow> 'a outcome \<times> enclavePool) \<Rightarrow> 'x list \<Rightarrow> enclavePool
     \<Rightarrow> ('a list \<times> poolError list) option \<times> enclavePool" where
  "runJoined f [] p = (Some ([], []), p)"
| "runJoined f (x # xs) p = (case f x p of (r, p1) \<Rightarrow> (case runJoined f xs p1 of (rs, p2) \<Rightarrow>
     ((case rs of
         None \<Rightarrow> None
       | Some (as, es) \<Rightarrow> (case r of Panic \<Rightarrow> None | Err e \<Rightarrow> Some (as, e # es) | Ok a \<Rightarrow> Some (a # as, es))), p2)))"

definition GetConfigs :: "PoolEnv \<Rightarrow> network \<Rightarrow> enclavePool \<Rightarrow> EnclaveConfig list outcome \<times> enclavePool" where
  "GetConfigs env net p =
     (if po_nodes p = [] then (Err NoEnclaves, p)
      else case runJoined (\<lambda>e. getSingleEnclavePublicKey env net e zeroRequestID) (po_nodes p) p of
          (None, p') \<Rightarrow> (Panic, p')
        | (Some (pks, errs), p') \<Rightarrow>
            if errs \<noteq> [] then (Err (JoinedErrors errs), p')
            else (Ok (map (\<lambda>pk. pk_Config (ep_Response pk)) pks), p'))"

definition updateSingleEnclaveConfig ::
    "PoolEnv \<Rightarrow> network \<Rightarrow> bytes \<Rightarrow> Enclave \<Rightarrow> enclavePool \<Rightarrow> unit outcome \<times> enclavePool" where
  "updateSingleEnclaveConfig env net body enclave p =
     (let endpoint = en_EnclaveURL enclave @ SetConfigPath in
      if \<not> pe_URLOk env endpoint then (Err BadURL, p)
      else case SetAuthHeader enclave (Header_Set ''Content-Type'' ''application/json'' Map.empty) of
          None \<Rightarrow> (Err (MalformedAuthHeader (en_EnclaveID enclave)), p)
        | Some h \<Rightarrow> (case net 0 \<lparr>hc_Method = PATCH, hc_URL = endpoint, hc_Headers = h, hc_Body = body\<rparr> of
            TransportError _ \<Rightarrow> (Err (TransportFailed 1), p)
          | HttpReply status rbody _ \<Rightarrow> (case readBody rbody of
              Inl e \<Rightarrow> (Err e, p)
            | Inr respBody \<Rightarrow>
                if status = 202 then (Ok (), p)
                else if status \<noteq> 200 then (Err (RequestFailed (en_EnclaveID enclave) respBody), p)
                else (case pe_ParseUpdate env respBody of
                    None \<Rightarrow> (Err Unparseable, p)
                  | Some out \<Rightarrow>
                      if \<not> uc_Applied out then (Ok (), p)
                      else (case validateAttestation env enclave
                                (SetConfigResponse_UserDataHash (pe_H env) \<lparr>sc_Config = uc_Config out, sc_Attestation = []\<rparr>)
                                (uc_Attestation out) p of
                          (Some e, p') \<Rightarrow> (Err e, p')
                        | (None, p') \<Rightarrow> (Ok (), p'))))))"

definition UpdateConfig ::
    "PoolEnv \<Rightarrow> network \<Rightarrow> bytes \<times> bytes \<Rightarrow> enclavePool \<Rightarrow> unit outcome \<times> enclavePool" where
  "UpdateConfig env net update p = (case po_requestTimeoutResolverFn p False of
     None \<Rightarrow> (Err TimeoutUnresolved, p)
   | Some _ \<Rightarrow>
       if po_nodes p = [] then (Err NoEnclaves, p)
       else (case runJoined (updateSingleEnclaveConfig env net (pe_MarshalUpdate env update)) (po_nodes p) p of
           (None, p') \<Rightarrow> (Panic, p')
         | (Some (_, errs), p') \<Rightarrow> (if errs = [] then Ok () else Err (JoinedErrors errs), p')))"

section \<open>ExecuteBatch\<close>

text \<open>The events of an error response, tagged as the enclave's: the ordered list if there is one, else the map.\<close>

definition forwardErrorMetrics :: "errorBody \<Rightarrow> enclavePool \<Rightarrow> enclavePool" where
  "forwardErrorMetrics errResp p =
     (let fwd = scopedEmit [''component'' \<mapsto> AStr ''enclave''] in
      if eb_MetricEvents errResp \<noteq> [] then fold (\<lambda>(ev, d). fwd ev d) (eb_MetricEvents errResp) p
      else fold (\<lambda>(ev, od) q. case od of None \<Rightarrow> q | Some d \<Rightarrow> fwd ev d q) (eb_Metrics errResp) p)"

text \<open>A response that is not OK. Without an emitter the body itself is the message.\<close>

definition executeRejected :: "PoolEnv \<Rightarrow> bytes \<Rightarrow> enclavePool \<Rightarrow> poolError \<times> enclavePool" where
  "executeRejected env respBody p =
     (let raw = ExecuteFailed (string_of respBody) in
      case po_metrics p of
        None \<Rightarrow> (raw, p)
      | Some _ \<Rightarrow> (case pe_ParseError env respBody of
          None \<Rightarrow> (raw, p)
        | Some errResp \<Rightarrow>
            (if eb_Error errResp \<noteq> [] then ExecuteFailed (eb_Error errResp) else raw,
             forwardErrorMetrics errResp p)))"

definition executeCall :: "PoolEnv \<Rightarrow> Enclave \<Rightarrow> SignedComputeRequest \<Rightarrow> enclavePool \<Rightarrow> poolError + httpCall" where
  "executeCall env enclave req p =
     (let endpoint = en_EnclaveURL enclave @ ExecutePath; cr = scr_ComputeRequest req in
      if \<not> pe_URLOk env endpoint then Inl BadURL
      else case SetAuthHeader enclave (Header_Set ''Content-Type'' ''application/json'' Map.empty) of
          None \<Rightarrow> Inl (MalformedAuthHeader (en_EnclaveID enclave))
        | Some h \<Rightarrow> Inr \<lparr>hc_Method = POST, hc_URL = endpoint,
            hc_Headers = fst (applySession (cr_EnclaveEphemeralPublicKey cr) p
              (Header_Set RoutingHeader (hexEncode (cr_RequestID cr)) h)),
            hc_Body = pe_MarshalRequest env req\<rparr>)"

definition acceptExecute ::
    "PoolEnv \<Rightarrow> Enclave \<Rightarrow> ComputeRequest \<Rightarrow> executeReply \<Rightarrow> enclavePool \<Rightarrow> executeReply outcome \<times> enclavePool" where
  "acceptExecute env enclave cr reply p =
     (let out = xr_Response reply in
      case validateAttestation env enclave (ExecuteResponse_UserDataHash (pe_H env) (cr_Version cr) out) (er_Attestation out) p of
        (Some e, p') \<Rightarrow> (Err e, emitValidationFailed enclave ''execute'' p')
      | (None, p') \<Rightarrow>
          if er_RequestHash out \<noteq> ComputeRequest_Hash (pe_H env) cr then (Err (HashMismatch (en_EnclaveID enclave)), p')
          else if cr_Version cr \<noteq> ServiceConfidentialComputeVersionLegacy \<and>
            er_ApplicationRequestID out \<noteq> cr_ApplicationRequestID cr
          then (Err (ApplicationIDMismatch (en_EnclaveID enclave)), p')
          else (Ok reply, p'))"

definition executeOne ::
    "PoolEnv \<Rightarrow> network \<Rightarrow> Enclave \<times> SignedComputeRequest \<Rightarrow> enclavePool \<Rightarrow> executeReply outcome \<times> enclavePool" where
  "executeOne env net er p = (case er of (enclave, req) \<Rightarrow> (case executeCall env enclave req p of
     Inl e \<Rightarrow> (Err e, p)
   | Inr call \<Rightarrow> (case net 0 call of
       TransportError _ \<Rightarrow> (Err (TransportFailed 1), p)
     | HttpReply status body _ \<Rightarrow> (case readBody body of
         Inl e \<Rightarrow> (Err e, p)
       | Inr respBody \<Rightarrow>
           if status \<noteq> 200 then (case executeRejected env respBody p of (e, p') \<Rightarrow> (Err e, p'))
           else (case pe_ParseExecute env respBody of
               None \<Rightarrow> (Err Unparseable, p)
             | Some reply \<Rightarrow> acceptExecute env enclave (scr_ComputeRequest req) reply p)))))"

primrec lookupEnclaves :: "Enclave list \<Rightarrow> bytes list \<Rightarrow> poolError + Enclave list" where
  "lookupEnclaves nodes [] = Inr []"
| "lookupEnclaves nodes (eid # eIDs) = (case find (\<lambda>n. en_EnclaveID n = eid) nodes of
     None \<Rightarrow> Inl (EnclaveNotFound eid)
   | Some node \<Rightarrow> (case lookupEnclaves nodes eIDs of Inl e \<Rightarrow> Inl e | Inr ns \<Rightarrow> Inr (node # ns)))"

text \<open>Fewer requests than enclaves is an index out of range.\<close>

definition ExecuteBatch ::
    "PoolEnv \<Rightarrow> network \<Rightarrow> SignedComputeRequest list \<Rightarrow> bytes list \<Rightarrow> enclavePool
     \<Rightarrow> executeReply list outcome \<times> enclavePool" where
  "ExecuteBatch env net reqs eIDs p = (case po_requestTimeoutResolverFn p False of
     None \<Rightarrow> (Err TimeoutUnresolved, p)
   | Some _ \<Rightarrow> (case lookupEnclaves (po_nodes p) eIDs of
       Inl e \<Rightarrow> (Err e, p)
     | Inr enclaves \<Rightarrow>
         if length reqs < length enclaves then (Panic, p)
         else runGroup (executeOne env net) (zip enclaves reqs) p))"

section \<open>Refreshing and replacing the nodes\<close>

definition refreshSingleKey :: "PoolEnv \<Rightarrow> network \<Rightarrow> time \<Rightarrow> Enclave \<Rightarrow> enclavePool \<Rightarrow> unit outcome \<times> enclavePool" where
  "refreshSingleKey env net now enclave p =
     (let eid = en_EnclaveID enclave;
          mark = (\<lambda>alive q. q\<lparr>po_enclaveSelector := SetEnclaveLiveness eid alive (po_enclaveSelector q)\<rparr>)
      in case getSingleEnclavePublicKey env net enclave zeroRequestID p of
        (Panic, p') \<Rightarrow> (Panic, p')
      | (Err e, p') \<Rightarrow> (Err e, emit ''cache_refresh_failed''
          [''enclave.id'' \<mapsto> AStr (EncodeToString eid), ''error'' \<mapsto> AErr] (mark False p'))
      | (Ok d, p') \<Rightarrow> (let q = mark True (setCachedPublicKey env now eid d p')
          in (Ok (), q\<lparr>po_lastRefresh := (po_lastRefresh q)(eid \<mapsto> now)\<rparr>)))"

text \<open>One pass over the nodes; the result says whether a goroutine panicked.\<close>

definition refreshAllCachedKeys :: "PoolEnv \<Rightarrow> network \<Rightarrow> time \<Rightarrow> enclavePool \<Rightarrow> bool \<times> enclavePool" where
  "refreshAllCachedKeys env net now p =
     (case runJoined (refreshSingleKey env net now) (po_nodes p) p of (r, p') \<Rightarrow> (r = None, p'))"

definition initialWarmup :: "PoolEnv \<Rightarrow> network \<Rightarrow> time \<Rightarrow> enclavePool \<Rightarrow> bool \<times> enclavePool" where
  "initialWarmup env net now p = refreshAllCachedKeys env net now p"

definition refreshInterval :: "PoolEnv \<Rightarrow> CacheConfig \<Rightarrow> duration" where
  "refreshInterval env cfg =
     (let i = pe_scale env (cc_DefaultTTL cfg) (cc_RefreshIntervalPercent cfg)
      in if i < cc_MinRefreshInterval cfg then cc_MinRefreshInterval cfg else i)"

text \<open>One turn of \<open>refreshCacheLoop\<close>: leave when the context is done, refresh on a tick.\<close>

definition refreshCacheLoop :: "PoolEnv \<Rightarrow> network \<Rightarrow> time \<Rightarrow> enclavePool \<Rightarrow> bool \<times> enclavePool" where
  "refreshCacheLoop env net now p =
     (if \<not> po_loopRunning p then (False, p)
      else if po_cancelled p then (False, p\<lparr>po_refreshWg := po_refreshWg p - 1, po_loopRunning := False\<rparr>)
      else refreshAllCachedKeys env net now p)"

definition validateNodes :: "PoolEnv \<Rightarrow> network \<Rightarrow> Enclave list \<Rightarrow> enclavePool \<Rightarrow> unit outcome \<times> enclavePool" where
  "validateNodes env net nodes p =
     (case runGroup (\<lambda>e q. case getSingleEnclavePublicKey env net e zeroRequestID q of
           (Panic, q') \<Rightarrow> (Panic, q')
         | (Err err, q') \<Rightarrow> (Err (FetchFailedFor (en_EnclaveID e) err), q')
         | (Ok _, q') \<Rightarrow> (Ok (), q')) nodes p of
        (Ok _, p') \<Rightarrow> (Ok (), p')
      | (Err e, p') \<Rightarrow> (Err e, p')
      | (Panic, p') \<Rightarrow> (Panic, p'))"

text \<open>Commit the validated nodes: drop the cached keys, and start a refresh where that is enabled.\<close>

definition commitNodes :: "Enclave list \<Rightarrow> enclavePool \<Rightarrow> enclavePool" where
  "commitNodes nodes p =
     (let p1 = p\<lparr>po_nodes := nodes\<rparr> in
      if cc_EnableCache (po_cacheConfig p1) \<and> po_publicKeyCache p1 \<noteq> None
      then let p2 = p1\<lparr>po_publicKeyCache := map_option Cache_Flush (po_publicKeyCache p1)\<rparr>
           in if cc_EnableProactiveRefresh (po_cacheConfig p2)
              then p2\<lparr>po_lastRefresh := Map.empty, po_refreshWg := Suc (po_refreshWg p2)\<rparr>
              else p2
      else p1)"

definition UpdateNodes :: "PoolEnv \<Rightarrow> network \<Rightarrow> Enclave list \<Rightarrow> enclavePool \<Rightarrow> unit outcome \<times> enclavePool" where
  "UpdateNodes env net nodes p =
     (if EnclavesList_Hash (pe_H env) nodes = EnclavesList_Hash (pe_H env) (po_nodes p) then (Ok (), p)
      else case validateNodes env net nodes p of
          (Ok _, p') \<Rightarrow> (Ok (), commitNodes nodes p')
        | (Err e, p') \<Rightarrow> (Err e, p')
        | (Panic, p') \<Rightarrow> (Panic, p'))"

text \<open>The refresh goroutine that \<open>UpdateNodes\<close> starts, when it runs.\<close>

definition refreshAfterUpdate :: "PoolEnv \<Rightarrow> network \<Rightarrow> time \<Rightarrow> enclavePool \<Rightarrow> bool \<times> enclavePool" where
  "refreshAfterUpdate env net now p =
     (case refreshAllCachedKeys env net now p of (panicked, p') \<Rightarrow> (panicked, p'\<lparr>po_refreshWg := po_refreshWg p' - 1\<rparr>))"

section \<open>Construction, closing, statistics\<close>

text \<open>The literal \<^verbatim>\<open>&enclavePool{...}\<close>, before any cache is created.\<close>

definition barePool ::
    "Enclave list \<Rightarrow> roundRobinEnclaveSelector option \<Rightarrow> (bool \<Rightarrow> duration option) \<Rightarrow> PoolConfig \<Rightarrow> enclavePool" where
  "barePool nodes selector resolver config =
     \<lparr>po_nodes = nodes, po_enclaveSelector = (case selector of None \<Rightarrow> NewRoundRobinEnclaveSelector | Some s \<Rightarrow> s),
      po_publicKeyCache = None, po_cacheConfig = pc_Cache config,
      po_refreshStopCh = False, po_cancelled = False, po_refreshWg = 0, po_loopRunning = False, po_lastRefresh = Map.empty,
      po_sessionConfig = pc_Session config, po_sessionStore = Map.empty,
      po_metrics = (if pc_Metrics config then Some [] else None),
      po_requestTimeoutResolverFn = resolver, po_publicKeyRetriesMax = pc_PublicKeyRetriesMax config,
      po_publicKeyRetriesBackoff = pc_PublicKeyRetriesBackoff config, po_fakeValidations = Some 0\<rparr>"

definition NewPoolWithConfig ::
    "PoolEnv \<Rightarrow> network \<Rightarrow> time \<Rightarrow> Enclave list \<Rightarrow> roundRobinEnclaveSelector option \<Rightarrow> PoolConfig \<Rightarrow> enclavePool outcome" where
  "NewPoolWithConfig env net now nodes selector config = (case pc_RequestTimeoutResolverFn config of
     None \<Rightarrow> Err NoTimeoutResolver
   | Some resolver \<Rightarrow>
       let cache = pc_Cache config; pool = barePool nodes selector resolver config
       in if \<not> cc_EnableCache cache then Ok pool
          else let pool1 = pool\<lparr>po_publicKeyCache :=
                     Some (NewCache (Some (cc_DefaultTTL cache)) (Some (cc_CleanupInterval cache)))\<rparr>
            in if \<not> cc_EnableProactiveRefresh cache then Ok pool1
               else (case initialWarmup env net now (pool1\<lparr>po_refreshStopCh := True\<rparr>) of
                   (True, _) \<Rightarrow> Panic
                 | (False, pool2) \<Rightarrow> Ok (pool2\<lparr>po_refreshWg := Suc (po_refreshWg pool2), po_loopRunning := True\<rparr>)))"

definition NewPool ::
    "PoolEnv \<Rightarrow> network \<Rightarrow> time \<Rightarrow> Enclave list \<Rightarrow> roundRobinEnclaveSelector option \<Rightarrow> enclavePool outcome" where
  "NewPool env net now nodes selector = NewPoolWithConfig env net now nodes selector
     \<lparr>pc_Cache = DefaultCacheConfig, pc_Session = DefaultSessionConfig, pc_Metrics = False,
      pc_RequestTimeoutResolverFn = None, pc_PublicKeyRetriesMax = 0, pc_PublicKeyRetriesBackoff = 0\<rparr>"

text \<open>
  \<open>Close\<close> closes the channel and cancels the context once; it then waits for the
  refresh goroutines, so it returns when \<open>po_refreshWg\<close> has come down to zero.
\<close>

definition Pool_Close :: "enclavePool \<Rightarrow> enclavePool" where
  "Pool_Close p = (if po_refreshStopCh p then p\<lparr>po_refreshStopCh := False, po_cancelled := True\<rparr> else p)"

definition closeReturns :: "enclavePool \<Rightarrow> enclavePool \<Rightarrow> bool" where
  "closeReturns before p \<longleftrightarrow> \<not> po_refreshStopCh before \<or> po_refreshWg p = 0"

record cacheStats =
  st_item_count :: nat
  st_max_ttl :: duration
  st_default_ttl :: duration
  st_ttl_buffer_percent :: rat
  st_proactive :: "(nat \<times> nat \<times> duration) option"

text \<open>\<open>None\<close> is the answer of a disabled cache.\<close>

definition GetCacheStats :: "PoolEnv \<Rightarrow> time \<Rightarrow> enclavePool \<Rightarrow> cacheStats option" where
  "GetCacheStats env now p = (let cfg = po_cacheConfig p in
     case (if cc_EnableCache cfg then po_publicKeyCache p else None) of
       None \<Rightarrow> None
     | Some c \<Rightarrow> (let cutoff = now - cc_DefaultTTL cfg;
            fresh = {i \<in> dom (po_lastRefresh p). the (po_lastRefresh p i) > cutoff} in
         Some \<lparr>st_item_count = Cache_Size c, st_max_ttl = cc_MaxTTL cfg, st_default_ttl = cc_DefaultTTL cfg,
           st_ttl_buffer_percent = cc_TTLBufferPercent cfg,
           st_proactive = (if cc_EnableProactiveRefresh cfg
             then Some (card fresh, card (dom (po_lastRefresh p) - fresh),
                        pe_scale env (cc_DefaultTTL cfg) (cc_RefreshIntervalPercent cfg))
             else None)\<rparr>))"

section \<open>Histories\<close>

datatype poolEvent =
    PGetPublicKeys network time bytes RequirementsChecker
  | PExecuteBatch network "SignedComputeRequest list" "bytes list"
  | PUpdateConfig network "bytes \<times> bytes"
  | PGetConfigs network
  | PUpdateNodes network "Enclave list"
  | PTick network time
  | PRefresh network time
  | PCacheGC time
  | PClose

primrec poolStep :: "PoolEnv \<Rightarrow> poolEvent \<Rightarrow> enclavePool \<Rightarrow> enclavePool" where
  "poolStep env (PGetPublicKeys net now requestID c) p = snd (GetPublicKeys env net now requestID c p)"
| "poolStep env (PExecuteBatch net reqs eIDs) p = snd (ExecuteBatch env net reqs eIDs p)"
| "poolStep env (PUpdateConfig net update) p = snd (UpdateConfig env net update p)"
| "poolStep env (PGetConfigs net) p = snd (GetConfigs env net p)"
| "poolStep env (PUpdateNodes net nodes) p = snd (UpdateNodes env net nodes p)"
| "poolStep env (PTick net now) p = snd (refreshCacheLoop env net now p)"
| "poolStep env (PRefresh net now) p = snd (refreshAfterUpdate env net now p)"
| "poolStep env (PCacheGC now) p = p\<lparr>po_publicKeyCache := map_option (gcTick now) (po_publicKeyCache p)\<rparr>"
| "poolStep env PClose p = Pool_Close p"

definition poolRun :: "PoolEnv \<Rightarrow> poolEvent list \<Rightarrow> enclavePool \<Rightarrow> enclavePool" where
  "poolRun env evs p = fold (poolStep env) evs p"

section \<open>What a call leaves alone\<close>

text \<open>Talking to enclaves changes only the sessions, the emitter and the validation counter.\<close>

definition quiet :: "enclavePool \<Rightarrow> enclavePool" where
  "quiet p = p\<lparr>po_sessionStore := Map.empty, po_metrics := None, po_fakeValidations := None\<rparr>"

definition talked :: "enclavePool \<Rightarrow> enclavePool \<Rightarrow> bool" where
  "talked p p' \<longleftrightarrow> quiet p' = quiet p"

lemma quiet_fields:
  "po_nodes (quiet p) = po_nodes p" "po_publicKeyCache (quiet p) = po_publicKeyCache p"
  "po_cacheConfig (quiet p) = po_cacheConfig p" "po_enclaveSelector (quiet p) = po_enclaveSelector p"
  "po_lastRefresh (quiet p) = po_lastRefresh p" "po_publicKeyRetriesMax (quiet p) = po_publicKeyRetriesMax p"
  "po_requestTimeoutResolverFn (quiet p) = po_requestTimeoutResolverFn p" "po_sessionConfig (quiet p) = po_sessionConfig p"
  by (simp_all add: quiet_def)

lemma talked_refl [simp, intro]: "talked p p"
  by (simp add: talked_def)

lemma talked_trans [trans]: "talked p q \<Longrightarrow> talked q r \<Longrightarrow> talked p r"
  by (simp add: talked_def)

lemma talked_fields:
  assumes "talked p p'"
  shows "po_nodes p' = po_nodes p" "po_publicKeyCache p' = po_publicKeyCache p" "po_cacheConfig p' = po_cacheConfig p"
    "po_enclaveSelector p' = po_enclaveSelector p" "po_lastRefresh p' = po_lastRefresh p"
    "po_publicKeyRetriesMax p' = po_publicKeyRetriesMax p" "po_requestTimeoutResolverFn p' = po_requestTimeoutResolverFn p"
    "po_sessionConfig p' = po_sessionConfig p"
  using assms unfolding talked_def by (metis quiet_fields)+

lemma talked_emit [intro]: "talked p (emit ev d p)"
  by (simp add: talked_def quiet_def emit_def)

lemma talked_validate [intro]: "talked p (snd (validateAttestation env e ud att p))"
  by (simp add: talked_def quiet_def validateAttestation_def split: prod.split)

lemma talked_session [intro]: "talked p (updateSession keys h p)"
  by (simp add: talked_def quiet_def updateSession_def Let_def)

lemma validateAttestation_None:
  "fst (validateAttestation env e ud att p) = None \<longleftrightarrow> attests (pe_nitro env) e ud att"
  using validate_single [of "pe_nitro env" e att ud "po_fakeValidations p"]
  by (auto simp: validateAttestation_def split: prod.splits)

lemma talked_fold: "(\<And>x q. talked q (f x q)) \<Longrightarrow> talked p (fold f xs p)"
  by (induction xs arbitrary: p) (auto intro: talked_trans)

lemma talked_forward [intro]: "talked p (forwardErrorMetrics eb p)"
  by (auto simp: forwardErrorMetrics_def Let_def scopedEmit_def intro!: talked_fold split: option.split)

lemma talked_rejected [intro]: "talked p (snd (executeRejected env b p))"
  by (auto simp: executeRejected_def Let_def split: option.split)

text \<open>What an accepted key response guarantees.\<close>

definition keyAttested :: "PoolEnv \<Rightarrow> Enclave \<Rightarrow> EnclavePublicKeyData \<Rightarrow> bool" where
  "keyAttested env e d \<longleftrightarrow> ep_EnclaveID d = en_EnclaveID e \<and> \<not> EnclaveConfig_IsZero (Some (pk_Config (ep_Response d))) \<and>
     attests (pe_nitro env) e (PublicKeyHash (pe_H env) (ep_Response d)) (pk_Attestation (ep_Response d))"

lemma acceptPublicKeys_sound:
  assumes "acceptPublicKeys env e st b h p = (r, p')"
  shows "talked p p' \<and> (\<forall>d. r = Ok d \<longrightarrow> keyAttested env e d) \<and> r \<noteq> Panic"
proof (cases "readBody b")
  case (Inr rb)
  show ?thesis
  proof (cases "st = 200 \<and> pe_ParsePublicKeys env rb \<noteq> None")
    case True
    then obtain out where out: "pe_ParsePublicKeys env rb = Some out" by auto
    let ?v = "validateAttestation env e (PublicKeyHash (pe_H env) out) (pk_Attestation out) p"
    show ?thesis
    proof (cases "EnclaveConfig_IsZero (Some (pk_Config out))")
      case False
      show ?thesis
      proof (cases "fst ?v")
        case None
        with validateAttestation_None have "attests (pe_nitro env) e (PublicKeyHash (pe_H env) out) (pk_Attestation out)" by blast
        moreover from None have "?v = (None, snd ?v)" by (metis prod.collapse)
        then have "r = Ok \<lparr>ep_Response = out, ep_EnclaveID = en_EnclaveID e\<rparr>" "p' = updateSession (pk_PublicKeys out) h (snd ?v)"
          using assms True False Inr out by (auto simp: acceptPublicKeys_def split: prod.splits)
        ultimately show ?thesis using False talked_trans [OF talked_validate talked_session] by (auto simp: keyAttested_def)
      next
        case (Some err)
        then have "?v = (Some err, snd ?v)" by (metis prod.collapse)
        then have "r = Err err" "p' = emitValidationFailed e ''publicKeys'' (snd ?v)"
          using assms True False Inr out by (auto simp: acceptPublicKeys_def split: prod.splits)
        then show ?thesis using talked_trans [OF talked_validate talked_emit] by (auto simp: emitValidationFailed_def)
      qed
    qed (use assms True Inr out in \<open>auto simp: acceptPublicKeys_def\<close>)
  qed (use assms Inr in \<open>auto simp: acceptPublicKeys_def split: if_splits\<close>)
qed (use assms in \<open>auto simp: acceptPublicKeys_def\<close>)

lemma getSingle_sound:
  assumes "getSingleEnclavePublicKey env net e rid p = (r, p')"
  shows "talked p p'" "\<And>d. r = Ok d \<Longrightarrow> keyAttested env e d"
  using assms acceptPublicKeys_sound
  by (fastforce simp: getSingleEnclavePublicKey_def split: sum.splits option.splits fetchResult.splits)+

text \<open>A loop that may try at least once never comes back without both a response and an error.\<close>

lemma fetchLoop_FNil: "fetchLoop net call left a errs = FNil \<longleftrightarrow> left = 0 \<and> errs = 0"
  by (induction left arbitrary: a errs) (auto split: httpResult.split)

lemma getSingle_Panic:
  assumes "getSingleEnclavePublicKey env net e rid p = (Panic, p')"
  shows "po_publicKeyRetriesMax p < 0"
  using assms acceptPublicKeys_sound
  by (fastforce simp: getSingleEnclavePublicKey_def fetchLoop_FNil split: sum.splits option.splits fetchResult.splits)

section \<open>Groups\<close>

lemma runGroup_inv:
  assumes step: "\<And>x q r q'. \<lbrakk>x \<in> set xs; I q; f x q = (r, q')\<rbrakk> \<Longrightarrow> I q' \<and> (\<forall>a. r = Ok a \<longrightarrow> Q x a)"
    and "I p" "runGroup f xs p = (r, p')"
  shows "I p' \<and> (\<forall>as. r = Ok as \<longrightarrow> list_all2 Q xs as)"
  using assms
proof (induction xs arbitrary: p r p')
  case (Cons x xs)
  obtain r1 p1 where fx: "f x p = (r1, p1)" by force
  obtain rs p2 where rest: "runGroup f xs p1 = (rs, p2)" by force
  from Cons.prems(1) [of x, OF _ Cons.prems(2) fx] have x: "I p1" "\<forall>a. r1 = Ok a \<longrightarrow> Q x a" by auto
  from Cons.IH [OF _ x(1) rest] Cons.prems(1) have "I p2 \<and> (\<forall>as. rs = Ok as \<longrightarrow> list_all2 Q xs as)" by auto
  moreover from Cons.prems(3) fx rest have "p' = p2" "\<And>as. r = Ok as \<Longrightarrow> \<exists>a bs. as = a # bs \<and> r1 = Ok a \<and> rs = Ok bs"
    by (auto split: outcome.splits)
  ultimately show ?case using x by fastforce
qed auto

lemma runJoined_inv:
  assumes step: "\<And>x q r q'. \<lbrakk>x \<in> set xs; I q; f x q = (r, q')\<rbrakk> \<Longrightarrow> I q' \<and> (\<forall>a. r = Ok a \<longrightarrow> Q x a)"
    and "I p" "runJoined f xs p = (r, p')"
  shows "I p' \<and> (\<forall>as. r = Some (as, []) \<longrightarrow> list_all2 Q xs as)"
  using assms
proof (induction xs arbitrary: p r p')
  case (Cons x xs)
  obtain r1 p1 where fx: "f x p = (r1, p1)" by force
  obtain rs p2 where rest: "runJoined f xs p1 = (rs, p2)" by force
  from Cons.prems(1) [of x, OF _ Cons.prems(2) fx] have x: "I p1" "\<forall>a. r1 = Ok a \<longrightarrow> Q x a" by auto
  from Cons.IH [OF _ x(1) rest] Cons.prems(1) have "I p2 \<and> (\<forall>as. rs = Some (as, []) \<longrightarrow> list_all2 Q xs as)" by auto
  moreover from Cons.prems(3) fx rest have "p' = p2"
    "\<And>as. r = Some (as, []) \<Longrightarrow> \<exists>a bs. as = a # bs \<and> r1 = Ok a \<and> rs = Some (bs, [])"
    by (auto split: outcome.splits option.splits)
  ultimately show ?case using x by fastforce
qed auto

text \<open>No member of the group panics, so the group does not.\<close>

lemma runGroup_no_panic:
  assumes "\<And>x q q'. \<lbrakk>x \<in> set xs; J q\<rbrakk> \<Longrightarrow> fst (f x q) \<noteq> Panic \<and> J (snd (f x q))" "J p"
  shows "fst (runGroup f xs p) \<noteq> Panic"
  using assms
proof (induction xs arbitrary: p)
  case (Cons x xs)
  from Cons.prems(1) [of x p] Cons.prems(2) have "fst (f x p) \<noteq> Panic" "J (snd (f x p))" by auto
  with Cons.IH [of "snd (f x p)"] Cons.prems(1) show ?case by (auto split: prod.splits outcome.splits)
qed simp

section \<open>The invariant of the cache of keys\<close>

text \<open>
  A cached entry was attested by an enclave of the current list with that id,
  when it was cached, and is kept for its effective time to live.
\<close>

definition entry_ok :: "PoolEnv \<Rightarrow> Enclave list \<Rightarrow> CacheConfig \<Rightarrow> bytes \<Rightarrow> cachedPublicKeyData CacheItem \<Rightarrow> bool" where
  "entry_ok env nodes cfg k it \<longleftrightarrow>
     (\<exists>e\<in>set nodes. en_EnclaveID e = k \<and> keyAttested env e (cp_Data (ci_Value it))) \<and>
     cp_CachedAt (ci_Value it) = ci_CreationTime it \<and>
     ci_TimeToLive it = calculateEffectiveTTL env cfg (pk_TTLs (ep_Response (cp_Data (ci_Value it))))"

definition pool_inv :: "PoolEnv \<Rightarrow> enclavePool \<Rightarrow> bool" where
  "pool_inv env p \<longleftrightarrow> (\<forall>c. po_publicKeyCache p = Some c \<longrightarrow> cache_inv c \<and>
     (\<forall>k it. ca_items c k = Some it \<longrightarrow> entry_ok env (po_nodes p) (po_cacheConfig p) k it))"

lemma items_Set:
  "ca_items (Cache_Set now k v (Some ttl) c) k' = Some it \<Longrightarrow>
     (k' = k \<and> it = \<lparr>ci_Value = v, ci_CreationTime = now, ci_TimeToLive = ttl\<rparr>) \<or> ca_items c k' = Some it"
  by (auto simp: Cache_Set_def setLocked_def Let_def deleteAll_apply split: if_splits)

lemma items_gcTick: "\<lbrakk>cache_inv c; ca_items (gcTick now c) k = Some it\<rbrakk> \<Longrightarrow> ca_items c k = Some it"
  by (auto simp: gcTick_def garbageCollect_spec restrict_map_def split: if_splits)

lemma inv_talked: "\<lbrakk>pool_inv env p; talked p p'\<rbrakk> \<Longrightarrow> pool_inv env p'"
  by (simp add: pool_inv_def talked_fields)

lemma setCached_fields [simp]:
  "po_nodes (setCachedPublicKey env now k d p) = po_nodes p"
  "po_cacheConfig (setCachedPublicKey env now k d p) = po_cacheConfig p"
  "po_publicKeyRetriesMax (setCachedPublicKey env now k d p) = po_publicKeyRetriesMax p"
  by (simp_all add: setCachedPublicKey_def Let_def split: option.split)

lemma inv_setCached:
  assumes "pool_inv env p" "e \<in> set (po_nodes p)" "keyAttested env e d"
  shows "pool_inv env (setCachedPublicKey env now (en_EnclaveID e) d p)"
proof (cases "po_publicKeyCache p")
  case (Some c)
  let ?ttl = "calculateEffectiveTTL env (po_cacheConfig p) (pk_TTLs (ep_Response d))"
  let ?v = "\<lparr>cp_Data = d, cp_OriginalTTLs = pk_TTLs (ep_Response d), cp_CachedAt = now\<rparr>"
  have "entry_ok env (po_nodes p) (po_cacheConfig p) k it"
    if "ca_items (Cache_Set now (en_EnclaveID e) ?v (Some ?ttl) c) k = Some it" for k it
    using items_Set [OF that] assms Some by (auto simp: pool_inv_def entry_ok_def)
  then show ?thesis using assms(1) Some
    by (auto simp: setCachedPublicKey_def Let_def pool_inv_def intro: cache_inv_Set)
qed (use assms in \<open>simp add: setCachedPublicKey_def\<close>)

text \<open>What a lookup in the cache returns.\<close>

lemma getCached_sound:
  assumes "pool_inv env p" "getCachedPublicKey now k p = Some d"
  shows "\<exists>e\<in>set (po_nodes p). en_EnclaveID e = k \<and> keyAttested env e d"
  using assms by (auto simp: getCachedPublicKey_def Cache_Get_def pool_inv_def entry_ok_def
      split: if_splits option.splits)

lemma fetchOrCached_sound:
  assumes "pool_inv env p" "e \<in> set (po_nodes p)" "fetchOrCached env net now rid e p = (r, p')"
  shows "pool_inv env p' \<and> po_nodes p' = po_nodes p \<and>
    (\<forall>d. r = Ok d \<longrightarrow> (\<exists>e'\<in>set (po_nodes p). en_EnclaveID e' = en_EnclaveID e \<and> keyAttested env e' d))"
proof -
  obtain r1 p1 where g: "getSingleEnclavePublicKey env net e rid p = (r1, p1)" by force
  note t = getSingle_sound(1) [OF g]
  note p1 = inv_talked [OF assms(1) t] talked_fields(1) [OF t]
  show ?thesis
  proof (cases r1)
    case (Ok d)
    with g assms(3) have "r = Ok d" "p' = setCachedPublicKey env now (en_EnclaveID e) d p1"
      by (auto simp: fetchOrCached_def)
    moreover have "keyAttested env e d" using getSingle_sound(2) [OF g] Ok by blast
    ultimately show ?thesis using inv_setCached [OF p1(1)] p1(2) assms(2) by auto
  next
    case (Err err)
    with g assms(3) p1 getCached_sound [OF p1(1)] show ?thesis
      by (auto simp: fetchOrCached_def split: option.splits)
  next
    case Panic
    with g assms(3) p1 show ?thesis by (auto simp: fetchOrCached_def)
  qed
qed

lemma refreshSingleKey_sound:
  assumes "pool_inv env p" "e \<in> set (po_nodes p)" "refreshSingleKey env net now e p = (r, p')"
  shows "pool_inv env p' \<and> po_nodes p' = po_nodes p"
proof -
  obtain r1 p1 where g: "getSingleEnclavePublicKey env net e zeroRequestID p = (r1, p1)" by force
  note t = getSingle_sound(1) [OF g]
  note p1 = inv_talked [OF assms(1) t] talked_fields(1) [OF t]
  have mark: "pool_inv env (q\<lparr>po_enclaveSelector := s\<rparr>) = pool_inv env q" 
    "pool_inv env (q\<lparr>po_lastRefresh := lr\<rparr>) = pool_inv env q" for q s lr
    by (simp_all add: pool_inv_def)
  show ?thesis
  proof (cases r1)
    case (Ok d)
    have "pool_inv env (setCachedPublicKey env now (en_EnclaveID e) d p1)"
      using inv_setCached [OF p1(1)] p1(2) assms(2) getSingle_sound(2) [OF g Ok] by simp
    with Ok g assms(3) p1 show ?thesis by (auto simp: refreshSingleKey_def Let_def mark)
  next
    case (Err err)
    have "pool_inv env (emit ev d (p1\<lparr>po_enclaveSelector := s\<rparr>))" for ev d s
      using inv_talked [OF _ talked_emit] p1(1) by (simp add: mark)
    with Err g assms(3) p1 show ?thesis by (auto simp: refreshSingleKey_def Let_def emit_def)
  next
    case Panic
    with g assms(3) p1 show ?thesis by (auto simp: refreshSingleKey_def)
  qed
qed

lemma refreshAll_sound:
  assumes "pool_inv env p" "refreshAllCachedKeys env net now p = (b, p')"
  shows "pool_inv env p' \<and> po_nodes p' = po_nodes p"
proof -
  obtain r where "runJoined (refreshSingleKey env net now) (po_nodes p) p = (r, p')"
    using assms(2) by (auto simp: refreshAllCachedKeys_def split: prod.splits)
  from runJoined_inv [OF _ _ this, where I = "\<lambda>q. pool_inv env q \<and> po_nodes q = po_nodes p" and Q = "\<lambda>_ _. True"]
  show ?thesis using assms(1) refreshSingleKey_sound by (metis (no_types, lifting))
qed

lemma GetPublicKeys_inv:
  assumes "pool_inv env p" "GetPublicKeys env net now rid chk p = (r, p')"
  shows "pool_inv env p' \<and> po_nodes p' = po_nodes p"
proof (cases "SelectEnclaves (po_enclaveSelector p) (po_nodes p) rid chk")
  case (Inr es)
  with assms(2) have run: "runGroup (fetchOrCached env net now rid) es p = (r, p')" by (simp add: GetPublicKeys_def)
  have "e \<in> set (po_nodes p)" if "e \<in> set es" for e using rr.select_live [OF Inr that] by simp
  then show ?thesis
    using runGroup_inv [OF _ _ run, where I = "\<lambda>q. pool_inv env q \<and> po_nodes q = po_nodes p" and Q = "\<lambda>_ _. True"]
      assms(1) fetchOrCached_sound by (metis (no_types, lifting))
qed (use assms in \<open>auto simp: GetPublicKeys_def\<close>)

lemma executeOne_talked: "talked p (snd (executeOne env net er p))"
proof -
  have "talked p (snd (acceptExecute env e cr reply p))" for e cr reply
  proof -
    let ?v = "validateAttestation env e (ExecuteResponse_UserDataHash (pe_H env) (cr_Version cr) (xr_Response reply))
      (er_Attestation (xr_Response reply)) p"
    have "talked p (snd ?v)" by blast
    then show ?thesis using talked_trans [OF _ talked_emit]
      by (auto simp: acceptExecute_def Let_def emitValidationFailed_def split: prod.splits option.splits)
  qed
  moreover have "talked p (snd (executeRejected env b p))" for b by blast
  ultimately show ?thesis
    by (auto simp: executeOne_def split: prod.splits sum.splits httpResult.splits option.splits) (metis snd_conv)+
qed

lemma updateSingle_talked: "talked p (snd (updateSingleEnclaveConfig env net body e p))"
proof -
  have "talked p (snd (validateAttestation env e ud att p))" for ud att by blast
  then show ?thesis
    by (auto simp: updateSingleEnclaveConfig_def Let_def split: option.splits sum.splits httpResult.splits prod.splits)
      (metis snd_conv)+
qed

text \<open>The calls that leave nodes and cache alone.\<close>

lemma ExecuteBatch_talked: "talked p (snd (ExecuteBatch env net reqs ids p))"
proof -
  have "talked p (snd (runGroup (executeOne env net) xs p))" for xs
    using runGroup_inv [where I = "talked p" and Q = "\<lambda>_ _. True" and f = "executeOne env net" and xs = xs and p = p]
      executeOne_talked by (metis prod.collapse snd_conv talked_refl talked_trans)
  then show ?thesis by (auto simp: ExecuteBatch_def split: option.splits sum.splits)
qed

lemma validateNodes_talked: "talked p (snd (validateNodes env net nodes p))"
proof -
  let ?f = "\<lambda>e q. case getSingleEnclavePublicKey env net e zeroRequestID q of
           (Panic, q') \<Rightarrow> (Panic, q')
         | (Err err, q') \<Rightarrow> (Err (FetchFailedFor (en_EnclaveID e) err), q')
         | (Ok _, q') \<Rightarrow> (Ok (), q')"
  have "snd (?f e q) = snd (getSingleEnclavePublicKey env net e zeroRequestID q)" for e q
    by (auto split: prod.split outcome.split)
  then have "talked q (snd (?f e q))" for e q using getSingle_sound(1) by (metis prod.collapse)
  then have "talked p (snd (runGroup ?f nodes p))"
    using runGroup_inv [where I = "talked p" and Q = "\<lambda>_ _. True" and f = ?f and xs = nodes and p = p]
    by (metis (no_types, lifting) prod.collapse snd_conv talked_refl talked_trans)
  moreover have "snd (validateNodes env net nodes p) = snd (runGroup ?f nodes p)"
    by (auto simp: validateNodes_def split: prod.split outcome.split)
  ultimately show ?thesis by simp
qed

lemma runJoined_talked:
  assumes "\<And>x q. talked q (snd (f x q))"
  shows "talked p (snd (runJoined f xs p))"
  using runJoined_inv [where I = "talked p" and Q = "\<lambda>_ _. True" and f = f and xs = xs and p = p] assms
  by (metis prod.collapse snd_conv talked_refl talked_trans)

lemma GetConfigs_talked: "talked p (snd (GetConfigs env net p))"
proof -
  have "talked q (snd (getSingleEnclavePublicKey env net e zeroRequestID q))" for e q
    using getSingle_sound(1) by (metis prod.collapse)
  from runJoined_talked [where p = p, OF this] have
    "talked p (snd (runJoined (\<lambda>e. getSingleEnclavePublicKey env net e zeroRequestID) (po_nodes p) p))" .
  then show ?thesis by (auto simp: GetConfigs_def split: prod.splits option.splits)
qed

lemma UpdateConfig_talked: "talked p (snd (UpdateConfig env net upd p))"
  using runJoined_talked [where p = p and f = "updateSingleEnclaveConfig env net (pe_MarshalUpdate env upd)" and xs = "po_nodes p",
      OF updateSingle_talked]
  by (auto simp: UpdateConfig_def split: prod.splits option.splits)

lemma inv_commitNodes:
  assumes "pool_inv env p" "\<not> cc_EnableCache (po_cacheConfig p) \<longrightarrow> po_publicKeyCache p = None"
  shows "pool_inv env (commitNodes nodes p)"
proof (cases "po_publicKeyCache p")
  case (Some c)
  have "pool_inv env (q\<lparr>po_lastRefresh := lr, po_refreshWg := n\<rparr>) = pool_inv env q" for q lr n
    by (simp add: pool_inv_def)
  moreover have "pool_inv env (p\<lparr>po_nodes := nodes, po_publicKeyCache := Some (Cache_Flush c)\<rparr>)"
    by (simp add: pool_inv_def cache_inv_Flush) (simp add: Cache_Flush_def)
  ultimately show ?thesis using Some assms(2) by (simp add: commitNodes_def Let_def)
qed (simp add: commitNodes_def Let_def pool_inv_def)

text \<open>A cache exists only where it is enabled.\<close>

definition cacheMatches :: "enclavePool \<Rightarrow> bool" where
  "cacheMatches p \<longleftrightarrow> (po_publicKeyCache p \<noteq> None \<longrightarrow> cc_EnableCache (po_cacheConfig p))"

lemma UpdateNodes_cases:
  obtains (same) "UpdateNodes env net nodes p = (Ok (), p)"
      "EnclavesList_Hash (pe_H env) nodes = EnclavesList_Hash (pe_H env) (po_nodes p)"
  | (committed) p' where "UpdateNodes env net nodes p = (Ok (), commitNodes nodes p')" "validateNodes env net nodes p = (Ok (), p')"
      "talked p p'"
  | (rejected) r p' where "UpdateNodes env net nodes p = (r, p')" "r \<noteq> Ok ()" "talked p p'"
proof -
  obtain r p' where v: "validateNodes env net nodes p = (r, p')" by force
  have t: "talked p p'" using validateNodes_talked [of p env net nodes] v by simp
  show thesis
  proof (cases "EnclavesList_Hash (pe_H env) nodes = EnclavesList_Hash (pe_H env) (po_nodes p)")
    case True
    then show thesis by (intro same) (simp_all add: UpdateNodes_def)
  next
    case False
    show thesis
    proof (cases r)
      case (Ok u)
      with False v t show thesis by (intro committed [of p']) (simp_all add: UpdateNodes_def)
    next
      case (Err e)
      with False v t show thesis by (intro rejected [of "Err e" p']) (simp_all add: UpdateNodes_def)
    next
      case Panic
      with False v t show thesis by (intro rejected [of Panic p']) (simp_all add: UpdateNodes_def)
    qed
  qed
qed

lemma UpdateNodes_inv:
  assumes "pool_inv env p" "cacheMatches p"
  shows "pool_inv env (snd (UpdateNodes env net nodes p))"
proof (cases rule: UpdateNodes_cases [of env net nodes p])
  case (committed p')
  have "pool_inv env p'" "\<not> cc_EnableCache (po_cacheConfig p') \<longrightarrow> po_publicKeyCache p' = None"
    using assms inv_talked [OF _ committed(3)] talked_fields [OF committed(3)] by (auto simp: cacheMatches_def)
  with inv_commitNodes committed(1) show ?thesis by simp
qed (use assms inv_talked in auto)

section \<open>The invariant along a history\<close>

text \<open>The configuration stands, and so does the presence of a cache.\<close>

definition sameShape :: "enclavePool \<Rightarrow> enclavePool \<Rightarrow> bool" where
  "sameShape q q' \<longleftrightarrow> po_cacheConfig q' = po_cacheConfig q \<and> (po_publicKeyCache q' = None \<longleftrightarrow> po_publicKeyCache q = None)"

lemma sameShape_refl [simp]: "sameShape q q"
  by (simp add: sameShape_def)

lemma sameShape_trans: "sameShape p q \<Longrightarrow> sameShape q r \<Longrightarrow> sameShape p r"
  by (simp add: sameShape_def)

lemma sameShape_talked: "talked q q' \<Longrightarrow> sameShape q q'"
  by (simp add: sameShape_def talked_fields)

lemma sameShape_setCached: "sameShape q (setCachedPublicKey env now k d q)"
  by (auto simp: sameShape_def setCachedPublicKey_def Let_def split: option.splits)

lemma sameShape_fetch: "sameShape q (snd (fetchOrCached env net now rid e q))"
proof -
  obtain r q' where g: "getSingleEnclavePublicKey env net e rid q = (r, q')" by force
  from sameShape_talked [OF getSingle_sound(1) [OF g]] sameShape_setCached [of q'] g show ?thesis
    by (auto simp: fetchOrCached_def sameShape_def split: outcome.split option.split)
qed

lemma sameShape_refreshSingle: "sameShape q (snd (refreshSingleKey env net now e q))"
proof -
  obtain r q' where g: "getSingleEnclavePublicKey env net e zeroRequestID q = (r, q')" by force
  from sameShape_talked [OF getSingle_sound(1) [OF g]] sameShape_setCached [of q'] g show ?thesis
    by (auto simp: refreshSingleKey_def Let_def emit_def sameShape_def split: outcome.split)
qed

lemma sameShape_refreshAll: "sameShape q (snd (refreshAllCachedKeys env net now q))"
proof -
  obtain r q' where run: "runJoined (refreshSingleKey env net now) (po_nodes q) q = (r, q')" by force
  from runJoined_inv [OF _ _ this, where I = "sameShape q" and Q = "\<lambda>_ _. True"] have "sameShape q q'"
    using sameShape_refreshSingle by (metis (no_types, lifting) sameShape_refl sameShape_trans snd_conv)
  with run show ?thesis by (simp add: refreshAllCachedKeys_def)
qed

lemma sameShape_commit: "sameShape q (commitNodes nodes q)"
  by (auto simp: sameShape_def commitNodes_def Let_def)

lemma sameShape_step: "sameShape p (poolStep env ev p)"
proof (cases ev)
  case (PGetPublicKeys net now rid c)
  have "sameShape p (snd (runGroup (fetchOrCached env net now rid) es p))" for es
    using runGroup_inv [where I = "sameShape p" and Q = "\<lambda>_ _. True" and f = "fetchOrCached env net now rid" and xs = es and p = p]
      sameShape_fetch by (metis (no_types, lifting) prod.collapse sameShape_refl sameShape_trans snd_conv)
  with PGetPublicKeys show ?thesis by (auto simp: GetPublicKeys_def split: sum.split)
next
  case (PUpdateNodes net nodes)
  show ?thesis
    by (cases rule: UpdateNodes_cases [of env net nodes p])
      (use PUpdateNodes sameShape_talked sameShape_trans [OF sameShape_talked sameShape_commit] in auto)
next
  case (PTick net now)
  with sameShape_refreshAll [of p env net now] show ?thesis by (auto simp: refreshCacheLoop_def sameShape_def)
next
  case (PRefresh net now)
  with sameShape_refreshAll [of p env net now] show ?thesis
    by (auto simp: refreshAfterUpdate_def sameShape_def split: prod.split)
qed (use sameShape_talked ExecuteBatch_talked GetConfigs_talked UpdateConfig_talked in \<open>auto simp: Pool_Close_def sameShape_def\<close>)

lemma poolStep_inv:
  assumes "pool_inv env p" "cacheMatches p"
  shows "pool_inv env (poolStep env ev p)"
proof (cases ev)
  case (PGetPublicKeys net now rid c)
  with GetPublicKeys_inv [OF assms(1)] show ?thesis by (metis poolStep.simps(1) prod.collapse)
next
  case (PUpdateNodes net nodes)
  with UpdateNodes_inv [OF assms] show ?thesis by simp
next
  case (PTick net now)
  have "pool_inv env (p\<lparr>po_refreshWg := n, po_loopRunning := b\<rparr>) = pool_inv env p" for n b by (simp add: pool_inv_def)
  moreover have "pool_inv env (snd (refreshAllCachedKeys env net now p))" using refreshAll_sound [OF assms(1)] by (metis prod.collapse)
  ultimately show ?thesis using PTick assms(1) by (auto simp: refreshCacheLoop_def)
next
  case (PRefresh net now)
  have "pool_inv env (q\<lparr>po_refreshWg := n\<rparr>) = pool_inv env q" for q n by (simp add: pool_inv_def)
  with PRefresh refreshAll_sound [OF assms(1)] show ?thesis by (auto simp: refreshAfterUpdate_def split: prod.split)
next
  case (PCacheGC now)
  with assms(1) show ?thesis by (auto simp: pool_inv_def cache_inv_gcTick dest: items_gcTick)
next
  case PClose
  with assms(1) show ?thesis by (simp add: Pool_Close_def pool_inv_def)
qed (use inv_talked [OF assms(1)] ExecuteBatch_talked GetConfigs_talked UpdateConfig_talked in auto)

lemma poolRun_inv:
  "\<lbrakk>pool_inv env p; cacheMatches p\<rbrakk> \<Longrightarrow> pool_inv env (poolRun env evs p) \<and> cacheMatches (poolRun env evs p)"
proof (induction evs arbitrary: p)
  case (Cons ev evs)
  have "cacheMatches (poolStep env ev p)"
    using Cons.prems(2) sameShape_step [of p env ev] by (simp add: cacheMatches_def sameShape_def)
  with Cons poolStep_inv show ?case by (simp add: poolRun_def)
qed (simp add: poolRun_def)

lemma NewPool_inv:
  assumes "NewPoolWithConfig env net now nodes sel cfg = Ok p"
  shows "pool_inv env p \<and> cacheMatches p"
proof -
  have new: "pool_inv env q \<and> cacheMatches q"
    if "po_publicKeyCache q = Some (NewCache t g) \<and> cc_EnableCache (po_cacheConfig q) \<or> po_publicKeyCache q = None" for q t g
    using that cache_inv_New [of t g 0]
    by (auto simp: pool_inv_def cacheMatches_def NewCache_def) (simp add: NewBoundedCache_def)
  have wg: "pool_inv env (q\<lparr>po_refreshWg := n, po_loopRunning := b\<rparr>) = pool_inv env q"
    "cacheMatches (q\<lparr>po_refreshWg := n, po_loopRunning := b\<rparr>) = cacheMatches q" for q n b
    by (simp_all add: pool_inv_def cacheMatches_def)
  have warm: "pool_inv env q' \<and> cacheMatches q'"
    if "pool_inv env q \<and> cacheMatches q" "refreshAllCachedKeys env net now q = (b, q')" for q q' b
    using refreshAll_sound [of env q] sameShape_refreshAll [of q env net now] that by (auto simp: cacheMatches_def sameShape_def)
  obtain resolver where res: "pc_RequestTimeoutResolverFn cfg = Some resolver"
    using assms by (auto simp: NewPoolWithConfig_def split: option.splits)
  let ?pool = "barePool nodes sel resolver cfg"
  let ?c = "Some (NewCache (Some (cc_DefaultTTL (pc_Cache cfg))) (Some (cc_CleanupInterval (pc_Cache cfg))))"
  obtain b q' where w: "refreshAllCachedKeys env net now (?pool\<lparr>po_publicKeyCache := ?c, po_refreshStopCh := True\<rparr>) = (b, q')"
    by force
  have "pool_inv env q' \<and> cacheMatches q'" if "cc_EnableCache (pc_Cache cfg)"
    by (rule warm [OF new w]) (use that in \<open>simp add: barePool_def\<close>)
  moreover have "pool_inv env ?pool \<and> cacheMatches ?pool" by (rule new) (simp add: barePool_def)
  moreover have "pool_inv env (?pool\<lparr>po_publicKeyCache := ?c\<rparr>) \<and> cacheMatches (?pool\<lparr>po_publicKeyCache := ?c\<rparr>)"
    if "cc_EnableCache (pc_Cache cfg)" by (rule new) (use that in \<open>simp add: barePool_def\<close>)
  ultimately show ?thesis using assms res w
    by (auto simp: NewPoolWithConfig_def Let_def initialWarmup_def wg split: if_splits bool.splits)
qed

section \<open>What results mean\<close>

text \<open>What the caller of \<open>ExecuteBatch\<close> may conclude about a response from enclave \<open>e\<close>.\<close>

definition responseAccepted :: "PoolEnv \<Rightarrow> Enclave \<Rightarrow> ComputeRequest \<Rightarrow> ExecuteResponse \<Rightarrow> bool" where
  "responseAccepted env e cr out \<longleftrightarrow>
     attests (pe_nitro env) e (ExecuteResponse_UserDataHash (pe_H env) (cr_Version cr) out) (er_Attestation out) \<and>
     er_RequestHash out = ComputeRequest_Hash (pe_H env) cr \<and>
     (cr_Version cr \<noteq> ServiceConfidentialComputeVersionLegacy \<longrightarrow> er_ApplicationRequestID out = cr_ApplicationRequestID cr)"

lemma acceptExecute_sound:
  assumes "acceptExecute env e cr reply p = (Ok reply', p')"
  shows "reply' = reply \<and> responseAccepted env e cr (xr_Response reply)"
  using assms validateAttestation_None [of env e "ExecuteResponse_UserDataHash (pe_H env) (cr_Version cr) (xr_Response reply)"
      "er_Attestation (xr_Response reply)" p]
  by (auto simp: acceptExecute_def Let_def responseAccepted_def split: prod.splits option.splits if_splits)

lemma executeOne_sound:
  assumes "executeOne env net (e, req) p = (Ok reply, p')"
  shows "responseAccepted env e (scr_ComputeRequest req) (xr_Response reply)"
  using assms acceptExecute_sound
  by (fastforce simp: executeOne_def split: sum.splits httpResult.splits if_splits option.splits prod.splits)

lemma lookupEnclaves_sound:
  "lookupEnclaves nodes ids = Inr es \<Longrightarrow> map en_EnclaveID es = ids \<and> set es \<subseteq> set nodes"
proof (induction ids arbitrary: es)
  case (Cons i ids)
  then obtain n ns where "find (\<lambda>n. en_EnclaveID n = i) nodes = Some n" "lookupEnclaves nodes ids = Inr ns" "es = n # ns"
    by (auto split: option.splits sum.splits)
  with Cons.IH show ?case by (auto simp: find_Some_iff)
qed simp

lemma ExecuteBatch_sound:
  assumes "ExecuteBatch env net reqs ids p = (Ok rs, p')"
  shows "length rs = length ids \<and> length ids \<le> length reqs \<and>
    (\<forall>i<length ids. \<exists>e\<in>set (po_nodes p). en_EnclaveID e = ids ! i \<and>
       responseAccepted env e (scr_ComputeRequest (reqs ! i)) (xr_Response (rs ! i)))"
proof -
  from assms obtain es where es: "lookupEnclaves (po_nodes p) ids = Inr es" "\<not> length reqs < length es"
    and run: "runGroup (executeOne env net) (zip es reqs) p = (Ok rs, p')"
    by (auto simp: ExecuteBatch_def split: option.splits sum.splits if_splits)
  let ?Q = "\<lambda>er reply. responseAccepted env (fst er) (scr_ComputeRequest (snd er)) (xr_Response reply)"
  have "\<And>x q r q'. executeOne env net x q = (r, q') \<Longrightarrow> \<forall>a. r = Ok a \<longrightarrow> ?Q x a"
    using executeOne_sound by (metis prod.collapse)
  then have "list_all2 ?Q (zip es reqs) rs"
    using runGroup_inv [OF _ _ run, where I = "\<lambda>_. True" and Q = ?Q] by blast
  moreover have ids: "ids = map en_EnclaveID es" "set es \<subseteq> set (po_nodes p)"
    using lookupEnclaves_sound [OF es(1)] by auto
  ultimately have len: "length rs = length es"
    and acc: "\<And>i. i < length es \<Longrightarrow> responseAccepted env (es ! i) (scr_ComputeRequest (reqs ! i)) (xr_Response (rs ! i))"
    using es(2) by (auto simp: list_all2_conv_all_nth)
  show ?thesis
  proof (intro conjI allI impI)
    fix i assume "i < length ids"
    then show "\<exists>e\<in>set (po_nodes p). en_EnclaveID e = ids ! i \<and>
       responseAccepted env e (scr_ComputeRequest (reqs ! i)) (xr_Response (rs ! i))"
      using ids acc by (intro bexI [of _ "es ! i"]) (auto simp: subset_iff)
  qed (use len ids es(2) in auto)
qed

lemma GetPublicKeys_sound:
  assumes "pool_inv env p" "GetPublicKeys env net now rid chk p = (Ok ds, p')"
  shows "\<exists>d sel e. ds = [d] \<and> SelectEnclaves (po_enclaveSelector p) (po_nodes p) rid chk = Inr [sel] \<and>
    e \<in> set (po_nodes p) \<and> en_EnclaveID e = en_EnclaveID sel \<and> keyAttested env e d"
proof -
  from assms(2) obtain es where es: "SelectEnclaves (po_enclaveSelector p) (po_nodes p) rid chk = Inr es"
    and run: "runGroup (fetchOrCached env net now rid) es p = (Ok ds, p')"
    by (auto simp: GetPublicKeys_def split: sum.splits)
  from es obtain sel where sel: "es = [sel]"
    by (auto simp: SelectEnclaves_def Let_def split: if_splits option.splits)
  have mem: "sel \<in> set (po_nodes p)" using rr.select_live [OF es] sel by simp
  obtain d where d: "fetchOrCached env net now rid sel p = (Ok d, p')" "ds = [d]"
    using run sel by (auto split: prod.splits outcome.splits)
  from fetchOrCached_sound [OF assms(1) mem d(1)] es sel d(2) show ?thesis by blast
qed

lemma validateNodes_sound:
  assumes "validateNodes env net nodes p = (Ok (), p')"
  shows "\<forall>e\<in>set nodes. \<exists>d. keyAttested env e d"
proof -
  let ?f = "\<lambda>e q. case getSingleEnclavePublicKey env net e zeroRequestID q of
           (Panic, q') \<Rightarrow> (Panic, q')
         | (Err err, q') \<Rightarrow> (Err (FetchFailedFor (en_EnclaveID e) err), q')
         | (Ok _, q') \<Rightarrow> (Ok (), q')"
  obtain us where run: "runGroup ?f nodes p = (Ok us, p')"
    using assms by (auto simp: validateNodes_def split: prod.splits outcome.splits)
  have "?f e q = (r, q') \<Longrightarrow> \<forall>a. r = Ok a \<longrightarrow> (\<exists>d. keyAttested env e d)" for e q r q'
    using getSingle_sound(2) [of env net e zeroRequestID q] by (auto split: prod.splits outcome.splits)
  then have "list_all2 (\<lambda>e _. \<exists>d. keyAttested env e d) nodes us"
    using runGroup_inv [OF _ _ run, where I = "\<lambda>_. True" and Q = "\<lambda>e _. \<exists>d. keyAttested env e d"] by blast
  then show ?thesis by (auto simp: list_all2_conv_all_nth in_set_conv_nth)
qed

lemma GetConfigs_sound:
  assumes "GetConfigs env net p = (Ok cs, p')"
  shows "list_all2 (\<lambda>e c. \<exists>d. keyAttested env e d \<and> pk_Config (ep_Response d) = c) (po_nodes p) cs"
proof -
  obtain pks where run: "runJoined (\<lambda>e. getSingleEnclavePublicKey env net e zeroRequestID) (po_nodes p) p = (Some (pks, []), p')"
    and cs: "cs = map (\<lambda>pk. pk_Config (ep_Response pk)) pks"
    using assms by (auto simp: GetConfigs_def split: if_splits prod.splits option.splits)
  have "list_all2 (keyAttested env) (po_nodes p) pks"
    using runJoined_inv [OF _ _ run, where I = "\<lambda>_. True" and Q = "keyAttested env"] getSingle_sound(2) by blast
  then show ?thesis unfolding cs list_all2_map2 by (rule list_all2_mono) auto
qed

text \<open>The buffer is at least a second, so an entry goes at least a second before its shortest time to live.\<close>

lemma minTTLLoop_le: "minTTLLoop m ts \<le> m \<and> (\<forall>t\<in>set ts. minTTLLoop m ts \<le> t)"
proof (induction ts arbitrary: m)
  case (Cons t ts)
  from Cons [of "if t < m then t else m"] show ?case by auto
qed simp

lemma calculateEffectiveTTL_le:
  assumes "t \<in> set ttls"
  shows "calculateEffectiveTTL env cfg ttls + second \<le> t" "calculateEffectiveTTL env cfg ttls + second \<le> cc_MaxTTL cfg"
proof -
  obtain u us where ttls: "ttls = u # us" using assms by (cases ttls) auto
  have "minTTLLoop u us \<le> t" using minTTLLoop_le [of u us] assms ttls by auto
  then show "calculateEffectiveTTL env cfg ttls + second \<le> t" "calculateEffectiveTTL env cfg ttls + second \<le> cc_MaxTTL cfg"
    by (auto simp: calculateEffectiveTTL_def ttls Let_def)
qed

lemma getCached_age:
  assumes "pool_inv env p" "getCachedPublicKey now k p = Some d"
  shows "\<exists>c it. po_publicKeyCache p = Some c \<and> ca_items c k = Some it \<and> cp_Data (ci_Value it) = d \<and>
    (\<forall>t\<in>set (pk_TTLs (ep_Response d)). now + second \<le> cp_CachedAt (ci_Value it) + t \<and>
       now + second \<le> cp_CachedAt (ci_Value it) + cc_MaxTTL (po_cacheConfig p))"
proof -
  from assms(2) obtain c it where c: "po_publicKeyCache p = Some c" "ca_items c k = Some it" "\<not> expired now it"
    and d: "cp_Data (ci_Value it) = d"
    by (auto simp: getCachedPublicKey_def Cache_Get_def split: if_splits option.splits)
  from c(1,2) assms(1) have it: "entry_ok env (po_nodes p) (po_cacheConfig p) k it" by (simp add: pool_inv_def)
  have "now - ci_CreationTime it \<le> ci_TimeToLive it" using c(3) by (simp add: expired_def)
  with it d calculateEffectiveTTL_le [of _ "pk_TTLs (ep_Response d)" env "po_cacheConfig p"] have
    "\<forall>t\<in>set (pk_TTLs (ep_Response d)). now + second \<le> cp_CachedAt (ci_Value it) + t \<and>
       now + second \<le> cp_CachedAt (ci_Value it) + cc_MaxTTL (po_cacheConfig p)"
    by (fastforce simp: entry_ok_def)
  with c d show ?thesis by blast
qed

section \<open>A sample pool\<close>

text \<open>
  One enclave, whose attestation is its measurement, behind a network that
  always answers with the same body and a session header.
\<close>

definition sampleReply :: executeReply where
  "sampleReply = \<lparr>xr_Response = sampleResponse\<lparr>er_RequestHash := ComputeRequest_Hash toyHash sampleRequest\<rparr>,
     xr_MetricEvents = [], xr_Metrics = None\<rparr>"

definition samplePoolKeys :: PublicKeyResponse where
  "samplePoolKeys = samplePublicKeys\<lparr>pk_TTLs := [hour]\<rparr>"

definition samplePoolEnv :: PoolEnv where
  "samplePoolEnv = \<lparr>pe_H = toyHash, pe_nitro = (\<lambda>att _ m. att = m), pe_scale = (\<lambda>d r. \<lfloor>of_int d * r\<rfloor>),
     pe_URLOk = (\<lambda>_. True), pe_MarshalRequest = (\<lambda>_. []), pe_MarshalUpdate = (\<lambda>_. []),
     pe_ParsePublicKeys = (\<lambda>_. Some samplePoolKeys), pe_ParseExecute = (\<lambda>_. Some sampleReply),
     pe_ParseError = (\<lambda>_. None), pe_ParseUpdate = (\<lambda>_. None)\<rparr>"

definition sampleNet :: network where
  "sampleNet _ _ = HttpReply 200 (Some []) (Header_Set StickySessionHeader ''pod-1'' Map.empty)"

definition samplePoolConfig :: PoolConfig where
  "samplePoolConfig = \<lparr>pc_Cache = DefaultCacheConfig\<lparr>cc_EnableProactiveRefresh := False\<rparr>, pc_Session = DefaultSessionConfig,
     pc_Metrics = True, pc_RequestTimeoutResolverFn = Some (\<lambda>_. Some second), pc_PublicKeyRetriesMax = 1,
     pc_PublicKeyRetriesBackoff = second\<rparr>"

definition samplePool :: enclavePool where
  "samplePool = (barePool [sampleEnclave 1] None (\<lambda>_. Some second) samplePoolConfig)\<lparr>po_publicKeyCache :=
     Some (NewCache (Some DefaultPublicKeyCacheTTL) (Some (10 * minute)))\<rparr>"

lemma samplePool_New: "NewPoolWithConfig samplePoolEnv sampleNet 0 [sampleEnclave 1] None samplePoolConfig = Ok samplePool"
  by (simp add: NewPoolWithConfig_def samplePoolConfig_def samplePool_def DefaultCacheConfig_def)

lemma samplePool_simps [simp]:
  "po_nodes samplePool = [sampleEnclave 1]" "po_enclaveSelector samplePool = NewRoundRobinEnclaveSelector"
  "po_requestTimeoutResolverFn samplePool b = Some second" "po_publicKeyRetriesMax samplePool = 1"
  "po_fakeValidations samplePool = Some 0" "po_sessionConfig samplePool = DefaultSessionConfig"
  by (simp_all add: samplePool_def barePool_def samplePoolConfig_def)

lemma sample_validate:
  "validateAttestation samplePoolEnv (sampleEnclave b) ud [b] p = (None, p)"
  by (simp add: validateAttestation_def validateAttestationAgainstEnclaves_def samplePoolEnv_def ValidateAttestation_def
      ForEnclaveType_def EnclaveTypeFake_def)

lemma sample_getSingle:
  "\<exists>p'. getSingleEnclavePublicKey samplePoolEnv sampleNet (sampleEnclave 1) rid samplePool =
     (Ok \<lparr>ep_Response = samplePoolKeys, ep_EnclaveID = id32 1\<rparr>, p')"
proof -
  have "pk_Attestation samplePoolKeys = [1]" "\<not> EnclaveConfig_IsZero (Some (pk_Config samplePoolKeys))"
    "pe_ParsePublicKeys samplePoolEnv = (\<lambda>_. Some samplePoolKeys)" "pe_URLOk samplePoolEnv = (\<lambda>_. True)"
    by (simp_all add: samplePoolKeys_def samplePublicKeys_def sampleConfig_def EnclaveConfig_IsZero_def samplePoolEnv_def)
  then show ?thesis
    by (simp add: getSingleEnclavePublicKey_def publicKeyCall_def SetAuthHeader_def Let_def sampleNet_def eval_nat_numeral
        acceptPublicKeys_def readBody_def sample_validate)
qed

lemma sample_select:
  "SelectEnclaves NewRoundRobinEnclaveSelector [sampleEnclave 1] (requestIDOf 0) None = Inr [sampleEnclave 1]"
  using select_all_live [of "[sampleEnclave 1]" None NewRoundRobinEnclaveSelector 0]
  by (simp add: meets_def liveIn_def isEnclaveDead_def NewRoundRobinEnclaveSelector_def)

lemma sample_GetPublicKeys:
  "\<exists>p'. GetPublicKeys samplePoolEnv sampleNet now (requestIDOf 0) None samplePool =
     (Ok [\<lparr>ep_Response = samplePoolKeys, ep_EnclaveID = id32 1\<rparr>], p')"
proof -
  obtain p' where "getSingleEnclavePublicKey samplePoolEnv sampleNet (sampleEnclave 1) (requestIDOf 0) samplePool =
     (Ok \<lparr>ep_Response = samplePoolKeys, ep_EnclaveID = id32 1\<rparr>, p')" using sample_getSingle by blast
  then show ?thesis by (simp add: GetPublicKeys_def fetchOrCached_def sample_select)
qed

definition sampleSigned :: SignedComputeRequest where
  "sampleSigned = \<lparr>scr_ComputeRequest = sampleRequest, scr_Signature = replicate 64 1\<rparr>"

lemma sample_ExecuteBatch:
  "\<exists>p'. ExecuteBatch samplePoolEnv sampleNet [sampleSigned] [id32 1] samplePool = (Ok [sampleReply], p')"
proof -
  have "er_Attestation (xr_Response sampleReply) = [1]"
    "er_RequestHash (xr_Response sampleReply) = ComputeRequest_Hash (pe_H samplePoolEnv) sampleRequest"
    "cr_Version sampleRequest = ServiceConfidentialComputeVersionLegacy"
    "pe_ParseExecute samplePoolEnv = (\<lambda>_. Some sampleReply)" "pe_URLOk samplePoolEnv = (\<lambda>_. True)"
    by (simp_all add: sampleReply_def sample_defs samplePoolEnv_def ServiceConfidentialComputeVersionLegacy_def)
  then show ?thesis
    by (simp add: ExecuteBatch_def executeOne_def executeCall_def SetAuthHeader_def Let_def sampleNet_def
        readBody_def acceptExecute_def sample_validate sampleSigned_def)
qed

lemma sample_effective: "calculateEffectiveTTL samplePoolEnv (po_cacheConfig samplePool) [hour] = 27 * minute"
  by (simp add: calculateEffectiveTTL_def Let_def samplePoolEnv_def samplePool_def barePool_def samplePoolConfig_def
      DefaultCacheConfig_def cc_const)

lemma sample_cached:
  assumes "0 \<le> t" "t \<le> 27 * minute"
  shows "getCachedPublicKey t (id32 1) (poolRun samplePoolEnv [PGetPublicKeys sampleNet 0 (requestIDOf 0) None] samplePool) =
    Some \<lparr>ep_Response = samplePoolKeys, ep_EnclaveID = id32 1\<rparr>"
proof -
  let ?d = "\<lparr>ep_Response = samplePoolKeys, ep_EnclaveID = id32 1\<rparr>"
  obtain q where g: "getSingleEnclavePublicKey samplePoolEnv sampleNet (sampleEnclave 1) (requestIDOf 0) samplePool = (Ok ?d, q)"
    using sample_getSingle by blast
  note q = talked_fields [OF getSingle_sound(1) [OF g]]
  have "poolRun samplePoolEnv [PGetPublicKeys sampleNet 0 (requestIDOf 0) None] samplePool =
      setCachedPublicKey samplePoolEnv 0 (id32 1) ?d q"
    using g sample_select by (simp add: poolRun_def GetPublicKeys_def fetchOrCached_def)
  moreover have "cc_EnableCache (po_cacheConfig samplePool)" "pk_TTLs samplePoolKeys = [hour]"
    "po_publicKeyCache samplePool = Some (NewCache (Some DefaultPublicKeyCacheTTL) (Some (10 * minute)))"
    by (simp_all add: samplePool_def barePool_def samplePoolConfig_def DefaultCacheConfig_def samplePoolKeys_def)
  moreover have "27 * minute > 0" by (simp add: cc_const)
  moreover have "cache_inv (NewCache (Some DefaultPublicKeyCacheTTL) (Some (10 * minute)) :: (bytes, cachedPublicKeyData) Cache)"
    unfolding NewCache_def by (rule cache_inv_New)
  ultimately show ?thesis using assms
    by (simp add: getCachedPublicKey_def setCachedPublicKey_def q sample_effective Get_Set_same itemTTL_def)
qed

section \<open>Properties\<close>



text \<open>
  C7. Responses come from attested enclaves: when \<open>ExecuteBatch\<close> succeeds, the \<open>i\<close>th
  response was attested by an enclave of the pool with the \<open>i\<close>th requested id, and
  it names the hash of the \<open>i\<close>th request and, beyond the legacy version, its
  application id.
\<close>

theorem execute_batch_attested:
  assumes "ExecuteBatch env net reqs ids p = (Ok rs, p')"
  shows "length rs = length ids \<and> (\<forall>i<length ids. \<exists>e\<in>set (po_nodes p). en_EnclaveID e = ids ! i \<and>
     responseAccepted env e (scr_ComputeRequest (reqs ! i)) (xr_Response (rs ! i)))"
  using ExecuteBatch_sound [OF assms] by blast

theorem execute_batch_attested_witness:
  "\<exists>rs p'. ExecuteBatch samplePoolEnv sampleNet [sampleSigned] [id32 1] samplePool = (Ok rs, p') \<and>
     (\<exists>e\<in>set (po_nodes samplePool). responseAccepted samplePoolEnv e sampleRequest (xr_Response (rs ! 0)))"
proof -
  obtain p' where g: "ExecuteBatch samplePoolEnv sampleNet [sampleSigned] [id32 1] samplePool = (Ok [sampleReply], p')"
    using sample_ExecuteBatch by blast
  from execute_batch_attested [OF g] have
    "\<exists>e\<in>set (po_nodes samplePool). responseAccepted samplePoolEnv e sampleRequest (xr_Response ([sampleReply] ! 0))"
    by (auto simp: sampleSigned_def)
  with g show ?thesis by blast
qed


text \<open>
  A cached key is dropped in time: whatever happened since the pool was built, a
  key is served from the cache at most until one second before the shortest of
  its times to live, and before the configured maximum, counted from the fetch
  that cached it.
\<close>

theorem cached_key_age:
  assumes "NewPoolWithConfig env net0 t0 nodes sel cfg = Ok p0" "p = poolRun env evs p0"
    "getCachedPublicKey now k p = Some d"
  shows "\<exists>c it. po_publicKeyCache p = Some c \<and> ca_items c k = Some it \<and> cp_Data (ci_Value it) = d \<and>
    (\<forall>t\<in>set (pk_TTLs (ep_Response d)). now + second \<le> cp_CachedAt (ci_Value it) + t \<and>
       now + second \<le> cp_CachedAt (ci_Value it) + cc_MaxTTL (po_cacheConfig p))"
  using getCached_age [OF _ assms(3)] poolRun_inv NewPool_inv [OF assms(1)] assms(2) by blast

theorem cached_key_age_witness:
  "\<exists>c it. po_publicKeyCache (poolRun samplePoolEnv [PGetPublicKeys sampleNet 0 (requestIDOf 0) None] samplePool) = Some c \<and>
     ca_items c (id32 1) = Some it \<and> (\<forall>t\<in>set (pk_TTLs samplePoolKeys). 20 * minute + second \<le> cp_CachedAt (ci_Value it) + t)"
proof -
  have "0 \<le> 20 * minute" "20 * minute \<le> 27 * minute" by (simp_all add: cc_const)
  from cached_key_age [OF samplePool_New refl sample_cached [OF this]] show ?thesis by auto
qed

lemma sessionSet_mem: "(k, [v]) \<in> set (sessionSet k v sd)"
  by (induction k v sd rule: sessionSet.induct) auto

text \<open>The session stored for a key replays \<open>v\<close> under the name.\<close>

definition replays :: "string \<Rightarrow> string \<Rightarrow> bytes \<Rightarrow> (string \<rightharpoonup> SessionData) \<Rightarrow> bool" where
  "replays name v key store \<longleftrightarrow> (\<exists>sd. store (EncodeToString key) = Some sd \<and> (canonicalKey name, [v]) \<in> set sd)"

lemma replays_set: "replays name v key (store(EncodeToString k \<mapsto> sessionSet (canonicalKey name) v sd)) \<longleftrightarrow>
    k = key \<or> replays name v key store"
  by (auto simp: replays_def sessionSet_mem)

lemma sessionLoop_keeps: "replays name v key store \<Longrightarrow> replays name v key (sessionLoop name v keys store)"
  by (induction keys arbitrary: store) (simp_all add: Let_def replays_set)

lemma sessionLoop_sets:
  "\<lbrakk>key \<in> set keys; key \<noteq> []\<rbrakk> \<Longrightarrow> replays name v key (sessionLoop name v keys store)"
proof (induction keys arbitrary: store)
  case (Cons k keys)
  show ?case
  proof (cases "k = key")
    case True
    then show ?thesis using Cons.prems by (simp add: Let_def sessionLoop_keeps replays_set)
  next
    case False
    with Cons show ?thesis by (simp add: Let_def)
  qed
qed simp

text \<open>The values a header holds for a name only grow by \<open>Add\<close>.\<close>

definition headerValues :: "string \<Rightarrow> Header \<Rightarrow> string set" where
  "headerValues k h = (case h (canonicalKey k) of None \<Rightarrow> {} | Some vs \<Rightarrow> set vs)"

lemma headerValues_Add: "headerValues k (Header_Add k' v h) =
    (if canonicalKey k = canonicalKey k' then insert v (headerValues k h) else headerValues k h)"
  by (auto simp: headerValues_def Header_Add_def split: option.splits)

lemma headerValues_fold: "w \<in> headerValues k h \<Longrightarrow> w \<in> headerValues k (fold (\<lambda>(k, vs). fold (Header_Add k) vs) sd h)"
proof (induction sd arbitrary: h)
  case (Cons a sd)
  have "w \<in> headerValues k (fold (Header_Add k') vs h)" if "w \<in> headerValues k h" for k' vs h
    using that by (induction vs arbitrary: h) (simp_all add: headerValues_Add)
  with Cons show ?case by (auto split: prod.split)
qed simp

lemma headerValues_replay:
  "(canonicalKey name, [v]) \<in> set sd \<Longrightarrow> v \<in> headerValues name (fold (\<lambda>(k, vs). fold (Header_Add k) vs) sd h)"
proof (induction sd arbitrary: h)
  case (Cons a sd)
  show ?case
  proof (cases "a = (canonicalKey name, [v])")
    case True
    then show ?thesis by (auto intro!: headerValues_fold simp: headerValues_Add)
  qed (use Cons in auto)
qed simp

lemma acceptPublicKeys_session:
  assumes "acceptPublicKeys env e st b h p = (Ok d, p')"
  shows "\<exists>q. talked p q \<and> po_sessionStore q = po_sessionStore p \<and> p' = updateSession (pk_PublicKeys (ep_Response d)) h q"
proof -
  have v: "po_sessionStore (snd (validateAttestation env e ud att p)) = po_sessionStore p" for ud att
    by (simp add: validateAttestation_def split: prod.split)
  from assms obtain out q where "validateAttestation env e (PublicKeyHash (pe_H env) out) (pk_Attestation out) p = (None, q)"
      "p' = updateSession (pk_PublicKeys out) h q" "ep_Response d = out"
    by (auto simp: acceptPublicKeys_def split: sum.splits if_splits option.splits prod.splits)
  with v show ?thesis using talked_validate by (metis snd_conv)
qed

text \<open>
  Sessions stick: after a key response that carries the session header with a
  value was accepted, every execution request for one of its keys is sent with
  that value in that header, whatever other headers the request has.
\<close>

theorem session_roundtrip:
  assumes "acceptPublicKeys env e st b h p = (Ok d, p')" "se_EnableSessionPersistence (po_sessionConfig p)"
    "name = se_SessionHeaderName (po_sessionConfig p)" "name \<noteq> []" "Header_Get name h \<noteq> []"
    "key \<in> set (pk_PublicKeys (ep_Response d))" "key \<noteq> []"
    "executeCall env e' req p' = Inr call" "cr_EnclaveEphemeralPublicKey (scr_ComputeRequest req) = key"
  shows "Header_Get name h \<in> headerValues name (hc_Headers call)"
proof -
  from acceptPublicKeys_session [OF assms(1)] obtain q where q: "talked p q" and
    p': "p' = updateSession (pk_PublicKeys (ep_Response d)) h q" by blast
  have cfg: "po_sessionConfig q = po_sessionConfig p" "po_sessionConfig p' = po_sessionConfig p"
    using talked_fields(8) [OF q] talked_fields(8) [OF talked_session [of q]] p' by auto
  have "po_sessionStore p' = sessionLoop name (Header_Get name h) (pk_PublicKeys (ep_Response d)) (po_sessionStore q)"
    using assms(2-5) by (simp add: p' updateSession_def Let_def cfg(1))
  then obtain sd where "po_sessionStore p' (EncodeToString key) = Some sd" "(canonicalKey name, [Header_Get name h]) \<in> set sd"
    using sessionLoop_sets [OF assms(6,7)] by (metis replays_def)
  then show ?thesis using assms(2,8,9) headerValues_replay
    by (auto simp: executeCall_def applySession_def cfg(2) Let_def split: if_splits option.splits)
qed

lemma sample_accept:
  "acceptPublicKeys samplePoolEnv (sampleEnclave 1) 200 (Some []) h samplePool =
     (Ok \<lparr>ep_Response = samplePoolKeys, ep_EnclaveID = id32 1\<rparr>, updateSession (pk_PublicKeys samplePoolKeys) h samplePool)"
proof -
  have "pk_Attestation samplePoolKeys = [1]" "\<not> EnclaveConfig_IsZero (Some (pk_Config samplePoolKeys))"
    "pe_ParsePublicKeys samplePoolEnv = (\<lambda>_. Some samplePoolKeys)"
    by (simp_all add: samplePoolKeys_def samplePublicKeys_def sampleConfig_def EnclaveConfig_IsZero_def samplePoolEnv_def)
  then show ?thesis by (simp add: acceptPublicKeys_def readBody_def sample_validate)
qed

theorem session_roundtrip_witness:
  "\<exists>p' call. executeCall samplePoolEnv (sampleEnclave 1) sampleSigned p' = Inr call \<and>
     ''pod-1'' \<in> headerValues StickySessionHeader (hc_Headers call)"
proof -
  let ?h = "Header_Set StickySessionHeader ''pod-1'' Map.empty"
  let ?p = "updateSession (pk_PublicKeys samplePoolKeys) ?h samplePool"
  obtain call where call: "executeCall samplePoolEnv (sampleEnclave 1) sampleSigned ?p = Inr call"
    by (simp add: executeCall_def samplePoolEnv_def SetAuthHeader_def Let_def)
  have "id32 9 \<in> set (pk_PublicKeys samplePoolKeys)" "id32 9 \<noteq> []" "StickySessionHeader \<noteq> []"
    "cr_EnclaveEphemeralPublicKey (scr_ComputeRequest sampleSigned) = id32 9" "Header_Get StickySessionHeader ?h = ''pod-1''"
    by (simp_all add: samplePoolKeys_def sample_defs sampleSigned_def StickySessionHeader_def Header_Get_Set id32_def)
  with session_roundtrip [OF sample_accept [of ?h] _ refl _ _ _ _ call, of "id32 9"] call show ?thesis
    by (auto simp: DefaultSessionConfig_def)
qed

text \<open>
  A fetch survives transient failures: when some attempt within the allowed
  number gets a reply and the caller does not give up before, the outcome is
  that of the first reply, however many attempts failed before it; and the
  retry loop never makes more attempts than allowed.
\<close>

theorem fetch_retries:
  assumes "a \<le> nat (po_publicKeyRetriesMax p)" "0 \<le> po_publicKeyRetriesMax p" "net a call = HttpReply st b h"
    "\<forall>i<a. net i call = TransportError False"
    "publicKeyCall env e rid = Inr call" "po_requestTimeoutResolverFn p True = Some t"
  shows "getSingleEnclavePublicKey env net e rid p = acceptPublicKeys env e st b h p"
proof -
  have "fetchLoop net call (Suc left) k errs = FReply st b h"
    if "a - k \<le> left" "k \<le> a" for left k errs
    using that
  proof (induction left arbitrary: k errs)
    case 0
    then show ?case using assms(3) by simp
  next
    case (Suc left)
    show ?case
    proof (cases "k = a")
      case False
      with Suc.prems Suc.IH [of "Suc k" "Suc errs"] assms(4) show ?thesis by simp
    qed (use assms(3) in simp)
  qed
  from this [of 0 "nat (po_publicKeyRetriesMax p)" 0] assms show ?thesis
    by (simp add: getSingleEnclavePublicKey_def Suc_nat_eq_nat_zadd1 add.commute)
qed

theorem fetch_retries_witness:
  "\<exists>p'. getSingleEnclavePublicKey samplePoolEnv (\<lambda>i c. if i = 0 then TransportError False else sampleNet i c)
     (sampleEnclave 1) (requestIDOf 0) samplePool = (Ok \<lparr>ep_Response = samplePoolKeys, ep_EnclaveID = id32 1\<rparr>, p')"
proof -
  let ?net = "\<lambda>i c. if i = 0 then TransportError False else sampleNet i c"
  obtain call where "publicKeyCall samplePoolEnv (sampleEnclave 1) (requestIDOf 0) = Inr call"
    by (simp add: publicKeyCall_def samplePoolEnv_def SetAuthHeader_def)
  from fetch_retries [where a = 1 and net = ?net and call = call and p = samplePool, OF _ _ _ _ this] show ?thesis
    by (simp add: sampleNet_def sample_accept)
qed

text \<open>
  A fetch crashes the process exactly when a negative number of retries is
  configured: the loop then makes no attempt, and the response that is read is
  nil.
\<close>

theorem negative_retries_panic:
  "fst (getSingleEnclavePublicKey env net e rid p) = Panic \<longleftrightarrow>
     po_publicKeyRetriesMax p < 0 \<and> (\<exists>call. publicKeyCall env e rid = Inr call) \<and> po_requestTimeoutResolverFn p True \<noteq> None"
proof
  assume "fst (getSingleEnclavePublicKey env net e rid p) = Panic"
  moreover from this have "po_publicKeyRetriesMax p < 0" using getSingle_Panic by (metis prod.collapse)
  ultimately show "po_publicKeyRetriesMax p < 0 \<and> (\<exists>call. publicKeyCall env e rid = Inr call) \<and> po_requestTimeoutResolverFn p True \<noteq> None"
    by (auto simp: getSingleEnclavePublicKey_def split: sum.splits option.splits)
qed (auto simp: getSingleEnclavePublicKey_def)

text \<open>
  The default constructor never yields a pool: it passes no timeout resolver, and
  a missing resolver is refused.
\<close>

theorem NewPool_always_fails: "NewPool env net now nodes sel = Err NoTimeoutResolver"
  by (simp add: NewPool_def NewPoolWithConfig_def)

text \<open>A new measurement for the same enclave, at a new address.\<close>

definition movedEnclave :: Enclave where
  "movedEnclave = (sampleEnclave 1)\<lparr>en_EnclaveURL := ''https://f'', en_TrustedValues := [[2, 2]]\<rparr>"

definition raceEnv :: PoolEnv where
  "raceEnv = samplePoolEnv\<lparr>pe_ParsePublicKeys := (\<lambda>b. Some (samplePoolKeys\<lparr>pk_Attestation := if b = [] then [1] else [2, 2]\<rparr>))\<rparr>"

definition raceNet :: network where
  "raceNet _ call = HttpReply 200 (Some (if hc_URL call = ''https://f/publicKeys?'' then [0] else [])) Map.empty"

definition raceKey :: "bytes \<Rightarrow> EnclavePublicKeyData" where
  "raceKey att = \<lparr>ep_Response = samplePoolKeys\<lparr>pk_Attestation := att\<rparr>, ep_EnclaveID = id32 1\<rparr>"

lemma race_validate:
  "validateAttestation raceEnv (sampleEnclave 1) ud [1] p = (None, p)"
  "validateAttestation raceEnv movedEnclave ud [2, 2] p = (None, p)"
  by (simp_all add: validateAttestation_def validateAttestationAgainstEnclaves_def samplePoolEnv_def raceEnv_def
      movedEnclave_def ValidateAttestation_def ForEnclaveType_def EnclaveTypeFake_def)

text \<open>A fetch whose first attempt is answered.\<close>

lemma getSingle_first:
  assumes "publicKeyCall env e rid = Inr call" "po_requestTimeoutResolverFn p True = Some t" "0 \<le> po_publicKeyRetriesMax p"
    "net 0 call = HttpReply st b h"
  shows "getSingleEnclavePublicKey env net e rid p = acceptPublicKeys env e st b h p"
proof -
  obtain k where "nat (po_publicKeyRetriesMax p + 1) = Suc k" using assms(3) by (cases "nat (po_publicKeyRetriesMax p + 1)") auto
  with assms show ?thesis by (simp add: getSingleEnclavePublicKey_def)
qed

lemma race_accept:
  assumes "validateAttestation raceEnv e (PublicKeyHash (pe_H raceEnv) (samplePoolKeys\<lparr>pk_Attestation := att\<rparr>)) att samplePool = (None, samplePool)"
    "en_EnclaveID e = id32 1" "att = (if b = [] then [1] else [2, 2])" "length b \<le> 1"
  shows "acceptPublicKeys raceEnv e 200 (Some b) Map.empty samplePool = (Ok (raceKey att), samplePool)"
proof -
  have "\<not> EnclaveConfig_IsZero (Some (pk_Config samplePoolKeys))"
    by (simp add: samplePoolKeys_def samplePublicKeys_def sampleConfig_def EnclaveConfig_IsZero_def)
  moreover have "pe_ParsePublicKeys raceEnv b = Some (samplePoolKeys\<lparr>pk_Attestation := att\<rparr>)"
    using assms(3) by (simp add: raceEnv_def)
  moreover have "readBody (Some b) = Inr b" using assms(4) by (simp add: readBody_def Let_def MaxEnclaveResponseBodyBytes_def)
  ultimately show ?thesis using assms(1,2)
    by (simp add: acceptPublicKeys_def raceKey_def updateSession_def Let_def Header_Get_def)
qed

lemma race_fetch:
  "getSingleEnclavePublicKey raceEnv raceNet (sampleEnclave 1) zeroRequestID samplePool = (Ok (raceKey [1]), samplePool)"
  "getSingleEnclavePublicKey raceEnv raceNet movedEnclave zeroRequestID samplePool = (Ok (raceKey [2, 2]), samplePool)"
proof -
  let ?call = "\<lambda>url. \<lparr>hc_Method = GET, hc_URL = url @ ''/publicKeys?'', hc_Headers = Map.empty, hc_Body = []\<rparr>"
  have call: "publicKeyCall raceEnv e zeroRequestID = Inr (?call (en_EnclaveURL e))" if "en_EnclaveAuthHeader e = []" for e
    using that by (simp add: publicKeyCall_def raceEnv_def samplePoolEnv_def SetAuthHeader_def PublicKeyPath_def)
  have url: "en_EnclaveURL (sampleEnclave 1) = ''https://e''" "en_EnclaveURL movedEnclave = ''https://f''"
    "en_EnclaveAuthHeader movedEnclave = []" "en_EnclaveID movedEnclave = id32 1"
    by (simp_all add: sampleEnclave_def movedEnclave_def)
  have net: "raceNet 0 (?call ''https://e'') = HttpReply 200 (Some []) Map.empty"
    "raceNet 0 (?call ''https://f'') = HttpReply 200 (Some [0]) Map.empty" by (simp_all add: raceNet_def)
  show "getSingleEnclavePublicKey raceEnv raceNet (sampleEnclave 1) zeroRequestID samplePool = (Ok (raceKey [1]), samplePool)"
    using getSingle_first [where net = raceNet and p = samplePool and t = second, OF call [of "sampleEnclave 1"]] net(1) url race_accept [OF race_validate(1), of "[]"] by simp
  show "getSingleEnclavePublicKey raceEnv raceNet movedEnclave zeroRequestID samplePool = (Ok (raceKey [2, 2]), samplePool)"
    using getSingle_first [where net = raceNet and p = samplePool and t = second, OF call [of movedEnclave]] net(2) race_accept [OF race_validate(2), of "[0]"] url
    by simp
qed

lemma moved_hash: "EnclavesList_Hash toyHash [movedEnclave] \<noteq> EnclavesList_Hash toyHash [sampleEnclave 1]"
  by (simp add: EnclavesList_Hash_def toyHash_def EnclavesList_preimage_def typeTag_def writeEach_def writeEnclave_def
      writeWithLength_def writeLengthPrefix_def movedEnclave_def sampleEnclave_def id32_def DomainSeparator_def)

text \<open>
  A key fetched before a node update and cached after it survives the update: in
  some interleaving of one fetch with an update, the cache serves a key that no
  enclave of the installed list has attested.
\<close>

theorem update_races_with_fetch:
  "\<exists>env net e nodes p d p1 p2 now. getSingleEnclavePublicKey env net e zeroRequestID p = (Ok d, p1) \<and> e \<in> set (po_nodes p) \<and>
     UpdateNodes env net nodes p1 = (Ok (), p2) \<and> po_nodes p2 = nodes \<and>
     getCachedPublicKey now (en_EnclaveID e) (setCachedPublicKey env now (en_EnclaveID e) d p2) = Some d \<and>
     \<not> (\<exists>e'\<in>set nodes. keyAttested env e' d)"
proof -
  let ?p2 = "commitNodes [movedEnclave] samplePool"
  have "pe_H raceEnv = toyHash" by (simp add: raceEnv_def samplePoolEnv_def)
  then have "UpdateNodes raceEnv raceNet [movedEnclave] samplePool = (Ok (), ?p2)"
    using moved_hash race_fetch(2) by (simp add: UpdateNodes_def validateNodes_def)
  moreover have "getCachedPublicKey 0 (id32 1) (setCachedPublicKey raceEnv 0 (id32 1) (raceKey [1]) ?p2) = Some (raceKey [1])"
  proof -
    have c: "cache_inv (Cache_Flush (NewCache a b) :: (bytes, cachedPublicKeyData) Cache)" for a b by (rule cache_inv_Flush)
    have "pk_TTLs (ep_Response (raceKey [1])) = [hour]" by (simp add: raceKey_def samplePoolKeys_def)
    moreover have "calculateEffectiveTTL raceEnv (po_cacheConfig samplePool) [hour] = 27 * minute"
      using sample_effective by (simp add: calculateEffectiveTTL_def raceEnv_def)
    moreover have "po_cacheConfig ?p2 = po_cacheConfig samplePool" "cc_EnableCache (po_cacheConfig samplePool)"
      "po_publicKeyCache ?p2 = Some (Cache_Flush (NewCache (Some DefaultPublicKeyCacheTTL) (Some (10 * minute))))"
      by (simp_all add: commitNodes_def samplePool_def barePool_def samplePoolConfig_def DefaultCacheConfig_def)
    moreover have "0 < minute" by (simp add: cc_const)
    ultimately show ?thesis
      by (simp add: getCachedPublicKey_def setCachedPublicKey_def Get_Set_same [OF c] itemTTL_def)
  qed
  moreover have "po_nodes ?p2 = [movedEnclave]" by (simp add: commitNodes_def Let_def)
  moreover have "\<not> keyAttested raceEnv movedEnclave (raceKey [1])"
    by (simp add: keyAttested_def attests_def raceEnv_def samplePoolEnv_def movedEnclave_def raceKey_def EnclaveTypeFake_def)
  moreover have "en_EnclaveID (sampleEnclave 1) = id32 1" "sampleEnclave 1 \<in> set (po_nodes samplePool)" by simp_all
  ultimately show ?thesis using race_fetch(1)
    by (intro exI [of _ raceEnv] exI [of _ raceNet] exI [of _ "sampleEnclave 1"] exI [of _ "[movedEnclave]"] exI [of _ samplePool]
        exI [of _ "raceKey [1]"] exI [of _ samplePool] exI [of _ ?p2] exI [of _ 0]) simp
qed

end
