(* ===== verification/CC_Telemetry.thy ===== *)
theory CC_Telemetry
  imports CC_Pool
begin

text \<open>
  The telemetry of the capability framework:
  \<^verbatim>\<open>src/capabilities/framework/metrics.go\<close>, \<^verbatim>\<open>user_logs.go\<close>,
  \<^verbatim>\<open>capability_events.go\<close> and \<^verbatim>\<open>beholder_events.go\<close>. The emitter turns events
  into counters and histograms; an instrument is the list of its measurements,
  and whether the meter can create an instrument is an argument. The lemmas show
  that a counter counts, that only the listed attributes leave the node, and
  that instrument names are legal.
\<close>

section \<open>Instrument names\<close>

abbreviation byteIn :: "nat \<Rightarrow> nat \<Rightarrow> char \<Rightarrow> bool" where
  "byteIn a b c \<equiv> a \<le> (of_char c :: nat) \<and> (of_char c :: nat) \<le> b"

text \<open>
  The number of bytes of the first rune of a string, as \<^verbatim>\<open>utf8.DecodeRuneInString\<close>
  finds it: an invalid encoding is a rune of one byte.
\<close>

definition validThree :: "char \<Rightarrow> char \<Rightarrow> bool" where
  "validThree a b \<longleftrightarrow>
     (byteIn 0xE0 0xE0 a \<and> byteIn 0xA0 0xBF b) \<or> (byteIn 0xE1 0xEC a \<and> byteIn 0x80 0xBF b) \<or>
     (byteIn 0xED 0xED a \<and> byteIn 0x80 0x9F b) \<or> (byteIn 0xEE 0xEF a \<and> byteIn 0x80 0xBF b)"

definition validFour :: "char \<Rightarrow> char \<Rightarrow> bool" where
  "validFour a b \<longleftrightarrow>
     (byteIn 0xF0 0xF0 a \<and> byteIn 0x90 0xBF b) \<or> (byteIn 0xF1 0xF3 a \<and> byteIn 0x80 0xBF b) \<or>
     (byteIn 0xF4 0xF4 a \<and> byteIn 0x80 0x8F b)"

fun runeLen :: "string \<Rightarrow> nat" where
  "runeLen (a # b # c # d # _) =
     (if byteIn 0xC2 0xDF a \<and> byteIn 0x80 0xBF b then 2
      else if validThree a b \<and> byteIn 0x80 0xBF c then 3
      else if validFour a b \<and> byteIn 0x80 0xBF c \<and> byteIn 0x80 0xBF d then 4 else 1)"
| "runeLen [a, b, c] =
     (if byteIn 0xC2 0xDF a \<and> byteIn 0x80 0xBF b then 2
      else if validThree a b \<and> byteIn 0x80 0xBF c then 3 else 1)"
| "runeLen [a, b] = (if byteIn 0xC2 0xDF a \<and> byteIn 0x80 0xBF b then 2 else 1)"
| "runeLen _ = 1"

text \<open>The complement of \<^verbatim>\<open>illegalCharPattern\<close>.\<close>

definition legalChar :: "char \<Rightarrow> bool" where
  "legalChar c \<longleftrightarrow> byteIn 65 90 c \<or> byteIn 97 122 c \<or> byteIn 48 57 c \<or> c \<in> set ''_./-''"

fun sanitizeName :: "string \<Rightarrow> string" where
  "sanitizeName [] = []"
| "sanitizeName (c # cs) =
     (if legalChar c then c else CHR ''_'') # sanitizeName (drop (runeLen (c # cs) - 1) cs)"

section \<open>The emitter\<close>

datatype attrVal = StringAttr string | FloatAttr rat | IntAttr int | BoolAttr bool

type_synonym attributes = "string \<rightharpoonup> attrVal"

definition allowedMetricAttributes :: "string list" where
  "allowedMetricAttributes =
     [''component'', ''enclave.id'', ''endpoint'', ''outcome'', ''status_code'', ''capability_id'', ''method'',
      ''step_ref'', ''success'', ''error_type'', ''num_signatures'', ''num_ciphertexts'', ''num_requests'',
      ''max_concurrent'', ''metric_type'', ''workflow.id'', ''workflow.name'', ''workflow.owner'', ''org.id'']"

definition allowedAttribute :: "string \<Rightarrow> bool" where
  "allowedAttribute k \<longleftrightarrow> k \<in> set allowedMetricAttributes"

definition droppedMetricEvents :: "string list" where
  "droppedMetricEvents = [''request_id'']"

text \<open>
  \<open>me_counters\<close> and \<open>me_histograms\<close> hold, for each instrument, what was added or
  recorded, in order. \<open>mt_Counter\<close> and \<open>mt_Histogram\<close> say whether the meter can
  create an instrument, \<open>mt_Sprintf\<close> prints a value that has no attribute type.
\<close>

record meter =
  mt_Counter :: "string \<Rightarrow> bool"
  mt_Histogram :: "string \<Rightarrow> bool"
  mt_Sprintf :: "anyVal \<Rightarrow> string"

record MetricsEmitter =
  me_baseName :: string
  me_counters :: "string \<rightharpoonup> (int \<times> attributes) list"
  me_histograms :: "string \<rightharpoonup> (rat \<times> attributes) list"

definition NewMetricsEmitter :: "string \<Rightarrow> MetricsEmitter" where
  "NewMetricsEmitter name = \<lparr>me_baseName = name, me_counters = Map.empty, me_histograms = Map.empty\<rparr>"

definition toAttr :: "meter \<Rightarrow> anyVal \<Rightarrow> attrVal" where
  "toAttr mt v = (case v of
     AStr s \<Rightarrow> StringAttr s | ANum x \<Rightarrow> FloatAttr x | AInt i \<Rightarrow> IntAttr i | ABool b \<Rightarrow> BoolAttr b
   | _ \<Rightarrow> StringAttr (mt_Sprintf mt v))"

text \<open>The loop of \<open>Emit\<close> over the details: the attributes, and the duration if it is a float.\<close>

definition attrsOf :: "meter \<Rightarrow> eventDetails \<Rightarrow> attributes" where
  "attrsOf mt details = (\<lambda>k. if k = ''duration_seconds'' \<or> \<not> allowedAttribute k then None
     else map_option (toAttr mt) (details k))"

definition durationOf :: "eventDetails \<Rightarrow> rat option" where
  "durationOf details = (case details ''duration_seconds'' of Some (ANum d) \<Rightarrow> Some d | _ \<Rightarrow> None)"

definition instrumentKey :: "MetricsEmitter \<Rightarrow> string \<Rightarrow> string" where
  "instrumentKey m name = sanitizeName (me_baseName m @ ''.'' @ name)"

definition getOrCreateCounterAndAdd ::
    "meter \<Rightarrow> string \<Rightarrow> int \<Rightarrow> attributes \<Rightarrow> MetricsEmitter \<Rightarrow> MetricsEmitter" where
  "getOrCreateCounterAndAdd mt name v attrs m = (let key = instrumentKey m name in
     case me_counters m key of
       Some c \<Rightarrow> m\<lparr>me_counters := (me_counters m)(key \<mapsto> c @ [(v, attrs)])\<rparr>
     | None \<Rightarrow> if \<not> mt_Counter mt key then m
               else m\<lparr>me_counters := (me_counters m)(key \<mapsto> [(v, attrs)])\<rparr>)"

definition getOrCreateHistogramAndRecord ::
    "meter \<Rightarrow> string \<Rightarrow> rat \<Rightarrow> attributes \<Rightarrow> MetricsEmitter \<Rightarrow> MetricsEmitter" where
  "getOrCreateHistogramAndRecord mt name v attrs m = (let key = instrumentKey m name in
     case me_histograms m key of
       Some h \<Rightarrow> m\<lparr>me_histograms := (me_histograms m)(key \<mapsto> h @ [(v, attrs)])\<rparr>
     | None \<Rightarrow> if \<not> mt_Histogram mt key then m
               else m\<lparr>me_histograms := (me_histograms m)(key \<mapsto> [(v, attrs)])\<rparr>)"

definition MetricsEmitter_Emit :: "meter \<Rightarrow> string \<times> eventDetails \<Rightarrow> MetricsEmitter \<Rightarrow> MetricsEmitter" where
  "MetricsEmitter_Emit mt ev m = (case ev of (event, details) \<Rightarrow>
     if event \<in> set droppedMetricEvents then m
     else let attrs = attrsOf mt details; m1 = getOrCreateCounterAndAdd mt event 1 attrs m
       in (case durationOf details of
             None \<Rightarrow> m1
           | Some d \<Rightarrow> getOrCreateHistogramAndRecord mt (event @ ''.duration'') d attrs m1))"

section \<open>Scoped emitters\<close>

text \<open>
  A scoped emitter is its default attributes over a base emitter: \<^const>\<open>scopedEmit\<close> is
  its \<open>Emit\<close> on the pool's emitter.
\<close>

definition NewScopedEmitter :: "eventDetails \<Rightarrow> eventDetails" where
  "NewScopedEmitter defaults = defaults"

definition WithDefaults :: "eventDetails \<Rightarrow> eventDetails \<Rightarrow> eventDetails" where
  "WithDefaults defaults additional = defaults ++ additional"

section \<open>Events for the workflow engine\<close>

record RequestMetadata =
  rm_WorkflowID :: string
  rm_WorkflowOwner :: string
  rm_WorkflowExecutionID :: string
  rm_WorkflowName :: string
  rm_WorkflowDonID :: "32 word"
  rm_ReferenceID :: string
  rm_OrgID :: string
  rm_WorkflowRegistryAddress :: string
  rm_WorkflowRegistryChainSelector :: string
  rm_EngineVersion :: string

record CreInfo =
  ci_DonID :: "32 word"
  ci_WorkflowDonID :: "32 word"
  ci_ShardIndex :: "32 word"
  ci_WorkflowRegistryAddress :: string
  ci_WorkflowRegistryChain :: string
  ci_EngineVersion :: string

record WorkflowKey =
  wk_WorkflowOwner :: string
  wk_WorkflowName :: string
  wk_WorkflowID :: string
  wk_OrganizationID :: string

text \<open>The identifiers every event carries: DON, workflow, execution, and the time.\<close>

record eventHead =
  eh_CreInfo :: CreInfo
  eh_Workflow :: WorkflowKey
  eh_WorkflowExecutionID :: string
  eh_Timestamp :: time

datatype executionStatus = SUCCEEDED | FAILED

datatype beholderEvent =
    WorkflowUserLog eventHead string
  | CapabilityExecutionStarted eventHead string "32 word" string
  | CapabilityExecutionFinished eventHead string "32 word" executionStatus string string

definition creInfoFromMeta :: "RequestMetadata \<Rightarrow> 32 word \<Rightarrow> CreInfo" where
  "creInfoFromMeta meta shardIndex =
     \<lparr>ci_DonID = rm_WorkflowDonID meta, ci_WorkflowDonID = rm_WorkflowDonID meta, ci_ShardIndex = shardIndex,
      ci_WorkflowRegistryAddress = rm_WorkflowRegistryAddress meta,
      ci_WorkflowRegistryChain = rm_WorkflowRegistryChainSelector meta, ci_EngineVersion = rm_EngineVersion meta\<rparr>"

definition workflowKeyFromMeta :: "RequestMetadata \<Rightarrow> WorkflowKey" where
  "workflowKeyFromMeta meta =
     \<lparr>wk_WorkflowOwner = rm_WorkflowOwner meta, wk_WorkflowName = rm_WorkflowName meta,
      wk_WorkflowID = rm_WorkflowID meta, wk_OrganizationID = rm_OrgID meta\<rparr>"

definition headFromMeta :: "time \<Rightarrow> RequestMetadata \<Rightarrow> 32 word \<Rightarrow> eventHead" where
  "headFromMeta now meta shardIndex =
     \<lparr>eh_CreInfo = creInfoFromMeta meta shardIndex, eh_Workflow = workflowKeyFromMeta meta,
      eh_WorkflowExecutionID = rm_WorkflowExecutionID meta, eh_Timestamp = now\<rparr>"

text \<open>\<open>emitProtoEvent\<close> hands over what can be marshalled (\<open>ok\<close>); the rest is only logged.\<close>

definition emitProtoEvent :: "(beholderEvent \<Rightarrow> bool) \<Rightarrow> beholderEvent \<Rightarrow> beholderEvent list \<Rightarrow> beholderEvent list" where
  "emitProtoEvent ok ev sent = (if ok ev then sent @ [ev] else sent)"

definition emitUserLog ::
    "(beholderEvent \<Rightarrow> bool) \<Rightarrow> time \<Rightarrow> RequestMetadata \<Rightarrow> 32 word \<Rightarrow> string \<Rightarrow> beholderEvent list \<Rightarrow> beholderEvent list" where
  "emitUserLog ok now meta shardIndex msg = emitProtoEvent ok (WorkflowUserLog (headFromMeta now meta shardIndex) msg)"

definition emitCapabilityStarted ::
    "(beholderEvent \<Rightarrow> bool) \<Rightarrow> time \<Rightarrow> RequestMetadata \<Rightarrow> 32 word \<Rightarrow> string \<Rightarrow> string \<Rightarrow> 32 word
     \<Rightarrow> beholderEvent list \<Rightarrow> beholderEvent list" where
  "emitCapabilityStarted ok now meta shardIndex capabilityID mth stepRef =
     emitProtoEvent ok (CapabilityExecutionStarted (headFromMeta now meta shardIndex) capabilityID stepRef mth)"

definition emitCapabilityFinished ::
    "(beholderEvent \<Rightarrow> bool) \<Rightarrow> time \<Rightarrow> RequestMetadata \<Rightarrow> 32 word \<Rightarrow> string \<Rightarrow> string \<Rightarrow> 32 word \<Rightarrow> bool \<Rightarrow> string
     \<Rightarrow> beholderEvent list \<Rightarrow> beholderEvent list" where
  "emitCapabilityFinished ok now meta shardIndex capabilityID mth stepRef success errMsg =
     emitProtoEvent ok (CapabilityExecutionFinished (headFromMeta now meta shardIndex) capabilityID stepRef
       (if success then SUCCEEDED else FAILED) errMsg mth)"

text \<open>
  \<open>detailInt32\<close>: \<open>f2i\<close> is the conversion of a float64 to int32, which Go leaves to the
  processor when the value does not fit.
\<close>

definition detailInt32 :: "(rat \<Rightarrow> 32 word) \<Rightarrow> eventDetails \<Rightarrow> string \<Rightarrow> 32 word" where
  "detailInt32 f2i d key = (case d key of
     Some (ANum v) \<Rightarrow> f2i v | Some (AInt v) \<Rightarrow> word_of_int v | _ \<Rightarrow> 0)"

definition detailStr :: "eventDetails \<Rightarrow> string \<Rightarrow> string option" where
  "detailStr d key = (case d key of Some (AStr s) \<Rightarrow> Some s | _ \<Rightarrow> None)"

section \<open>Names\<close>

lemma runeLen_ascii: "(of_char c :: nat) < 128 \<Longrightarrow> runeLen (c # cs) = 1"
  by (induction "c # cs" rule: runeLen.induct) (auto simp: validThree_def validFour_def)

lemma legalChar_ascii: "legalChar c \<Longrightarrow> (of_char c :: nat) < 128"
  by (auto simp: legalChar_def)

lemma sanitizeName_legal: "list_all legalChar (sanitizeName s)"
proof (induction s rule: sanitizeName.induct)
  case (2 c cs)
  moreover have "legalChar (CHR ''_'')" by (simp add: legalChar_def)
  ultimately show ?case by simp
qed simp

lemma sanitizeName_id: "list_all legalChar s \<Longrightarrow> sanitizeName s = s"
proof (induction s)
  case (Cons c cs)
  then have "runeLen (c # cs) = 1" by (simp add: runeLen_ascii legalChar_ascii)
  with Cons show ?case by simp
qed simp

lemma sanitizeName_idem: "sanitizeName (sanitizeName s) = sanitizeName s"
  by (simp add: sanitizeName_id sanitizeName_legal)

section \<open>Counting\<close>

lemma attrsOf_allowed: "attrsOf mt d k = Some v \<Longrightarrow> k \<in> set allowedMetricAttributes"
  by (auto simp: attrsOf_def allowedAttribute_def split: if_splits)

definition kept :: "string \<times> eventDetails \<Rightarrow> bool" where
  "kept ev \<longleftrightarrow> fst ev \<notin> set droppedMetricEvents"

text \<open>What one instrument should hold: the measurements of its events, in order.\<close>

definition counted :: "meter \<Rightarrow> string \<Rightarrow> string \<Rightarrow> emitted \<Rightarrow> (int \<times> attributes) list" where
  "counted mt base key evs =
     map (\<lambda>(e, d). (1, attrsOf mt d)) (filter (\<lambda>ev. kept ev \<and> sanitizeName (base @ ''.'' @ fst ev) = key) evs)"

definition timed :: "meter \<Rightarrow> string \<Rightarrow> string \<Rightarrow> emitted \<Rightarrow> (rat \<times> attributes) list" where
  "timed mt base key evs =
     map (\<lambda>(e, d). (the (durationOf d), attrsOf mt d))
       (filter (\<lambda>ev. kept ev \<and> durationOf (snd ev) \<noteq> None \<and>
          sanitizeName (base @ ''.'' @ fst ev @ ''.duration'') = key) evs)"

definition instrument :: "bool \<Rightarrow> 'a list \<Rightarrow> 'a list option" where
  "instrument creatable ms = (if ms = [] \<or> \<not> creatable then None else Some ms)"

lemma addCounter_base [simp]: "me_baseName (getOrCreateCounterAndAdd mt e v a m) = me_baseName m"
  "me_histograms (getOrCreateCounterAndAdd mt e v a m) = me_histograms m"
  by (auto simp: getOrCreateCounterAndAdd_def Let_def split: option.split)

lemma addHistogram_base [simp]: "me_baseName (getOrCreateHistogramAndRecord mt e v a m) = me_baseName m"
  "me_counters (getOrCreateHistogramAndRecord mt e v a m) = me_counters m"
  by (auto simp: getOrCreateHistogramAndRecord_def Let_def split: option.split)

lemma Emit_base [simp]: "me_baseName (MetricsEmitter_Emit mt ev m) = me_baseName m"
  by (auto simp: MetricsEmitter_Emit_def Let_def split: prod.split option.split)

lemma Emit_counter:
  "me_counters (MetricsEmitter_Emit mt (e, d) m) key =
     (if kept (e, d) \<and> instrumentKey m e = key \<and> (me_counters m key \<noteq> None \<or> mt_Counter mt key)
      then Some (case_option [] id (me_counters m key) @ [(1, attrsOf mt d)]) else me_counters m key)"
  by (auto simp: MetricsEmitter_Emit_def kept_def getOrCreateCounterAndAdd_def Let_def split: option.split)

lemma Emit_histogram:
  "me_histograms (MetricsEmitter_Emit mt (e, d) m) key =
     (if kept (e, d) \<and> durationOf d \<noteq> None \<and> instrumentKey m (e @ ''.duration'') = key \<and>
        (me_histograms m key \<noteq> None \<or> mt_Histogram mt key)
      then Some (case_option [] id (me_histograms m key) @ [(the (durationOf d), attrsOf mt d)]) else me_histograms m key)"
  by (auto simp: MetricsEmitter_Emit_def kept_def getOrCreateHistogramAndRecord_def instrumentKey_def Let_def
      split: option.split)

lemma emits_base: "me_baseName (fold (MetricsEmitter_Emit mt) evs m) = me_baseName m"
  by (induction evs arbitrary: m) auto

lemma emits_counter:
  "me_counters (fold (MetricsEmitter_Emit mt) evs (NewMetricsEmitter base)) key =
     instrument (mt_Counter mt key) (counted mt base key evs)"
proof (induction evs rule: rev_induct)
  case (snoc ev evs)
  obtain e d where ev: "ev = (e, d)" by (cases ev)
  have "instrumentKey (fold (MetricsEmitter_Emit mt) evs (NewMetricsEmitter base)) e = sanitizeName (base @ ''.'' @ e)"
    by (simp add: instrumentKey_def emits_base NewMetricsEmitter_def)
  then show ?case
    using snoc by (auto simp: ev Emit_counter counted_def instrument_def split: if_splits)
qed (simp add: NewMetricsEmitter_def counted_def instrument_def)

lemma emits_histogram:
  "me_histograms (fold (MetricsEmitter_Emit mt) evs (NewMetricsEmitter base)) key =
     instrument (mt_Histogram mt key) (timed mt base key evs)"
proof (induction evs rule: rev_induct)
  case (snoc ev evs)
  obtain e d where ev: "ev = (e, d)" by (cases ev)
  have "instrumentKey (fold (MetricsEmitter_Emit mt) evs (NewMetricsEmitter base)) (e @ ''.duration'')
      = sanitizeName (base @ ''.'' @ e @ ''.duration'')"
    by (simp add: instrumentKey_def emits_base NewMetricsEmitter_def)
  then show ?case
    using snoc by (auto simp: ev Emit_histogram timed_def instrument_def split: if_splits)
qed (simp add: NewMetricsEmitter_def timed_def instrument_def)

text \<open>
  The emitter after any sequence of events: each counter holds one measurement
  of 1 for each event of its name, in order, each histogram the durations, and
  only allowed attributes are attached; an instrument exists exactly when one of
  its events occurred and the meter could create it.
\<close>

theorem emitter_counts_exactly:
  "me_counters (fold (MetricsEmitter_Emit mt) evs (NewMetricsEmitter base)) key
     = instrument (mt_Counter mt key) (counted mt base key evs) \<and>
   me_histograms (fold (MetricsEmitter_Emit mt) evs (NewMetricsEmitter base)) key
     = instrument (mt_Histogram mt key) (timed mt base key evs) \<and>
   list_all (\<lambda>(_, attrs). dom attrs \<subseteq> set allowedMetricAttributes) (counted mt base key evs)"
  by (auto simp: emits_counter emits_histogram counted_def list_all_iff dest: attrsOf_allowed)

end
