(* ===== verification/CC_Executor.thy ===== *)
theory CC_Executor
  imports CC_Telemetry "HOL-Library.List_Lexorder" "HOL-Library.Signed_Division"
begin

text \<open>
  The executor of a capability node: \<^verbatim>\<open>src/capabilities/framework/executor.go\<close>,
  \<^verbatim>\<open>executor_request_timeout.go\<close>, \<^verbatim>\<open>types.go\<close> and \<^verbatim>\<open>base_action.go\<close>. The executor
  initialises itself lazily, keeps the enclave pool and its view of the DON
  fresh, fetches encrypted decryption shares from the Vault DON, signs a compute
  request and has an enclave execute it, with retries. What the registry, the
  keystore, the Vault DON, the limits framework and the network answer during
  one call is a \<open>world\<close>; an error is its text with the classification the
  code reads off it. The theorems are in \<^verbatim>\<open>CC_ExecutorProps\<close>.
\<close>

section \<open>Errors\<close>

datatype errCode = InvalidArgument | DeadlineExceeded | OtherCode
datatype errOrigin = OriginUser | OriginSystem

text \<open>\<open>ge_cap\<close> is what \<^verbatim>\<open>errors.As(err, &capErr)\<close> finds.\<close>

record goErr =
  ge_text :: string
  ge_cap :: "(errOrigin \<times> errCode) option"

datatype 'a xresult = XOk 'a | XErr goErr | XPanic

definition plainErr :: "string \<Rightarrow> goErr" where
  "plainErr s = \<lparr>ge_text = s, ge_cap = None\<rparr>"

text \<open>\<^verbatim>\<open>fmt.Errorf(\<close>\<open>s\<close>\<^verbatim>\<open>%w, err)\<close>.\<close>

definition wrapErr :: "string \<Rightarrow> goErr \<Rightarrow> goErr" where
  "wrapErr s e = e\<lparr>ge_text := s @ ge_text e\<rparr>"

text \<open>\<^verbatim>\<open>errors.Join(errs, err)\<close>.\<close>

definition joinErr :: "goErr option \<Rightarrow> goErr \<Rightarrow> goErr" where
  "joinErr errs e = (case errs of None \<Rightarrow> e | Some a \<Rightarrow>
     \<lparr>ge_text = ge_text a @ [CHR 0x0A] @ ge_text e,
      ge_cap = (case ge_cap a of None \<Rightarrow> ge_cap e | Some c \<Rightarrow> Some c)\<rparr>)"

definition isUserErr :: "goErr \<Rightarrow> bool" where
  "isUserErr e \<longleftrightarrow> (case ge_cap e of Some (OriginUser, _) \<Rightarrow> True | _ \<Rightarrow> False)"

section \<open>Computations\<close>

text \<open>A step from a state to a result and the next state, and the two ways the code continues after one.\<close>

definition bindX :: "('s \<Rightarrow> 'a xresult \<times> 's) \<Rightarrow> ('a \<Rightarrow> 's \<Rightarrow> 'b xresult \<times> 's) \<Rightarrow> 's \<Rightarrow> 'b xresult \<times> 's" where
  "bindX m f s = (case m s of
     (XOk a, s') \<Rightarrow> f a s' | (XErr er, s') \<Rightarrow> (XErr er, s') | (XPanic, s') \<Rightarrow> (XPanic, s'))"

definition onErr :: "(goErr \<Rightarrow> 's \<Rightarrow> goErr \<times> 's) \<Rightarrow> ('s \<Rightarrow> 'a xresult \<times> 's) \<Rightarrow> 's \<Rightarrow> 'a xresult \<times> 's" where
  "onErr h m s = (case m s of
     (XErr er, s') \<Rightarrow> (case h er s' of (er', s'') \<Rightarrow> (XErr er', s'')) | (XOk a, s') \<Rightarrow> (XOk a, s') | (XPanic, s') \<Rightarrow> (XPanic, s'))"

abbreviation wrapX :: "string \<Rightarrow> ('s \<Rightarrow> 'a xresult \<times> 's) \<Rightarrow> 's \<Rightarrow> 'a xresult \<times> 's" where
  "wrapX t \<equiv> onErr (\<lambda>er s. (wrapErr t er, s))"

definition liftX :: "goErr + 'a \<Rightarrow> 's \<Rightarrow> 'a xresult \<times> 's" where
  "liftX r s = (case r of Inl er \<Rightarrow> (XErr er, s) | Inr a \<Rightarrow> (XOk a, s))"

text \<open>A loop that collects results and returns the first error.\<close>

primrec mapE :: "('a \<Rightarrow> goErr + 'b) \<Rightarrow> 'a list \<Rightarrow> goErr + 'b list" where
  "mapE f [] = Inr []"
| "mapE f (x # xs) = (case f x of Inl e \<Rightarrow> Inl e | Inr y \<Rightarrow>
     (case mapE f xs of Inl e \<Rightarrow> Inl e | Inr ys \<Rightarrow> Inr (y # ys)))"

definition wrapE :: "string \<Rightarrow> goErr + 'a \<Rightarrow> goErr + 'a" where
  "wrapE t r = (case r of Inl e \<Rightarrow> Inl (wrapErr t e) | Inr a \<Rightarrow> Inr a)"

section \<open>Configuration\<close>

text \<open>The job-spec configuration; a pointer field is \<open>None\<close> when it is absent.\<close>

record Config =
  jc_InsecureSkipTLSVerify :: "bool option"
  jc_EncryptedAPIKeys :: string
  jc_EnclaveRequestTimeoutSeconds :: "int option"
  jc_PublicKeyRequestTimeoutSeconds :: "int option"
  jc_EnclaveRefreshIntervalSeconds :: "int option"
  jc_MaxRetries :: "int option"
  jc_RetryBackoffSeconds :: "int option"
  jc_WorkflowOwnerRPS :: "rat option"
  jc_WorkflowOwnerBurst :: "int option"
  jc_GlobalRPS :: "rat option"
  jc_GlobalBurst :: "int option"
  jc_DisableSecretsCacheDeprecated :: "bool option"
  jc_EnableSecretsCache :: "bool option"
  jc_EnableCache :: "bool option"
  jc_CacheTTLSeconds :: "int option"
  jc_CacheMaxTTLSeconds :: "int option"
  jc_CacheCleanupSeconds :: "int option"
  jc_CacheTTLBufferPercent :: "rat option"
  jc_EnableProactiveRefresh :: "bool option"
  jc_RefreshIntervalPercent :: "rat option"
  jc_MinRefreshIntervalSeconds :: "int option"
  jc_RefreshTimeoutSeconds :: "int option"
  jc_EnableSessionPersistence :: "bool option"
  jc_SessionHeaderName :: "string option"

record ParsedConfig =
  pg_Config :: Config
  pg_MaxRetries :: int
  pg_RetryBackoffSeconds :: int
  pg_GlobalRPS :: rat
  pg_GlobalBurst :: int
  pg_WorkflowOwnerRPS :: rat
  pg_WorkflowOwnerBurst :: int
  pg_EnableSecretsCache :: bool
  pg_EnclaveRequestTimeout :: duration
  pg_PublicKeyRequestTimeout :: duration
  pg_EnclaveRefreshInterval :: duration
  pg_InsecureSkipTLSVerify :: bool
  pg_PublicKeyRetriesMax :: int
  pg_PublicKeyRetriesBackoff :: duration
  pg_CacheConfig :: CacheConfig
  pg_SessionConfig :: SessionConfig

text \<open>\<open>ParseConfig\<close> after the JSON is decoded.\<close>

definition ParseConfig :: "goErr + Config \<Rightarrow> goErr + ParsedConfig" where
  "ParseConfig decoded = (case decoded of
     Inl err \<Rightarrow> Inl (wrapErr ''failed to unmarshal config: '' err)
   | Inr capConfig \<Rightarrow> Inr \<lparr>pg_Config = capConfig, pg_MaxRetries = 3, pg_RetryBackoffSeconds = 2,
       pg_GlobalRPS = 1000, pg_GlobalBurst = 1000, pg_WorkflowOwnerRPS = 1000, pg_WorkflowOwnerBurst = 1000,
       pg_EnableSecretsCache = False, pg_EnclaveRequestTimeout = DefaultEnclaveRequestTimeout,
       pg_PublicKeyRequestTimeout = DefaultPublicKeyRequestTimeout, pg_EnclaveRefreshInterval = 10 * second,
       pg_InsecureSkipTLSVerify = False, pg_PublicKeyRetriesMax = 0, pg_PublicKeyRetriesBackoff = 0,
       pg_CacheConfig = DefaultCacheConfig, pg_SessionConfig = DefaultSessionConfig\<rparr>)"

text \<open>
  What the limits framework resolves the settings to. The flag beside a value
  is whether \<^verbatim>\<open>GetOrDefault\<close> also returned an error, for the settings where the
  code looks at it.
\<close>

record limitSettings =
  lm_GlobalRate :: "rat \<times> int"
  lm_OwnerRate :: "rat \<times> int"
  lm_MaxRetries :: int
  lm_RetryBackoff :: duration
  lm_SecretsCacheEnabled :: bool
  lm_EnclaveRequestTimeout :: "duration \<times> bool"
  lm_PublicKeyRequestTimeout :: "duration \<times> bool"
  lm_InsecureSkipTLSVerify :: bool
  lm_EnclaveRefreshInterval :: duration
  lm_PublicKeyRetriesMax :: int
  lm_PublicKeyRetriesBackoff :: duration
  lm_PublicKeyCache :: CacheConfig
  lm_Session :: SessionConfig
  lm_PropagateOrgIDInRequestMetadata :: bool
  lm_RemoteExecutableWorkflowDONBindingEnabled :: "bool \<times> goErr option"

definition applyLimitSettings :: "limitSettings \<Rightarrow> ParsedConfig \<Rightarrow> ParsedConfig" where
  "applyLimitSettings g parsed = parsed
     \<lparr>pg_GlobalRPS := fst (lm_GlobalRate g), pg_GlobalBurst := snd (lm_GlobalRate g),
      pg_WorkflowOwnerRPS := fst (lm_OwnerRate g), pg_WorkflowOwnerBurst := snd (lm_OwnerRate g),
      pg_MaxRetries := lm_MaxRetries g, pg_RetryBackoffSeconds := lm_RetryBackoff g sdiv second,
      pg_EnableSecretsCache := lm_SecretsCacheEnabled g,
      pg_EnclaveRequestTimeout := fst (lm_EnclaveRequestTimeout g),
      pg_PublicKeyRequestTimeout := fst (lm_PublicKeyRequestTimeout g),
      pg_InsecureSkipTLSVerify := lm_InsecureSkipTLSVerify g,
      pg_EnclaveRefreshInterval := lm_EnclaveRefreshInterval g,
      pg_PublicKeyRetriesMax := lm_PublicKeyRetriesMax g, pg_PublicKeyRetriesBackoff := lm_PublicKeyRetriesBackoff g,
      pg_CacheConfig := lm_PublicKeyCache g, pg_SessionConfig := lm_Session g\<rparr>"

definition resolveRequestTimeout :: "limitSettings \<Rightarrow> ParsedConfig option \<Rightarrow> bool \<Rightarrow> duration option" where
  "resolveRequestTimeout g cfg publicKey =
     (let (timeout, err) = (if publicKey then lm_PublicKeyRequestTimeout g else lm_EnclaveRequestTimeout g);
          override = (case cfg of None \<Rightarrow> None | Some c \<Rightarrow>
            if publicKey then jc_PublicKeyRequestTimeoutSeconds (pg_Config c)
            else jc_EnclaveRequestTimeoutSeconds (pg_Config c))
      in if err then None
         else case override of
             Some secs \<Rightarrow> Some (secs * second)
           | None \<Rightarrow> if timeout > 0 then Some timeout
                     else Some (if publicKey then DefaultPublicKeyRequestTimeout else DefaultEnclaveRequestTimeout))"

section \<open>State and environment\<close>

record cachedEDKS =
  ce_encryptedSecret :: bytes
  ce_encryptedDecryptionShares :: "bytes list"
  ce_rawVaultPublicKey :: bytes

text \<open>
  The executor. Its emitter is the one the pool holds, so what it emits goes to
  the pool's. \<open>ex_vaultCapability\<close> is whether the Vault DON's capability is set,
  \<open>ex_skipVerify\<close> whether the HTTP client skips TLS verification,
  \<open>ex_refreshCancel\<close> whether the cancel function of the refresh loop is set,
  \<open>ex_refreshRunning\<close> whether that loop runs, \<open>ex_beholder\<close> the events sent to the
  workflow engine.
\<close>

record RealExecutor =
  ex_enclaveClient :: "enclavePool option"
  ex_vaultThreshold :: int
  ex_vaultCapability :: bool
  ex_capabilityID :: string
  ex_shardIndex :: "32 word"
  ex_secretsCache :: "(bytes, cachedEDKS) Cache"
  ex_confidentialComputeVersion :: string
  ex_apiKey :: string
  ex_quorumTimeoutIsUserError :: bool
  ex_initialized :: bool
  ex_capConfigRaw :: string
  ex_capConfig :: "ParsedConfig option"
  ex_nodeID :: string
  ex_proposalInFlight :: bool
  ex_donMembers :: "bytes list"
  ex_donF :: "32 word"
  ex_enclaves :: "Enclave list"
  ex_skipVerify :: bool
  ex_refreshCancel :: bool
  ex_refreshRunning :: bool
  ex_beholder :: "beholderEvent list"

definition NewRealExecutor :: "string \<Rightarrow> string \<Rightarrow> 32 word \<Rightarrow> string \<Rightarrow> bool \<Rightarrow> RealExecutor" where
  "NewRealExecutor config capabilityID shardIndex version quorumTimeoutIsUserError =
     \<lparr>ex_enclaveClient = None, ex_vaultThreshold = 0, ex_vaultCapability = False, ex_capabilityID = capabilityID,
      ex_shardIndex = shardIndex, ex_secretsCache = NewCache None None, ex_confidentialComputeVersion = version,
      ex_apiKey = [], ex_quorumTimeoutIsUserError = quorumTimeoutIsUserError, ex_initialized = False,
      ex_capConfigRaw = config, ex_capConfig = None, ex_nodeID = [], ex_proposalInFlight = False,
      ex_donMembers = [], ex_donF = 0, ex_enclaves = [], ex_skipVerify = False, ex_refreshCancel = False,
      ex_refreshRunning = False, ex_beholder = []\<rparr>"

record Node =
  nd_PeerID :: "bytes option"
  nd_DON_ID :: "32 word"
  nd_Members :: "bytes list"
  nd_F :: nat

record SecretIdentifier =
  si_Key :: string
  si_Namespace :: string

record SecretRequest =
  sq_Key :: string
  sq_Namespace :: string
  sq_Owner :: string
  sq_EncryptionKeys :: "string list"

record VaultRequest =
  vq_Requests :: "SecretRequest list"
  vq_Metadata :: RequestMetadata

record KeyShares =
  ks_BinaryShares :: "bytes list"
  ks_Shares :: "string list"

record SecretData =
  sd_EncryptedValue :: string
  sd_EncryptedDecryptionKeyShares :: "KeyShares list"

text \<open>\<open>sp_Id\<close> is the key of the identifier, \<open>None\<close> where there is no identifier.\<close>

record SecretResponse =
  sp_Id :: "string option"
  sp_Error :: string
  sp_Data :: "SecretData option"

record GetSecretsResponse =
  gs_RawVaultPublicKey :: string
  gs_Responses :: "SecretResponse list"

datatype phase = AtWarmup | AtUpdateNodes | AtGetConfigs | AtUpdateConfig | AtPublicKeys | AtVault | AtExecute | AtTotal

text \<open>
  The answers of the outside during one attempt. \<open>xw_ConfigForCapability\<close> ends in what
  decoding the enclave list from the configuration gives; \<open>xw_VaultInfo\<close> is the
  \<open>F\<close> of the Vault DON's info, if it has a DON; \<open>xw_ctxDone\<close> is the context's error when
  the context ends during the backoff after the attempt.
\<close>

record world =
  xw_settings :: limitSettings
  xw_LocalNode :: "goErr + Node"
  xw_NodeByPeerID :: "bytes \<Rightarrow> Node option"
  xw_ConfigForCapability :: "string \<Rightarrow> 32 word \<Rightarrow> goErr + (goErr + Enclave list)"
  xw_GetExecutable :: "goErr option"
  xw_VaultInfo :: "goErr + nat option"
  xw_Accounts :: "goErr + string list"
  xw_Sign :: "string \<Rightarrow> bytes \<Rightarrow> goErr + bytes"
  xw_Decrypt :: "string \<Rightarrow> bytes \<Rightarrow> goErr + bytes"
  xw_LocalNodeAtVault :: "goErr + Node"
  xw_VaultExecute :: "VaultRequest \<Rightarrow> goErr + (goErr + GetSecretsResponse)"
  xw_net :: "phase \<Rightarrow> network"
  xw_keysAt :: time
  xw_cacheAt :: time
  xw_storeAt :: time
  xw_doneAt :: time
  xw_seconds :: "phase \<Rightarrow> rat"
  xw_allow :: bool
  xw_ctxDone :: "goErr option"

text \<open>
  The functions of other packages: decoding the job spec, creating the rate
  limiter, JSON and protobuf, printing, the capacity of a slice, the texts of errors.
\<close>

record ExecEnv =
  xe_pool :: PoolEnv
  xe_keccak :: "bytes \<Rightarrow> bytes"
  xe_StandardCapabilityAccount :: string
  xe_VaultCapabilityID :: string
  xe_UnmarshalConfig :: "string \<Rightarrow> goErr + Config"
  xe_NewRateLimiter :: "rat \<Rightarrow> int \<Rightarrow> rat \<Rightarrow> int \<Rightarrow> goErr option"
  xe_MarshalConfig :: "EnclaveConfig \<Rightarrow> bytes"
  xe_NewAny :: "SecretRequest list \<Rightarrow> goErr option"
  xe_MarshalEvent :: "beholderEvent \<Rightarrow> bool"
  xe_PeerIDString :: "bytes \<Rightarrow> string"
  xe_cap :: "bytes \<Rightarrow> nat"
  xe_f2i32 :: "rat \<Rightarrow> 32 word"
  xe_userErrText :: "errCode \<Rightarrow> string \<Rightarrow> string"
  xe_poolErrText :: "poolError \<Rightarrow> string"
  xe_hexErrText :: "string \<Rightarrow> string"

abbreviation xe_H :: "ExecEnv \<Rightarrow> bytes \<Rightarrow> bytes" where
  "xe_H env \<equiv> pe_H (xe_pool env)"

definition NewPublicUserError :: "ExecEnv \<Rightarrow> goErr \<Rightarrow> errCode \<Rightarrow> goErr" where
  "NewPublicUserError env err c = \<lparr>ge_text = xe_userErrText env c (ge_text err), ge_cap = Some (OriginUser, c)\<rparr>"

definition poolErr :: "ExecEnv \<Rightarrow> poolError \<Rightarrow> goErr" where
  "poolErr env e = plainErr (case e of ExecuteFailed s \<Rightarrow> ''execute failed: '' @ s | _ \<Rightarrow> xe_poolErrText env e)"

definition decodeHex :: "ExecEnv \<Rightarrow> string \<Rightarrow> goErr + bytes" where
  "decodeHex env s = (case hexDecode s of None \<Rightarrow> Inl (plainErr (xe_hexErrText env s)) | Some b \<Rightarrow> Inr b)"

text \<open>
  A method of the enclave client, on the pool with the timeouts the executor
  resolves now. Calling a method of a nil client panics.
\<close>

definition callClient ::
    "ExecEnv \<Rightarrow> world \<Rightarrow> (enclavePool \<Rightarrow> 'a outcome \<times> enclavePool) \<Rightarrow> RealExecutor \<Rightarrow> 'a xresult \<times> RealExecutor" where
  "callClient env w f e = (case ex_enclaveClient e of
     None \<Rightarrow> (XPanic, e)
   | Some p \<Rightarrow>
       (case f (p\<lparr>po_requestTimeoutResolverFn := resolveRequestTimeout (xw_settings w) (ex_capConfig e)\<rparr>) of
          (r, p') \<Rightarrow> ((case r of Ok a \<Rightarrow> XOk a | Err er \<Rightarrow> XErr (poolErr env er) | Panic \<Rightarrow> XPanic),
                       e\<lparr>ex_enclaveClient := Some p'\<rparr>)))"

definition xemit :: "eventDetails \<Rightarrow> string \<Rightarrow> eventDetails \<Rightarrow> RealExecutor \<Rightarrow> RealExecutor" where
  "xemit defaults event details e = e\<lparr>ex_enclaveClient := map_option (scopedEmit defaults event details) (ex_enclaveClient e)\<rparr>"

definition refreshLimitSettings :: "limitSettings \<Rightarrow> RealExecutor \<Rightarrow> RealExecutor" where
  "refreshLimitSettings g e = e\<lparr>ex_capConfig := map_option (applyLimitSettings g) (ex_capConfig e)\<rparr>"

section \<open>Helpers\<close>

definition sanitizeLogString :: "string \<Rightarrow> string" where
  "sanitizeLogString s =
     (let s1 = filter (\<lambda>c. c \<noteq> CHR 0x0D) (filter (\<lambda>c. c \<noteq> CHR 0x0A) s)
      in if length s1 > 256 then take 256 s1 @ ''...'' else s1)"

text \<open>The order of \<^verbatim>\<open>bytes.Compare\<close> is the lexicographic one of the library.\<close>

definition sortedBytesCopy :: "bytes list \<Rightarrow> bytes list" where
  "sortedBytesCopy s = sort s"

definition peerIDsToSortedBytes :: "bytes list \<Rightarrow> bytes list" where
  "peerIDsToSortedBytes members = sort members"

text \<open>Descending by enclave ID.\<close>

definition sortEnclaveNodes :: "Enclave list \<Rightarrow> Enclave list" where
  "sortEnclaveNodes nodes = rev (sort_key en_EnclaveID (rev nodes))"

definition getVaultDONThreshold :: "int \<Rightarrow> int" where
  "getVaultDONThreshold possiblyFaultyNodes = 2 * possiblyFaultyNodes + 1"

datatype TeeType = TEE_TYPE_UNSPECIFIED | TEE_TYPE_AWS_NITRO

definition EnclaveTypeNitro :: string where
  "EnclaveTypeNitro = ''NITRO''"

definition MapEnclaveType :: "string \<Rightarrow> TeeType" where
  "MapEnclaveType et = (if et = EnclaveTypeNitro then TEE_TYPE_AWS_NITRO else TEE_TYPE_UNSPECIFIED)"

text \<open>\<open>check\<close> is \<^verbatim>\<open>host.CheckRequirements\<close> with a provider of one type in the given regions.\<close>

definition checkRequirements :: "(TeeType \<Rightarrow> string list \<Rightarrow> 'req \<Rightarrow> bool) \<Rightarrow> 'req option \<Rightarrow> RequirementsChecker" where
  "checkRequirements check req = (case req of
     None \<Rightarrow> None | Some r \<Rightarrow> Some (\<lambda>enc. check (MapEnclaveType (en_EnclaveType enc)) [en_Region enc] r))"

definition GetEnclaveNodes :: "goErr + Enclave list \<Rightarrow> string \<Rightarrow> goErr + Enclave list" where
  "GetEnclaveNodes selfCapConfig apiKey = (case selfCapConfig of
     Inl err \<Rightarrow> Inl (plainErr (''error decoding enclaves: '' @ ge_text err))
   | Inr enclaves \<Rightarrow> Inr (if apiKey = [] then enclaves
       else map (\<lambda>en. en\<lparr>en_EnclaveAuthHeader := ''x-api-key: '' @ apiKey\<rparr>) enclaves))"

definition getVaultDONPossibleFaultyNodes :: "world \<Rightarrow> nat \<Rightarrow> goErr + int" where
  "getVaultDONPossibleFaultyNodes w localF = (case xw_VaultInfo w of
     Inl err \<Rightarrow> Inl (wrapErr ''failed to get VaultDON capability info: '' err)
   | Inr None \<Rightarrow> Inr (int localF)
   | Inr (Some f) \<Rightarrow> Inr (int f))"

text \<open>The loop over the keystore's accounts.\<close>

definition capabilityAccount :: "ExecEnv \<Rightarrow> string list \<Rightarrow> goErr + string" where
  "capabilityAccount env accounts =
     (if accounts = [] then Inl (plainErr ''no accounts found in keystore'')
      else let acct = (case find (\<lambda>a. a = xe_StandardCapabilityAccount env) accounts of None \<Rightarrow> [] | Some a \<Rightarrow> a)
        in if acct = [] then Inl (plainErr (''no '' @ xe_StandardCapabilityAccount env @ '' account found in keystore''))
           else Inr acct)"

definition signWithCapabilityAccount :: "ExecEnv \<Rightarrow> world \<Rightarrow> bytes \<Rightarrow> goErr + bytes" where
  "signWithCapabilityAccount env w prefixedPayload = (case xw_Accounts w of
     Inl err \<Rightarrow> Inl err
   | Inr accounts \<Rightarrow> (case capabilityAccount env accounts of
       Inl err \<Rightarrow> Inl err
     | Inr acct \<Rightarrow> xw_Sign w acct prefixedPayload))"

definition SignComputeRequest :: "ExecEnv \<Rightarrow> world \<Rightarrow> ComputeRequest \<Rightarrow> goErr + SignedComputeRequest" where
  "SignComputeRequest env w cr =
     (let prefixedHash = MakePeerIDSignatureDomainSeparatedPayload (xe_H env) GetConfidentialComputePayloadPrefix
            (ComputeRequest_Hash (xe_H env) cr)
      in case signWithCapabilityAccount env w prefixedHash of
           Inl err \<Rightarrow> Inl err
         | Inr sig \<Rightarrow> Inr \<lparr>scr_ComputeRequest = cr, scr_Signature = sig\<rparr>)"

definition validateEnclaveSigners :: "EnclaveConfig \<Rightarrow> RealExecutor \<Rightarrow> goErr option" where
  "validateEnclaveSigners config e =
     (let members = ex_donMembers e; f = ex_donF e in
      if members = [] then Some (plainErr ''cannot validate enclave config: DON members not set'')
      else if ec_F config < f
      then Some (plainErr (''enclave F value '' @ decimal (unat (ec_F config)) @ '' does not match DON F value '' @ decimal (unat f)))
      else if sortedBytesCopy (ec_Signers config) \<noteq> sortedBytesCopy members
      then Some (plainErr (''enclave signers do not match DON members: enclave has '' @
        decimal (length (ec_Signers config)) @ '' signers, DON has '' @ decimal (length members) @ '' members''))
      else None)"

section \<open>Keeping the enclaves fresh\<close>

text \<open>The local node, as fresh as the registry has it.\<close>

definition freshLocalNode :: "world \<Rightarrow> goErr + Node" where
  "freshLocalNode w = (case xw_LocalNode w of
     Inl err \<Rightarrow> Inl (wrapErr ''failed to get local node: '' err)
   | Inr local \<Rightarrow> Inr (case nd_PeerID local of
       None \<Rightarrow> local
     | Some pid \<Rightarrow> (case xw_NodeByPeerID w pid of None \<Rightarrow> local | Some fresh \<Rightarrow> fresh)))"

definition getLocalNodeAndCapConfig ::
    "ExecEnv \<Rightarrow> world \<Rightarrow> RealExecutor \<Rightarrow> (Node \<times> (goErr + Enclave list)) xresult \<times> RealExecutor" where
  "getLocalNodeAndCapConfig env w e = (case freshLocalNode w of
     Inl err \<Rightarrow> (XErr err, e)
   | Inr localNode \<Rightarrow>
       if nd_DON_ID localNode = 0
       then (XErr (plainErr ''local node does not have a WorkflowDON ID, cannot initialise confidential http action capability''), e)
       else let e1 = (case nd_PeerID localNode of None \<Rightarrow> e | Some pid \<Rightarrow> e\<lparr>ex_nodeID := xe_PeerIDString env pid\<rparr>)
         in (case xw_ConfigForCapability w (ex_capabilityID e1) (nd_DON_ID localNode) of
               Inl err \<Rightarrow> (XErr (wrapErr ''failed to get confidential http capability config: '' err), e1)
             | Inr ownCapabilityConfig \<Rightarrow> (XOk (localNode, ownCapabilityConfig), e1)))"

definition setDONMembership :: "bytes list \<Rightarrow> 32 word \<Rightarrow> RealExecutor \<Rightarrow> RealExecutor" where
  "setDONMembership members f e = e\<lparr>ex_donMembers := members, ex_donF := f\<rparr>"

text \<open>The loop over the enclaves' configurations: an error, or the final value of \<open>configsMatch\<close>.\<close>

primrec configsMatchLoop ::
    "EnclaveConfig \<Rightarrow> bytes list \<Rightarrow> 32 word \<Rightarrow> EnclaveConfig list \<Rightarrow> bool \<Rightarrow> goErr + bool" where
  "configsMatchLoop current newMembers newF [] matched = Inr matched"
| "configsMatchLoop current newMembers newF (c # cs) matched =
     (if ec_MasterPublicKey c \<noteq> ec_MasterPublicKey current \<or> ec_T c \<noteq> ec_T current
      then Inl (plainErr (''enclave public key '' @ EncodeToString (ec_MasterPublicKey current) @
        '' has a different master public key or T than the first enclave public key (this should never happen)''))
      else if ec_F c \<noteq> newF \<or> sortedBytesCopy (ec_Signers c) \<noteq> newMembers then Inr False
      else configsMatchLoop current newMembers newF cs True)"

definition proposeNewConfig ::
    "ExecEnv \<Rightarrow> world \<Rightarrow> EnclaveConfig \<Rightarrow> bytes list \<Rightarrow> 32 word \<Rightarrow> RealExecutor \<Rightarrow> unit xresult \<times> RealExecutor" where
  "proposeNewConfig env w current newMembers newF =
     (let newConfig = \<lparr>ec_Signers = newMembers, ec_MasterPublicKey = ec_MasterPublicKey current,
            ec_T = ec_T current, ec_F = newF\<rparr>;
          prefixedHash = MakePeerIDSignatureDomainSeparatedPayload (xe_H env) GetConfidentialComputeConfigUpdatePrefix
            (EnclaveConfig_Hash (xe_H env) newConfig)
      in bindX (liftX (wrapE ''failed to sign enclave config update: '' (signWithCapabilityAccount env w prefixedHash)))
           (\<lambda>sig. bindX (wrapX ''config update broadcast reported errors: ''
               (callClient env w (UpdateConfig (xe_pool env) (xw_net w AtUpdateConfig) (xe_MarshalConfig env newConfig, sig))))
             (\<lambda>_ e. (XOk (), xemit Map.empty ''config_update_proposed''
               [''member_count'' \<mapsto> AInt (int (length newMembers)), ''f'' \<mapsto> AInt (uint newF)] e))))"

definition reconcileConfigs ::
    "ExecEnv \<Rightarrow> world \<Rightarrow> bytes list \<Rightarrow> 32 word \<Rightarrow> RealExecutor \<Rightarrow> unit xresult \<times> RealExecutor" where
  "reconcileConfigs env w newMembers newF =
     bindX (wrapX ''failed to fetch current enclave config: ''
         (callClient env w (GetConfigs (xe_pool env) (xw_net w AtGetConfigs))))
       (\<lambda>configs. (case configs of
          [] \<Rightarrow> liftX (Inl (plainErr ''no enclave configs available to read current config''))
        | currentConfig # _ \<Rightarrow> (case configsMatchLoop currentConfig newMembers newF configs False of
            Inl err \<Rightarrow> liftX (Inl err)
          | Inr True \<Rightarrow> (\<lambda>e. (XOk (), setDONMembership newMembers newF e))
          | Inr False \<Rightarrow> proposeNewConfig env w currentConfig newMembers newF)))"

text \<open>One proposal at a time: the flag is taken first and released at every return.\<close>

definition broadcastConfigUpdate ::
    "ExecEnv \<Rightarrow> world \<Rightarrow> bytes list \<Rightarrow> 32 word \<Rightarrow> RealExecutor \<Rightarrow> unit xresult \<times> RealExecutor" where
  "broadcastConfigUpdate env w newMembers newF e =
     (if ex_proposalInFlight e then (XOk (), e)
      else case reconcileConfigs env w (sortedBytesCopy newMembers) newF (e\<lparr>ex_proposalInFlight := True\<rparr>) of
          (r, e') \<Rightarrow> (r, e'\<lparr>ex_proposalInFlight := False\<rparr>))"

text \<open>A failed proposal is logged and counted; only a panic goes up.\<close>

definition proposeConfigUpdateIfMembershipChanged ::
    "ExecEnv \<Rightarrow> world \<Rightarrow> bytes list \<Rightarrow> 32 word \<Rightarrow> RealExecutor \<Rightarrow> unit xresult \<times> RealExecutor" where
  "proposeConfigUpdateIfMembershipChanged env w newMembers newF e =
     (if ex_donMembers e \<noteq> [] \<and> newF = ex_donF e \<and> newMembers = ex_donMembers e then (XOk (), e)
      else case broadcastConfigUpdate env w newMembers newF e of
          (XErr err, e') \<Rightarrow> (XOk (), xemit Map.empty ''config_update_proposal_failed'' [''error'' \<mapsto> AStr (ge_text err)] e')
        | r \<Rightarrow> r)"

text \<open>A failed node update is logged and counted, and the old nodes stay in use.\<close>

definition updateNodesOrKeep :: "ExecEnv \<Rightarrow> world \<Rightarrow> Enclave list \<Rightarrow> RealExecutor \<Rightarrow> unit xresult \<times> RealExecutor" where
  "updateNodesOrKeep env w nodes e =
     (case callClient env w (UpdateNodes (xe_pool env) (xw_net w AtUpdateNodes) nodes) e of
        (XPanic, e') \<Rightarrow> (XPanic, e')
      | (XErr _, e') \<Rightarrow> (XOk (), xemit Map.empty ''attestation_validation_fallback_used'' [''endpoint'' \<mapsto> AStr ''publicKeys''] e')
      | (XOk _, e') \<Rightarrow> (XOk (), e'\<lparr>ex_enclaves := nodes\<rparr>))"

definition EnsureFreshEnclaves :: "ExecEnv \<Rightarrow> world \<Rightarrow> RealExecutor \<Rightarrow> unit xresult \<times> RealExecutor" where
  "EnsureFreshEnclaves env w =
     bindX (getLocalNodeAndCapConfig env w) (\<lambda>(localNode, ownCapabilityConfig).
     bindX (\<lambda>e. liftX (wrapE ''failed to create enclave pool: '' (GetEnclaveNodes ownCapabilityConfig (ex_apiKey e))) e) (\<lambda>nodes.
     bindX (updateNodesOrKeep env w (sortEnclaveNodes nodes)) (\<lambda>_.
     bindX (liftX (wrapE ''failed to get VaultDON possible faulty nodes: '' (getVaultDONPossibleFaultyNodes w (nd_F localNode)))) (\<lambda>faulty.
     bindX (\<lambda>e. (XOk (), e\<lparr>ex_vaultThreshold := getVaultDONThreshold faulty\<rparr>)) (\<lambda>_.
     proposeConfigUpdateIfMembershipChanged env w (peerIDsToSortedBytes (nd_Members localNode)) (of_nat (nd_F localNode)))))))"

definition GetEnclaves :: "RealExecutor \<Rightarrow> Enclave list" where
  "GetEnclaves e = ex_enclaves e"

section \<open>Initialisation and closing\<close>

text \<open>The first key that decrypts is the API key; \<open>errs\<close> are the errors so far.\<close>

primrec decryptLoop :: "ExecEnv \<Rightarrow> (bytes \<Rightarrow> goErr + bytes) \<Rightarrow> string list \<Rightarrow> string list \<Rightarrow> goErr + string" where
  "decryptLoop env decrypt [] errs =
     Inl (plainErr (''failed to decrypt any provided API keys: ['' @
       (case errs of [] \<Rightarrow> [] | t # ts \<Rightarrow> t @ concat (map (\<lambda>u. '' '' @ u) ts)) @ '']''))"
| "decryptLoop env decrypt (key # keys) errs = (case decodeHex env key of
     Inl err \<Rightarrow> Inl (wrapErr ''failed to decode hex-encoded encrypted API key: '' err)
   | Inr keyCtxt \<Rightarrow> (case decrypt keyCtxt of
       Inl err \<Rightarrow> decryptLoop env decrypt keys (errs @ [''failed to decrypt API key: '' @ ge_text err])
     | Inr k \<Rightarrow> Inr (string_of k)))"

definition loadAPIKey :: "ExecEnv \<Rightarrow> world \<Rightarrow> Config \<Rightarrow> RealExecutor \<Rightarrow> unit xresult \<times> RealExecutor" where
  "loadAPIKey env w cfg e =
     (if jc_EncryptedAPIKeys cfg = [] then (XOk (), e)
      else case wrapE ''failed to get accounts from keystore: '' (xw_Accounts w) of
          Inl err \<Rightarrow> (XErr err, e)
        | Inr accounts \<Rightarrow> (case capabilityAccount env accounts of
            Inl err \<Rightarrow> (XErr err, e)
          | Inr acct \<Rightarrow> (case decryptLoop env (xw_Decrypt w acct) (splitOn (CHR '','') (jc_EncryptedAPIKeys cfg)) [] of
              Inl err \<Rightarrow> (XErr err, e)
            | Inr k \<Rightarrow> (XOk (), e\<lparr>ex_apiKey := k\<rparr>))))"

definition poolConfigFor :: "world \<Rightarrow> ParsedConfig \<Rightarrow> RealExecutor \<Rightarrow> PoolConfig" where
  "poolConfigFor w parsed e =
     \<lparr>pc_Cache = pg_CacheConfig parsed, pc_Session = pg_SessionConfig parsed, pc_Metrics = True,
      pc_RequestTimeoutResolverFn = Some (resolveRequestTimeout (xw_settings w) (ex_capConfig e)),
      pc_PublicKeyRetriesMax = pg_PublicKeyRetriesMax parsed, pc_PublicKeyRetriesBackoff = pg_PublicKeyRetriesBackoff parsed\<rparr>"

definition createPool :: "ExecEnv \<Rightarrow> world \<Rightarrow> ParsedConfig \<Rightarrow> Enclave list \<Rightarrow> RealExecutor \<Rightarrow> enclavePool xresult \<times> RealExecutor" where
  "createPool env w parsed nodes e =
     (case NewPoolWithConfig (xe_pool env) (xw_net w AtWarmup) (xw_keysAt w) nodes None (poolConfigFor w parsed e) of
        Ok pool \<Rightarrow> (XOk pool, e)
      | Err er \<Rightarrow> (XErr (wrapErr ''failed to create enclave pool: '' (poolErr env er)), e)
      | Panic \<Rightarrow> (XPanic, e))"

text \<open>The assignments at the end of \<open>initLazily\<close>, up to the proposal.\<close>

definition installPool ::
    "ParsedConfig \<Rightarrow> Enclave list \<Rightarrow> enclavePool \<Rightarrow> int \<Rightarrow> RealExecutor \<Rightarrow> unit xresult \<times> RealExecutor" where
  "installPool parsed nodes pool faulty e = (XOk (), e\<lparr>ex_enclaveClient := Some pool, ex_enclaves := nodes,
     ex_skipVerify := pg_InsecureSkipTLSVerify parsed, ex_capConfig := Some parsed,
     ex_vaultThreshold := getVaultDONThreshold faulty, ex_vaultCapability := True\<rparr>)"

definition startEnclaveRefreshLoop :: "RealExecutor \<Rightarrow> RealExecutor" where
  "startEnclaveRefreshLoop e = e\<lparr>ex_refreshCancel := True, ex_refreshRunning := True\<rparr>"

definition initialize :: "ExecEnv \<Rightarrow> world \<Rightarrow> RealExecutor \<Rightarrow> unit xresult \<times> RealExecutor" where
  "initialize env w =
     bindX (\<lambda>e. liftX (wrapE ''failed to parse capability config: '' (ParseConfig (xe_UnmarshalConfig env (ex_capConfigRaw e)))) e) (\<lambda>parsed0.
     let parsed = applyLimitSettings (xw_settings w) parsed0 in
     bindX (\<lambda>e. (case xe_NewRateLimiter env (pg_GlobalRPS parsed) (pg_GlobalBurst parsed)
                     (pg_WorkflowOwnerRPS parsed) (pg_WorkflowOwnerBurst parsed) of
                 Some err \<Rightarrow> (XErr (wrapErr ''failed to create rate limiter: '' err), e) | None \<Rightarrow> (XOk (), e))) (\<lambda>_.
     bindX (loadAPIKey env w (pg_Config parsed)) (\<lambda>_.
     bindX (getLocalNodeAndCapConfig env w) (\<lambda>(localNode, ownCapabilityConfig).
     bindX (\<lambda>e. liftX (wrapE ''failed to create enclave pool: '' (GetEnclaveNodes ownCapabilityConfig (ex_apiKey e))) e) (\<lambda>nodes0.
     let nodes = sortEnclaveNodes nodes0 in
     bindX (createPool env w parsed nodes) (\<lambda>pool.
     bindX (liftX (case xw_GetExecutable w of
         Some err \<Rightarrow> Inl (wrapErr (''failed to get VaultDON capability with ID '' @ [CHR 0x27] @ xe_VaultCapabilityID env @ [CHR 0x27] @ '' from registry: '') err)
       | None \<Rightarrow> Inr ())) (\<lambda>_.
     bindX (liftX (wrapE ''failed to get VaultDON possible faulty nodes: '' (getVaultDONPossibleFaultyNodes w (nd_F localNode)))) (\<lambda>faulty.
     bindX (installPool parsed nodes pool faulty) (\<lambda>_.
     bindX (proposeConfigUpdateIfMembershipChanged env w (peerIDsToSortedBytes (nd_Members localNode)) (of_nat (nd_F localNode))) (\<lambda>_ e.
       (XOk (), startEnclaveRefreshLoop (e\<lparr>ex_initialized := True\<rparr>))))))))))))"

definition initLazily :: "ExecEnv \<Rightarrow> world \<Rightarrow> RealExecutor \<Rightarrow> unit xresult \<times> RealExecutor" where
  "initLazily env w e = (if ex_initialized e then (XOk (), e) else initialize env w e)"

text \<open>
  \<open>Close\<close> cancels the refresh loop, waits for it and closes the pool. It takes
  the cancel function, so a second call only closes the pool again.
\<close>

definition Executor_Close :: "RealExecutor \<Rightarrow> RealExecutor" where
  "Executor_Close e =
     (let e1 = (if ex_refreshCancel e then e\<lparr>ex_refreshCancel := False, ex_refreshRunning := False\<rparr> else e)
      in e1\<lparr>ex_enclaveClient := map_option Pool_Close (ex_enclaveClient e1)\<rparr>)"

text \<open>One tick of the background loop; an error is only logged.\<close>

definition refreshTick :: "ExecEnv \<Rightarrow> world \<Rightarrow> RealExecutor \<Rightarrow> RealExecutor" where
  "refreshTick env w e = (if ex_refreshRunning e then snd (EnsureFreshEnclaves env w e) else e)"

section \<open>Selecting an enclave and its key\<close>

record EnclaveParams =
  pa_EnclaveID :: bytes
  pa_EnclaveEphemeralPublicKey :: bytes

text \<open>The index of the newest key, by its creation time in microseconds.\<close>

primrec mostRecentLoop :: "nat \<Rightarrow> nat \<Rightarrow> int \<Rightarrow> time list \<Rightarrow> nat" where
  "mostRecentLoop i best newest [] = best"
| "mostRecentLoop i best newest (t # ts) =
     (let us = t div 1000 in if us > newest then mostRecentLoop (Suc i) i us ts else mostRecentLoop (Suc i) best newest ts)"

text \<open>More creation times than keys can index out of range.\<close>

definition pickEnclave ::
    "bytes \<Rightarrow> EnclavePublicKeyData list \<Rightarrow> RealExecutor \<Rightarrow> EnclaveParams xresult \<times> RealExecutor" where
  "pickEnclave reqID responses e =
     (let noKeys = (XErr (plainErr (''no enclave public keys found for request '' @ hexEncode reqID)), e) in
      case responses of
        [] \<Rightarrow> noKeys
      | selected # _ \<Rightarrow> (let keys = pk_PublicKeys (ep_Response selected) in
          if keys = [] then noKeys
          else case validateEnclaveSigners (pk_Config (ep_Response selected)) e of
              Some err \<Rightarrow> (XErr (wrapErr (''enclave config validation failed for request '' @ hexEncode reqID @ '': '') err), e)
            | None \<Rightarrow> (let i = mostRecentLoop 0 0 0 (pk_CreationTimes (ep_Response selected)) in
                if i < length keys
                then (XOk \<lparr>pa_EnclaveID = ep_EnclaveID selected, pa_EnclaveEphemeralPublicKey = keys ! i\<rparr>, e)
                else (XPanic, e))))"

definition getEnclaveParams :: "ExecEnv \<Rightarrow> world \<Rightarrow> bytes \<Rightarrow> RealExecutor \<Rightarrow> EnclaveParams xresult \<times> RealExecutor" where
  "getEnclaveParams env w reqID =
     bindX (wrapX ''failed to get public keys: ''
         (callClient env w (GetPublicKeys (xe_pool env) (xw_net w AtPublicKeys) (xw_keysAt w) reqID None)))
       (pickEnclave reqID)"

section \<open>Shares from the Vault DON\<close>

definition cachedPublicKeysMatch :: "cachedEDKS list \<Rightarrow> bool" where
  "cachedPublicKeysMatch cached = list_all (\<lambda>entry. ce_rawVaultPublicKey entry = ce_rawVaultPublicKey (hd cached)) cached"

definition secretCacheKeyData :: "bytes \<Rightarrow> SecretIdentifier \<Rightarrow> string \<Rightarrow> string" where
  "secretCacheKeyData key secret owner =
     hexEncode key @ ''-'' @ si_Key secret @ ''-'' @ si_Namespace secret @ ''-'' @ owner"

definition generateSecretCacheKey :: "ExecEnv \<Rightarrow> bytes \<Rightarrow> SecretIdentifier \<Rightarrow> string \<Rightarrow> bytes" where
  "generateSecretCacheKey env key secret workflowOwner = xe_H env (bytes_of (secretCacheKeyData key secret workflowOwner))"

text \<open>The look-up loop: all entries, or \<open>None\<close> at the first miss.\<close>

primrec cachedEntries :: "(SecretIdentifier \<Rightarrow> cachedEDKS option) \<Rightarrow> SecretIdentifier list \<Rightarrow> cachedEDKS list option" where
  "cachedEntries get [] = Some []"
| "cachedEntries get (s # ss) = (case get s of None \<Rightarrow> None | Some entry \<Rightarrow> map_option (\<lambda>es. entry # es) (cachedEntries get ss))"

definition applyPropagatedOrgIDToVault :: "limitSettings \<Rightarrow> RequestMetadata \<Rightarrow> RequestMetadata" where
  "applyPropagatedOrgIDToVault g md = (if lm_PropagateOrgIDInRequestMetadata g then md else md\<lparr>rm_OrgID := []\<rparr>)"

definition applyWorkflowDONBindingToVault :: "world \<Rightarrow> RequestMetadata \<Rightarrow> goErr + RequestMetadata" where
  "applyWorkflowDONBindingToVault w md =
     (case lm_RemoteExecutableWorkflowDONBindingEnabled (xw_settings w) of
        (_, Some err) \<Rightarrow> Inl (wrapErr ''failed to read RemoteExecutableWorkflowDONBindingEnabled setting: '' err)
      | (False, None) \<Rightarrow> Inr md
      | (True, None) \<Rightarrow> (case xw_LocalNodeAtVault w of
          Inl err \<Rightarrow> Inl (wrapErr ''failed to get local node for VaultDON request metadata: '' err)
        | Inr localNode \<Rightarrow> Inr (md\<lparr>rm_WorkflowDonID := nd_DON_ID localNode\<rparr>)))"

definition secretRequestsFor :: "ExecEnv \<Rightarrow> SecretIdentifier list \<Rightarrow> bytes \<Rightarrow> RequestMetadata \<Rightarrow> SecretRequest list" where
  "secretRequestsFor env secrets key md =
     map (\<lambda>s. \<lparr>sq_Key = si_Key s, sq_Namespace = si_Namespace s,
       sq_Owner = Address_String (xe_keccak env) (HexToAddress (rm_WorkflowOwner md)),
       sq_EncryptionKeys = [hexEncode key]\<rparr>) secrets"

text \<open>\<^verbatim>\<open>resp.GetId().GetKey()\<close>, which is empty without an identifier.\<close>

definition respKey :: "SecretResponse \<Rightarrow> string" where
  "respKey r = (case sp_Id r of None \<Rightarrow> [] | Some k \<Rightarrow> k)"

text \<open>The checks on the responses in the order they came.\<close>

primrec scanResponses :: "ExecEnv \<Rightarrow> nat \<Rightarrow> string list \<Rightarrow> SecretResponse list \<Rightarrow> goErr option" where
  "scanResponses env i seen [] = None"
| "scanResponses env i seen (r # rs) =
     (if sp_Error r \<noteq> []
      then let innerErr = plainErr (''VaultDON returned an error for secret request at index '' @ decimal i @
             '' with key '' @ respKey r @ '': '' @ sp_Error r)
        in Some (if sp_Error r = ErrVaultSystemErrorFallback then innerErr
                 else NewPublicUserError env innerErr InvalidArgument)
      else if sp_Id r = None \<or> respKey r = []
      then Some (plainErr (''VaultDON response at index '' @ decimal i @ '' is missing a valid secret identifier''))
      else if respKey r \<in> set seen
      then Some (plainErr (''duplicate VaultDON response for secret key '' @ respKey r @ '' at index '' @ decimal i))
      else scanResponses env (Suc i) (seen @ [respKey r]) rs)"

definition matchResponse :: "SecretResponse list \<Rightarrow> SecretRequest \<Rightarrow> goErr + SecretResponse" where
  "matchResponse rs q = (case find (\<lambda>r. respKey r = sq_Key q) rs of
     Some r \<Rightarrow> Inr r
   | None \<Rightarrow> Inl (plainErr (''no response from VaultDON for secret with key '' @ sq_Key q @ '', namespace '' @
       sq_Namespace q @ '', owner '' @ sq_Owner q)))"

definition decodeShares :: "ExecEnv \<Rightarrow> string \<Rightarrow> KeyShares \<Rightarrow> goErr + bytes list" where
  "decodeShares env key ks =
     (if ks_BinaryShares ks \<noteq> [] then Inr (ks_BinaryShares ks)
      else if ks_Shares ks \<noteq> []
      then mapE (\<lambda>s. wrapE (''failed to decode hex-encoded share for secret '' @ key @ '': '') (decodeHex env s)) (ks_Shares ks)
      else Inl (plainErr (''no decryption shares found for secret '' @ key @ '': neither binary nor hex-encoded shares present'')))"

text \<open>The ciphertext of a response and its shares, at least \<open>minimum\<close> of them.\<close>

definition decodeResponse :: "ExecEnv \<Rightarrow> int \<Rightarrow> SecretResponse \<Rightarrow> goErr + bytes \<times> bytes list" where
  "decodeResponse env minimum r = (let key = respKey r in case sp_Data r of
     None \<Rightarrow> Inl (plainErr (''VaultDON returned no data for secret '' @ key))
   | Some d \<Rightarrow> (case decodeHex env (sd_EncryptedValue d) of
       Inl err \<Rightarrow> Inl (wrapErr (''failed to decode hex-encoded ciphertext for secret '' @ key @ '': '') err)
     | Inr encryptedSecret \<Rightarrow> (case sd_EncryptedDecryptionKeyShares d of
         [ks] \<Rightarrow> (case decodeShares env key ks of
             Inl err \<Rightarrow> Inl err
           | Inr shares \<Rightarrow>
               if int (length shares) < minimum
               then Inl (plainErr (''not enough encrypted decryption key shares for secret '' @ key @ '', expected at least '' @
                 decimal (nat minimum) @ '', got '' @ decimal (length shares)))
               else Inr (encryptedSecret, shares))
       | kss \<Rightarrow> Inl (plainErr (''expected exactly one set of encrypted decryption key shares for secret '' @ key @
           '', got '' @ decimal (length kss))))))"

text \<open>What the three results of \<open>GetEncryptedDecryptionShares\<close> are: ciphertexts, their shares, the Vault's key.\<close>

type_synonym shareSet = "bytes list \<times> bytes list list \<times> bytes"

definition readVaultResponse ::
    "ExecEnv \<Rightarrow> int \<Rightarrow> SecretRequest list \<Rightarrow> GetSecretsResponse \<Rightarrow> goErr + shareSet" where
  "readVaultResponse env minimum reqs out =
     (case (if gs_RawVaultPublicKey out = [] then Inr []
            else wrapE ''failed to decode RawVaultPublicKey from VaultDON response: '' (decodeHex env (gs_RawVaultPublicKey out))) of
        Inl err \<Rightarrow> Inl err
      | Inr rawVaultPublicKey \<Rightarrow> (case scanResponses env 0 [] (gs_Responses out) of
          Some err \<Rightarrow> Inl err
        | None \<Rightarrow> (case mapE (matchResponse (gs_Responses out)) reqs of
            Inl err \<Rightarrow> Inl err
          | Inr ordered \<Rightarrow> (case mapE (decodeResponse env minimum) ordered of
              Inl err \<Rightarrow> Inl err
            | Inr decoded \<Rightarrow> Inr (map fst decoded, map snd decoded, rawVaultPublicKey)))))"

definition fetchFromVault ::
    "ExecEnv \<Rightarrow> world \<Rightarrow> SecretIdentifier list \<Rightarrow> bytes \<Rightarrow> RequestMetadata \<Rightarrow> RealExecutor \<Rightarrow> shareSet xresult \<times> RealExecutor" where
  "fetchFromVault env w secrets key md e =
     (let reqs = secretRequestsFor env secrets key md in
      case xe_NewAny env reqs of
        Some err \<Rightarrow> (XErr (wrapErr ''failed to marshal VaultDON request payload to Any: '' err), e)
      | None \<Rightarrow> (case applyWorkflowDONBindingToVault w (applyPropagatedOrgIDToVault (xw_settings w) md) of
          Inl err \<Rightarrow> (XErr err, e)
        | Inr vaultMetadata \<Rightarrow> (case xw_VaultExecute w \<lparr>vq_Requests = reqs, vq_Metadata = vaultMetadata\<rparr> of
            Inl err \<Rightarrow> (XErr (wrapErr ''failed to execute VaultDON capability: '' err), e)
          | Inr (Inl err) \<Rightarrow> (XErr (wrapErr ''failed to unmarshal VaultDON response payload: '' err), e)
          | Inr (Inr out) \<Rightarrow> liftX (readVaultResponse env (ex_vaultThreshold e) reqs out) e)))"

definition storeShares :: "ExecEnv \<Rightarrow> world \<Rightarrow> SecretIdentifier list \<Rightarrow> bytes \<Rightarrow> string \<Rightarrow> shareSet \<Rightarrow> RealExecutor \<Rightarrow> RealExecutor" where
  "storeShares env w secrets key owner ss e = (case ss of (cts, shares, raw) \<Rightarrow>
     e\<lparr>ex_secretsCache := fold (\<lambda>(s, ct, sh). Cache_Set (xw_storeAt w) (generateSecretCacheKey env key s owner)
         \<lparr>ce_encryptedSecret = ct, ce_encryptedDecryptionShares = sh, ce_rawVaultPublicKey = raw\<rparr> None)
       (zip secrets (zip cts shares)) (ex_secretsCache e)\<rparr>)"

text \<open>
  The log line at the start slices eight bytes of the key, which needs that
  capacity. \<open>Capability\<close> and \<open>getCapConfig\<close> are nil before the initialisation.
\<close>

definition GetEncryptedDecryptionShares ::
    "ExecEnv \<Rightarrow> world \<Rightarrow> eventDetails \<Rightarrow> SecretIdentifier list \<Rightarrow> bytes \<Rightarrow> RequestMetadata
     \<Rightarrow> RealExecutor \<Rightarrow> shareSet xresult \<times> RealExecutor" where
  "GetEncryptedDecryptionShares env w defaults secrets key md e =
     (if xe_cap env key < 8 then (XPanic, e)
      else if secrets = [] then (XOk ([], [], []), e)
      else if \<not> ex_vaultCapability e then (XErr (plainErr ''VaultDON capability is not initialized''), e)
      else (case ex_capConfig e of
          None \<Rightarrow> (XPanic, e)
        | Some cfg \<Rightarrow>
            if \<not> pg_EnableSecretsCache cfg then fetchFromVault env w secrets key md e
            else let owner = rm_WorkflowOwner md;
                   hits = (case cachedEntries (\<lambda>s. Cache_Get (xw_cacheAt w) (generateSecretCacheKey env key s owner) (ex_secretsCache e)) secrets of
                       None \<Rightarrow> None
                     | Some cached \<Rightarrow> if cachedPublicKeysMatch cached then Some cached else None)
              in (case hits of
                    Some cached \<Rightarrow>
                      (XOk (map ce_encryptedSecret cached, map ce_encryptedDecryptionShares cached, ce_rawVaultPublicKey (hd cached)),
                       xemit defaults ''vault_don_cache_hit'' Map.empty e)
                  | None \<Rightarrow> bindX (fetchFromVault env w secrets key md)
                      (\<lambda>ss e'. (XOk ss, storeShares env w secrets key owner ss e')) (xemit defaults ''vault_don_cache_miss'' Map.empty e))))"

section \<open>Retrying\<close>

text \<open>
  \<open>retryWithBackoff\<close> around a function: \<open>n\<close> attempts to go, \<open>i\<close> made, \<open>errs\<close> their
  errors, \<open>waits\<close> the backoffs waited for. \<open>done\<close> tells when the context ended
  during the backoff after an attempt.
\<close>

primrec retryLoop ::
    "(nat \<Rightarrow> 's \<Rightarrow> unit xresult \<times> 's) \<Rightarrow> (nat \<Rightarrow> goErr option) \<Rightarrow> int \<Rightarrow> nat \<Rightarrow> nat \<Rightarrow> duration \<Rightarrow> goErr option \<Rightarrow> duration list
     \<Rightarrow> 's \<Rightarrow> unit xresult \<times> duration list \<times> 's" where
  "retryLoop fn ctxDone maxRetries 0 i backoff errs waits s =
     (XErr (case errs of
        None \<Rightarrow> plainErr (''failed after '' @ decimal (nat maxRetries) @ '' retries: %!w(<nil>)'')
      | Some e \<Rightarrow> wrapErr (''failed after '' @ decimal (nat maxRetries) @ '' retries: '') e), waits, s)"
| "retryLoop fn ctxDone maxRetries (Suc n) i backoff errs waits s = (case fn i s of
     (XOk _, s') \<Rightarrow> (XOk (), waits, s')
   | (XPanic, s') \<Rightarrow> (XPanic, waits, s')
   | (XErr err, s') \<Rightarrow>
       if isUserErr err then (XErr err, waits, s')
       else (case ctxDone i of
           Some ctxErr \<Rightarrow> (XErr ctxErr, waits, s')
         | None \<Rightarrow> retryLoop fn ctxDone maxRetries n (Suc i) (backoff * 2) (Some (joinErr errs err)) (waits @ [backoff]) s'))"

definition retryWithBackoff ::
    "(nat \<Rightarrow> 's \<Rightarrow> unit xresult \<times> 's) \<Rightarrow> (nat \<Rightarrow> goErr option) \<Rightarrow> ParsedConfig \<Rightarrow> 's \<Rightarrow> unit xresult \<times> duration list \<times> 's" where
  "retryWithBackoff fn ctxDone cfg s =
     retryLoop fn ctxDone (pg_MaxRetries cfg) (nat (pg_MaxRetries cfg)) 0 (pg_RetryBackoffSeconds cfg * second) None [] s"

section \<open>Execute\<close>

text \<open>The variables the attempts of one execution share.\<close>

record executeLocals =
  xl_executor :: RealExecutor
  xl_retryIndex :: nat
  xl_vaultDONRequestSent :: bool
  xl_metadata :: RequestMetadata
  xl_enclaveIDStr :: string
  xl_executeResponses :: "executeReply list"

definition onExecutor :: "(RealExecutor \<Rightarrow> 'a xresult \<times> RealExecutor) \<Rightarrow> executeLocals \<Rightarrow> 'a xresult \<times> executeLocals" where
  "onExecutor m xl = (case m (xl_executor xl) of (r, e) \<Rightarrow> (r, xl\<lparr>xl_executor := e\<rparr>))"

abbreviation emitX :: "eventDetails \<Rightarrow> string \<Rightarrow> eventDetails \<Rightarrow> executeLocals \<Rightarrow> executeLocals" where
  "emitX defaults event details xl \<equiv> xl\<lparr>xl_executor := xemit defaults event details (xl_executor xl)\<rparr>"

definition beginAttempt :: "executeLocals \<Rightarrow> executeLocals" where
  "beginAttempt xl =
     (if xl_vaultDONRequestSent xl
      then xl\<lparr>xl_retryIndex := Suc (xl_retryIndex xl),
              xl_metadata := (xl_metadata xl)\<lparr>rm_ReferenceID := ''confidential-retry-'' @ decimal (Suc (xl_retryIndex xl))\<rparr>\<rparr>
      else xl)\<lparr>xl_vaultDONRequestSent := False\<rparr>"

definition computeRequestFor ::
    "RealExecutor \<Rightarrow> bytes \<Rightarrow> string \<Rightarrow> bytes \<Rightarrow> SecretIdentifier list \<Rightarrow> EnclaveParams \<Rightarrow> shareSet \<Rightarrow> ComputeRequest" where
  "computeRequestFor e reqID workflowExecutionID protoBytes secrets ep ss = (case ss of (cts, shares, raw) \<Rightarrow>
     \<lparr>cr_RequestID = reqID, cr_ApplicationRequestID = workflowExecutionID, cr_PublicData = protoBytes,
      cr_Ciphertexts = cts, cr_CiphertextNames = map si_Key secrets, cr_EncryptedDecryptionKeyShares = shares,
      cr_EnclaveEphemeralPublicKey = pa_EnclaveEphemeralPublicKey ep, cr_MasterPublicKey = raw,
      cr_AppID = ex_capabilityID e, cr_Version = ex_confidentialComputeVersion e\<rparr>)"

text \<open>How an error of the enclave call is classified, and what is emitted for it.\<close>

definition classifyExecuteError ::
    "ExecEnv \<Rightarrow> world \<Rightarrow> eventDetails \<Rightarrow> bytes \<Rightarrow> string \<Rightarrow> goErr \<Rightarrow> executeLocals \<Rightarrow> goErr \<times> executeLocals" where
  "classifyExecuteError env w defaults enclaveID workflowID err xl =
     (let t = ge_text err; eid = EncodeToString enclaveID; secs = ANum (xw_seconds w AtExecute) in
      if Contains t ErrQuorumTimeout
      then (wrapErr ''enclave quorum timeout: '' err, emitX defaults ''quorum_timeout''
        [''enclave.id'' \<mapsto> AStr eid, ''workflow.id'' \<mapsto> AStr workflowID, ''duration_seconds'' \<mapsto> secs] xl)
      else if Contains t ErrHTTPRedirectNotAllowed
      then (NewPublicUserError env (plainErr ErrHTTPRedirectNotAllowed) InvalidArgument, xl)
      else if Contains t ErrEncryptionRequestedNoKey \<or> Contains t ErrKeyPresentNoEncryption \<or> Contains t ErrResponseBodyTooLarge
      then (NewPublicUserError env (wrapErr ''enclave request failed: '' err) InvalidArgument, xl)
      else if Contains t ErrWasmExecutionTimeout
      then (NewPublicUserError env (wrapErr ''enclave wasm execution timed out: '' err) DeadlineExceeded, xl)
      else (wrapErr (''failed to execute enclave request. enclave ID: '' @ eid @ '', error: '') err,
        emitX defaults ''execute_error'' [''enclave.id'' \<mapsto> AStr eid, ''duration_seconds'' \<mapsto> secs] xl))"

definition signRequestX ::
    "ExecEnv \<Rightarrow> world \<Rightarrow> eventDetails \<Rightarrow> ComputeRequest \<Rightarrow> executeLocals \<Rightarrow> SignedComputeRequest xresult \<times> executeLocals" where
  "signRequestX env w defaults cr =
     onErr (\<lambda>err xl. (wrapErr ''failed to sign compute request: '' err, emitX defaults ''compute_request_signature_error'' Map.empty xl))
       (liftX (SignComputeRequest env w cr))"

text \<open>The dispatch to the enclave and the check of the configuration it reports.\<close>

definition dispatchX ::
    "ExecEnv \<Rightarrow> world \<Rightarrow> eventDetails \<Rightarrow> bytes \<Rightarrow> EnclaveParams \<Rightarrow> SignedComputeRequest \<Rightarrow> executeLocals \<Rightarrow> unit xresult \<times> executeLocals" where
  "dispatchX env w defaults reqID ep sreq =
     bindX (onErr (\<lambda>err xl. classifyExecuteError env w defaults (pa_EnclaveID ep) (rm_WorkflowID (xl_metadata xl)) err
                     (xl\<lparr>xl_executeResponses := []\<rparr>))
         (onExecutor (callClient env w (ExecuteBatch (xe_pool env) (xw_net w AtExecute) [sreq] [pa_EnclaveID ep]))))
       (\<lambda>responses xl. let xl1 = xl\<lparr>xl_executeResponses := responses\<rparr> in
          (case responses of
             [] \<Rightarrow> (XPanic, xl1)
           | reply # _ \<Rightarrow> (case validateEnclaveSigners (er_Config (xr_Response reply)) (xl_executor xl1) of
               Some err \<Rightarrow> (XErr (wrapErr (''execute response config validation failed for request '' @ hexEncode reqID @ '': '') err), xl1)
             | None \<Rightarrow> (XOk (), xl1))))"

definition executeAttempt ::
    "ExecEnv \<Rightarrow> world \<Rightarrow> eventDetails \<Rightarrow> bytes option \<Rightarrow> SecretIdentifier list \<Rightarrow> bytes \<Rightarrow> string
     \<Rightarrow> executeLocals \<Rightarrow> unit xresult \<times> executeLocals" where
  "executeAttempt env w defaults protoBytes secrets reqID workflowExecutionID xl0 =
     (bindX (wrapX ''failed to ensure fresh enclaves: '' (onExecutor (EnsureFreshEnclaves env w))) (\<lambda>_.
      bindX (onErr (\<lambda>err xl. (wrapErr ''failed to get enclave params: '' err,
               emitX defaults ''enclave_params_error'' [''duration_seconds'' \<mapsto> ANum (xw_seconds w AtPublicKeys)] xl))
           (onExecutor (getEnclaveParams env w reqID))) (\<lambda>ep.
      bindX (\<lambda>xl. (XOk (), xl\<lparr>xl_enclaveIDStr := hexEncode (pa_EnclaveID ep), xl_vaultDONRequestSent := True\<rparr>)) (\<lambda>_.
      bindX (onErr (\<lambda>err xl. (wrapErr ''failed to get encrypted decryption key shares from VaultDON: '' err,
               emitX defaults ''vault_don_error'' [''duration_seconds'' \<mapsto> ANum (xw_seconds w AtVault)] xl))
           (\<lambda>xl. onExecutor (GetEncryptedDecryptionShares env w defaults secrets (pa_EnclaveEphemeralPublicKey ep) (xl_metadata xl)) xl)) (\<lambda>ss.
      (case protoBytes of
         None \<Rightarrow> liftX (Inl (plainErr ''input cannot be nil''))
       | Some input \<Rightarrow>
           bindX (\<lambda>xl. signRequestX env w defaults
                    (computeRequestFor (xl_executor xl) reqID workflowExecutionID input secrets ep ss) xl) (\<lambda>sreq.
           dispatchX env w defaults reqID ep sreq)))))))
     (beginAttempt xl0)"

text \<open>Re-emitting one event of the enclave, with the messages some events stand for.\<close>

definition forwardEvent ::
    "ExecEnv \<Rightarrow> time \<Rightarrow> RequestMetadata \<Rightarrow> eventDetails \<Rightarrow> string \<times> eventDetails \<Rightarrow> RealExecutor \<Rightarrow> RealExecutor" where
  "forwardEvent env now md enclaveDefaults ev e = (case ev of (event, d) \<Rightarrow>
     (let e1 = xemit enclaveDefaults event d e; ok = xe_MarshalEvent env; shard = ex_shardIndex e1;
          str = (\<lambda>k. case detailStr d k of None \<Rightarrow> [] | Some s \<Rightarrow> s);
          stepRef = detailInt32 (xe_f2i32 env) d ''step_ref''
      in if event = ''user_log''
         then (case detailStr d ''message'' of
                 None \<Rightarrow> e1
               | Some msg \<Rightarrow> e1\<lparr>ex_beholder := emitUserLog ok now md shard msg (ex_beholder e1)\<rparr>)
         else if event = ''capability_started''
         then e1\<lparr>ex_beholder := emitCapabilityStarted ok now md shard (str ''capability_id'') (str ''method'') stepRef (ex_beholder e1)\<rparr>
         else if event = ''capability_finished''
         then e1\<lparr>ex_beholder := emitCapabilityFinished ok now md shard (str ''capability_id'') (str ''method'') stepRef
                (d ''success'' = Some (ABool True)) (str ''error'') (ex_beholder e1)\<rparr>
         else e1))"

definition forwardTelemetry ::
    "ExecEnv \<Rightarrow> time \<Rightarrow> RequestMetadata \<Rightarrow> eventDetails \<Rightarrow> executeReply \<Rightarrow> RealExecutor \<Rightarrow> RealExecutor" where
  "forwardTelemetry env now md enclaveDefaults reply e =
     (if xr_MetricEvents reply \<noteq> [] then fold (forwardEvent env now md enclaveDefaults) (xr_MetricEvents reply) e
      else (case xr_Metrics reply of
          None \<Rightarrow> e
        | Some ms \<Rightarrow> fold (\<lambda>(ev, od) q. case od of None \<Rightarrow> q | Some d \<Rightarrow> xemit enclaveDefaults ev d q) ms e))"

definition scopedDefaults :: "RequestMetadata \<Rightarrow> eventDetails" where
  "scopedDefaults md = NewScopedEmitter
     [''workflow.owner'' \<mapsto> AStr (rm_WorkflowOwner md), ''workflow.id'' \<mapsto> AStr (rm_WorkflowID md),
      ''workflow.name'' \<mapsto> AStr (rm_WorkflowName md), ''org.id'' \<mapsto> AStr (rm_OrgID md)]"

definition requestIDFor :: "ExecEnv \<Rightarrow> RequestMetadata \<Rightarrow> bytes" where
  "requestIDFor env md = xe_H env (bytes_of (rm_WorkflowExecutionID md))"

definition beginLocals :: "RequestMetadata \<Rightarrow> RealExecutor \<Rightarrow> executeLocals" where
  "beginLocals md e = \<lparr>xl_executor = e, xl_retryIndex = 0, xl_vaultDONRequestSent = False, xl_metadata = md,
     xl_enclaveIDStr = [], xl_executeResponses = []\<rparr>"

text \<open>After the retries: classify a failure, or forward the telemetry and return the output.\<close>

definition finishExecute ::
    "ExecEnv \<Rightarrow> world \<Rightarrow> eventDetails \<Rightarrow> unit xresult \<Rightarrow> executeLocals \<Rightarrow> bytes xresult \<times> executeLocals" where
  "finishExecute env start defaults r xl = (case r of
     XPanic \<Rightarrow> (XPanic, xl)
   | XErr err \<Rightarrow>
       (XErr (if ex_quorumTimeoutIsUserError (xl_executor xl) \<and> Contains (ge_text err) ErrQuorumTimeout
              then NewPublicUserError env (wrapErr ''enclave quorum timeout: '' err) DeadlineExceeded else err), xl)
   | XOk _ \<Rightarrow> (case xl_executeResponses xl of
       [reply] \<Rightarrow>
         (let enclaveDefaults = WithDefaults defaults [''component'' \<mapsto> AStr ''enclave'', ''enclave.id'' \<mapsto> AStr (xl_enclaveIDStr xl)]
          in (XOk (er_Output (xr_Response reply)),
              xl\<lparr>xl_executor := xemit enclaveDefaults ''requests_completed_total'' Map.empty
                   (forwardTelemetry env (xw_doneAt start) (xl_metadata xl) enclaveDefaults reply (xl_executor xl))\<rparr>))
     | rs \<Rightarrow> (XErr (plainErr (''expected one enclave response, got '' @ decimal (length rs))), xl)))"

text \<open>The deferred \<open>execute_total\<close>: a panic leaves the named result \<open>err\<close> nil.\<close>

definition emitTotal :: "world \<Rightarrow> eventDetails \<Rightarrow> bytes xresult \<Rightarrow> executeLocals \<Rightarrow> RealExecutor" where
  "emitTotal start defaults r xl = xemit defaults ''execute_total''
     ([''duration_seconds'' \<mapsto> ANum (xw_seconds start AtTotal),
       ''outcome'' \<mapsto> AStr (case r of XErr _ \<Rightarrow> ''error'' | _ \<Rightarrow> ''success'')] ++
      (if xl_enclaveIDStr xl = [] then Map.empty else [''enclave.id'' \<mapsto> AStr (xl_enclaveIDStr xl)])) (xl_executor xl)"

text \<open>The body of \<open>Execute\<close> once it is initialised and rate limited; the waits of the retry loop come with it.\<close>

definition executeRetrying ::
    "ExecEnv \<Rightarrow> (nat \<Rightarrow> world) \<Rightarrow> eventDetails \<Rightarrow> bytes option \<Rightarrow> SecretIdentifier list \<Rightarrow> RequestMetadata \<Rightarrow> ParsedConfig
     \<Rightarrow> RealExecutor \<Rightarrow> unit xresult \<times> duration list \<times> executeLocals" where
  "executeRetrying env ws defaults protoBytes secrets md cfg e =
     retryWithBackoff
       (\<lambda>i. executeAttempt env (ws i) defaults protoBytes secrets (requestIDFor env md) (rm_WorkflowExecutionID md))
       (\<lambda>i. xw_ctxDone (ws i)) cfg (beginLocals md e)"

text \<open>
  \<open>Execute\<close>. The world \<open>start\<close> is what the call sees outside the attempts, \<open>ws i\<close> what
  attempt \<open>i\<close> sees. The result carries the backoffs waited for.
\<close>

definition Execute ::
    "ExecEnv \<Rightarrow> world \<Rightarrow> (nat \<Rightarrow> world) \<Rightarrow> bytes option \<Rightarrow> SecretIdentifier list \<Rightarrow> RequestMetadata
     \<Rightarrow> RealExecutor \<Rightarrow> (bytes xresult \<times> duration list) \<times> RealExecutor" where
  "Execute env start ws protoBytes secrets md e = (case initLazily env start e of
     (XErr err, e0) \<Rightarrow> ((XErr err, []), e0)
   | (XPanic, e0) \<Rightarrow> ((XPanic, []), e0)
   | (XOk _, e0) \<Rightarrow>
       (let e1 = refreshLimitSettings (xw_settings start) e0; defaults = scopedDefaults md in
        if \<not> xw_allow start
        then (let r = XErr (plainErr (''rate limit exceeded for workflow owner '' @ sanitizeLogString (rm_WorkflowOwner md)))
          in ((r, []), emitTotal start defaults r (beginLocals md (xemit defaults ''rate_limit_exceeded'' Map.empty e1))))
        else let e2 = xemit defaults ''requests_received_total'' Map.empty e1 in
          (case ex_capConfig e2 of
             None \<Rightarrow> ((XPanic, []), emitTotal start defaults XPanic (beginLocals md e2))
           | Some cfg \<Rightarrow> (case executeRetrying env ws defaults protoBytes secrets md cfg e2 of
               (r, waits, xl) \<Rightarrow> (case finishExecute env start defaults r xl of
                 (out, xl') \<Rightarrow> ((out, waits), emitTotal start defaults out xl'))))))"

section \<open>The action\<close>

text \<open>
  \<open>baseConfidentialAction\<close> marshals the input, executes it and unmarshals the
  output; \<open>marshal\<close> may give a nil slice. An action that was not initialised has no executor.
\<close>

definition Action_Execute ::
    "('i \<Rightarrow> goErr + bytes option) \<Rightarrow> ('i \<Rightarrow> SecretIdentifier list) \<Rightarrow> (bytes \<Rightarrow> goErr + 'o) \<Rightarrow> ExecEnv \<Rightarrow> world \<Rightarrow> (nat \<Rightarrow> world)
     \<Rightarrow> RequestMetadata \<Rightarrow> 'i \<Rightarrow> RealExecutor option \<Rightarrow> 'o xresult \<times> RealExecutor option" where
  "Action_Execute marshal getSecrets unmarshal env start ws md input ex =
     (case marshal input of
        Inl err \<Rightarrow> (XErr err, ex)
      | Inr protoBytes \<Rightarrow> (case ex of
          None \<Rightarrow> (XPanic, ex)
        | Some e \<Rightarrow> (case Execute env start ws protoBytes (getSecrets input) md e of
            ((XOk resultBytes, _), e') \<Rightarrow> ((case unmarshal resultBytes of Inl err \<Rightarrow> XErr err | Inr out \<Rightarrow> XOk out), Some e')
          | ((XErr err, _), e') \<Rightarrow> (XErr err, Some e')
          | ((XPanic, _), e') \<Rightarrow> (XPanic, Some e'))))"

definition Action_Initialise :: "string \<Rightarrow> string \<Rightarrow> 32 word \<Rightarrow> string \<Rightarrow> bool \<Rightarrow> RealExecutor option" where
  "Action_Initialise config capabilityID shardIndex version quorumTimeoutIsUserError =
     Some (NewRealExecutor config capabilityID shardIndex version quorumTimeoutIsUserError)"

definition Action_Close :: "RealExecutor option \<Rightarrow> RealExecutor option" where
  "Action_Close ex = map_option Executor_Close ex"

section \<open>Histories\<close>

datatype executorEvent =
    XInitialize world
  | XExecute world "nat \<Rightarrow> world" "bytes option" "SecretIdentifier list" RequestMetadata
  | XTick world
  | XPoolTick network time
  | XPoolRefresh network time
  | XPoolCacheGC time
  | XSecretsGC time
  | XClose

definition onPool :: "(enclavePool \<Rightarrow> enclavePool) \<Rightarrow> RealExecutor \<Rightarrow> RealExecutor" where
  "onPool f e = e\<lparr>ex_enclaveClient := map_option f (ex_enclaveClient e)\<rparr>"

primrec executorStep :: "ExecEnv \<Rightarrow> executorEvent \<Rightarrow> RealExecutor \<Rightarrow> RealExecutor" where
  "executorStep env (XInitialize w) e = snd (initLazily env w e)"
| "executorStep env (XExecute start ws pb secrets md) e = snd (Execute env start ws pb secrets md e)"
| "executorStep env (XTick w) e = refreshTick env w e"
| "executorStep env (XPoolTick net now) e = onPool (poolStep (xe_pool env) (PTick net now)) e"
| "executorStep env (XPoolRefresh net now) e = onPool (poolStep (xe_pool env) (PRefresh net now)) e"
| "executorStep env (XPoolCacheGC now) e = onPool (poolStep (xe_pool env) (PCacheGC now)) e"
| "executorStep env (XSecretsGC now) e = e\<lparr>ex_secretsCache := gcTick now (ex_secretsCache e)\<rparr>"
| "executorStep env XClose e = Executor_Close e"

definition executorRun :: "ExecEnv \<Rightarrow> executorEvent list \<Rightarrow> RealExecutor \<Rightarrow> RealExecutor" where
  "executorRun env evs e = fold (executorStep env) evs e"

end
