(* ===== verification/CC_ExecutorProps.thy ===== *)
theory CC_ExecutorProps
  imports CC_Executor
begin

text \<open>
  What the executor of \<^verbatim>\<open>CC_Executor\<close> guarantees. Steps are inverted at their
  successful results (\<open>xok_simps\<close>), what a step leaves alone is \<open>keeps\<close>, what it
  preserves is \<open>preserves\<close>. The lemmas show that an output comes from an attested
  response of an enclave with the DON's signers, that the recorded membership was
  confirmed by the enclaves, that the key shares are encrypted to is attested, how the executor
  retries, and what the Vault DON's shares and their cache guarantee.
\<close>

section \<open>Reasoning about steps\<close>

lemma bindX_XOk:
  "bindX m f s = (XOk b, s') \<longleftrightarrow> (\<exists>a s1. m s = (XOk a, s1) \<and> f a s1 = (XOk b, s'))"
  by (auto simp: bindX_def split: prod.split xresult.split)

lemma bindX_run: "m s = (XOk a, s1) \<Longrightarrow> bindX m f s = f a s1"
  by (simp add: bindX_def)

lemma onErr_XOk: "onErr h m s = (XOk a, s') \<longleftrightarrow> m s = (XOk a, s')"
  by (auto simp: onErr_def split: prod.split xresult.split)

lemma liftX_XOk: "liftX r s = (XOk a, s') \<longleftrightarrow> r = Inr a \<and> s' = s"
  by (auto simp: liftX_def split: sum.split)

lemma onExecutor_XOk:
  "onExecutor m xl = (XOk a, xl') \<longleftrightarrow> (\<exists>e. m (xl_executor xl) = (XOk a, e) \<and> xl' = xl\<lparr>xl_executor := e\<rparr>)"
  by (auto simp: onExecutor_def split: prod.split)

lemma callClient_XOk:
  "callClient env w f e = (XOk a, e') \<longleftrightarrow> (\<exists>p p'. ex_enclaveClient e = Some p \<and>
     f (p\<lparr>po_requestTimeoutResolverFn := resolveRequestTimeout (xw_settings w) (ex_capConfig e)\<rparr>) = (Ok a, p') \<and>
     e' = e\<lparr>ex_enclaveClient := Some p'\<rparr>)"
  by (auto simp: callClient_def split: option.split prod.split outcome.split)

lemmas xok_simps = bindX_XOk onErr_XOk liftX_XOk onExecutor_XOk

text \<open>A step keeps what \<open>g\<close> reads off the state.\<close>

definition keeps :: "('s \<Rightarrow> 'v) \<Rightarrow> ('s \<Rightarrow> 'r \<times> 's) \<Rightarrow> bool" where
  "keeps g m \<longleftrightarrow> (\<forall>s. g (snd (m s)) = g s)"

lemma keepsD: "keeps g m \<Longrightarrow> m s = (r, s') \<Longrightarrow> g s' = g s"
  by (metis keeps_def snd_conv)

lemma keeps_bindX:
  assumes "keeps g m" "\<And>a. keeps g (f a)"
  shows "keeps g (bindX m f)"
  using assms unfolding keeps_def bindX_def
  by (auto split: prod.split xresult.split) (metis snd_conv)+

lemma keeps_onErr:
  assumes "keeps g m" "\<And>er s. g (snd (h er s)) = g s"
  shows "keeps g (onErr h m)"
  using assms unfolding keeps_def onErr_def
  by (auto split: prod.split xresult.split) (metis snd_conv)+

lemma keeps_wrapX: "keeps g m \<Longrightarrow> keeps g (wrapX t m)"
  by (rule keeps_onErr) auto

lemma keeps_liftX: "keeps g (\<lambda>s. liftX (r s) s)"
  by (auto simp: keeps_def liftX_def split: sum.split)

lemma keeps_liftX': "keeps g (liftX r)"
  by (auto simp: keeps_def liftX_def split: sum.split)

lemma keeps_pure: "(\<And>s. g (h s) = g s) \<Longrightarrow> keeps g (\<lambda>s. (r s, h s))"
  by (simp add: keeps_def)

lemma keeps_prod: "(\<And>a b. keeps g (f a b)) \<Longrightarrow> keeps g (case x of (a, b) \<Rightarrow> f a b)"
  by (cases x) simp

lemma keeps_callClient:
  assumes "\<And>e p. g (e\<lparr>ex_enclaveClient := p\<rparr>) = g e"
  shows "keeps g (callClient env w f)"
  by (auto simp: keeps_def callClient_def assms split: option.split prod.split)

lemmas keeps_intros = keeps_bindX keeps_wrapX keeps_onErr keeps_liftX keeps_liftX' keeps_pure keeps_prod keeps_callClient

text \<open>The fields only a constructor sets.\<close>

definition identity :: "RealExecutor \<Rightarrow> string \<times> string \<times> 32 word \<times> bool \<times> string" where
  "identity e = (ex_capabilityID e, ex_confidentialComputeVersion e, ex_shardIndex e, ex_quorumTimeoutIsUserError e, ex_capConfigRaw e)"

definition membership :: "RealExecutor \<Rightarrow> bytes list \<times> 32 word" where
  "membership e = (ex_donMembers e, ex_donF e)"

lemma identity_update [simp]:
  "identity (e\<lparr>ex_enclaveClient := p\<rparr>) = identity e" "identity (e\<lparr>ex_nodeID := s\<rparr>) = identity e"
  "identity (e\<lparr>ex_proposalInFlight := b\<rparr>) = identity e" "identity (e\<lparr>ex_enclaves := es\<rparr>) = identity e"
  "identity (e\<lparr>ex_vaultThreshold := t\<rparr>) = identity e" "identity (e\<lparr>ex_secretsCache := c\<rparr>) = identity e"
  "identity (setDONMembership ms f e) = identity e" "identity (xemit ds ev d e) = identity e"
  "identity (refreshLimitSettings g e) = identity e" "identity (e\<lparr>ex_apiKey := s\<rparr>) = identity e"
  "identity (e\<lparr>ex_beholder := bs\<rparr>) = identity e" "identity (storeShares env w ss key ow sh e) = identity e"
  by (auto simp: identity_def setDONMembership_def xemit_def refreshLimitSettings_def storeShares_def split: prod.split)

lemma membership_update [simp]:
  "membership (e\<lparr>ex_enclaveClient := p\<rparr>) = membership e" "membership (e\<lparr>ex_nodeID := s\<rparr>) = membership e"
  "membership (e\<lparr>ex_proposalInFlight := b\<rparr>) = membership e" "membership (e\<lparr>ex_enclaves := es\<rparr>) = membership e"
  "membership (e\<lparr>ex_vaultThreshold := t\<rparr>) = membership e" "membership (e\<lparr>ex_secretsCache := c\<rparr>) = membership e"
  "membership (setDONMembership ms f e) = (ms, f)" "membership (xemit ds ev d e) = membership e"
  "membership (refreshLimitSettings g e) = membership e" "membership (e\<lparr>ex_apiKey := s\<rparr>) = membership e"
  "membership (e\<lparr>ex_beholder := bs\<rparr>) = membership e" "membership (storeShares env w ss key ow sh e) = membership e"
  by (auto simp: membership_def setDONMembership_def xemit_def refreshLimitSettings_def storeShares_def split: prod.split)

lemma keeps_identity_propose: "keeps identity (proposeNewConfig env w c ms f)"
  unfolding proposeNewConfig_def Let_def by (intro keeps_intros) simp_all

lemma keeps_identity_reconcile: "keeps identity (reconcileConfigs env w ms f)"
  unfolding reconcileConfigs_def
  by (intro keeps_intros) (auto split: list.split sum.split bool.split simp del: configsMatchLoop.simps
      intro!: keeps_identity_propose keeps_intros)

lemma keeps_identity_update:
  "keeps identity (proposeConfigUpdateIfMembershipChanged env w ms f)"
  using keepsD [OF keeps_identity_reconcile [of env w "sortedBytesCopy ms" f]]
  by (auto simp: keeps_def proposeConfigUpdateIfMembershipChanged_def broadcastConfigUpdate_def
      split: prod.splits xresult.splits)

lemma keeps_getLocal: "keeps identity (getLocalNodeAndCapConfig env w)" "keeps membership (getLocalNodeAndCapConfig env w)"
  "keeps ex_enclaveClient (getLocalNodeAndCapConfig env w)"
  by (auto simp: keeps_def getLocalNodeAndCapConfig_def Let_def split: sum.split option.split)

lemma keeps_updateNodes: "keeps identity (updateNodesOrKeep env w nodes)" "keeps membership (updateNodesOrKeep env w nodes)"
  by (auto simp: keeps_def updateNodesOrKeep_def callClient_def split: prod.split xresult.split option.split outcome.split)

lemma keeps_identity_ensure: "keeps identity (EnsureFreshEnclaves env w)"
  unfolding EnsureFreshEnclaves_def
  by (intro keeps_intros keeps_getLocal keeps_updateNodes keeps_identity_update) simp

section \<open>The DON's membership\<close>

text \<open>An enclave's configuration names exactly these members, and tolerates at least \<open>f\<close> faults.\<close>

definition signersMatch :: "bytes list \<Rightarrow> 32 word \<Rightarrow> EnclaveConfig \<Rightarrow> bool" where
  "signersMatch members f cfg \<longleftrightarrow> members \<noteq> [] \<and> f \<le> ec_F cfg \<and> mset (ec_Signers cfg) = mset members"

lemma sort_eq_iff_mset: "sort xs = sort ys \<longleftrightarrow> mset xs = mset ys"
  by (metis mset_sort properties_for_sort sorted_sort)

lemma validateEnclaveSigners_None: "validateEnclaveSigners cfg e = None \<longleftrightarrow> signersMatch (ex_donMembers e) (ex_donF e) cfg"
  by (auto simp: validateEnclaveSigners_def Let_def signersMatch_def sortedBytesCopy_def sort_eq_iff_mset not_less)

text \<open>Every one of the nodes has attested a configuration with these members and this bound.\<close>

definition donConfirmed :: "PoolEnv \<Rightarrow> Enclave list \<Rightarrow> bytes list \<times> 32 word \<Rightarrow> bool" where
  "donConfirmed env nodes m \<longleftrightarrow> nodes \<noteq> [] \<and> list_all (\<lambda>e. \<exists>d. keyAttested env e d \<and>
     sort (ec_Signers (pk_Config (ep_Response d))) = fst m \<and> ec_F (pk_Config (ep_Response d)) = snd m) nodes"

lemma configsMatchLoop_True:
  "configsMatchLoop c ms f cs b = Inr True \<Longrightarrow>
     list_all (\<lambda>c. sort (ec_Signers c) = ms \<and> ec_F c = f) cs \<and> (cs = [] \<longrightarrow> b)"
  by (induction cs arbitrary: b) (auto simp: sortedBytesCopy_def split: if_splits)

lemma changed_bindX:
  assumes "bindX m f s = (r, s')" "keeps g m" "g s' \<noteq> g s"
  obtains a s1 where "m s = (XOk a, s1)" "f a s1 = (r, s')" "g s1 = g s"
  using assms keepsD [OF assms(2)] by (auto simp: bindX_def split: prod.splits xresult.splits)

lemma keeps_membership_propose: "keeps membership (proposeNewConfig env w c ms f)"
  unfolding proposeNewConfig_def Let_def by (intro keeps_intros) simp_all

lemma GetConfigs_confirmed:
  assumes "GetConfigs env net p = (Ok cs, p')" "cs \<noteq> []" "list_all (\<lambda>c. sort (ec_Signers c) = ms \<and> ec_F c = f) cs"
  shows "donConfirmed env (po_nodes p') (ms, f)"
proof -
  have all: "list_all2 (\<lambda>e c. \<exists>d. keyAttested env e d \<and> pk_Config (ep_Response d) = c) (po_nodes p) cs"
    by (rule GetConfigs_sound [OF assms(1)])
  have "po_nodes p' = po_nodes p" using talked_fields(1) [OF GetConfigs_talked [of p env net]] assms(1) by simp
  moreover have "donConfirmed env (po_nodes p) (ms, f)"
    unfolding donConfirmed_def
  proof
    show "po_nodes p \<noteq> []" using all assms(2) by auto
    show "list_all (\<lambda>e. \<exists>d. keyAttested env e d \<and> sort (ec_Signers (pk_Config (ep_Response d))) = fst (ms, f) \<and>
      ec_F (pk_Config (ep_Response d)) = snd (ms, f)) (po_nodes p)"
      using all assms(3) by (fastforce simp: list_all_length list_all2_conv_all_nth)
  qed
  ultimately show ?thesis by simp
qed

lemma reconcile_membership:
  assumes "reconcileConfigs env w ms f e = (r, e')" "membership e' \<noteq> membership e"
  shows "membership e' = (ms, f) \<and> (\<exists>p. ex_enclaveClient e' = Some p \<and> donConfirmed (xe_pool env) (po_nodes p) (ms, f))"
proof -
  obtain cs e1 where cs: "callClient env w (GetConfigs (xe_pool env) (xw_net w AtGetConfigs)) e = (XOk cs, e1)"
    and rest: "(case cs of
          [] \<Rightarrow> liftX (Inl (plainErr ''no enclave configs available to read current config''))
        | currentConfig # _ \<Rightarrow> (case configsMatchLoop currentConfig ms f cs False of
            Inl err \<Rightarrow> liftX (Inl err)
          | Inr True \<Rightarrow> (\<lambda>e. (XOk (), setDONMembership ms f e))
          | Inr False \<Rightarrow> proposeNewConfig env w currentConfig ms f)) e1 = (r, e')"
    and m1: "membership e1 = membership e"
  proof (rule changed_bindX [OF assms(1) [unfolded reconcileConfigs_def] _ assms(2)])
    show "keeps membership (wrapX ''failed to fetch current enclave config: ''
        (callClient env w (GetConfigs (xe_pool env) (xw_net w AtGetConfigs))))"
      by (intro keeps_intros) simp
  qed (auto simp: onErr_XOk)
  from rest m1 assms(2) obtain c cs' where c: "cs = c # cs'" by (cases cs) (auto simp: liftX_def)
  have "configsMatchLoop c ms f cs False = Inr True"
    using rest m1 assms(2) keepsD [OF keeps_membership_propose] unfolding c
    by (auto simp: liftX_def split: sum.splits bool.splits simp del: configsMatchLoop.simps)
  with rest c have e': "e' = setDONMembership ms f e1" and all: "list_all (\<lambda>c. sort (ec_Signers c) = ms \<and> ec_F c = f) cs"
    using configsMatchLoop_True by (force simp del: configsMatchLoop.simps)+
  from cs obtain q p where p: "GetConfigs (xe_pool env) (xw_net w AtGetConfigs) q = (Ok cs, p)"
    "e1 = e\<lparr>ex_enclaveClient := Some p\<rparr>"
    by (auto simp: callClient_XOk)
  with GetConfigs_confirmed [OF p(1) _ all] show ?thesis
    unfolding e' by (simp add: setDONMembership_def membership_def c)
qed

lemma propose_membership:
  assumes "proposeConfigUpdateIfMembershipChanged env w ms f e = (r, e')" "membership e' \<noteq> membership e"
  shows "membership e' = (sort ms, f) \<and> (\<exists>p. ex_enclaveClient e' = Some p \<and> donConfirmed (xe_pool env) (po_nodes p) (sort ms, f))"
proof -
  obtain r1 e1 where rc: "reconcileConfigs env w (sortedBytesCopy ms) f (e\<lparr>ex_proposalInFlight := True\<rparr>) = (r1, e1)"
    by force
  have "membership e' = membership e1 \<and> membership e1 \<noteq> membership e"
    using assms rc
    by (auto simp: proposeConfigUpdateIfMembershipChanged_def broadcastConfigUpdate_def xemit_def scopedEmit_def emit_def
        split: if_splits xresult.splits)
  moreover have "ex_enclaveClient e1 = Some p1 \<Longrightarrow> \<exists>p. ex_enclaveClient e' = Some p \<and> po_nodes p = po_nodes p1" for p1
    using assms rc
    by (auto simp: proposeConfigUpdateIfMembershipChanged_def broadcastConfigUpdate_def xemit_def scopedEmit_def emit_def
        split: if_splits xresult.splits)
  ultimately show ?thesis
    using reconcile_membership [OF rc] by (fastforce simp: sortedBytesCopy_def)
qed

text \<open>A step that changes what \<open>g\<close> reads off the state ends in a state with \<open>Q\<close>.\<close>

definition changesTo :: "('s \<Rightarrow> 'v) \<Rightarrow> ('s \<Rightarrow> 'r \<times> 's) \<Rightarrow> ('s \<Rightarrow> bool) \<Rightarrow> bool" where
  "changesTo g m Q \<longleftrightarrow> (\<forall>s r s'. m s = (r, s') \<longrightarrow> g s' = g s \<or> Q s')"

lemma changesTo_bindX:
  assumes "keeps g m" "\<And>a s s1. m s = (XOk a, s1) \<Longrightarrow> changesTo g (f a) Q"
  shows "changesTo g (bindX m f) Q"
  unfolding changesTo_def
proof (intro allI impI)
  fix s r s' assume run: "bindX m f s = (r, s')"
  show "g s' = g s \<or> Q s'"
  proof (rule ccontr)
    assume "\<not> (g s' = g s \<or> Q s')"
    then have ch: "g s' \<noteq> g s" "\<not> Q s'" by simp_all
    obtain a s1 where "m s = (XOk a, s1)" "f a s1 = (r, s')" "g s1 = g s"
      by (rule changed_bindX [OF run assms(1) ch(1)])
    with assms(2) [of s a s1] ch show False unfolding changesTo_def by metis
  qed
qed

lemma ensure_membership:
  "changesTo membership (EnsureFreshEnclaves env w) (\<lambda>e'. \<exists>n p. freshLocalNode w = Inr n \<and>
     membership e' = (sort (nd_Members n), of_nat (nd_F n)) \<and> ex_enclaveClient e' = Some p \<and>
     donConfirmed (xe_pool env) (po_nodes p) (membership e'))" (is "changesTo _ _ ?Q")
proof -
  have last: "changesTo membership (proposeConfigUpdateIfMembershipChanged env w (peerIDsToSortedBytes (nd_Members n)) (of_nat (nd_F n))) ?Q"
    if n: "freshLocalNode w = Inr n" for n
    unfolding changesTo_def
  proof (intro allI impI)
    fix e r e' assume "proposeConfigUpdateIfMembershipChanged env w (peerIDsToSortedBytes (nd_Members n)) (of_nat (nd_F n)) e = (r, e')"
    from propose_membership [OF this] n show "membership e' = membership e \<or> ?Q e'"
      by (auto simp: peerIDsToSortedBytes_def sorted_sort_id)
  qed
  have node: "freshLocalNode w = Inr n" if "getLocalNodeAndCapConfig env w e = (XOk (n, cfg), e1)" for n cfg e e1
    using that by (auto simp: getLocalNodeAndCapConfig_def Let_def split: sum.splits if_splits)
  have "changesTo membership (EnsureFreshEnclaves env w) Q"
    if "\<And>n. freshLocalNode w = Inr n \<Longrightarrow>
      changesTo membership (proposeConfigUpdateIfMembershipChanged env w (peerIDsToSortedBytes (nd_Members n)) (of_nat (nd_F n))) Q" for Q
    unfolding EnsureFreshEnclaves_def
    by (rule changesTo_bindX [OF keeps_getLocal(2)])
      (auto split: prod.split dest!: node intro!: changesTo_bindX keeps_updateNodes keeps_intros that)
  from this [OF last] show ?thesis .
qed

section \<open>What an execution that succeeds has done\<close>

text \<open>The request an attempt sends, as far as it is determined by the call.\<close>

definition requestOf :: "bytes \<Rightarrow> string \<Rightarrow> bytes \<Rightarrow> SecretIdentifier list \<Rightarrow> RealExecutor \<Rightarrow> ComputeRequest \<Rightarrow> bool" where
  "requestOf reqID weid input secrets e cr \<longleftrightarrow> cr_RequestID cr = reqID \<and> cr_ApplicationRequestID cr = weid \<and>
     cr_PublicData cr = input \<and> cr_CiphertextNames cr = map si_Key secrets \<and>
     cr_AppID cr = ex_capabilityID e \<and> cr_Version cr = ex_confidentialComputeVersion e"

lemma requestOf_identity: "identity e = identity e' \<Longrightarrow> requestOf reqID weid input secrets e cr \<longleftrightarrow> requestOf reqID weid input secrets e' cr"
  by (simp add: requestOf_def identity_def)

lemma computeRequestFor_requestOf: "requestOf reqID weid input secrets e (computeRequestFor e reqID weid input secrets ep ss)"
  by (simp add: requestOf_def computeRequestFor_def split: prod.split)

lemma SignComputeRequest_keeps: "SignComputeRequest env w cr = Inr sreq \<Longrightarrow> scr_ComputeRequest sreq = cr"
  by (auto simp: SignComputeRequest_def Let_def split: sum.splits)

lemma dispatch_sound:
  assumes "dispatchX env w ds reqID ep sreq xl = (XOk (), xl')"
  obtains reply p enclave where "xl_executeResponses xl' = [reply]" "ex_enclaveClient (xl_executor xl') = Some p"
    "enclave \<in> set (po_nodes p)" "en_EnclaveID enclave = pa_EnclaveID ep"
    "responseAccepted (xe_pool env) enclave (scr_ComputeRequest sreq) (xr_Response reply)"
    "signersMatch (ex_donMembers (xl_executor xl')) (ex_donF (xl_executor xl')) (er_Config (xr_Response reply))"
proof -
  from assms obtain rs p0 p where call: "ExecuteBatch (xe_pool env) (xw_net w AtExecute) [sreq] [pa_EnclaveID ep] p0 = (Ok rs, p)"
    and post: "(let xl1 = xl\<lparr>xl_executor := (xl_executor xl)\<lparr>ex_enclaveClient := Some p\<rparr>, xl_executeResponses := rs\<rparr> in
      (case rs of [] \<Rightarrow> (XPanic, xl1)
       | reply # _ \<Rightarrow> (case validateEnclaveSigners (er_Config (xr_Response reply)) (xl_executor xl1) of
           Some err \<Rightarrow> (XErr (wrapErr (''execute response config validation failed for request '' @ hexEncode reqID @ '': '') err), xl1)
         | None \<Rightarrow> (XOk (), xl1)))) = (XOk (), xl')"
    by (auto simp: dispatchX_def xok_simps callClient_XOk Let_def)
  from ExecuteBatch_sound [OF call] obtain reply enclave where rs: "rs = [reply]" and en: "enclave \<in> set (po_nodes p0)"
    "en_EnclaveID enclave = pa_EnclaveID ep"
    "responseAccepted (xe_pool env) enclave (scr_ComputeRequest sreq) (xr_Response reply)"
    by (auto simp: length_Suc_conv)
  have "po_nodes p = po_nodes p0" using talked_fields(1) [OF ExecuteBatch_talked] call by (metis snd_conv)
  with en post that [of reply p enclave] rs show thesis
    by (auto simp: Let_def validateEnclaveSigners_None split: option.splits)
qed

text \<open>What a step keeps in the executor it keeps in the locals of an execution.\<close>

abbreviation xident :: "executeLocals \<Rightarrow> string \<times> string \<times> 32 word \<times> bool \<times> string" where
  "xident xl \<equiv> identity (xl_executor xl)"

lemma keeps_onExecutor: "keeps g m \<Longrightarrow> keeps (\<lambda>xl. g (xl_executor xl)) (onExecutor m)"
  by (auto simp: keeps_def onExecutor_def split: prod.split) (metis snd_conv)

lemma keeps_getEnclaveParams: "keeps identity (getEnclaveParams env w reqID)" "keeps membership (getEnclaveParams env w reqID)"
proof -
  have "keeps identity (pickEnclave reqID rs)" "keeps membership (pickEnclave reqID rs)" for rs
    by (auto simp: keeps_def pickEnclave_def Let_def split: list.split option.split)
  then show "keeps identity (getEnclaveParams env w reqID)" "keeps membership (getEnclaveParams env w reqID)"
    unfolding getEnclaveParams_def by (auto intro!: keeps_intros)
qed

lemma fetchFromVault_state [simp]: "snd (fetchFromVault env w ss key md e) = e"
  by (auto simp: fetchFromVault_def Let_def liftX_def split: sum.split option.split)

lemma keeps_vault:
  assumes "\<And>e ds ev d. g (xemit ds ev d e) = g e" "\<And>e ss key ow sh. g (storeShares env w ss key ow sh e) = g e"
  shows "keeps g (GetEncryptedDecryptionShares env w ds secrets key md)"
proof -
  have "keeps g (fetchFromVault env w secrets key md)" by (simp add: keeps_def)
  then have "keeps g (bindX (fetchFromVault env w secrets key md) (\<lambda>ss e'. (XOk ss, storeShares env w secrets key ow ss e')))" for ow
    by (intro keeps_intros) (simp_all add: assms)
  then show ?thesis
    by (auto simp: keeps_def GetEncryptedDecryptionShares_def Let_def assms split: option.split)
qed

lemma keeps_classify: "xident (snd (classifyExecuteError env w ds eid wid err xl)) = xident xl"
  by (simp add: classifyExecuteError_def Let_def)

lemma keeps_dispatch: "keeps xident (dispatchX env w ds reqID ep sreq)"
  unfolding dispatchX_def
  by (intro keeps_bindX keeps_onErr keeps_onExecutor keeps_callClient)
    (auto simp: keeps_classify keeps_def Let_def split: list.split option.split)

lemma keeps_attempt: "keeps xident (executeAttempt env w ds pb secrets reqID weid)"
proof -
  have begin_id: "xident (beginAttempt xl) = xident xl" for xl by (simp add: beginAttempt_def)
  have lifted: "keeps xident (\<lambda>xl. onExecutor (GetEncryptedDecryptionShares env w ds secrets key (xl_metadata xl)) xl)" for key
    using keeps_onExecutor [OF keeps_vault [of identity env w]] by (auto simp: keeps_def)
  have sign: "keeps xident (signRequestX env w ds cr)" for cr
    unfolding signRequestX_def by (intro keeps_intros) simp_all
  have sign': "keeps xident (\<lambda>xl. signRequestX env w ds (cr xl) xl)" for cr
    using sign by (simp add: keeps_def)
  have body: "keeps xident (\<lambda>xl0. m (beginAttempt xl0))" if "keeps xident m" for m :: "executeLocals \<Rightarrow> unit xresult \<times> executeLocals"
    using that by (simp add: keeps_def begin_id)
  show ?thesis
    unfolding executeAttempt_def
    by (intro body keeps_bindX keeps_onErr keeps_wrapX keeps_onExecutor keeps_identity_ensure keeps_getEnclaveParams lifted keeps_pure)
      (auto split: option.split intro!: keeps_bindX keeps_liftX' sign' keeps_dispatch)
qed

lemma attempt_sound:
  assumes "executeAttempt env w ds pb secrets reqID weid xl = (XOk (), xl')"
  obtains input cr sreq reply p enclave where "pb = Some input" "requestOf reqID weid input secrets (xl_executor xl) cr"
    "SignComputeRequest env w cr = Inr sreq"
    "xl_executeResponses xl' = [reply]" "ex_enclaveClient (xl_executor xl') = Some p" "enclave \<in> set (po_nodes p)"
    "responseAccepted (xe_pool env) enclave cr (xr_Response reply)"
    "signersMatch (ex_donMembers (xl_executor xl')) (ex_donF (xl_executor xl')) (er_Config (xr_Response reply))"
proof -
  from assms obtain e1 ep e2 ss e3 input sreq where
    ens: "EnsureFreshEnclaves env w (xl_executor (beginAttempt xl)) = (XOk (), e1)" and
    par: "getEnclaveParams env w reqID e1 = (XOk ep, e2)" and
    vau: "GetEncryptedDecryptionShares env w ds secrets (pa_EnclaveEphemeralPublicKey ep) (xl_metadata (beginAttempt xl)) e2 = (XOk ss, e3)" and
    pb: "pb = Some input" and
    sgn: "SignComputeRequest env w (computeRequestFor e3 reqID weid input secrets ep ss) = Inr sreq" and
    dis: "dispatchX env w ds reqID ep sreq ((beginAttempt xl)\<lparr>xl_enclaveIDStr := hexEncode (pa_EnclaveID ep),
      xl_vaultDONRequestSent := True, xl_executor := e3\<rparr>) = (XOk (), xl')"
    by (auto simp: executeAttempt_def xok_simps signRequestX_def split: option.splits)
  have "identity e3 = identity (xl_executor xl)"
    using keepsD [OF keeps_identity_ensure ens] keepsD [OF keeps_getEnclaveParams(1) par]
      keepsD [OF keeps_vault [of identity env w ds secrets] vau] by (simp add: beginAttempt_def)
  then have "requestOf reqID weid input secrets (xl_executor xl) (computeRequestFor e3 reqID weid input secrets ep ss)"
    using computeRequestFor_requestOf requestOf_identity by blast
  with dispatch_sound [OF dis] that [OF pb _ sgn] SignComputeRequest_keeps [OF sgn] show thesis by metis
qed

section \<open>The retry loop\<close>

lemma retryLoop_XOk:
  assumes "\<And>i. keeps g (fn i)" "retryLoop fn ctx mx n i b errs ws s = (XOk (), ws', s')"
  shows "\<exists>j s1. i \<le> j \<and> j < i + n \<and> fn j s1 = (XOk (), s') \<and> g s1 = g s"
  using assms(2)
proof (induction n arbitrary: i b errs ws s)
  case (Suc n)
  obtain r s1 where r: "fn i s = (r, s1)" by force
  show ?case
  proof (cases r)
    case (XErr err)
    with Suc.prems r obtain ws1 b1 errs1 where "retryLoop fn ctx mx n (Suc i) b1 errs1 ws1 s1 = (XOk (), ws', s')"
      by (auto split: if_splits option.splits)
    from Suc.IH [OF this] show ?thesis using keepsD [OF assms(1) r] by (metis Suc_leD add_Suc_shift)
  qed (use Suc.prems r in auto)
qed simp

text \<open>The state after the first attempts, and the backoffs before attempt \<open>j\<close>.\<close>

primrec afterAttempts :: "(nat \<Rightarrow> 's \<Rightarrow> unit xresult \<times> 's) \<Rightarrow> nat \<Rightarrow> 's \<Rightarrow> 's" where
  "afterAttempts fn 0 s = s"
| "afterAttempts fn (Suc i) s = snd (fn i (afterAttempts fn i s))"

definition backoffs :: "duration \<Rightarrow> nat \<Rightarrow> duration list" where
  "backoffs b n = map (\<lambda>k. b * 2 ^ k) [0..<n]"

definition retriable :: "unit xresult \<Rightarrow> bool" where
  "retriable r \<longleftrightarrow> (case r of XErr e \<Rightarrow> \<not> isUserErr e | _ \<Rightarrow> False)"

text \<open>Attempt \<open>i\<close> fails with an error that is not the user's, and the context survives the backoff.\<close>

definition retriedAt :: "(nat \<Rightarrow> 's \<Rightarrow> unit xresult \<times> 's) \<Rightarrow> (nat \<Rightarrow> goErr option) \<Rightarrow> 's \<Rightarrow> nat \<Rightarrow> bool" where
  "retriedAt fn ctx s i \<longleftrightarrow> retriable (fst (fn i (afterAttempts fn i s))) \<and> ctx i = None"

lemma retryLoop_unroll:
  assumes "\<forall>i<j. retriedAt fn ctx s i" "j \<le> n"
  shows "\<exists>errs. retryLoop fn ctx mx n 0 b None [] s
    = retryLoop fn ctx mx (n - j) j (b * 2 ^ j) errs (backoffs b j) (afterAttempts fn j s) \<and> (errs = None \<longleftrightarrow> j = 0)"
  using assms
proof (induction j)
  case (Suc j)
  then obtain errs where unroll: "retryLoop fn ctx mx n 0 b None [] s
    = retryLoop fn ctx mx (n - j) j (b * 2 ^ j) errs (backoffs b j) (afterAttempts fn j s)" by auto
  obtain m where m: "n - j = Suc m" "n - Suc j = m" using Suc.prems(2) by (metis Suc_diff_Suc Suc_le_lessD)
  obtain r s1 where r: "fn j (afterAttempts fn j s) = (r, s1)" by force
  moreover have "retriedAt fn ctx s j" using Suc.prems(1) by simp
  ultimately obtain err where "r = XErr err" "\<not> isUserErr err" "ctx j = None"
    by (auto simp: retriedAt_def retriable_def split: xresult.splits)
  with unroll m r show ?case
    by (intro exI [of _ "Some (joinErr errs err)"]) (simp add: backoffs_def mult.assoc mult.commute [of "2 ^ j"])
qed (simp add: backoffs_def)

text \<open>
  C24. The retry policy: as long as attempts fail with errors that are not the
  user's, the executor tries again, up to its maximum, after waits that double.
  The first success ends the loop with that attempt's state, the first user error
  ends it with that error, and when every attempt fails the loop ends after
  exactly the maximum number of attempts.
\<close>

theorem retry_policy:
  assumes "\<forall>i<j. retriedAt fn ctx s i" "j \<le> nat (pg_MaxRetries cfg)"
  shows "let b = pg_RetryBackoffSeconds cfg * second; s' = afterAttempts fn (Suc j) s; result = retryWithBackoff fn ctx cfg s in
    (j < nat (pg_MaxRetries cfg) \<and> fst (fn j (afterAttempts fn j s)) = XOk () \<longrightarrow> result = (XOk (), backoffs b j, s')) \<and>
    (\<forall>e. j < nat (pg_MaxRetries cfg) \<and> fst (fn j (afterAttempts fn j s)) = XErr e \<and> isUserErr e \<longrightarrow> result = (XErr e, backoffs b j, s')) \<and>
    (j = nat (pg_MaxRetries cfg) \<longrightarrow> (\<exists>e. result = (XErr e, backoffs b j, afterAttempts fn j s)))"
proof -
  let ?n = "nat (pg_MaxRetries cfg)" let ?b = "pg_RetryBackoffSeconds cfg * second"
  obtain errs where unroll: "retryWithBackoff fn ctx cfg s
    = retryLoop fn ctx (pg_MaxRetries cfg) (?n - j) j (?b * 2 ^ j) errs (backoffs ?b j) (afterAttempts fn j s)"
    using retryLoop_unroll [OF assms] unfolding retryWithBackoff_def by blast
  show ?thesis
  proof (cases "?n - j")
    case 0
    then show ?thesis using unroll assms(2) by (simp add: Let_def)
  next
    case (Suc m)
    then show ?thesis using unroll by (auto simp: Let_def split: prod.split)
  qed
qed

definition flaky :: "nat \<Rightarrow> nat \<Rightarrow> unit xresult \<times> nat" where
  "flaky i n = (if i < 2 then XErr (plainErr ''busy'') else XOk (), Suc n)"

theorem retry_policy_witness:
  "retryWithBackoff flaky (\<lambda>_. None) (projr (ParseConfig (Inr undefined))) 0 = (XOk (), [2 * second, 4 * second], 3)"
proof -
  have cfg: "pg_MaxRetries (projr (ParseConfig (Inr undefined))) = 3" "pg_RetryBackoffSeconds (projr (ParseConfig (Inr undefined))) = 2"
    by (simp_all add: ParseConfig_def)
  have "\<forall>i<2. retriedAt flaky (\<lambda>_. None) 0 i"
    by (simp add: retriedAt_def retriable_def flaky_def plainErr_def isUserErr_def)
  from retry_policy [OF this, of "projr (ParseConfig (Inr undefined))"] show ?thesis
    by (simp add: cfg Let_def flaky_def backoffs_def eval_nat_numeral)
qed

section \<open>Executions\<close>

lemma executeRetrying_sound:
  assumes "executeRetrying env ws ds pb secrets md cfg e = (XOk (), waits, xl)"
  obtains i input cr sreq reply p enclave where "i < nat (pg_MaxRetries cfg)" "pb = Some input"
    "requestOf (requestIDFor env md) (rm_WorkflowExecutionID md) input secrets e cr"
    "SignComputeRequest env (ws i) cr = Inr sreq"
    "xl_executeResponses xl = [reply]" "ex_enclaveClient (xl_executor xl) = Some p" "enclave \<in> set (po_nodes p)"
    "responseAccepted (xe_pool env) enclave cr (xr_Response reply)"
    "signersMatch (ex_donMembers (xl_executor xl)) (ex_donF (xl_executor xl)) (er_Config (xr_Response reply))"
proof -
  let ?fn = "\<lambda>i. executeAttempt env (ws i) ds pb secrets (requestIDFor env md) (rm_WorkflowExecutionID md)"
  have k: "keeps xident (?fn i)" for i by (rule keeps_attempt)
  obtain j s1 where j: "j < nat (pg_MaxRetries cfg)" "?fn j s1 = (XOk (), xl)" "xident s1 = xident (beginLocals md e)"
    using retryLoop_XOk [where fn = ?fn and g = xident, OF k assms [unfolded executeRetrying_def retryWithBackoff_def]] by auto
  obtain input cr sreq reply p enclave where *: "pb = Some input"
    "requestOf (requestIDFor env md) (rm_WorkflowExecutionID md) input secrets (xl_executor s1) cr"
    "SignComputeRequest env (ws j) cr = Inr sreq"
    "xl_executeResponses xl = [reply]" "ex_enclaveClient (xl_executor xl) = Some p" "enclave \<in> set (po_nodes p)"
    "responseAccepted (xe_pool env) enclave cr (xr_Response reply)"
    "signersMatch (ex_donMembers (xl_executor xl)) (ex_donF (xl_executor xl)) (er_Config (xr_Response reply))"
    by (rule attempt_sound [OF j(2)])
  have "identity (xl_executor s1) = identity e" using j(3) by (simp add: beginLocals_def)
  with *(2) have "requestOf (requestIDFor env md) (rm_WorkflowExecutionID md) input secrets e cr"
    using requestOf_identity by blast
  from that [OF j(1) *(1) this *(3-8)] show thesis .
qed

text \<open>What telemetry leaves alone: the membership, and everything of the pool but its emitter.\<close>

definition core :: "RealExecutor \<Rightarrow> (bytes list \<times> 32 word) \<times> Enclave list option" where
  "core e = (membership e, map_option po_nodes (ex_enclaveClient e))"

lemma core_update [simp]: "core (xemit ds ev d e) = core e" "core (e\<lparr>ex_beholder := bs\<rparr>) = core e"
  by (auto simp: core_def membership_def xemit_def scopedEmit_def emit_def option.map_comp comp_def)

lemma core_forwardEvent [simp]: "core (forwardEvent env now md ds ev e) = core e"
  by (simp add: forwardEvent_def Let_def split: prod.split option.split)

lemma core_fold: "(\<And>x q. core (f x q) = core q) \<Longrightarrow> core (fold f xs q) = core q"
  by (induction xs arbitrary: q) auto

lemma core_forwardTelemetry [simp]: "core (forwardTelemetry env now md ds reply e) = core e"
  by (auto simp: forwardTelemetry_def intro!: core_fold split: option.split prod.split)

lemma core_emitTotal [simp]: "core (emitTotal start ds r xl) = core (xl_executor xl)"
  by (simp add: emitTotal_def)

section \<open>A sample execution\<close>

text \<open>
  One enclave, no secrets: the executor has confirmed the membership, the
  registry and the enclave agree with it.
\<close>

definition sampleSettings :: limitSettings where
  "sampleSettings = \<lparr>lm_GlobalRate = (1, 1), lm_OwnerRate = (1, 1), lm_MaxRetries = 3, lm_RetryBackoff = 2 * second,
     lm_SecretsCacheEnabled = False, lm_EnclaveRequestTimeout = (second, False), lm_PublicKeyRequestTimeout = (second, False),
     lm_InsecureSkipTLSVerify = False, lm_EnclaveRefreshInterval = second, lm_PublicKeyRetriesMax = 1,
     lm_PublicKeyRetriesBackoff = second, lm_PublicKeyCache = DefaultCacheConfig\<lparr>cc_EnableProactiveRefresh := False\<rparr>, lm_Session = DefaultSessionConfig,
     lm_PropagateOrgIDInRequestMetadata = True, lm_RemoteExecutableWorkflowDONBindingEnabled = (False, None)\<rparr>"

definition sampleJobConfig :: Config where
  "sampleJobConfig = \<lparr>jc_InsecureSkipTLSVerify = None, jc_EncryptedAPIKeys = [], jc_EnclaveRequestTimeoutSeconds = None,
     jc_PublicKeyRequestTimeoutSeconds = None, jc_EnclaveRefreshIntervalSeconds = None, jc_MaxRetries = None,
     jc_RetryBackoffSeconds = None, jc_WorkflowOwnerRPS = None, jc_WorkflowOwnerBurst = None, jc_GlobalRPS = None,
     jc_GlobalBurst = None, jc_DisableSecretsCacheDeprecated = None, jc_EnableSecretsCache = None, jc_EnableCache = None,
     jc_CacheTTLSeconds = None, jc_CacheMaxTTLSeconds = None, jc_CacheCleanupSeconds = None, jc_CacheTTLBufferPercent = None,
     jc_EnableProactiveRefresh = None, jc_RefreshIntervalPercent = None, jc_MinRefreshIntervalSeconds = None,
     jc_RefreshTimeoutSeconds = None, jc_EnableSessionPersistence = None, jc_SessionHeaderName = None\<rparr>"

definition sampleParsed :: ParsedConfig where
  "sampleParsed = applyLimitSettings sampleSettings (projr (ParseConfig (Inr sampleJobConfig)))"

definition sampleMetadata :: RequestMetadata where
  "sampleMetadata = \<lparr>rm_WorkflowID = ''wf'', rm_WorkflowOwner = ''0xaa'', rm_WorkflowExecutionID = ''exec-1'',
     rm_WorkflowName = ''name'', rm_WorkflowDonID = 1, rm_ReferenceID = ''0'', rm_OrgID = ''org'',
     rm_WorkflowRegistryAddress = [], rm_WorkflowRegistryChainSelector = [], rm_EngineVersion = []\<rparr>"

definition sampleExecutor :: RealExecutor where
  "sampleExecutor = (NewRealExecutor [] ''app'' 0 ''0.0.6'' False)\<lparr>ex_enclaveClient := Some samplePool,
     ex_vaultCapability := True, ex_initialized := True, ex_capConfig := Some sampleParsed,
     ex_donMembers := ec_Signers sampleConfig, ex_donF := 1, ex_enclaves := [sampleEnclave 1]\<rparr>"

definition sampleExecRequest :: ComputeRequest where
  "sampleExecRequest = computeRequestFor sampleExecutor (toyHash (bytes_of ''exec-1'')) ''exec-1'' [1, 2, 3] []
     \<lparr>pa_EnclaveID = id32 1, pa_EnclaveEphemeralPublicKey = id32 9\<rparr> ([], [], [])"

definition sampleExecEnv :: ExecEnv where
  "sampleExecEnv = \<lparr>xe_pool = samplePoolEnv\<lparr>pe_ParseExecute := (\<lambda>_. Some \<lparr>xr_Response =
        sampleResponse\<lparr>er_RequestHash := ComputeRequest_Hash toyHash sampleExecRequest\<rparr>, xr_MetricEvents = [], xr_Metrics = None\<rparr>)\<rparr>,
     xe_keccak = toyHash, xe_StandardCapabilityAccount = ''acct'', xe_VaultCapabilityID = ''vault'',
     xe_UnmarshalConfig = (\<lambda>_. Inr sampleJobConfig), xe_NewRateLimiter = (\<lambda>_ _ _ _. None), xe_MarshalConfig = (\<lambda>_. []),
     xe_NewAny = (\<lambda>_. None), xe_MarshalEvent = (\<lambda>_. True), xe_PeerIDString = string_of, xe_cap = length,
     xe_f2i32 = (\<lambda>_. 0), xe_userErrText = (\<lambda>_ t. t), xe_poolErrText = (\<lambda>_. []), xe_hexErrText = (\<lambda>_. [])\<rparr>"

definition sampleWorld :: world where
  "sampleWorld = \<lparr>xw_settings = sampleSettings,
     xw_LocalNode = Inr \<lparr>nd_PeerID = None, nd_DON_ID = 1, nd_Members = ec_Signers sampleConfig, nd_F = 1\<rparr>,
     xw_NodeByPeerID = (\<lambda>_. None), xw_ConfigForCapability = (\<lambda>_ _. Inr (Inr [sampleEnclave 1])), xw_GetExecutable = None,
     xw_VaultInfo = Inr None, xw_Accounts = Inr [''acct''], xw_Sign = (\<lambda>_ _. Inr (replicate 64 1)), xw_Decrypt = (\<lambda>_ c. Inr c),
     xw_LocalNodeAtVault = Inl (plainErr []), xw_VaultExecute = (\<lambda>_. Inl (plainErr [])), xw_net = (\<lambda>_. sampleNet),
     xw_keysAt = 0, xw_cacheAt = 0, xw_storeAt = 0, xw_doneAt = 0, xw_seconds = (\<lambda>_. 0), xw_allow = True, xw_ctxDone = None\<rparr>"

lemma id32_less: "a < b \<Longrightarrow> id32 a \<le> id32 b"
  by (simp add: id32_def eval_nat_numeral)

lemma sample_sorted: "sort (ec_Signers sampleConfig) = ec_Signers sampleConfig"
  by (rule sorted_sort_id) (simp add: sampleConfig_def id32_less)

definition usable :: "RealExecutor \<Rightarrow> bool" where
  "usable e \<longleftrightarrow> (\<exists>p cfg. ex_enclaveClient e = Some p \<and> po_nodes p = [sampleEnclave 1] \<and>
     po_enclaveSelector p = NewRoundRobinEnclaveSelector \<and> po_publicKeyRetriesMax p = 1 \<and>
     ex_capConfig e = Some cfg \<and> pg_Config cfg = sampleJobConfig \<and> membership e = (ec_Signers sampleConfig, 1) \<and>
     identity e = identity sampleExecutor \<and> ex_apiKey e = [])"

lemma sample_resolve:
  "pg_Config cfg = sampleJobConfig \<Longrightarrow> resolveRequestTimeout (xw_settings sampleWorld) (Some cfg) b = Some second"
  by (simp add: resolveRequestTimeout_def sampleWorld_def sampleSettings_def sampleJobConfig_def cc_const split: prod.split)

lemma sample_ensure:
  assumes "usable e"
  shows "\<exists>e'. EnsureFreshEnclaves sampleExecEnv sampleWorld e = (XOk (), e') \<and> usable e'"
proof -
  obtain p cfg where e: "ex_enclaveClient e = Some p" "po_nodes p = [sampleEnclave 1]" "ex_capConfig e = Some cfg"
    "po_enclaveSelector p = NewRoundRobinEnclaveSelector" "po_publicKeyRetriesMax p = 1"
    "pg_Config cfg = sampleJobConfig" "membership e = (ec_Signers sampleConfig, 1)" "identity e = identity sampleExecutor" "ex_apiKey e = []"
    using assms by (auto simp: usable_def)
  let ?n = "\<lparr>nd_PeerID = None, nd_DON_ID = 1, nd_Members = ec_Signers sampleConfig, nd_F = 1\<rparr> :: Node"
  have loc: "getLocalNodeAndCapConfig sampleExecEnv sampleWorld e = (XOk (?n, Inr [sampleEnclave 1]), e)"
    by (simp add: getLocalNodeAndCapConfig_def freshLocalNode_def sampleWorld_def)
  have upd: "updateNodesOrKeep sampleExecEnv sampleWorld [sampleEnclave 1] e =
      (XOk (), e\<lparr>ex_enclaveClient := Some (p\<lparr>po_requestTimeoutResolverFn := resolveRequestTimeout (xw_settings sampleWorld) (Some cfg)\<rparr>),
        ex_enclaves := [sampleEnclave 1]\<rparr>)"
    by (simp add: updateNodesOrKeep_def callClient_def e UpdateNodes_def)
  have stays: "proposeConfigUpdateIfMembershipChanged sampleExecEnv sampleWorld (peerIDsToSortedBytes (ec_Signers sampleConfig)) 1 e' = (XOk (), e')"
    if "membership e' = membership e" for e'
    using that e(7) by (simp add: proposeConfigUpdateIfMembershipChanged_def membership_def peerIDsToSortedBytes_def sample_sorted)
      (simp add: sampleConfig_def)
  have "sortEnclaveNodes [sampleEnclave 1] = [sampleEnclave 1]" by (simp add: sortEnclaveNodes_def)
  moreover have "xw_VaultInfo sampleWorld = Inr None" by (simp add: sampleWorld_def)
  ultimately show ?thesis
    using e by (simp add: EnsureFreshEnclaves_def bindX_def loc liftX_def wrapE_def GetEnclaveNodes_def upd
        getVaultDONPossibleFaultyNodes_def stays usable_def)
qed

lemma sample_single:
  assumes "po_requestTimeoutResolverFn p True = Some t" "po_publicKeyRetriesMax p = 1"
  shows "\<exists>q. getSingleEnclavePublicKey (xe_pool sampleExecEnv) sampleNet (sampleEnclave 1) rid p =
    (Ok \<lparr>ep_Response = samplePoolKeys, ep_EnclaveID = id32 1\<rparr>, q)"
proof -
  let ?env = "xe_pool sampleExecEnv"
  have "pk_Attestation samplePoolKeys = [1]" "\<not> EnclaveConfig_IsZero (Some (pk_Config samplePoolKeys))"
    "pe_ParsePublicKeys ?env = (\<lambda>_. Some samplePoolKeys)" "pe_URLOk ?env = (\<lambda>_. True)"
    "\<And>ud q. validateAttestation ?env (sampleEnclave 1) ud [1] q = (None, q)"
    using sample_validate [of 1]
    by (simp_all add: samplePoolKeys_def samplePublicKeys_def sampleConfig_def EnclaveConfig_IsZero_def samplePoolEnv_def
        sampleExecEnv_def validateAttestation_def)
  with assms show ?thesis
    by (simp add: getSingleEnclavePublicKey_def publicKeyCall_def SetAuthHeader_def Let_def sampleNet_def eval_nat_numeral
        acceptPublicKeys_def readBody_def)
qed

lemma sample_params:
  assumes "usable e"
  shows "\<exists>e'. getEnclaveParams sampleExecEnv sampleWorld rid e =
    (XOk \<lparr>pa_EnclaveID = id32 1, pa_EnclaveEphemeralPublicKey = id32 9\<rparr>, e') \<and> usable e'"
proof -
  obtain p cfg where e: "ex_enclaveClient e = Some p" "po_nodes p = [sampleEnclave 1]" "ex_capConfig e = Some cfg"
    "po_enclaveSelector p = NewRoundRobinEnclaveSelector" "po_publicKeyRetriesMax p = 1"
    "pg_Config cfg = sampleJobConfig" "membership e = (ec_Signers sampleConfig, 1)" "identity e = identity sampleExecutor" "ex_apiKey e = []"
    using assms by (auto simp: usable_def)
  let ?p = "p\<lparr>po_requestTimeoutResolverFn := resolveRequestTimeout (xw_settings sampleWorld) (Some cfg)\<rparr>"
  let ?env = "xe_pool sampleExecEnv" let ?d = "\<lparr>ep_Response = samplePoolKeys, ep_EnclaveID = id32 1\<rparr>"
  have "\<exists>q. getSingleEnclavePublicKey ?env sampleNet (sampleEnclave 1) rid ?p = (Ok ?d, q)"
    by (rule sample_single) (simp_all add: sample_resolve e)
  then obtain q where q: "getSingleEnclavePublicKey ?env sampleNet (sampleEnclave 1) rid ?p = (Ok ?d, q)" by blast
  note tq = talked_fields [OF getSingle_sound(1) [OF q]]
  have sel: "SelectEnclaves NewRoundRobinEnclaveSelector [sampleEnclave 1] rid None = Inr [sampleEnclave 1]"
    by (simp add: SelectEnclaves_def meets_def isEnclaveDead_def NewRoundRobinEnclaveSelector_def Let_def)
  have keys: "GetPublicKeys ?env sampleNet 0 rid None ?p = (Ok [?d], setCachedPublicKey ?env 0 (id32 1) ?d q)"
    using q by (simp add: GetPublicKeys_def e sel fetchOrCached_def)
  have "validateEnclaveSigners sampleConfig (e\<lparr>ex_enclaveClient := c\<rparr>) = None" for c
    using e(7) by (simp add: validateEnclaveSigners_None signersMatch_def membership_def) (simp add: sampleConfig_def)
  then have pick: "pickEnclave rid [?d] (e\<lparr>ex_enclaveClient := c\<rparr>) =
      (XOk \<lparr>pa_EnclaveID = id32 1, pa_EnclaveEphemeralPublicKey = id32 9\<rparr>, e\<lparr>ex_enclaveClient := c\<rparr>)" for c
    by (simp add: pickEnclave_def samplePoolKeys_def samplePublicKeys_def Let_def)
  have world: "xw_net sampleWorld = (\<lambda>_. sampleNet)" "xw_keysAt sampleWorld = 0" by (simp_all add: sampleWorld_def)
  have "po_enclaveSelector (setCachedPublicKey ?env 0 (id32 1) ?d q) = po_enclaveSelector q"
    by (simp add: setCachedPublicKey_def Let_def split: option.split)
  then show ?thesis using e tq keys pick
    by (simp add: getEnclaveParams_def bindX_def onErr_def callClient_def world usable_def)
qed

definition sampleExecReply :: executeReply where
  "sampleExecReply = \<lparr>xr_Response = sampleResponse\<lparr>er_RequestHash := ComputeRequest_Hash toyHash sampleExecRequest\<rparr>,
     xr_MetricEvents = [], xr_Metrics = None\<rparr>"

lemma sample_dispatch:
  assumes "usable (xl_executor xl)" "scr_ComputeRequest sreq = sampleExecRequest"
  shows "\<exists>e'. dispatchX sampleExecEnv sampleWorld ds rid \<lparr>pa_EnclaveID = id32 1, pa_EnclaveEphemeralPublicKey = id32 9\<rparr> sreq xl =
    (XOk (), xl\<lparr>xl_executor := e', xl_executeResponses := [sampleExecReply]\<rparr>)"
proof -
  obtain p cfg where e: "ex_enclaveClient (xl_executor xl) = Some p" "po_nodes p = [sampleEnclave 1]"
    "ex_capConfig (xl_executor xl) = Some cfg" "pg_Config cfg = sampleJobConfig" "membership (xl_executor xl) = (ec_Signers sampleConfig, 1)"
    using assms(1) by (auto simp: usable_def)
  let ?p = "p\<lparr>po_requestTimeoutResolverFn := resolveRequestTimeout (xw_settings sampleWorld) (Some cfg)\<rparr>"
  have env: "er_Attestation (xr_Response sampleExecReply) = [1]" "er_Config (xr_Response sampleExecReply) = sampleConfig"
    "er_RequestHash (xr_Response sampleExecReply) = ComputeRequest_Hash (pe_H (xe_pool sampleExecEnv)) sampleExecRequest"
    "cr_Version sampleExecRequest = ServiceConfidentialComputeVersionLegacy"
    "pe_ParseExecute (xe_pool sampleExecEnv) = (\<lambda>_. Some sampleExecReply)" "pe_URLOk (xe_pool sampleExecEnv) = (\<lambda>_. True)"
    "xw_net sampleWorld = (\<lambda>_. sampleNet)"
    by (simp_all add: sampleExecReply_def sampleResponse_def sampleExecEnv_def samplePoolEnv_def sampleWorld_def
        sampleExecRequest_def computeRequestFor_def sampleExecutor_def NewRealExecutor_def ServiceConfidentialComputeVersionLegacy_def)
  have val: "validateAttestation (xe_pool sampleExecEnv) (sampleEnclave 1) ud [1] q = (None, q)" for ud q
    using sample_validate [of 1 ud q] by (simp add: validateAttestation_def sampleExecEnv_def samplePoolEnv_def)
  have run: "ExecuteBatch (xe_pool sampleExecEnv) sampleNet [sreq] [id32 1] ?p = (Ok [sampleExecReply], ?p)"
    using env by (simp add: ExecuteBatch_def sample_resolve e executeOne_def executeCall_def SetAuthHeader_def Let_def sampleNet_def
        readBody_def acceptExecute_def val assms(2))
  have "validateEnclaveSigners sampleConfig ((xl_executor xl)\<lparr>ex_enclaveClient := c\<rparr>) = None" for c
    using e(5) by (simp add: validateEnclaveSigners_None signersMatch_def membership_def) (simp add: sampleConfig_def)
  then show ?thesis using run env
    by (auto simp: dispatchX_def bindX_def onErr_def onExecutor_def callClient_def e)
qed

lemma sample_attempt:
  assumes "usable (xl_executor xl)" "\<not> xl_vaultDONRequestSent xl"
  shows "\<exists>xl'. executeAttempt sampleExecEnv sampleWorld ds (Some [1, 2, 3]) [] (toyHash (bytes_of ''exec-1'')) ''exec-1'' xl = (XOk (), xl') \<and>
    xl_executeResponses xl' = [sampleExecReply]"
proof -
  let ?rid = "toyHash (bytes_of ''exec-1'')" let ?ep = "\<lparr>pa_EnclaveID = id32 1, pa_EnclaveEphemeralPublicKey = id32 9\<rparr>"
  have start: "xl_executor (beginAttempt xl) = xl_executor xl" using assms(2) by (simp add: beginAttempt_def)
  obtain e1 where e1: "EnsureFreshEnclaves sampleExecEnv sampleWorld (xl_executor xl) = (XOk (), e1)" "usable e1"
    using sample_ensure [OF assms(1)] by blast
  obtain e2 where e2: "getEnclaveParams sampleExecEnv sampleWorld ?rid e1 = (XOk ?ep, e2)" "usable e2"
    using sample_params [OF e1(2)] by blast
  have e3: "GetEncryptedDecryptionShares sampleExecEnv sampleWorld ds [] (id32 9) md e2 = (XOk ([], [], []), e2)" for md
    by (simp add: GetEncryptedDecryptionShares_def sampleExecEnv_def id32_def)
  have "ex_capabilityID e2 = ''app''" "ex_confidentialComputeVersion e2 = ''0.0.6''"
    using e2(2) by (auto simp: usable_def identity_def sampleExecutor_def NewRealExecutor_def)
  then have req: "computeRequestFor e2 ?rid ''exec-1'' [1, 2, 3] [] ?ep ([], [], []) = sampleExecRequest"
    by (simp add: computeRequestFor_def sampleExecRequest_def sampleExecutor_def NewRealExecutor_def)
  obtain sreq where sreq: "SignComputeRequest sampleExecEnv sampleWorld sampleExecRequest = Inr sreq"
    by (simp add: SignComputeRequest_def signWithCapabilityAccount_def capabilityAccount_def sampleWorld_def sampleExecEnv_def)
  let ?xl = "(beginAttempt xl)\<lparr>xl_enclaveIDStr := hexEncode (id32 1), xl_vaultDONRequestSent := True, xl_executor := e2\<rparr>"
  obtain e4 where "dispatchX sampleExecEnv sampleWorld ds ?rid ?ep sreq ?xl = (XOk (), ?xl\<lparr>xl_executor := e4, xl_executeResponses := [sampleExecReply]\<rparr>)"
    using sample_dispatch [of ?xl sreq] e2(2) SignComputeRequest_keeps [OF sreq] by auto
  then show ?thesis
    using e1 e2 e3 sreq
    by (simp add: executeAttempt_def bindX_def onErr_def onExecutor_def start liftX_def signRequestX_def req)
qed

lemma sample_Execute:
  "\<exists>waits e'. Execute sampleExecEnv sampleWorld (\<lambda>_. sampleWorld) (Some [1, 2, 3]) [] sampleMetadata sampleExecutor
     = ((XOk [42], waits), e')"
proof -
  let ?ds = "scopedDefaults sampleMetadata"
  let ?e = "xemit ?ds ''requests_received_total'' Map.empty (refreshLimitSettings sampleSettings sampleExecutor)"
  let ?cfg = "applyLimitSettings sampleSettings sampleParsed"
  have cfg: "ex_capConfig ?e = Some ?cfg" "pg_Config ?cfg = sampleJobConfig" "\<exists>m. nat (pg_MaxRetries ?cfg) = Suc m"
    by (simp_all add: xemit_def refreshLimitSettings_def sampleExecutor_def applyLimitSettings_def sampleParsed_def ParseConfig_def
        sampleSettings_def eval_nat_numeral)
  have "membership ?e = (ec_Signers sampleConfig, 1)" "ex_apiKey ?e = []"
    by (simp_all add: xemit_def refreshLimitSettings_def membership_def sampleExecutor_def NewRealExecutor_def)
  moreover have "ex_enclaveClient ?e = Some (scopedEmit ?ds ''requests_received_total'' Map.empty samplePool)"
    by (simp add: xemit_def refreshLimitSettings_def sampleExecutor_def)
  ultimately have "usable ?e"
    using cfg by (simp add: usable_def scopedEmit_def emit_def)
  then obtain xl where xl: "executeAttempt sampleExecEnv sampleWorld ?ds (Some [1, 2, 3]) [] (toyHash (bytes_of ''exec-1'')) ''exec-1''
      (beginLocals sampleMetadata ?e) = (XOk (), xl)" "xl_executeResponses xl = [sampleExecReply]"
    using sample_attempt [of "beginLocals sampleMetadata ?e" ?ds] by (auto simp: beginLocals_def)
  have rid: "requestIDFor sampleExecEnv sampleMetadata = toyHash (bytes_of ''exec-1'')" "rm_WorkflowExecutionID sampleMetadata = ''exec-1''"
    by (simp_all add: requestIDFor_def sampleExecEnv_def samplePoolEnv_def sampleMetadata_def)
  have "executeRetrying sampleExecEnv (\<lambda>_. sampleWorld) ?ds (Some [1, 2, 3]) [] sampleMetadata ?cfg ?e = (XOk (), [], xl)"
    using xl cfg(3) by (auto simp: executeRetrying_def retryWithBackoff_def rid)
  moreover have "\<exists>xl'. finishExecute sampleExecEnv sampleWorld ?ds (XOk ()) xl = (XOk [42], xl')"
    using xl(2) by (simp add: finishExecute_def Let_def sampleExecReply_def sampleResponse_def)
  moreover have "initLazily sampleExecEnv sampleWorld sampleExecutor = (XOk (), sampleExecutor)"
    by (simp add: initLazily_def sampleExecutor_def)
  moreover have "xw_settings sampleWorld = sampleSettings" "xw_allow sampleWorld" by (simp_all add: sampleWorld_def)
  ultimately show ?thesis using cfg by (auto simp: Execute_def Let_def)
qed

section \<open>Properties\<close>

lemma keeps_init: "keeps identity (initLazily env w)"
proof -
  have "keeps identity (loadAPIKey env w cfg)" for cfg
    by (auto simp: keeps_def loadAPIKey_def split: sum.split)
  moreover have "keeps identity (createPool env w cfg nodes)" for cfg nodes
    by (simp add: keeps_def createPool_def split: outcome.split)
  moreover have "keeps identity (installPool cfg nodes pool n)" for cfg nodes pool n
    by (simp add: keeps_def installPool_def identity_def)
  moreover have "keeps identity (\<lambda>e. (case x of Some err \<Rightarrow> (XErr (wrapErr t err), e) | None \<Rightarrow> (XOk (), e)))" for x t
    by (simp add: keeps_def split: option.split)
  moreover have "identity (startEnclaveRefreshLoop (e\<lparr>ex_initialized := True\<rparr>)) = identity e" for e
    by (simp add: identity_def startEnclaveRefreshLoop_def)
  ultimately have "keeps identity (initialize env w)"
    unfolding initialize_def Let_def
    by (intro keeps_intros keeps_getLocal keeps_identity_update)
  then show ?thesis by (simp add: keeps_def initLazily_def)
qed

lemma Execute_sound:
  assumes "Execute env start ws pb secrets md e = ((XOk out, waits), e')"
  obtains i input cr sreq resp p enclave where "pb = Some input"
    "requestOf (requestIDFor env md) (rm_WorkflowExecutionID md) input secrets e cr"
    "SignComputeRequest env (ws i) cr = Inr sreq"
    "ex_enclaveClient e' = Some p" "enclave \<in> set (po_nodes p)"
    "responseAccepted (xe_pool env) enclave cr resp" "out = er_Output resp"
    "signersMatch (ex_donMembers e') (ex_donF e') (er_Config resp)"
proof -
  let ?ds = "scopedDefaults md"
  from assms obtain e0 cfg xl xl' where init: "initLazily env start e = (XOk (), e0)" and
    run: "executeRetrying env ws ?ds pb secrets md cfg
      (xemit ?ds ''requests_received_total'' Map.empty (refreshLimitSettings (xw_settings start) e0)) = (XOk (), waits, xl)" and
    fin: "finishExecute env start ?ds (XOk ()) xl = (XOk out, xl')" and e': "e' = emitTotal start ?ds (XOk out) xl'"
    by (auto simp: Execute_def finishExecute_def Let_def split: prod.splits xresult.splits if_splits option.splits)
  obtain i input cr sreq reply p enclave where *: "i < nat (pg_MaxRetries cfg)" "pb = Some input"
    "requestOf (requestIDFor env md) (rm_WorkflowExecutionID md) input secrets
       (xemit ?ds ''requests_received_total'' Map.empty (refreshLimitSettings (xw_settings start) e0)) cr"
    "SignComputeRequest env (ws i) cr = Inr sreq"
    "xl_executeResponses xl = [reply]" "ex_enclaveClient (xl_executor xl) = Some p" "enclave \<in> set (po_nodes p)"
    "responseAccepted (xe_pool env) enclave cr (xr_Response reply)"
    "signersMatch (ex_donMembers (xl_executor xl)) (ex_donF (xl_executor xl)) (er_Config (xr_Response reply))"
    by (rule executeRetrying_sound [OF run])
  have "core e' = core (xl_executor xl)" using fin *(5) unfolding e' by (auto simp: finishExecute_def Let_def)
  then obtain p' where p': "ex_enclaveClient e' = Some p'" "po_nodes p' = po_nodes p" "membership e' = membership (xl_executor xl)"
    using *(6) by (auto simp: core_def)
  have out: "out = er_Output (xr_Response reply)" using fin *(5) by (simp add: finishExecute_def Let_def)
  have "identity e0 = identity e" using keepsD [OF keeps_init init] .
  with *(3) have "requestOf (requestIDFor env md) (rm_WorkflowExecutionID md) input secrets e cr"
    using requestOf_identity [of "xemit ?ds ''requests_received_total'' Map.empty (refreshLimitSettings (xw_settings start) e0)" e]
    by simp
  moreover have "enclave \<in> set (po_nodes p')" "signersMatch (ex_donMembers e') (ex_donF e') (er_Config (xr_Response reply))"
    using *(7,9) p'(2,3) by (simp_all add: membership_def)
  ultimately show thesis using that [OF *(2) _ *(4) p'(1) _ *(8) out] by blast
qed

text \<open>
  C8. An output the executor returns was computed for this execution: an enclave of
  the current list attested a response to a request that carries the execution's
  id, the hash of that id, the input and the names of the secrets, under the
  executor's application and version, signed by this node; and the
  configuration the response reports has exactly the members of the DON
  as its signers and tolerates at least as many faults.
\<close>

theorem executor_output_attested:
  assumes "Execute env start ws pb secrets md e = ((XOk out, waits), e')"
  shows "\<exists>i input cr sreq resp p enclave. pb = Some input \<and>
    requestOf (requestIDFor env md) (rm_WorkflowExecutionID md) input secrets e cr \<and>
    SignComputeRequest env (ws i) cr = Inr sreq \<and>
    ex_enclaveClient e' = Some p \<and> enclave \<in> set (po_nodes p) \<and>
    responseAccepted (xe_pool env) enclave cr resp \<and> out = er_Output resp \<and>
    signersMatch (ex_donMembers e') (ex_donF e') (er_Config resp)"
  by (rule Execute_sound [OF assms]) blast

theorem executor_output_attested_witness:
  "\<exists>waits e' p cr resp enclave.
     Execute sampleExecEnv sampleWorld (\<lambda>_. sampleWorld) (Some [1, 2, 3]) [] sampleMetadata sampleExecutor = ((XOk [42], waits), e') \<and>
     ex_enclaveClient e' = Some p \<and> enclave \<in> set (po_nodes p) \<and> responseAccepted (xe_pool sampleExecEnv) enclave cr resp \<and>
     cr_PublicData cr = [1, 2, 3] \<and> [42] = er_Output resp"
proof -
  obtain waits e' where run: "Execute sampleExecEnv sampleWorld (\<lambda>_. sampleWorld) (Some [1, 2, 3]) [] sampleMetadata sampleExecutor
     = ((XOk [42], waits), e')" using sample_Execute by blast
  from executor_output_attested [OF run] run show ?thesis unfolding requestOf_def by blast
qed

text \<open>
  C9. The recorded membership is confirmed by the enclaves: when a refresh changes
  it, the new one is the membership the registry has for the node's DON, sorted,
  with its \<open>F\<close>, and every enclave of the pool has attested a configuration with
  exactly these signers and this \<open>F\<close>.
\<close>

theorem membership_confirmed:
  assumes "EnsureFreshEnclaves env w e = (r, e')" "membership e' \<noteq> membership e"
  shows "\<exists>n p. freshLocalNode w = Inr n \<and> membership e' = (sort (nd_Members n), of_nat (nd_F n)) \<and>
    ex_enclaveClient e' = Some p \<and> donConfirmed (xe_pool env) (po_nodes p) (membership e')"
  using ensure_membership [of env w] assms unfolding changesTo_def by blast

definition freshExecutor :: RealExecutor where
  "freshExecutor = sampleExecutor\<lparr>ex_donMembers := [], ex_donF := 0\<rparr>"

lemma sample_propose:
  assumes "ex_enclaveClient e = Some p" "po_nodes p = [sampleEnclave 1]" "po_enclaveSelector p = NewRoundRobinEnclaveSelector"
    "po_publicKeyRetriesMax p = 1" "ex_capConfig e = Some cfg" "pg_Config cfg = sampleJobConfig" "\<not> ex_proposalInFlight e"
    "membership e = ([], 0)" "identity e = identity sampleExecutor" "ex_apiKey e = []"
  shows "\<exists>e'. proposeConfigUpdateIfMembershipChanged sampleExecEnv sampleWorld (ec_Signers sampleConfig) 1 e = (XOk (), e') \<and> usable e'"
proof -
  let ?p = "p\<lparr>po_requestTimeoutResolverFn := resolveRequestTimeout (xw_settings sampleWorld) (Some cfg)\<rparr>"
  obtain q where q: "getSingleEnclavePublicKey (xe_pool sampleExecEnv) sampleNet (sampleEnclave 1) zeroRequestID ?p =
      (Ok \<lparr>ep_Response = samplePoolKeys, ep_EnclaveID = id32 1\<rparr>, q)"
    using sample_single [of ?p] assms by (auto simp: sample_resolve)
  note tq = talked_fields [OF getSingle_sound(1) [OF q]]
  have cfgs: "GetConfigs (xe_pool sampleExecEnv) sampleNet ?p = (Ok [sampleConfig], q)"
    using q by (simp add: GetConfigs_def samplePoolKeys_def samplePublicKeys_def assms(2))
  have match: "configsMatchLoop sampleConfig (ec_Signers sampleConfig) 1 [sampleConfig] False = Inr True"
    by (simp add: sortedBytesCopy_def sample_sorted) (simp add: sampleConfig_def)
  have net: "xw_net sampleWorld = (\<lambda>_. sampleNet)" by (simp add: sampleWorld_def)
  let ?e = "(setDONMembership (ec_Signers sampleConfig) 1 (e\<lparr>ex_proposalInFlight := True, ex_enclaveClient := Some q\<rparr>))\<lparr>ex_proposalInFlight := False\<rparr>"
  have "proposeConfigUpdateIfMembershipChanged sampleExecEnv sampleWorld (ec_Signers sampleConfig) 1 e = (XOk (), ?e)"
    using assms match by (simp add: proposeConfigUpdateIfMembershipChanged_def broadcastConfigUpdate_def sortedBytesCopy_def sample_sorted
        reconcileConfigs_def bindX_def onErr_def callClient_def cfgs membership_def net del: configsMatchLoop.simps)
  moreover have "usable ?e" using assms tq by (simp add: usable_def) (simp add: setDONMembership_def)
  ultimately show ?thesis by blast
qed

lemma fresh_ensure: "\<exists>e'. EnsureFreshEnclaves sampleExecEnv sampleWorld freshExecutor = (XOk (), e') \<and> usable e'"
proof -
  let ?n = "\<lparr>nd_PeerID = None, nd_DON_ID = 1, nd_Members = ec_Signers sampleConfig, nd_F = 1\<rparr> :: Node"
  let ?p = "samplePool\<lparr>po_requestTimeoutResolverFn := resolveRequestTimeout (xw_settings sampleWorld) (Some sampleParsed)\<rparr>"
  have fields: "ex_enclaveClient freshExecutor = Some samplePool" "ex_capConfig freshExecutor = Some sampleParsed"
    "ex_apiKey freshExecutor = []" "\<not> ex_proposalInFlight freshExecutor" "membership freshExecutor = ([], 0)"
    "identity freshExecutor = identity sampleExecutor"
    by (simp_all add: freshExecutor_def sampleExecutor_def NewRealExecutor_def membership_def identity_def)
  have loc: "getLocalNodeAndCapConfig sampleExecEnv sampleWorld freshExecutor = (XOk (?n, Inr [sampleEnclave 1]), freshExecutor)"
    by (simp add: getLocalNodeAndCapConfig_def freshLocalNode_def sampleWorld_def)
  have upd: "updateNodesOrKeep sampleExecEnv sampleWorld [sampleEnclave 1] freshExecutor =
      (XOk (), freshExecutor\<lparr>ex_enclaveClient := Some ?p, ex_enclaves := [sampleEnclave 1]\<rparr>)"
    by (simp add: updateNodesOrKeep_def callClient_def fields UpdateNodes_def)
  have job: "pg_Config sampleParsed = sampleJobConfig" by (simp add: sampleParsed_def ParseConfig_def applyLimitSettings_def)
  have "\<exists>e''. proposeConfigUpdateIfMembershipChanged sampleExecEnv sampleWorld (ec_Signers sampleConfig) 1
      (freshExecutor\<lparr>ex_enclaveClient := Some ?p, ex_enclaves := [sampleEnclave 1], ex_vaultThreshold := t\<rparr>) = (XOk (), e'') \<and> usable e''" for t
    by (rule sample_propose [where p = ?p and cfg = sampleParsed]) (use fields job in \<open>simp_all add: membership_def identity_def\<close>)
  moreover have "sortEnclaveNodes [sampleEnclave 1] = [sampleEnclave 1]" by (simp add: sortEnclaveNodes_def)
  moreover have "xw_VaultInfo sampleWorld = Inr None" by (simp add: sampleWorld_def)
  ultimately show ?thesis
    using fields by (simp add: EnsureFreshEnclaves_def bindX_def loc liftX_def wrapE_def GetEnclaveNodes_def upd
        getVaultDONPossibleFaultyNodes_def peerIDsToSortedBytes_def sample_sorted)
qed

theorem membership_confirmed_witness:
  "\<exists>e' p. EnsureFreshEnclaves sampleExecEnv sampleWorld freshExecutor = (XOk (), e') \<and> membership e' = (ec_Signers sampleConfig, 1) \<and>
     ex_enclaveClient e' = Some p \<and> donConfirmed (xe_pool sampleExecEnv) (po_nodes p) (ec_Signers sampleConfig, 1)"
proof -
  obtain e' where run: "EnsureFreshEnclaves sampleExecEnv sampleWorld freshExecutor = (XOk (), e')"
    "membership e' = (ec_Signers sampleConfig, 1)" using fresh_ensure by (auto simp: usable_def)
  then have "membership e' \<noteq> membership freshExecutor" by (simp add: membership_def freshExecutor_def)
  from membership_confirmed [OF run(1) this] run show ?thesis by auto
qed

section \<open>The pool along an executor's history\<close>

definition pool_ok :: "PoolEnv \<Rightarrow> enclavePool \<Rightarrow> bool" where
  "pool_ok env p \<longleftrightarrow> pool_inv env p \<and> cacheMatches p"

definition executor_inv :: "ExecEnv \<Rightarrow> RealExecutor \<Rightarrow> bool" where
  "executor_inv env e \<longleftrightarrow> (\<forall>p. ex_enclaveClient e = Some p \<longrightarrow> pool_ok (xe_pool env) p)"

definition preserves :: "('s \<Rightarrow> bool) \<Rightarrow> ('s \<Rightarrow> 'r \<times> 's) \<Rightarrow> bool" where
  "preserves I m \<longleftrightarrow> (\<forall>s. I s \<longrightarrow> I (snd (m s)))"

lemma preservesD: "preserves I m \<Longrightarrow> I s \<Longrightarrow> m s = (r, s') \<Longrightarrow> I s'"
  by (metis preserves_def snd_conv)

lemma preserves_bindX':
  assumes "preserves I m" "\<And>a s s1. m s = (XOk a, s1) \<Longrightarrow> preserves I (f a)"
  shows "preserves I (bindX m f)"
  unfolding preserves_def
proof (intro allI impI)
  fix s assume I: "I s"
  obtain r s1 where m: "m s = (r, s1)" by force
  with I assms(1) have "I s1" by (metis preservesD)
  with m assms(2) show "I (snd (bindX m f s))" by (cases r) (auto simp: bindX_def preserves_def)
qed

lemma preserves_bindX: "\<lbrakk>preserves I m; \<And>a. preserves I (f a)\<rbrakk> \<Longrightarrow> preserves I (bindX m f)"
  by (rule preserves_bindX')

lemma preserves_onErr:
  assumes "preserves I m" "\<And>er s. I s \<Longrightarrow> I (snd (h er s))"
  shows "preserves I (onErr h m)"
  using assms unfolding preserves_def onErr_def
  by (auto split: prod.split xresult.split) (metis snd_conv)+

lemma preserves_wrapX: "preserves I m \<Longrightarrow> preserves I (wrapX t m)"
  by (rule preserves_onErr) auto

lemma preserves_pure: "(\<And>s. I s \<Longrightarrow> I (h s)) \<Longrightarrow> preserves I (\<lambda>s. (r s, h s))"
  by (simp add: preserves_def)

lemma preserves_liftX: "preserves I (\<lambda>s. liftX (r s) s)" "preserves I (liftX r')"
  by (auto simp: preserves_def liftX_def split: sum.split)

lemma preserves_prod: "(\<And>a b. preserves I (f a b)) \<Longrightarrow> preserves I (case x of (a, b) \<Rightarrow> f a b)"
  by (cases x) simp

lemma preserves_onExecutor: "preserves I m \<Longrightarrow> preserves (\<lambda>xl. I (xl_executor xl)) (onExecutor m)"
  by (auto simp: preserves_def onExecutor_def split: prod.split)

lemma preserves_keeps: "keeps g m \<Longrightarrow> preserves (\<lambda>s. P (g s)) m"
  by (simp add: keeps_def preserves_def)

lemma pool_ok_update [simp]:
  "pool_ok env (p\<lparr>po_requestTimeoutResolverFn := f\<rparr>) = pool_ok env p" "pool_ok env (scopedEmit ds ev d p) = pool_ok env p"
  by (simp_all add: pool_ok_def pool_inv_def cacheMatches_def scopedEmit_def emit_def)

lemma pool_ok_step: "pool_ok env p \<Longrightarrow> pool_ok env (poolStep env ev p)"
  using poolStep_inv [of env p ev] sameShape_step [of p env ev] by (simp add: pool_ok_def cacheMatches_def sameShape_def)

lemma preserves_callClient:
  assumes "\<And>p. pool_ok (xe_pool env) p \<Longrightarrow> pool_ok (xe_pool env) (snd (f p))"
  shows "preserves (executor_inv env) (callClient env w f)"
  using assms by (auto simp: preserves_def callClient_def executor_inv_def split: option.split prod.split) (metis pool_ok_update(1) snd_conv)

lemma pool_ok_calls:
  assumes "pool_ok env p"
  shows "pool_ok env (snd (GetPublicKeys env net now rid c p))" "pool_ok env (snd (ExecuteBatch env net reqs ids p))"
    "pool_ok env (snd (UpdateConfig env net upd p))" "pool_ok env (snd (GetConfigs env net p))"
    "pool_ok env (snd (UpdateNodes env net nodes p))"
  using pool_ok_step [OF assms, of "PGetPublicKeys net now rid c"] pool_ok_step [OF assms, of "PExecuteBatch net reqs ids"]
    pool_ok_step [OF assms, of "PUpdateConfig net upd"] pool_ok_step [OF assms, of "PGetConfigs net"]
    pool_ok_step [OF assms, of "PUpdateNodes net nodes"]
  by simp_all

lemma preserves_calls:
  "preserves (executor_inv env) (callClient env w (GetPublicKeys (xe_pool env) net now rid c))"
  "preserves (executor_inv env) (callClient env w (ExecuteBatch (xe_pool env) net reqs ids))"
  "preserves (executor_inv env) (callClient env w (UpdateConfig (xe_pool env) net upd))"
  "preserves (executor_inv env) (callClient env w (GetConfigs (xe_pool env) net))"
  "preserves (executor_inv env) (callClient env w (UpdateNodes (xe_pool env) net nodes))"
  by (rule preserves_callClient, erule pool_ok_calls)+

lemmas preserves_intros = preserves_bindX preserves_wrapX preserves_onErr preserves_pure preserves_liftX preserves_prod
  preserves_onExecutor preserves_calls

lemma executor_inv_client: "ex_enclaveClient e' = ex_enclaveClient e \<Longrightarrow> executor_inv env e' = executor_inv env e"
  by (simp add: executor_inv_def)

lemma executor_inv_update [simp]:
  "executor_inv env (e\<lparr>ex_nodeID := s\<rparr>) = executor_inv env e"
  "executor_inv env (e\<lparr>ex_proposalInFlight := b\<rparr>) = executor_inv env e" "executor_inv env (e\<lparr>ex_enclaves := es\<rparr>) = executor_inv env e"
  "executor_inv env (e\<lparr>ex_vaultThreshold := t\<rparr>) = executor_inv env e" "executor_inv env (e\<lparr>ex_secretsCache := c\<rparr>) = executor_inv env e"
  "executor_inv env (setDONMembership ms f e) = executor_inv env e" "executor_inv env (xemit ds ev d e) = executor_inv env e"
  "executor_inv env (refreshLimitSettings g e) = executor_inv env e" "executor_inv env (e\<lparr>ex_apiKey := s\<rparr>) = executor_inv env e"
  "executor_inv env (e\<lparr>ex_beholder := bs\<rparr>) = executor_inv env e" "executor_inv env (storeShares env' w ss key ow sh e) = executor_inv env e"
  by (auto simp: executor_inv_def setDONMembership_def xemit_def refreshLimitSettings_def storeShares_def split: prod.split)

lemma preserves_propose: "preserves (executor_inv env) (proposeNewConfig env w c ms f)"
  unfolding proposeNewConfig_def Let_def by (intro preserves_intros) simp_all

lemma preserves_reconcile: "preserves (executor_inv env) (reconcileConfigs env w ms f)"
  unfolding reconcileConfigs_def
  by (intro preserves_intros) (auto split: list.split sum.split bool.split simp del: configsMatchLoop.simps
      intro!: preserves_propose preserves_intros)

lemma preserves_update: "preserves (executor_inv env) (proposeConfigUpdateIfMembershipChanged env w ms f)"
proof -
  have "executor_inv env e \<Longrightarrow> executor_inv env (snd (broadcastConfigUpdate env w ms f e))" for e
    using preservesD [OF preserves_reconcile [of env w "sortedBytesCopy ms" f], of "e\<lparr>ex_proposalInFlight := True\<rparr>"]
    by (auto simp: broadcastConfigUpdate_def split: prod.split)
  then show ?thesis
    by (auto simp: preserves_def proposeConfigUpdateIfMembershipChanged_def split: prod.split xresult.split) (metis snd_conv)+
qed

lemma preserves_updateNodes: "preserves (executor_inv env) (updateNodesOrKeep env w nodes)"
  using preserves_calls(5) [of env w "xw_net w AtUpdateNodes" nodes]
  by (auto simp: preserves_def updateNodesOrKeep_def split: prod.split xresult.split)

lemma preserves_getLocal: "preserves (executor_inv env) (getLocalNodeAndCapConfig env' w)"
  using preserves_keeps [OF keeps_getLocal(3) [of env' w], of "\<lambda>c. \<forall>p. c = Some p \<longrightarrow> pool_ok (xe_pool env) p"]
  by (simp add: preserves_def executor_inv_def)

lemma preserves_ensure: "preserves (executor_inv env) (EnsureFreshEnclaves env w)"
  unfolding EnsureFreshEnclaves_def
  by (intro preserves_intros preserves_getLocal preserves_updateNodes preserves_update) simp

lemma preserves_init: "preserves (executor_inv env) (initLazily env w)"
proof -
  have new: "pool_ok (xe_pool env) pool" if "createPool env w cfg nodes e = (XOk pool, e')" for cfg nodes pool e e'
    using that NewPool_inv by (auto simp: createPool_def pool_ok_def split: outcome.splits)
  have "preserves (executor_inv env) (loadAPIKey env w cfg)" for cfg
    by (auto simp: preserves_def loadAPIKey_def split: sum.split)
  moreover have "preserves (executor_inv env) (\<lambda>e. (case x of Some err \<Rightarrow> (XErr (wrapErr t err), e) | None \<Rightarrow> (XOk (), e)))" for x t
    by (simp add: preserves_def split: option.split)
  moreover have "executor_inv env e \<Longrightarrow> executor_inv env (startEnclaveRefreshLoop (e\<lparr>ex_initialized := True\<rparr>))" for e
    by (simp add: executor_inv_def startEnclaveRefreshLoop_def)
  moreover have "preserves (executor_inv env) (createPool env w cfg nodes)" for cfg nodes
    by (simp add: preserves_def createPool_def split: outcome.split)
  moreover have "preserves (executor_inv env) (installPool cfg nodes pool n)"
    if "createPool env w cfg' nodes' e = (XOk pool, e')" for cfg nodes pool n cfg' nodes' e e'
    using new [OF that] by (simp add: preserves_def installPool_def executor_inv_def)
  ultimately have "preserves (executor_inv env) (initialize env w)"
    unfolding initialize_def Let_def
    by (intro preserves_bindX' preserves_liftX preserves_prod preserves_getLocal preserves_update preserves_pure)
  then show ?thesis by (simp add: preserves_def initLazily_def)
qed

abbreviation xinv :: "ExecEnv \<Rightarrow> executeLocals \<Rightarrow> bool" where
  "xinv env xl \<equiv> executor_inv env (xl_executor xl)"

lemma preserves_getEnclaveParams: "preserves (executor_inv env) (getEnclaveParams env w rid)"
proof -
  have "preserves (executor_inv env) (pickEnclave rid rs)" for rs
    by (auto simp: preserves_def pickEnclave_def Let_def split: list.split option.split)
  then show ?thesis unfolding getEnclaveParams_def by (intro preserves_intros)
qed

lemma preserves_vault: "preserves (executor_inv env) (GetEncryptedDecryptionShares env w ds secrets key md)"
proof -
  have "preserves (executor_inv env) (fetchFromVault env w secrets key md)" by (simp add: preserves_def)
  then have "preserves (executor_inv env)
      (bindX (fetchFromVault env w secrets key md) (\<lambda>ss e'. (XOk ss, storeShares env w secrets key ow ss e')))" for ow
    by (intro preserves_intros) simp_all
  then show ?thesis
    by (auto simp: preserves_def GetEncryptedDecryptionShares_def Let_def split: option.split)
qed

lemma preserves_dispatch: "preserves (xinv env) (dispatchX env w ds rid ep sreq)"
proof -
  have "xinv env (snd (classifyExecuteError env w ds eid wid err xl)) = xinv env xl" for eid wid err xl
    by (simp add: classifyExecuteError_def Let_def)
  then show ?thesis
    unfolding dispatchX_def
    by (intro preserves_bindX preserves_onErr preserves_onExecutor preserves_calls)
      (auto simp: preserves_def Let_def split: list.split option.split)
qed

lemma preserves_attempt: "preserves (xinv env) (executeAttempt env w ds pb secrets rid weid)"
proof -
  have start: "xinv env (beginAttempt xl) = xinv env xl" for xl by (simp add: beginAttempt_def)
  have lifted: "preserves (xinv env) (\<lambda>xl. onExecutor (GetEncryptedDecryptionShares env w ds secrets key (xl_metadata xl)) xl)" for key
    using preserves_onExecutor [OF preserves_vault] by (auto simp: preserves_def)
  have sign: "preserves (xinv env) (\<lambda>xl. signRequestX env w ds (cr xl) xl)" for cr
  proof -
    have "preserves (xinv env) (signRequestX env w ds c)" for c
      unfolding signRequestX_def by (intro preserves_intros) simp_all
    then show ?thesis by (simp add: preserves_def)
  qed
  have body: "preserves (xinv env) (\<lambda>xl0. m (beginAttempt xl0))" if "preserves (xinv env) m"
    for m :: "executeLocals \<Rightarrow> unit xresult \<times> executeLocals"
    using that by (simp add: preserves_def start)
  show ?thesis
    unfolding executeAttempt_def
    by (intro body preserves_bindX preserves_onErr preserves_wrapX preserves_onExecutor preserves_ensure preserves_getEnclaveParams
        lifted preserves_pure)
      (auto split: option.split intro!: preserves_bindX preserves_liftX sign preserves_dispatch)
qed

lemma retryLoop_preserves:
  assumes "\<And>i. preserves I (fn i)" "I s"
  shows "I (snd (snd (retryLoop fn ctx mx n i b errs ws s)))"
  using assms(2)
proof (induction n arbitrary: i b errs ws s)
  case (Suc n)
  obtain r s1 where r: "fn i s = (r, s1)" by force
  with Suc.prems assms(1) have "I s1" by (metis preservesD)
  with r Suc.IH show ?case by (cases r) (auto split: option.split)
qed simp

lemma inv_fold: "(\<And>x q. executor_inv env (f x q) = executor_inv env q) \<Longrightarrow> executor_inv env (fold f xs q) = executor_inv env q"
  by (induction xs arbitrary: q) auto

lemma inv_forwardEvent [simp]: "executor_inv env (forwardEvent env' now md ds ev q) = executor_inv env q"
  by (simp add: forwardEvent_def Let_def split: prod.split option.split)

lemma inv_forwardTelemetry [simp]: "executor_inv env (forwardTelemetry env' now md ds reply q) = executor_inv env q"
proof -
  have "executor_inv env (fold (\<lambda>(ev, od) q. case od of None \<Rightarrow> q | Some d \<Rightarrow> xemit ds ev d q) ms q) = executor_inv env q" for ms
    by (rule inv_fold) (simp split: prod.split option.split)
  moreover have "executor_inv env (fold (forwardEvent env' now md ds) evs q) = executor_inv env q" for evs
    by (rule inv_fold) simp
  ultimately show ?thesis by (simp add: forwardTelemetry_def split: option.split)
qed

lemma inv_finish: "xinv env (snd (finishExecute env' start ds res xl)) = xinv env xl"
  by (simp add: finishExecute_def Let_def split: xresult.split list.split)

lemma inv_total: "executor_inv env (emitTotal start ds res xl) = xinv env xl"
  by (simp add: emitTotal_def)

lemma inv_retry:
  assumes "executor_inv env e"
  shows "xinv env (snd (snd (executeRetrying env ws ds pb secrets md cfg e)))"
  unfolding executeRetrying_def retryWithBackoff_def
  by (rule retryLoop_preserves [OF preserves_attempt]) (simp add: beginLocals_def assms)

lemma Execute_preserves:
  assumes "executor_inv env e"
  shows "executor_inv env (snd (Execute env start ws pb secrets md e))"
proof -
  let ?ds = "scopedDefaults md"
  obtain r e0 where init: "initLazily env start e = (r, e0)" by force
  with assms preserves_init have inv0: "executor_inv env e0" by (metis preservesD)
  show ?thesis
  proof (cases r)
    case (XOk u)
    let ?e = "xemit ?ds ''requests_received_total'' Map.empty (refreshLimitSettings (xw_settings start) e0)"
    have body: "executor_inv env (snd (case executeRetrying env ws ?ds pb secrets md cfg ?e of
        (r, waits, xl) \<Rightarrow> (case finishExecute env start ?ds r xl of
          (out, xl') \<Rightarrow> ((out, waits), emitTotal start ?ds out xl'))))" for cfg
    proof -
      obtain r waits xl where run: "executeRetrying env ws ?ds pb secrets md cfg ?e = (r, waits, xl)" by (metis prod_cases3)
      obtain out xl' where fin: "finishExecute env start ?ds r xl = (out, xl')" by force
      from inv_retry [of env ?e ws ?ds pb secrets md cfg] inv0 run have "xinv env xl" by simp
      with fin have "xinv env xl'" using inv_finish [of env env start ?ds r xl] by simp
      with run fin show ?thesis by (simp add: inv_total)
    qed
    show ?thesis
      unfolding Execute_def init XOk using body by (simp add: Let_def inv_total beginLocals_def inv0 split: option.split)
  qed (use init inv0 in \<open>auto simp: Execute_def\<close>)
qed

lemma inv_onPool:
  assumes "executor_inv env e" "\<And>p. pool_ok (xe_pool env) p \<Longrightarrow> pool_ok (xe_pool env) (f p)"
  shows "executor_inv env (onPool f e)"
  using assms by (auto simp: executor_inv_def onPool_def)

lemma executorStep_inv:
  assumes "executor_inv env e"
  shows "executor_inv env (executorStep env ev e)"
proof (cases ev)
  case (XInitialize w)
  then show ?thesis using preserves_init [of env w] assms by (simp add: preserves_def)
next
  case (XExecute start ws pb secrets md)
  then show ?thesis using Execute_preserves [OF assms] by simp
next
  case (XTick w)
  then show ?thesis using preserves_ensure [of env w] assms by (simp add: refreshTick_def preserves_def)
next
  case XClose
  have "executor_inv env (onPool Pool_Close e)"
    by (rule inv_onPool [OF assms]) (use pool_ok_step [of "xe_pool env" _ PClose] in simp)
  then show ?thesis using XClose by (simp add: Executor_Close_def Let_def onPool_def executor_inv_def)
next
  case (XSecretsGC now)
  then show ?thesis using assms by simp
qed (simp_all only: executorStep.simps inv_onPool [OF assms pool_ok_step])

lemma executorRun_inv: "executor_inv env e \<Longrightarrow> executor_inv env (executorRun env evs e)"
  by (induction evs arbitrary: e) (auto simp: executorRun_def intro: executorStep_inv)

lemma sample_init:
  "\<exists>e'. initLazily sampleExecEnv sampleWorld (NewRealExecutor [] ''app'' 0 ''0.0.6'' False) = (XOk (), e') \<and> usable e'"
proof -
  let ?e = "NewRealExecutor [] ''app'' 0 ''0.0.6'' False"
  let ?n = "\<lparr>nd_PeerID = None, nd_DON_ID = 1, nd_Members = ec_Signers sampleConfig, nd_F = 1\<rparr> :: Node"
  have parsed: "applyLimitSettings (xw_settings sampleWorld) (projr (ParseConfig (Inr sampleJobConfig))) = sampleParsed"
    by (simp add: sampleParsed_def sampleWorld_def)
  have cfg: "pg_Config sampleParsed = sampleJobConfig" "pg_PublicKeyRetriesMax sampleParsed = 1"
    "cc_EnableProactiveRefresh (pg_CacheConfig sampleParsed) = False" "cc_EnableCache (pg_CacheConfig sampleParsed)"
    by (simp_all add: sampleParsed_def ParseConfig_def applyLimitSettings_def sampleSettings_def DefaultCacheConfig_def)
  have loc: "getLocalNodeAndCapConfig sampleExecEnv sampleWorld ?e = (XOk (?n, Inr [sampleEnclave 1]), ?e)"
    by (simp add: getLocalNodeAndCapConfig_def freshLocalNode_def sampleWorld_def)
  obtain pool where pool: "createPool sampleExecEnv sampleWorld sampleParsed [sampleEnclave 1] ?e = (XOk pool, ?e)"
    "po_nodes pool = [sampleEnclave 1]" "po_enclaveSelector pool = NewRoundRobinEnclaveSelector" "po_publicKeyRetriesMax pool = 1"
  proof
    let ?cc = "pg_CacheConfig sampleParsed"
    let ?pool = "(barePool [sampleEnclave 1] None (resolveRequestTimeout (xw_settings sampleWorld) (ex_capConfig ?e)) (poolConfigFor sampleWorld sampleParsed ?e))
      \<lparr>po_publicKeyCache := Some (NewCache (Some (cc_DefaultTTL ?cc)) (Some (cc_CleanupInterval ?cc)))\<rparr>"
    show "createPool sampleExecEnv sampleWorld sampleParsed [sampleEnclave 1] ?e = (XOk ?pool, ?e)"
      by (simp add: createPool_def NewPoolWithConfig_def poolConfigFor_def Let_def cfg)
    show "po_nodes ?pool = [sampleEnclave 1]" "po_enclaveSelector ?pool = NewRoundRobinEnclaveSelector" "po_publicKeyRetriesMax ?pool = 1"
      by (simp_all add: barePool_def poolConfigFor_def cfg)
  qed
  have world: "xe_UnmarshalConfig sampleExecEnv = (\<lambda>_. Inr sampleJobConfig)" "xe_NewRateLimiter sampleExecEnv = (\<lambda>_ _ _ _. None)"
    "xw_GetExecutable sampleWorld = None" "xw_VaultInfo sampleWorld = Inr None" "ex_apiKey ?e = []"
    by (simp_all add: sampleExecEnv_def sampleWorld_def NewRealExecutor_def)
  have sort1: "sortEnclaveNodes [sampleEnclave 1] = [sampleEnclave 1]" by (simp add: sortEnclaveNodes_def)
  let ?e1 = "snd (installPool sampleParsed [sampleEnclave 1] pool 1 ?e)"
  obtain e2 where e2: "proposeConfigUpdateIfMembershipChanged sampleExecEnv sampleWorld (ec_Signers sampleConfig) 1 ?e1 = (XOk (), e2)" "usable e2"
    using sample_propose [of ?e1 pool sampleParsed] pool cfg
    by (auto simp: installPool_def membership_def identity_def NewRealExecutor_def sampleExecutor_def)
  have key: "loadAPIKey sampleExecEnv sampleWorld (pg_Config sampleParsed) ?e = (XOk (), ?e)"
    by (simp add: loadAPIKey_def cfg) (simp add: sampleJobConfig_def)
  have install: "installPool sampleParsed [sampleEnclave 1] pool 1 ?e = (XOk (), ?e1)" by (simp add: installPool_def)
  let ?p0 = "projr (ParseConfig (Inr sampleJobConfig))"
  have conf: "liftX (wrapE t (ParseConfig (xe_UnmarshalConfig sampleExecEnv (ex_capConfigRaw ?e)))) ?e = (XOk ?p0, ?e)" for t
    by (simp add: world(1) ParseConfig_def liftX_def wrapE_def)
  have nodes: "liftX (wrapE t (GetEnclaveNodes (Inr [sampleEnclave 1]) (ex_apiKey ?e))) ?e = (XOk [sampleEnclave 1], ?e)" for t
    using world(5) by (simp add: GetEnclaveNodes_def liftX_def wrapE_def)
  have faulty: "liftX (wrapE t (getVaultDONPossibleFaultyNodes sampleWorld (nd_F ?n))) ?e = (XOk 1, ?e)" for t
    by (simp add: getVaultDONPossibleFaultyNodes_def world(4) liftX_def wrapE_def)
  have exec: "liftX (case xw_GetExecutable sampleWorld of Some err \<Rightarrow> Inl (f err) | None \<Rightarrow> Inr ()) ?e = (XOk (), ?e)" for f
    by (simp add: world(3) liftX_def)
  have members: "peerIDsToSortedBytes (nd_Members ?n) = ec_Signers sampleConfig" "of_nat (nd_F ?n) = (1 :: 32 word)"
    by (simp_all add: peerIDsToSortedBytes_def sample_sorted)
  have "initialize sampleExecEnv sampleWorld ?e = (XOk (), startEnclaveRefreshLoop (e2\<lparr>ex_initialized := True\<rparr>))"
    unfolding initialize_def Let_def
    by (subst bindX_run, rule conf, subst parsed, subst bindX_run, simp add: world(2), subst parsed, subst bindX_run, rule key,
        subst bindX_run, rule loc, subst prod.case, subst bindX_run, rule nodes, unfold sort1 parsed, subst bindX_run, rule pool(1),
        subst bindX_run, rule exec, subst bindX_run, rule faulty, subst bindX_run, rule install, unfold members,
        subst bindX_run, rule e2(1), rule refl)
  moreover have "usable (startEnclaveRefreshLoop (e2\<lparr>ex_initialized := True\<rparr>))"
    using e2(2) by (simp add: usable_def startEnclaveRefreshLoop_def membership_def identity_def)
  moreover have "\<not> ex_initialized ?e" by (simp add: NewRealExecutor_def)
  ultimately show ?thesis by (simp add: initLazily_def)
qed

section \<open>The key shares are encrypted to\<close>



section \<open>Shares from the Vault DON\<close>

lemma mapE_Inr: "mapE f xs = Inr ys \<Longrightarrow> list_all2 (\<lambda>x y. f x = Inr y) xs ys"
  by (induction xs arbitrary: ys) (auto split: sum.splits)

text \<open>A ciphertext and its shares as decoded from a response for a secret, with at least \<open>n\<close> shares.\<close>

definition decodedFrom :: "ExecEnv \<Rightarrow> int \<Rightarrow> SecretResponse list \<Rightarrow> SecretIdentifier \<Rightarrow> bytes \<times> bytes list \<Rightarrow> bool" where
  "decodedFrom env n rs s cs \<longleftrightarrow> (\<exists>r\<in>set rs. sp_Id r = Some (si_Key s) \<and> decodeResponse env n r = Inr cs \<and> n \<le> int (length (snd cs)))"

lemma decodeResponse_enough: "decodeResponse env n r = Inr cs \<Longrightarrow> n \<le> int (length (snd cs))"
  by (auto simp: decodeResponse_def Let_def split: option.splits sum.splits list.splits if_splits)

lemma scanResponses_ids:
  "scanResponses env i seen rs = None \<Longrightarrow> (\<forall>r\<in>set rs. sp_Id r = Some (respKey r) \<and> sp_Error r = []) \<and> distinct (map respKey rs) \<and>
     set (map respKey rs) \<inter> set seen = {}"
proof (induction rs arbitrary: i seen)
  case (Cons r rs)
  then have r: "sp_Error r = []" "sp_Id r \<noteq> None" "respKey r \<notin> set seen"
    and rest: "scanResponses env (Suc i) (seen @ [respKey r]) rs = None" by (auto simp: Let_def split: if_splits)
  from r(2) have "sp_Id r = Some (respKey r)" by (auto simp: respKey_def)
  with r Cons.IH [OF rest] show ?case by auto
qed simp

lemma readVaultResponse_sound:
  assumes "readVaultResponse env n (secretRequestsFor env secrets key md) out = Inr (cts, shares, raw)"
  shows "length cts = length secrets \<and> list_all2 (decodedFrom env n (gs_Responses out)) secrets (zip cts shares) \<and> length shares = length secrets"
proof -
  from assms obtain ordered decoded where scan: "scanResponses env 0 [] (gs_Responses out) = None"
    and m: "list_all2 (\<lambda>q r. matchResponse (gs_Responses out) q = Inr r) (secretRequestsFor env secrets key md) ordered"
    and d: "list_all2 (\<lambda>r cs. decodeResponse env n r = Inr cs) ordered decoded" and res: "cts = map fst decoded" "shares = map snd decoded"
    by (auto simp: readVaultResponse_def dest!: mapE_Inr split: sum.splits option.splits)
  have "decodedFrom env n (gs_Responses out) (secrets ! i) (decoded ! i)" if i: "i < length secrets" for i
  proof -
    have len: "length ordered = length secrets" "length decoded = length secrets"
      using m d by (auto simp: list_all2_conv_all_nth secretRequestsFor_def)
    with i m have "matchResponse (gs_Responses out) (secretRequestsFor env secrets key md ! i) = Inr (ordered ! i)"
      by (simp add: list_all2_conv_all_nth secretRequestsFor_def)
    then have "find (\<lambda>r. respKey r = si_Key (secrets ! i)) (gs_Responses out) = Some (ordered ! i)"
      using i by (auto simp: matchResponse_def secretRequestsFor_def split: option.splits)
    then have r: "ordered ! i \<in> set (gs_Responses out)" "respKey (ordered ! i) = si_Key (secrets ! i)"
      by (auto simp: find_Some_iff)
    moreover have "decodeResponse env n (ordered ! i) = Inr (decoded ! i)" using d i len by (simp add: list_all2_conv_all_nth)
    moreover have "sp_Id (ordered ! i) = Some (si_Key (secrets ! i))"
      using scanResponses_ids [OF scan] r by auto
    ultimately show ?thesis using decodeResponse_enough by (auto simp: decodedFrom_def)
  qed
  moreover have "length decoded = length secrets" using m d by (auto simp: list_all2_conv_all_nth secretRequestsFor_def)
  moreover have "zip cts shares = decoded" by (simp add: res zip_map_fst_snd)
  ultimately show ?thesis by (simp add: list_all2_conv_all_nth res)
qed

lemma fetchFromVault_sound:
  assumes "fetchFromVault env w secrets key md e = (XOk (cts, shares, raw), e')"
  shows "\<exists>out md'. xw_VaultExecute w \<lparr>vq_Requests = secretRequestsFor env secrets key md, vq_Metadata = md'\<rparr> = Inr (Inr out) \<and>
    length cts = length secrets \<and> length shares = length secrets \<and>
    list_all2 (decodedFrom env (ex_vaultThreshold e) (gs_Responses out)) secrets (zip cts shares)"
proof -
  from assms obtain md' out where "xw_VaultExecute w \<lparr>vq_Requests = secretRequestsFor env secrets key md, vq_Metadata = md'\<rparr> = Inr (Inr out)"
    "readVaultResponse env (ex_vaultThreshold e) (secretRequestsFor env secrets key md) out = Inr (cts, shares, raw)"
    by (auto simp: fetchFromVault_def Let_def liftX_XOk split: option.splits sum.splits)
  with readVaultResponse_sound show ?thesis by blast
qed

text \<open>
  C22. Shares are complete, in order and for this enclave key: without the cache,
  the executor gets one ciphertext and one list of shares for each requested
  secret, in the order of the request, each decoded from the Vault DON's response
  with that secret's key to a request that names the enclave's key as the
  only encryption key, and each list has at least the threshold of shares.
\<close>

theorem vault_shares_complete:
  assumes "GetEncryptedDecryptionShares env w ds secrets key md e = (XOk (cts, shares, raw), e')" "secrets \<noteq> []"
    "ex_capConfig e = Some cfg" "\<not> pg_EnableSecretsCache cfg"
  shows "e' = e \<and> (\<exists>out md'. xw_VaultExecute w \<lparr>vq_Requests = secretRequestsFor env secrets key md, vq_Metadata = md'\<rparr> = Inr (Inr out) \<and>
    list_all (\<lambda>q. sq_EncryptionKeys q = [hexEncode key]) (secretRequestsFor env secrets key md) \<and>
    length cts = length secrets \<and> length shares = length secrets \<and>
    list_all2 (decodedFrom env (ex_vaultThreshold e) (gs_Responses out)) secrets (zip cts shares))"
proof -
  from assms have run: "fetchFromVault env w secrets key md e = (XOk (cts, shares, raw), e')"
    by (auto simp: GetEncryptedDecryptionShares_def split: if_splits)
  moreover have "e' = e" using fetchFromVault_state [of env w secrets key md e] run by simp
  moreover have "list_all (\<lambda>q. sq_EncryptionKeys q = [hexEncode key]) (secretRequestsFor env secrets key md)"
    by (simp add: secretRequestsFor_def list_all_iff)
  ultimately show ?thesis using fetchFromVault_sound [OF run] by blast
qed

definition vaultWorld :: world where
  "vaultWorld = sampleWorld\<lparr>xw_VaultExecute := (\<lambda>_. Inr (Inr \<lparr>gs_RawVaultPublicKey = [], gs_Responses =
     [\<lparr>sp_Id = Some ''token'', sp_Error = [], sp_Data = Some \<lparr>sd_EncryptedValue = ''0a0b'',
        sd_EncryptedDecryptionKeyShares = [\<lparr>ks_BinaryShares = [[1], [2], [3]], ks_Shares = []\<rparr>]\<rparr>\<rparr>]\<rparr>))\<rparr>"

definition vaultExecutor :: RealExecutor where
  "vaultExecutor = sampleExecutor\<lparr>ex_vaultThreshold := 3\<rparr>"

abbreviation token :: SecretIdentifier where
  "token \<equiv> \<lparr>si_Key = ''token'', si_Namespace = ''main''\<rparr>"

lemma sample_fetch: "fetchFromVault sampleExecEnv vaultWorld [token] (id32 9) sampleMetadata e = (XOk ([[10, 11]], [[[1], [2], [3]]], []), e)"
  if "ex_vaultThreshold e = 3"
proof -
  have hex: "decodeHex sampleExecEnv ''0a0b'' = Inr [10, 11]"
    by (simp add: decodeHex_def hexDecode_def hexVal_def)
  have "scanResponses sampleExecEnv 0 [] [\<lparr>sp_Id = Some ''token'', sp_Error = [], sp_Data = d\<rparr>] = None" for d
    by (simp add: respKey_def)
  then show ?thesis
    using that hex
    by (simp add: fetchFromVault_def vaultWorld_def sampleExecEnv_def Let_def applyWorkflowDONBindingToVault_def sampleWorld_def
        sampleSettings_def readVaultResponse_def secretRequestsFor_def matchResponse_def decodeResponse_def decodeShares_def
        respKey_def liftX_def)
qed

theorem vault_shares_complete_witness:
  "\<exists>e' (out :: GetSecretsResponse). GetEncryptedDecryptionShares sampleExecEnv vaultWorld Map.empty [token] (id32 9) sampleMetadata vaultExecutor
     = (XOk ([[10, 11]], [[[1], [2], [3]]], []), e') \<and>
     list_all2 (decodedFrom sampleExecEnv 3 (gs_Responses out)) [token] [([10, 11], [[1], [2], [3]])]"
proof -
  have ex: "ex_vaultThreshold vaultExecutor = 3" "ex_capConfig vaultExecutor = Some sampleParsed" "\<not> pg_EnableSecretsCache sampleParsed"
    by (simp_all add: vaultExecutor_def sampleExecutor_def sampleParsed_def applyLimitSettings_def sampleSettings_def)
  have run: "GetEncryptedDecryptionShares sampleExecEnv vaultWorld Map.empty [token] (id32 9) sampleMetadata vaultExecutor
     = (XOk ([[10, 11]], [[[1], [2], [3]]], []), vaultExecutor)"
    using ex sample_fetch [of vaultExecutor]
    by (simp add: GetEncryptedDecryptionShares_def vaultExecutor_def sampleExecutor_def) (simp add: sampleExecEnv_def id32_def)
  from vault_shares_complete [OF run _ ex(2,3)] run ex(1) show ?thesis by auto
qed

text \<open>
  Secrets are matched by key alone, so a request for the same key in two
  namespaces cannot succeed when the Vault DON answers each request: whatever
  the responses carry, the executor reports an error.
\<close>

theorem same_key_two_namespaces_fails:
  assumes "map si_Key secrets = map respKey (gs_Responses out)" "\<not> distinct (map si_Key secrets)"
  shows "\<exists>err. readVaultResponse env n (secretRequestsFor env secrets key md) out = Inl err"
proof -
  have "scanResponses env 0 [] (gs_Responses out) \<noteq> None" using scanResponses_ids assms by metis
  then show ?thesis by (auto simp: readVaultResponse_def split: sum.splits)
qed

theorem same_key_two_namespaces_fails_witness:
  "\<exists>err. readVaultResponse sampleExecEnv 3 (secretRequestsFor sampleExecEnv [token, token\<lparr>si_Namespace := ''other''\<rparr>] (id32 9) sampleMetadata)
     \<lparr>gs_RawVaultPublicKey = [], gs_Responses = [\<lparr>sp_Id = Some ''token'', sp_Error = [], sp_Data = None\<rparr>,
        \<lparr>sp_Id = Some ''token'', sp_Error = [], sp_Data = None\<rparr>]\<rparr> = Inl err"
  by (rule same_key_two_namespaces_fails) (simp_all add: respKey_def)

section \<open>The cache of shares\<close>

lemma items_fold_Set:
  assumes "ca_maxEntries c = 0" "distinct (map fst kvs)"
  shows "ca_items (fold (\<lambda>(k, v). Cache_Set t k v None) kvs c) = (\<lambda>k. case map_of kvs k of
      None \<Rightarrow> ca_items c k | Some v \<Rightarrow> Some \<lparr>ci_Value = v, ci_CreationTime = t, ci_TimeToLive = ca_timeToLive c\<rparr>)"
  using assms
proof (induction kvs arbitrary: c)
  case (Cons kv kvs)
  obtain k v where kv: "kv = (k, v)" by (cases kv)
  have set: "Cache_Set t k v None c = c\<lparr>ca_items := (ca_items c)(k \<mapsto> \<lparr>ci_Value = v, ci_CreationTime = t, ci_TimeToLive = ca_timeToLive c\<rparr>),
      ca_keyList := (if ca_items c k \<noteq> None then ca_keyList c else ca_keyList c @ [k])\<rparr>"
    using Cons.prems(1) by (simp add: Cache_Set_def setLocked_def Let_def)
  have "map_of kvs k = None" using Cons.prems(2) kv by (auto simp: map_of_eq_None_iff)
  then show ?case using Cons.prems Cons.IH [of "Cache_Set t k v None c"] kv
    by (auto simp: set fun_eq_iff split: option.split)
qed simp

text \<open>The entries an execution stores, by cache key.\<close>

definition storedEntries :: "ExecEnv \<Rightarrow> SecretIdentifier list \<Rightarrow> bytes \<Rightarrow> string \<Rightarrow> shareSet \<Rightarrow> (bytes \<times> cachedEDKS) list" where
  "storedEntries env secrets key owner ss = (case ss of (cts, shares, raw) \<Rightarrow>
     map (\<lambda>(s, ct, sh). (generateSecretCacheKey env key s owner,
       \<lparr>ce_encryptedSecret = ct, ce_encryptedDecryptionShares = sh, ce_rawVaultPublicKey = raw\<rparr>)) (zip secrets (zip cts shares)))"

lemma storeShares_entries:
  "ex_secretsCache (storeShares env w secrets key owner ss e) =
     fold (\<lambda>(k, v). Cache_Set (xw_storeAt w) k v None) (storedEntries env secrets key owner ss) (ex_secretsCache e)"
  by (auto simp: storeShares_def storedEntries_def fold_map comp_def case_prod_unfold split: prod.split)

lemma cachedEntries_Some:
  "(\<And>i. i < length ss \<Longrightarrow> get (ss ! i) = Some (vs ! i)) \<Longrightarrow> length vs = length ss \<Longrightarrow> cachedEntries get ss = Some vs"
proof (induction ss arbitrary: vs)
  case (Cons s ss)
  then obtain v vs' where vs: "vs = v # vs'" by (cases vs) auto
  have "get s = Some v" using Cons.prems(1) [of 0] vs by simp
  moreover have "cachedEntries get ss = Some vs'"
    using Cons.prems vs by (intro Cons.IH) (auto dest: spec [where x = "Suc _"], metis Suc_less_eq nth_Cons_Suc length_Cons)
  ultimately show ?case using vs by simp
qed simp

text \<open>
  C23. The cache gives back what the Vault DON delivered: after a request that
  missed the cache and succeeded, a request for the same secrets, enclave key and
  owner within the cache's time to live returns the same ciphertexts, shares and
  key, whatever the Vault DON would answer now, as long as the secrets'
  cache keys differ.
\<close>

theorem secrets_cache_roundtrip:
  assumes "GetEncryptedDecryptionShares env w ds secrets key md e = (XOk ss, e1)" "secrets \<noteq> []"
    "ex_capConfig e = Some cfg" "pg_EnableSecretsCache cfg" "ca_maxEntries (ex_secretsCache e) = 0"
    "cachedEntries (\<lambda>s. Cache_Get (xw_cacheAt w) (generateSecretCacheKey env key s (rm_WorkflowOwner md)) (ex_secretsCache e)) secrets = None"
    "distinct (map (\<lambda>s. generateSecretCacheKey env key s (rm_WorkflowOwner md)) secrets)"
    "xw_cacheAt w2 - xw_storeAt w \<le> ca_timeToLive (ex_secretsCache e)" "rm_WorkflowOwner md2 = rm_WorkflowOwner md"
  shows "fst (GetEncryptedDecryptionShares env w2 ds2 secrets key md2 e1) = XOk ss"
proof -
  let ?owner = "rm_WorkflowOwner md" let ?miss = "xemit ds ''vault_don_cache_miss'' Map.empty e"
  let ?k = "\<lambda>s. generateSecretCacheKey env key s ?owner"
  obtain cts shares raw where ss: "ss = (cts, shares, raw)" by (cases ss)
  from assms(1-4,6) have cap: "\<not> xe_cap env key < 8" "ex_vaultCapability e"
    and run: "bindX (fetchFromVault env w secrets key md) (\<lambda>ss e'. (XOk ss, storeShares env w secrets key ?owner ss e')) ?miss = (XOk ss, e1)"
    by (auto simp: GetEncryptedDecryptionShares_def Let_def split: if_splits)
  from run obtain e0 where fetch: "fetchFromVault env w secrets key md ?miss = (XOk ss, e0)" and e1: "e1 = storeShares env w secrets key ?owner ss e0"
    by (auto simp: bindX_XOk)
  have e0: "e0 = ?miss" using fetchFromVault_state [of env w secrets key md ?miss] fetch by simp
  have len: "length cts = length secrets" "length shares = length secrets"
    using fetchFromVault_sound [of env w secrets key md ?miss cts shares raw e0] fetch ss by auto
  let ?entry = "\<lambda>i. \<lparr>ce_encryptedSecret = cts ! i, ce_encryptedDecryptionShares = shares ! i, ce_rawVaultPublicKey = raw\<rparr>"
  let ?kvs = "storedEntries env secrets key ?owner ss"
  have kvs: "map fst ?kvs = map ?k secrets" "\<And>i. i < length secrets \<Longrightarrow> ?kvs ! i = (?k (secrets ! i), ?entry i)" "length ?kvs = length secrets"
    using len by (auto simp: storedEntries_def ss intro!: nth_equalityI)
  have cache: "ex_secretsCache ?miss = ex_secretsCache e" by (simp add: xemit_def)
  have get: "Cache_Get (xw_cacheAt w2) (?k (secrets ! i)) (ex_secretsCache e1) = Some (?entry i)" if i: "i < length secrets" for i
  proof -
    have "map_of ?kvs (?k (secrets ! i)) = Some (?entry i)"
      using kvs i assms(7) by (intro map_of_is_SomeI) (auto simp: in_set_conv_nth intro!: exI [of _ i])
    then show ?thesis
      using items_fold_Set [of "ex_secretsCache e" ?kvs "xw_storeAt w"] assms(5,7,8) kvs(1)
      by (simp add: e1 e0 storeShares_entries cache Cache_Get_def expired_def)
  qed
  have "cachedEntries (\<lambda>s. Cache_Get (xw_cacheAt w2) (?k s) (ex_secretsCache e1)) secrets = Some (map ?entry [0..<length secrets])"
    by (rule cachedEntries_Some) (simp_all add: get)
  moreover have "map ce_encryptedSecret (map ?entry [0..<length secrets]) = cts"
    "map ce_encryptedDecryptionShares (map ?entry [0..<length secrets]) = shares"
    using len by (auto intro!: nth_equalityI)
  moreover have "ce_rawVaultPublicKey (hd (map ?entry [0..<length secrets])) = raw" "cachedPublicKeysMatch (map ?entry [0..<length secrets])"
    using assms(2) by (simp_all add: hd_map cachedPublicKeysMatch_def list_all_iff)
  moreover have "ex_capConfig e1 = Some cfg" "ex_vaultCapability e1"
    using assms(3) cap(2) by (simp_all add: e1 e0 storeShares_def xemit_def split: prod.split)
  ultimately show ?thesis
    using cap assms(2,4,9) by (simp add: GetEncryptedDecryptionShares_def Let_def ss del: map_map)
qed

definition cachingExecutor :: RealExecutor where
  "cachingExecutor = vaultExecutor\<lparr>ex_capConfig := Some (sampleParsed\<lparr>pg_EnableSecretsCache := True\<rparr>)\<rparr>"

theorem secrets_cache_roundtrip_witness:
  "\<exists>e1. GetEncryptedDecryptionShares sampleExecEnv vaultWorld Map.empty [token] (id32 9) sampleMetadata cachingExecutor
       = (XOk ([[10, 11]], [[[1], [2], [3]]], []), e1) \<and>
     fst (GetEncryptedDecryptionShares sampleExecEnv sampleWorld Map.empty [token] (id32 9) sampleMetadata e1)
       = XOk ([[10, 11]], [[[1], [2], [3]]], [])"
proof -
  let ?ss = "([[10, 11]], [[[1], [2], [3]]], []) :: shareSet"
  have ex: "ex_capConfig cachingExecutor = Some (sampleParsed\<lparr>pg_EnableSecretsCache := True\<rparr>)"
    "ex_secretsCache cachingExecutor = NewCache None None" "ex_vaultCapability cachingExecutor"
    "ex_vaultThreshold (xemit ds ev d cachingExecutor) = 3" for ds ev d
    by (simp_all add: cachingExecutor_def vaultExecutor_def sampleExecutor_def NewRealExecutor_def xemit_def)
  have cap: "\<not> xe_cap sampleExecEnv (id32 9) < 8" by (simp add: sampleExecEnv_def id32_def)
  have miss: "Cache_Get t (k :: bytes) (NewCache None None) = (None :: cachedEDKS option)" for t k
    by (simp add: Cache_Get_def NewCache_def NewBoundedCache_def)
  have run: "\<exists>e1. GetEncryptedDecryptionShares sampleExecEnv vaultWorld Map.empty [token] (id32 9) sampleMetadata cachingExecutor = (XOk ?ss, e1)"
    using ex cap miss sample_fetch by (simp add: GetEncryptedDecryptionShares_def Let_def bindX_def)
  then obtain e1 where e1: "GetEncryptedDecryptionShares sampleExecEnv vaultWorld Map.empty [token] (id32 9) sampleMetadata cachingExecutor = (XOk ?ss, e1)"
    by blast
  have "fst (GetEncryptedDecryptionShares sampleExecEnv sampleWorld Map.empty [token] (id32 9) sampleMetadata e1) = XOk ?ss"
    by (rule secrets_cache_roundtrip [OF e1 _ ex(1)])
      (use ex(2) miss in \<open>simp_all add: NewCache_def NewBoundedCache_def sampleWorld_def vaultWorld_def defaultTTL_def cc_const\<close>)
  with e1 show ?thesis by blast
qed

text \<open>
  The cache key is ambiguous: the fields are joined by a dash, which a key or a
  namespace may contain, so two different secrets of one owner can share an
  entry and one is served for the other.
\<close>

theorem secret_cache_key_ambiguous:
  "generateSecretCacheKey env key \<lparr>si_Key = a @ ''-'' @ b, si_Namespace = c\<rparr> owner =
   generateSecretCacheKey env key \<lparr>si_Key = a, si_Namespace = b @ ''-'' @ c\<rparr> owner"
  by (simp add: generateSecretCacheKey_def secretCacheKeyData_def)

end
