(* ===== verification/CC_GoLib.thy ===== *)
theory CC_GoLib
  imports CC_Util
begin

text \<open>
  What the applications inside the enclave use of Go's library: errors with the
  causes the code looks for, contexts with a deadline, \<^verbatim>\<open>strconv\<close>, \<^verbatim>\<open>strings\<close> and
  base64 decoding. The clock is passed along: a step that waits or talks to the
  network returns the time at which it ends. The lemmas show that base64
  decoding undoes encoding and what a deadline does to waiting.
\<close>

section \<open>Errors\<close>

text \<open>A JSON-RPC error of the relay (\<^verbatim>\<open>gateway.RPCError\<close>).\<close>

record RPCError =
  rp_Code :: int
  rp_Message :: string

text \<open>
  An error: its text, the \<open>RPCError\<close> that \<^verbatim>\<open>errors.As\<close> finds in it, and whether
  \<^verbatim>\<open>errors.Is(err, context.DeadlineExceeded)\<close>.
\<close>

record netErr =
  ne_text :: string
  ne_rpc :: "RPCError option"
  ne_deadline :: bool

datatype 'a netResult = NOk 'a | NErr netErr | NPanic

definition errText :: "string \<Rightarrow> netErr" where
  "errText s = \<lparr>ne_text = s, ne_rpc = None, ne_deadline = False\<rparr>"

text \<open>\<^verbatim>\<open>fmt.Errorf\<close> with the error after a prefix.\<close>

definition errWrap :: "string \<Rightarrow> netErr \<Rightarrow> netErr" where
  "errWrap s e = e\<lparr>ne_text := s @ ne_text e\<rparr>"

text \<open>\<^verbatim>\<open>strings.Join\<close>.\<close>

fun joinStrings :: "string \<Rightarrow> string list \<Rightarrow> string" where
  "joinStrings sep [] = []"
| "joinStrings sep [s] = s"
| "joinStrings sep (s # ss) = s @ sep @ joinStrings sep ss"

text \<open>The first \<open>RPCError\<close> in a list of errors, as \<^verbatim>\<open>errors.As\<close> walks them.\<close>

primrec firstRPC :: "netErr list \<Rightarrow> RPCError option" where
  "firstRPC [] = None"
| "firstRPC (e # es) = (case ne_rpc e of None \<Rightarrow> firstRPC es | Some r \<Rightarrow> Some r)"

text \<open>\<^verbatim>\<open>errors.Join\<close> of a list that is not empty.\<close>

definition errJoin :: "netErr list \<Rightarrow> netErr" where
  "errJoin es = \<lparr>ne_text = joinStrings [CHR 0x0A] (map ne_text es), ne_rpc = firstRPC es, ne_deadline = list_ex ne_deadline es\<rparr>"

section \<open>Numbers and strings\<close>

text \<open>The verb \<^verbatim>\<open>%d\<close>, \<^verbatim>\<open>strconv.Itoa\<close>.\<close>

definition itoa :: "int \<Rightarrow> string" where
  "itoa i = (if i < 0 then CHR ''-'' # decimal (nat (- i)) else decimal (nat i))"

text \<open>The verb \<^verbatim>\<open>%q\<close> on ASCII text.\<close>

definition quoteChar :: "char \<Rightarrow> string" where
  "quoteChar c = (let n = code c in
     if n = 34 \<or> n = 92 then [CHR 0x5C, c]
     else if 32 \<le> n \<and> n < 127 then [c]
     else if n = 7 then [CHR 0x5C, CHR ''a''] else if n = 8 then [CHR 0x5C, CHR ''b'']
     else if n = 12 then [CHR 0x5C, CHR ''f''] else if n = 10 then [CHR 0x5C, CHR ''n'']
     else if n = 13 then [CHR 0x5C, CHR ''r''] else if n = 9 then [CHR 0x5C, CHR ''t'']
     else if n = 11 then [CHR 0x5C, CHR ''v'']
     else [CHR 0x5C, CHR ''x'', hexDigit (n div 16), hexDigit (n mod 16)])"

definition goQuote :: "string \<Rightarrow> string" where
  "goQuote s = CHR 0x22 # concat (map quoteChar s) @ [CHR 0x22]"

text \<open>\<^verbatim>\<open>strings.TrimPrefix\<close>.\<close>

definition trimPrefix :: "string \<Rightarrow> string \<Rightarrow> string" where
  "trimPrefix p s = (if take (length p) s = p then drop (length p) s else s)"

text \<open>\<^verbatim>\<open>base64.StdEncoding.DecodeString\<close>: line breaks are ignored, padding is required.\<close>

definition sextetVal :: "char \<Rightarrow> nat option" where
  "sextetVal c = (let n = code c in
     if 65 \<le> n \<and> n \<le> 90 then Some (n - 65) else if 97 \<le> n \<and> n \<le> 122 then Some (n - 71)
     else if 48 \<le> n \<and> n \<le> 57 then Some (n + 4) else if n = 43 then Some 62 else if n = 47 then Some 63 else None)"

fun decodeQuanta :: "string \<Rightarrow> bytes option" where
  "decodeQuanta [] = Some []"
| "decodeQuanta (a # b # c # d # r) = (case (sextetVal a, sextetVal b) of
     (Some w, Some x) \<Rightarrow>
       (case (sextetVal c, sextetVal d) of
          (Some y, Some z) \<Rightarrow> map_option (\<lambda>bs. of_nat (w * 4 + x div 16) # of_nat (x mod 16 * 16 + y div 4) # of_nat (y mod 4 * 64 + z) # bs)
             (decodeQuanta r)
        | (Some y, None) \<Rightarrow> if d = CHR ''='' \<and> r = [] then Some [of_nat (w * 4 + x div 16), of_nat (x mod 16 * 16 + y div 4)] else None
        | (None, _) \<Rightarrow> if c = CHR ''='' \<and> d = CHR ''='' \<and> r = [] then Some [of_nat (w * 4 + x div 16)] else None)
   | _ \<Rightarrow> None)"
| "decodeQuanta _ = None"

definition DecodeString :: "string \<Rightarrow> bytes option" where
  "DecodeString s = decodeQuanta (filter (\<lambda>c. c \<noteq> CHR 0x0A \<and> c \<noteq> CHR 0x0D) s)"

section \<open>Contexts\<close>

text \<open>A context that ends at \<open>cx_Done\<close>, if ever, with the error \<open>cx_Err\<close> from then on.\<close>

record ctx =
  cx_Done :: "time option"
  cx_Err :: netErr

definition DeadlineExceeded :: netErr where
  "DeadlineExceeded = \<lparr>ne_text = ''context deadline exceeded'', ne_rpc = None, ne_deadline = True\<rparr>"

definition Background :: ctx where
  "Background = \<lparr>cx_Done = None, cx_Err = DeadlineExceeded\<rparr>"

definition ctxErr :: "time \<Rightarrow> ctx \<Rightarrow> netErr option" where
  "ctxErr t cx = (case cx_Done cx of None \<Rightarrow> None | Some d \<Rightarrow> if d \<le> t then Some (cx_Err cx) else None)"

definition WithTimeout :: "time \<Rightarrow> duration \<Rightarrow> ctx \<Rightarrow> ctx" where
  "WithTimeout t d cx = (case cx_Done cx of
     None \<Rightarrow> \<lparr>cx_Done = Some (t + d), cx_Err = DeadlineExceeded\<rparr>
   | Some e \<Rightarrow> if t + d < e then \<lparr>cx_Done = Some (t + d), cx_Err = DeadlineExceeded\<rparr> else cx)"

text \<open>
  A \<^verbatim>\<open>select\<close> between the end of the context and a timer. When both are due the
  code may take either branch; here it is the end of the context.
\<close>

definition waitFor :: "time \<Rightarrow> duration \<Rightarrow> ctx \<Rightarrow> netErr option \<times> time" where
  "waitFor t d cx = (case cx_Done cx of
     Some e \<Rightarrow> if e \<le> t + d then (Some (cx_Err cx), max t e) else (None, t + d)
   | None \<Rightarrow> (None, t + d))"

section \<open>Lemmas\<close>

lemma sextetVal_sextet [simp]: "sextetVal (sextet n) = Some (n mod 64)"
proof -
  have "\<forall>k<64. sextetVal (base64Alphabet ! k) = Some k"
    by (simp add: base64Alphabet_def sextetVal_def All_less_Suc numeral_eq_Suc)
  then show ?thesis by (simp add: sextet_def)
qed

lemma sextetVal_pad [simp]: "sextetVal (CHR ''='') = None"
  by (simp add: sextetVal_def)

lemma sextet_not_break [simp]: "sextet n \<noteq> CHR 0x0A" "sextet n \<noteq> CHR 0x0D"
  using sextetVal_sextet [of n] by (auto simp: sextetVal_def)

lemma EncodeToString_no_break: "list_all (\<lambda>c. c \<noteq> CHR 0x0A \<and> c \<noteq> CHR 0x0D) (EncodeToString b)"
  by (induction b rule: EncodeToString.induct) simp_all

lemma sextets_first: "unat (a :: byte) div 4 mod 64 * 4 + (unat a mod 4 * 16 + k) mod 64 div 16 = unat a" if "k < 16"
proof -
  have "unat a div 4 < 64" using byte_bound [of a] by simp
  moreover have "(unat a mod 4 * 16 + k) mod 64 = unat a mod 4 * 16 + k"
  proof (rule mod_less)
    have "unat a mod 4 \<le> 3" by simp
    with that show "unat a mod 4 * 16 + k < 64" by linarith
  qed
  moreover have "(unat a mod 4 * 16 + k) div 16 = unat a mod 4" using that by simp
  ultimately show ?thesis by simp
qed

lemma sextets_second: "(unat (a :: byte) mod 4 * 16 + unat (b :: byte) div 16) mod 64 mod 16 * 16 + (unat b mod 16 * 4 + k) mod 64 div 4 = unat b"
  if "k < 4"
proof -
  have b: "unat b div 16 < 16" using byte_bound [of b] by simp
  have "(unat a mod 4 * 16 + unat b div 16) mod 64 mod 16 = (unat a mod 4 * 16 + unat b div 16) mod 16"
    by (simp add: mod_mod_cancel)
  also have "\<dots> = unat b div 16" using b by simp
  finally have "(unat a mod 4 * 16 + unat b div 16) mod 64 mod 16 = unat b div 16" .
  moreover have "(unat b mod 16 * 4 + k) mod 64 div 4 = unat b mod 16"
    using that by (simp add: div_add_self1 mod_less)
  ultimately show ?thesis by simp
qed

lemma sextets_third: "(unat (b :: byte) mod 16 * 4 + unat (c :: byte) div 64) mod 64 mod 4 * 64 + unat c mod 64 = unat c"
proof -
  have c: "unat c div 64 < 4" using byte_bound [of c] by simp
  have "(unat b mod 16 * 4 + unat c div 64) mod 64 mod 4 = (unat b mod 16 * 4 + unat c div 64) mod 4"
    by (simp add: mod_mod_cancel)
  also have "\<dots> = unat c div 64" using c by simp
  finally show ?thesis by simp
qed

lemma quantum_bytes:
  "k < 16 \<Longrightarrow> of_nat (unat (a :: byte) div 4 mod 64 * 4 + (unat a mod 4 * 16 + k) mod 64 div 16) = a"
  "k < 4 \<Longrightarrow> of_nat ((unat a mod 4 * 16 + unat (b :: byte) div 16) mod 64 mod 16 * 16 + (unat b mod 16 * 4 + k) mod 64 div 4) = b"
  "of_nat ((unat b mod 16 * 4 + unat (c :: byte) div 64) mod 64 mod 4 * 64 + unat c mod 64 mod 64) = c"
  by (simp_all only: sextets_first sextets_second sextets_third mod_mod_trivial of_nat_unat ucast_id)

lemmas quantum_simps = EncodeToString.simps decodeQuanta.simps sextetVal_sextet sextetVal_pad
  prod.case option.case simp_thms if_True list.map option.map

lemma decodeQuanta_EncodeToString: "decodeQuanta (EncodeToString b) = Some b"
proof (induction b rule: EncodeToString.induct)
  case (2 a)
  then show ?case using quantum_bytes(1) [of 0 a] by (simp only: quantum_simps add_0_right zero_less_numeral)
next
  case (3 a b)
  have "unat b div 16 < 16" by simp
  then show ?case using quantum_bytes(1) [of "unat b div 16" a] quantum_bytes(2) [of 0 a b]
    by (simp only: quantum_simps add_0_right zero_less_numeral)
next
  case (4 a b c r)
  have "unat b div 16 < 16" "unat c div 64 < 4" using byte_bound [of c] by simp_all
  with 4 show ?case by (simp only: quantum_simps quantum_bytes)
qed simp

lemma DecodeString_EncodeToString [simp]: "DecodeString (EncodeToString b) = Some b"
  using EncodeToString_no_break [of b] decodeQuanta_EncodeToString [of b]
  by (simp add: DecodeString_def filter_id_conv list_all_iff)

lemma ctxErr_WithTimeout: "t + d \<le> t' \<Longrightarrow> ctxErr t' (WithTimeout t d cx) \<noteq> None"
  by (auto simp: ctxErr_def WithTimeout_def split: option.splits)

lemma waitFor_time: "d \<ge> 0 \<Longrightarrow> t \<le> snd (waitFor t d cx)"
  by (auto simp: waitFor_def split: option.splits)

lemma waitFor_None: "fst (waitFor t d cx) = None \<longleftrightarrow> ctxErr (t + d) cx = None"
  "fst (waitFor t d cx) = None \<Longrightarrow> snd (waitFor t d cx) = t + d"
  by (auto simp: waitFor_def ctxErr_def split: option.splits if_splits)

lemma firstRPC_Some: "firstRPC es = Some r \<Longrightarrow> \<exists>e\<in>set es. ne_rpc e = Some r"
  by (induction es) (auto split: option.splits)

text \<open>An unsigned 64-bit number below \<open>2\<^sup>6\<^sup>3\<close> converts to the same signed one.\<close>

lemma sint_small:
  assumes "unat (w :: 64 word) < 2 ^ 63"
  shows "sint w = int (unat w)"
proof -
  have "int (unat w) < 2 ^ 63" using assms by (simp only: of_nat_less_iff [symmetric, where 'a = int] of_nat_power of_nat_numeral)
  then have "uint w < 2 ^ 63" by (simp only: uint_nat)
  moreover have "0 \<le> uint w" by (simp only: uint_nat of_nat_0_le_iff)
  ultimately have "signed_take_bit 63 (uint w) = uint w" by (intro signed_take_bit_int_eq_self) linarith+
  then show ?thesis by (simp only: sint_uint uint_nat len_bit0 len_num1) simp
qed

end
