(* ===== verification/CC_Gateway.thy ===== *)
theory CC_Gateway
  imports CC_GoLib "HOL-Library.Signed_Division"
begin

text \<open>
  The client with which the workflow application reaches the relay DON:
  \<^verbatim>\<open>src/enclave/apps/confidential-workflows/gateway/client.go\<close>. A request is
  attested once and offered to the gateways in turn, starting with the next one
  at each call. HTTP, JSON-RPC, the attestor and the random source are the record
  \<open>GatewayEnv\<close>. The lemmas show which gateways are asked, in which order, and
  when the client fails over.
\<close>

section \<open>Constants\<close>

definition attestationHeader :: string where
  "attestationHeader = ''X-Attestation-Document''"

definition gatewayFanOutFailure :: string where
  "gatewayFanOutFailure = ''failed to forward user request to nodes''"

definition gatewayQuorumExpiry :: string where
  "gatewayQuorumExpiry = ''request expired''"

definition DefaultGatewayRequestTimeout :: duration where
  "DefaultGatewayRequestTimeout = DefaultEnclaveRequestTimeout"

definition GatewayFailoverDelay :: duration where
  "GatewayFailoverDelay = 5 * second"

section \<open>State and environment\<close>

text \<open>\<open>gc_attestor\<close> is whether the attestor is set, \<open>gc_Timeout\<close> the timeout of the HTTP client.\<close>

record GatewayClient =
  gc_gatewayURLs :: "string list"
  gc_attestor :: bool
  gc_Timeout :: duration
  gc_cursor :: "64 word"

record gatewayRequest =
  gq_URL :: string
  gq_Header :: Header
  gq_Body :: bytes

text \<open>An HTTP answer: its status and what reading its body gives.\<close>

record gatewayAnswer =
  ga_StatusCode :: int
  ga_Body :: "netErr + bytes"

record rpcResponse =
  rr_Error :: "RPCError option"
  rr_Result :: "bytes option"

text \<open>
  The outside. \<open>gv_Do\<close> is an exchange begun at a time, with how long it takes;
  \<open>gv_NewRequest\<close> is the error of building a request to a URL; \<open>gv_rand\<close> is what reading 16
  random bytes gives. The last three are error codes of the \<^verbatim>\<open>jsonrpc2\<close> package.
\<close>

record GatewayEnv =
  gv_H :: "bytes \<Rightarrow> bytes"
  gv_rand :: "time \<Rightarrow> netErr + bytes"
  gv_EncodeRequest :: "string \<Rightarrow> string \<Rightarrow> bytes \<Rightarrow> netErr + bytes"
  gv_DecodeResponse :: "bytes \<Rightarrow> netErr + rpcResponse"
  gv_CreateAttestation :: "bytes \<Rightarrow> netErr + bytes"
  gv_NewRequest :: "string \<Rightarrow> netErr option"
  gv_Do :: "time \<Rightarrow> duration \<Rightarrow> gatewayRequest \<Rightarrow> (netErr + gatewayAnswer) \<times> nat"
  gv_ErrInternal :: int
  gv_ErrServerOverloaded :: int
  gv_ErrInvalidParams :: int

section \<open>Errors of the relay\<close>

definition RPCError_Error :: "RPCError \<Rightarrow> string" where
  "RPCError_Error e = ''JSON-RPC error '' @ itoa (rp_Code e) @ '': '' @ rp_Message e"

definition Retryable :: "GatewayEnv \<Rightarrow> RPCError \<Rightarrow> bool" where
  "Retryable env e \<longleftrightarrow>
     (if rp_Code e = gv_ErrInternal env \<and> Contains (rp_Message e) gatewayFanOutFailure then True
      else if rp_Code e = gv_ErrServerOverloaded env \<and> Contains (rp_Message e) gatewayQuorumExpiry then True
      else False)"

section \<open>Operations\<close>

definition parseGatewayURLs :: "string \<Rightarrow> string list" where
  "parseGatewayURLs raw = filter (\<lambda>p. p \<noteq> []) (map trimSpace (splitOn (CHR '','') raw))"

definition NewGatewayClient :: "string \<Rightarrow> bool \<Rightarrow> GatewayClient" where
  "NewGatewayClient gatewayURLs att = \<lparr>gc_gatewayURLs = parseGatewayURLs gatewayURLs, gc_attestor = att,
     gc_Timeout = DefaultGatewayRequestTimeout, gc_cursor = 0\<rparr>"

definition WithClientTimeout :: "duration \<Rightarrow> GatewayClient \<Rightarrow> GatewayClient" where
  "WithClientTimeout d c = c\<lparr>gc_Timeout := d\<rparr>"

definition hashRequestBody :: "GatewayEnv \<Rightarrow> bytes \<Rightarrow> bytes" where
  "hashRequestBody env body = gv_H env (bytes_of DomainSeparator @ bytes_of (newline # ''GatewayRequest'' @ [newline]) @ body)"

definition uuidBytes :: "bytes \<Rightarrow> bytes" where
  "uuidBytes u = u[6 := or (and (u ! 6) 0x0f) 0x40, 8 := or (and (u ! 8) 0x3f) 0x80]"

definition uuidText :: "bytes \<Rightarrow> string" where
  "uuidText u = hexEncode (take 4 u) @ ''-'' @ hexEncode (take 2 (drop 4 u)) @ ''-'' @ hexEncode (take 2 (drop 6 u)) @ ''-'' @
     hexEncode (take 2 (drop 8 u)) @ ''-'' @ hexEncode (take 6 (drop 10 u))"

definition newUUID :: "GatewayEnv \<Rightarrow> time \<Rightarrow> netErr + string" where
  "newUUID env t = (case gv_rand env t of Inl err \<Rightarrow> Inl err | Inr u \<Rightarrow> Inr (uuidText (uuidBytes u)))"

text \<open>The result, and for an error whether the next gateway may be tried. A nil result is empty.\<close>

definition readAnswer :: "GatewayEnv \<Rightarrow> gatewayAnswer \<Rightarrow> bool \<times> netErr + bytes" where
  "readAnswer env resp = (case ga_Body resp of
     Inl err \<Rightarrow> Inl (True, errWrap ''reading response body: '' err)
   | Inr body \<Rightarrow> (let respBody = take (Suc MaxEnclaveResponseBodyBytes) body in
       if length respBody > MaxEnclaveResponseBodyBytes
       then Inl (False, errText (''gateway response body exceeds limit '' @ decimal MaxEnclaveResponseBodyBytes @ '' bytes''))
       else case gv_DecodeResponse env respBody of
         Inr rpcResp \<Rightarrow> (case rr_Error rpcResp of
             Some e \<Rightarrow> Inl (False, \<lparr>ne_text = RPCError_Error e, ne_rpc = Some e, ne_deadline = False\<rparr>)
           | None \<Rightarrow> if ga_StatusCode resp \<noteq> 200
               then Inl (ga_StatusCode resp \<ge> 500, errText (''gateway returned HTTP '' @ itoa (ga_StatusCode resp) @ '': '' @ string_of respBody))
               else (case rr_Result rpcResp of None \<Rightarrow> Inr [] | Some r \<Rightarrow> Inr r))
       | Inl decErr \<Rightarrow> if ga_StatusCode resp \<noteq> 200
           then Inl (ga_StatusCode resp \<ge> 500, errText (''gateway returned HTTP '' @ itoa (ga_StatusCode resp) @ '': '' @ string_of respBody))
           else Inl (False, errWrap ''unmarshalling response: '' decErr)))"

definition sendOne ::
    "GatewayEnv \<Rightarrow> GatewayClient \<Rightarrow> time \<Rightarrow> string \<Rightarrow> bytes \<Rightarrow> string \<Rightarrow> (bool \<times> netErr + bytes) \<times> time" where
  "sendOne env c t url body attHeader = (case gv_NewRequest env url of
     Some err \<Rightarrow> (Inl (False, errWrap ''creating request: '' err), t)
   | None \<Rightarrow> (let h = Header_Set ''Content-Type'' ''application/json'' Map.empty;
                  h1 = (if attHeader \<noteq> [] then Header_Set attestationHeader attHeader h else h)
       in (case gv_Do env t (gc_Timeout c) \<lparr>gq_URL = url, gq_Header = h1, gq_Body = body\<rparr> of
             (Inl err, d) \<Rightarrow> (Inl (True, errWrap ''sending request: '' err), t + int d)
           | (Inr resp, d) \<Rightarrow> (readAnswer env resp, t + int d))))"

text \<open>
  The loop over the gateways: \<open>left\<close> of them remain. The index is computed in 64-bit
  integers; an index below zero panics.
\<close>

primrec sendLoop ::
    "nat \<Rightarrow> GatewayEnv \<Rightarrow> GatewayClient \<Rightarrow> ctx \<Rightarrow> bytes \<Rightarrow> string \<Rightarrow> 64 word \<Rightarrow> time \<Rightarrow> netErr list \<Rightarrow> bytes netResult \<times> time" where
  "sendLoop 0 env c cx body attHeader start t attemptErrs =
     (NErr (errWrap (''all '' @ decimal (length (gc_gatewayURLs c)) @ '' gateways failed: '') (errJoin attemptErrs)), t)"
| "sendLoop (Suc left) env c cx body attHeader start t attemptErrs =
     (case ctxErr t cx of Some err \<Rightarrow> (NErr err, t)
      | None \<Rightarrow>
        (let n = length (gc_gatewayURLs c);
             k = sint (start + of_nat (n - Suc left)) smod int n
         in if k < 0 then (NPanic, t)
            else let url = gc_gatewayURLs c ! nat k in
              (case sendOne env c t url body attHeader of
                 (Inr result, t1) \<Rightarrow> (NOk result, t1)
               | (Inl (retryable, err), t1) \<Rightarrow>
                   if \<not> retryable then (NErr err, t1)
                   else let errs = attemptErrs @ [errWrap (''gateway '' @ url @ '': '') err]
                     in if left = 0 then sendLoop left env c cx body attHeader start t1 errs
                        else (case waitFor t1 GatewayFailoverDelay cx of
                            (Some cerr, t2) \<Rightarrow> (NErr cerr, t2)
                          | (None, t2) \<Rightarrow> sendLoop left env c cx body attHeader start t2 errs))))"

definition attestBody :: "GatewayEnv \<Rightarrow> GatewayClient \<Rightarrow> bytes \<Rightarrow> netErr + string" where
  "attestBody env c body =
     (if gc_attestor c then (case gv_CreateAttestation env (hashRequestBody env body) of
          Inl err \<Rightarrow> Inl (errWrap ''creating attestation: '' err)
        | Inr doc \<Rightarrow> Inr (EncodeToString doc))
      else Inr [])"

definition SendRequest ::
    "GatewayEnv \<Rightarrow> ctx \<Rightarrow> string \<Rightarrow> bytes \<Rightarrow> time \<Rightarrow> GatewayClient \<Rightarrow> bytes netResult \<times> time \<times> GatewayClient" where
  "SendRequest env cx method params t c =
     (if gc_gatewayURLs c = [] then (NErr (errText ''no gateway URLs configured''), t, c)
      else case newUUID env t of
        Inl err \<Rightarrow> (NErr (errWrap ''generating request ID: '' err), t, c)
      | Inr reqID \<Rightarrow> (case gv_EncodeRequest env reqID method params of
          Inl err \<Rightarrow> (NErr (errWrap ''marshalling request: '' err), t, c)
        | Inr body \<Rightarrow> (case attestBody env c body of
            Inl err \<Rightarrow> (NErr err, t, c)
          | Inr attHeader \<Rightarrow>
              (case sendLoop (length (gc_gatewayURLs c)) env c cx body attHeader (gc_cursor c) t [] of
                 (r, t') \<Rightarrow> (r, t', c\<lparr>gc_cursor := gc_cursor c + 1\<rparr>)))))"

section \<open>Lemmas\<close>

lemma hexDigit_4: "hexDigit 4 = CHR ''4''"
  by (simp add: hexDigit_def) (simp add: char_of_def bit_0 bit_Suc)

lemma uuid_shape:
  assumes "length u = 16"
  shows "length (uuidText (uuidBytes u)) = 36" "uuidText (uuidBytes u) ! 14 = CHR ''4''"
proof -
  obtain a b c d e f g h i j k l m n q r where u: "u = [a, b, c, d, e, f, g, h, i, j, k, l, m, n, q, r]"
    using assms by (auto simp: length_Suc_conv eval_nat_numeral)
  show "length (uuidText (uuidBytes u)) = 36" by (simp add: u uuidText_def uuidBytes_def)
  have "drop_bit 4 (or (and g 0x0f) 0x40 :: byte) = 4"
    by (simp add: drop_bit_or drop_bit_and)
  then have "unat (drop_bit 4 (or (and g 0x0f) 0x40 :: byte)) = 4" by simp
  then have "unat (or (and g 0x0f) 0x40 :: byte) div 16 = 4"
    by (simp add: drop_bit_eq_div unat_div)
  then show "uuidText (uuidBytes u) ! 14 = CHR ''4''"
    by (simp add: u uuidText_def uuidBytes_def hexDigit_4)
qed

text \<open>The gateway asked at attempt \<open>i\<close> of a call, as long as the cursor is below \<open>2\<^sup>6\<^sup>3\<close>.\<close>

definition gatewayAt :: "GatewayClient \<Rightarrow> nat \<Rightarrow> string" where
  "gatewayAt c i = gc_gatewayURLs c ! ((unat (gc_cursor c) + i) mod length (gc_gatewayURLs c))"

lemma cursor_index:
  assumes "unat start + n \<le> 2 ^ 63" "i < n"
  shows "sint (start + of_nat i :: 64 word) smod int n = int ((unat start + i) mod n)"
proof -
  have le: "unat start + i < 2 ^ 63" using assms by simp
  then have u: "unat (start + of_nat i) = unat start + i"
    by (simp add: unat_word_ariths unat_of_nat)
  show ?thesis using le by (subst sint_small) (simp_all only: u smod_mod_positive of_nat_0_le_iff of_nat_mod)
qed

lemma sendOne_time: "t \<le> snd (sendOne env c t url body att)"
  by (simp add: sendOne_def Let_def split: option.splits prod.splits sum.splits)

lemma failover_time: "t \<le> snd (waitFor (snd (sendOne env c t url body att)) GatewayFailoverDelay cx)"
proof -
  have "snd (sendOne env c t url body att) \<le> snd (waitFor (snd (sendOne env c t url body att)) GatewayFailoverDelay cx)"
    by (rule waitFor_time) (simp add: GatewayFailoverDelay_def second_def)
  with sendOne_time show ?thesis by (rule order_trans)
qed

lemma sendLoop_time: "t \<le> snd (sendLoop left env c cx body att start t errs)"
proof (induction left arbitrary: t errs)
  case (Suc left)
  show ?case
    by (auto simp: Let_def case_prod_unfold sendOne_time failover_time split: option.splits sum.splits
        intro: order_trans [OF failover_time Suc.IH] order_trans [OF sendOne_time Suc.IH])
qed simp

lemma SendRequest_time: "t \<le> fst (snd (SendRequest env cx method params t c))"
  by (auto simp: SendRequest_def sendLoop_time case_prod_unfold split: sum.splits)

section \<open>Failing over\<close>

definition retryableFailure :: "bool \<times> netErr + bytes \<Rightarrow> bool" where
  "retryableFailure r \<longleftrightarrow> (case r of Inl (retryable, _) \<Rightarrow> retryable | Inr _ \<Rightarrow> False)"

definition finalAnswer :: "bool \<times> netErr + bytes \<Rightarrow> bytes netResult" where
  "finalAnswer r = (case r of Inl (_, err) \<Rightarrow> NErr err | Inr result \<Rightarrow> NOk result)"

lemma sendLoop_failover:
  assumes "cx_Done cx = None" "unat (gc_cursor c) + length (gc_gatewayURLs c) \<le> 2 ^ 63"
    "left \<le> length (gc_gatewayURLs c)" "k < left"
    "\<forall>i<k. \<forall>t. retryableFailure (fst (sendOne env c t (gatewayAt c (length (gc_gatewayURLs c) - left + i)) body att))"
    "\<forall>t. fst (sendOne env c t (gatewayAt c (length (gc_gatewayURLs c) - left + k)) body att) = r" "\<not> retryableFailure r"
  shows "fst (sendLoop left env c cx body att (gc_cursor c) t errs) = finalAnswer r"
  using assms(3-)
proof (induction left arbitrary: k t errs)
  case (Suc left)
  let ?n = "length (gc_gatewayURLs c)"
  have open1: "ctxErr t cx = None" "waitFor t1 d cx = (None, t1 + d)" for t t1 d
    using assms(1) by (simp_all add: ctxErr_def waitFor_def)
  have idx: "sint (gc_cursor c + of_nat (?n - Suc left)) smod int ?n = int ((unat (gc_cursor c) + (?n - Suc left)) mod ?n)"
    using Suc.prems(1) by (intro cursor_index assms(2)) simp
  define url where "url = gatewayAt c (?n - Suc left)"
  have url: "gc_gatewayURLs c ! nat (int ((unat (gc_cursor c) + (?n - Suc left)) mod ?n)) = url"
    by (simp add: url_def gatewayAt_def)
  have step: "sendLoop (Suc left) env c cx body att (gc_cursor c) t errs =
    (case sendOne env c t url body att of
       (Inr result, t1) \<Rightarrow> (NOk result, t1)
     | (Inl (retryable, err), t1) \<Rightarrow>
         if \<not> retryable then (NErr err, t1)
         else sendLoop left env c cx body att (gc_cursor c) (if left = 0 then t1 else t1 + GatewayFailoverDelay)
           (errs @ [errWrap (''gateway '' @ url @ '': '') err]))"
    unfolding sendLoop.simps Let_def idx open1 prod.case option.case url
    by (simp split: prod.split sum.split)
  show ?case
  proof (cases k)
    case 0
    then have "fst (sendOne env c t url body att) = r" using Suc.prems(4) by (simp add: url_def)
    then show ?thesis using Suc.prems(5) unfolding step finalAnswer_def retryableFailure_def
      by (cases "sendOne env c t url body att") (auto split: sum.splits)
  next
    case (Suc k')
    have shift: "?n - Suc left + Suc i = ?n - left + i" for i using Suc.prems(1) by simp
    have "retryableFailure (fst (sendOne env c t url body att))"
      using Suc.prems(3) Suc by (force simp: url_def)
    then obtain err t1 where one: "sendOne env c t url body att = (Inl (True, err), t1)"
      by (cases "sendOne env c t url body att") (auto simp: retryableFailure_def split: sum.splits)
    have "fst (sendLoop left env c cx body att (gc_cursor c) t' errs') = finalAnswer r" for t' errs'
    proof (rule Suc.IH)
      show "\<forall>i<k'. \<forall>t. retryableFailure (fst (sendOne env c t (gatewayAt c (?n - left + i)) body att))"
        using Suc.prems(3) Suc unfolding shift [symmetric] by auto
      show "\<forall>t. fst (sendOne env c t (gatewayAt c (?n - left + k')) body att) = r"
        using Suc.prems(4) Suc unfolding shift [symmetric] by simp
    qed (use Suc.prems Suc in simp_all)
    then show ?thesis unfolding step one by simp
  qed
qed simp

text \<open>
  A request is offered to the gateways in turn, starting at the cursor, which
  moves on by one per request. The caller gets the answer of the first gateway
  that answers at all: a gateway that cannot be reached or fails with an HTTP
  error of the server is passed over, while a result, an error of the relay or any other
  failure is final.
\<close>

theorem gateway_failover:
  assumes "cx_Done cx = None" "unat (gc_cursor c) + length (gc_gatewayURLs c) \<le> 2 ^ 63"
    "newUUID env t = Inr reqID" "gv_EncodeRequest env reqID method params = Inr body" "attestBody env c body = Inr att"
    "k < length (gc_gatewayURLs c)"
    "\<forall>i<k. \<forall>t. retryableFailure (fst (sendOne env c t (gatewayAt c i) body att))"
    "\<forall>t. fst (sendOne env c t (gatewayAt c k) body att) = r" "\<not> retryableFailure r"
  shows "fst (SendRequest env cx method params t c) = finalAnswer r \<and>
    snd (snd (SendRequest env cx method params t c)) = c\<lparr>gc_cursor := gc_cursor c + 1\<rparr>"
  using sendLoop_failover [OF assms(1,2) order_refl assms(6), of env body att r t "[]"] assms
  by (auto simp: SendRequest_def case_prod_unfold)

text \<open>Two gateways, the first of which is down.\<close>

definition sampleGateways :: GatewayClient where
  "sampleGateways = NewGatewayClient ''https://a, https://b'' True"

definition sampleGatewayEnv :: GatewayEnv where
  "sampleGatewayEnv = \<lparr>gv_H = zeroHash, gv_rand = (\<lambda>_. Inr (replicate 16 7)), gv_EncodeRequest = (\<lambda>reqID m ps. Inr (bytes_of m @ ps)),
     gv_DecodeResponse = (\<lambda>b. Inr \<lparr>rr_Error = None, rr_Result = Some b\<rparr>), gv_CreateAttestation = (\<lambda>h. Inr [5]),
     gv_NewRequest = (\<lambda>_. None),
     gv_Do = (\<lambda>_ _ q. if gq_URL q = ''https://a'' then (Inl (errText ''connection refused''), 3) else (Inr \<lparr>ga_StatusCode = 200, ga_Body = Inr [9]\<rparr>, 5)),
     gv_ErrInternal = -32603, gv_ErrServerOverloaded = -32000, gv_ErrInvalidParams = -32602\<rparr>"

lemma sample_urls: "gc_gatewayURLs sampleGateways = [''https://a'', ''https://b'']"
  by (simp add: sampleGateways_def NewGatewayClient_def parseGatewayURLs_def trimSpace_def isSpace_def)

theorem gateway_failover_witness:
  "fst (SendRequest sampleGatewayEnv Background ''m'' [1] 0 sampleGateways) = NOk [9] \<and>
   snd (snd (SendRequest sampleGatewayEnv Background ''m'' [1] 0 sampleGateways)) = sampleGateways\<lparr>gc_cursor := 1\<rparr>"
proof -
  let ?att = "EncodeToString [5 :: byte]" and ?body = "bytes_of ''m'' @ [1]"
  have cur: "gc_cursor sampleGateways = 0" "gc_attestor sampleGateways" by (simp_all add: sampleGateways_def NewGatewayClient_def)
  have at: "gatewayAt sampleGateways 0 = ''https://a''" "gatewayAt sampleGateways 1 = ''https://b''"
    by (simp_all add: gatewayAt_def sample_urls cur)
  have down: "retryableFailure (fst (sendOne sampleGatewayEnv sampleGateways t ''https://a'' ?body ?att))" for t
    by (simp add: sendOne_def sampleGatewayEnv_def Let_def retryableFailure_def)
  have up: "fst (sendOne sampleGatewayEnv sampleGateways t ''https://b'' ?body ?att) = Inr [9]" for t
    by (simp add: sendOne_def sampleGatewayEnv_def Let_def readAnswer_def MaxEnclaveResponseBodyBytes_def)
  have "fst (SendRequest sampleGatewayEnv Background ''m'' [1] 0 sampleGateways) = finalAnswer (Inr [9]) \<and>
     snd (snd (SendRequest sampleGatewayEnv Background ''m'' [1] 0 sampleGateways)) = sampleGateways\<lparr>gc_cursor := gc_cursor sampleGateways + 1\<rparr>"
    by (rule gateway_failover [where k = 1 and body = ?body and att = ?att and reqID = "uuidText (uuidBytes (replicate 16 7))"])
      (use at down up cur in \<open>simp_all add: sample_urls Background_def newUUID_def attestBody_def retryableFailure_def\<close>,
       simp_all add: sampleGatewayEnv_def)
  then show ?thesis by (simp add: finalAnswer_def cur)
qed

end
