(* ===== verification/CC_Relay.thy ===== *)
theory CC_Relay
  imports CC_Gateway "HOL-Library.List_Lexorder" "HOL-Library.Product_Lexorder" "HOL-Library.Char_ord"
begin

text \<open>
  The dispatcher with which a workflow calls remote capabilities and fetches
  secrets: \<^verbatim>\<open>remote_dispatcher.go\<close> and \<^verbatim>\<open>relay_response.go\<close> under
  \<^verbatim>\<open>src/enclave/apps/confidential-workflows/app\<close>. The gateway forwards what the
  nodes of the relay DON answered, unverified; the enclave accepts a result
  that more than \<open>F\<close> of its signers agree on. The messages of the relay, their
  encodings and hashes come from other packages and are fields of \<open>relayCodec\<close>. The
  lemmas show what a quorum proves, that honest nodes are always enough for
  one, that calls end, and that secrets come back in the order of the request.
\<close>

section \<open>Messages\<close>

record relaySecretID =
  ri_Key :: string
  ri_Namespace :: string

record CapabilityRequestParams =
  crp_WorkflowID :: string
  crp_Owner :: string
  crp_ExecutionID :: string
  crp_OrgID :: string
  crp_ReferenceID :: string
  crp_CapabilityID :: string
  crp_Payload :: string
  crp_EnclaveConfig :: EnclaveConfig
  crp_Attestation :: string

record SecretsRequestParams =
  srp_WorkflowID :: string
  srp_Owner :: string
  srp_ExecutionID :: string
  srp_OrgID :: string
  srp_CallbackID :: "32 word"
  srp_Secrets :: "relaySecretID list"
  srp_EnclavePublicKey :: string
  srp_EnclaveConfig :: EnclaveConfig
  srp_SignedComputeRequests :: "SignedComputeRequest list"
  srp_Attestation :: string

record SecretEntry =
  sy_ID :: relaySecretID
  sy_Ciphertext :: string
  sy_EncryptedShares :: "string list"

record SecretsResponseResult =
  srr_Secrets :: "SecretEntry list"
  srr_RawVaultPublicKey :: string

record CapabilityResponseResult =
  crr_Payload :: string
  crr_Error :: string

record RelayResponseSignature =
  rs_Signer :: bytes
  rs_Signature :: bytes

type_synonym 'r signedBundle = "('r \<times> RelayResponseSignature) list"

text \<open>The protobuf messages of the workflow SDK.\<close>

record anyPb =
  any_TypeUrl :: string
  any_Value :: bytes

record CapabilityRequest =
  cq_Id :: string
  cq_Method :: string
  cq_CallbackId :: "32 word"
  cq_Payload :: "anyPb option"

datatype CapabilityResponse = CapEmpty | CapPayload anyPb | CapError string

record ReportResponse =
  rep_ConfigDigest :: bytes
  rep_SeqNr :: nat
  rep_ReportContext :: bytes
  rep_RawReport :: bytes
  rep_Sigs :: "(nat \<times> bytes) list"

record SecretsRequest =
  sr_Requests :: "relaySecretID list"
  sr_CallbackId :: "32 word"

datatype secretResponse =
    SecretValue relaySecretID bytes
  | SecretFailed relaySecretID string

section \<open>State and environment\<close>

text \<open>\<open>rd_attestor\<close> and \<open>rd_verifier\<close> are whether these are set.\<close>

record remoteDispatcher =
  rd_client :: GatewayClient
  rd_attestor :: bool
  rd_config :: EnclaveConfig
  rd_verifier :: bool
  rd_retryBackoff :: duration
  rd_retryTimeout :: duration

text \<open>
  The encodings the dispatcher uses and the hashes of results, from the SDK and
  the \<^verbatim>\<open>confidentialrelay\<close> package.
\<close>

record relayCodec =
  rk_MarshalCapRequest :: "CapabilityRequest \<Rightarrow> netErr + bytes"
  rk_MarshalCapParams :: "CapabilityRequestParams \<Rightarrow> netErr + bytes"
  rk_MarshalSecretsParams :: "SecretsRequestParams \<Rightarrow> netErr + bytes"
  rk_UnmarshalCapBundle :: "bytes \<Rightarrow> netErr + CapabilityResponseResult signedBundle"
  rk_UnmarshalSecretsBundle :: "bytes \<Rightarrow> netErr + SecretsResponseResult signedBundle"
  rk_CapHash :: "CapabilityResponseResult \<Rightarrow> CapabilityRequestParams \<Rightarrow> netErr + bytes"
  rk_SecretsHash :: "SecretsResponseResult \<Rightarrow> SecretsRequestParams \<Rightarrow> netErr + bytes"
  rk_SignaturePayload :: "bytes \<Rightarrow> bytes"
  rk_UnmarshalCapResponse :: "bytes \<Rightarrow> netErr + CapabilityResponse"
  rk_MarshalCapResponse :: "CapabilityResponse \<Rightarrow> netErr + bytes"
  rk_isReport :: "string \<Rightarrow> bool"
  rk_reportURL :: string
  rk_UnmarshalReport :: "bytes \<Rightarrow> netErr + ReportResponse"
  rk_MarshalReport :: "ReportResponse \<Rightarrow> netErr + bytes"

text \<open>The names the \<^verbatim>\<open>confidentialrelay\<close> package gives to domains and methods.\<close>

record relayNames =
  rn_DomainCapabilityExec :: string
  rn_DomainSecretsGet :: string
  rn_MethodCapabilityExec :: string
  rn_MethodSecretsGet :: string

text \<open>What the dispatcher is given; the last three fields render errors as text.\<close>

record ('pk, 'ct, 'sh) RelayEnv =
  rv_gw :: GatewayEnv
  rv_codec :: relayCodec
  rv_names :: relayNames
  rv_edVerify :: "bytes \<Rightarrow> bytes \<Rightarrow> bytes \<Rightarrow> bool"
  rv_OpenAnonymous :: "bytes \<Rightarrow> bytes \<Rightarrow> bytes \<Rightarrow> bytes option"
  rv_TDH2 :: "('pk, 'ct, 'sh) TDH2"
  rv_keccak :: "bytes \<Rightarrow> bytes"
  rv_CreateAttestation :: "bytes \<Rightarrow> netErr + bytes"
  rv_DomainHash :: "string \<Rightarrow> bytes \<Rightarrow> bytes"
  rv_keyErr :: "keychainError \<Rightarrow> netErr"
  rv_aggErr :: "aggregateError \<Rightarrow> netErr"
  rv_base64Err :: "string \<Rightarrow> netErr"

abbreviation rv_H :: "('pk, 'ct, 'sh) RelayEnv \<Rightarrow> bytes \<Rightarrow> bytes" where
  "rv_H env \<equiv> gv_H (rv_gw env)"

definition defaultSecretsNamespace :: string where
  "defaultSecretsNamespace = ''main''"

definition relaySecretsCallbackIDDomain :: string where
  "relaySecretsCallbackIDDomain = ''chainlink-confidential-compute/relay-secrets-callback-id/v1'' @ [newline]"

definition DefaultGatewayRetryBackoff :: duration where
  "DefaultGatewayRetryBackoff = 1 * second"

definition DefaultGatewayRetryTimeout :: duration where
  "DefaultGatewayRetryTimeout = 2 * minute"

definition NewRemoteDispatcher ::
    "GatewayClient \<Rightarrow> bool \<Rightarrow> EnclaveConfig \<Rightarrow> bool \<Rightarrow> duration \<Rightarrow> duration \<Rightarrow> remoteDispatcher" where
  "NewRemoteDispatcher client att config verifier retryBackoff retryTimeout =
     \<lparr>rd_client = client, rd_attestor = att, rd_config = config, rd_verifier = verifier,
      rd_retryBackoff = (if retryBackoff \<le> 0 then DefaultGatewayRetryBackoff else retryBackoff),
      rd_retryTimeout = (if retryTimeout \<le> 0 then DefaultGatewayRetryTimeout else retryTimeout)\<rparr>"

definition SetConfig :: "EnclaveConfig \<Rightarrow> remoteDispatcher \<Rightarrow> remoteDispatcher" where
  "SetConfig config d = d\<lparr>rd_config := config\<rparr>"

section \<open>Diagnostics (relay\_response.go)\<close>

definition maxDiagFieldLen :: nat where
  "maxDiagFieldLen = 160"

definition maxDiagLen :: nat where
  "maxDiagLen = 4096"

definition truncateTo :: "string \<Rightarrow> nat \<Rightarrow> string" where
  "truncateTo s m = (if length s \<le> m then s else take m s @ ''...truncated'')"

definition truncateDiag :: "string \<Rightarrow> string" where
  "truncateDiag s = truncateTo s maxDiagFieldLen"

definition joinParts :: "string list \<Rightarrow> string" where
  "joinParts parts = joinStrings '' '' parts"

definition digestOf :: "(bytes \<Rightarrow> bytes) \<Rightarrow> bytes \<Rightarrow> string" where
  "digestOf H b = (if b = [] then ''empty'' else hexEncode (take 4 (H b)))"

definition shortHash :: "bytes \<Rightarrow> string" where
  "shortHash h = hexEncode (take 4 h)"

definition shortBytes :: "bytes \<Rightarrow> string" where
  "shortBytes b = (if b = [] then ''none'' else hexEncode (if length b > 8 then take 8 b else b))"

definition shortTypeURL :: "string \<Rightarrow> string" where
  "shortTypeURL url = last (splitOn (CHR ''/'') url)"

definition describeReport :: "('pk, 'ct, 'sh) RelayEnv \<Rightarrow> ReportResponse \<Rightarrow> string list" where
  "describeReport env report =
     (let digest = digestOf (rv_H env);
          sigs = map (\<lambda>(signer, sig). decimal signer @ ''/'' @ digest sig) (rep_Sigs report)
      in [''configDigest='' @ digest (rep_ConfigDigest report), ''seqNr='' @ decimal (rep_SeqNr report),
          ''reportContext='' @ digest (rep_ReportContext report),
          ''rawReport='' @ decimal (length (rep_RawReport report)) @ ''B/'' @ digest (rep_RawReport report),
          ''sigs='' @ decimal (length (rep_Sigs report)) @ ''['' @ joinStrings '','' sigs @ '']''])"

definition describeCapabilityResult :: "('pk, 'ct, 'sh) RelayEnv \<Rightarrow> CapabilityResponseResult \<Rightarrow> string" where
  "describeCapabilityResult env result =
     (let parts = (if crr_Error result \<noteq> [] then [''resultError='' @ goQuote (truncateDiag (crr_Error result))] else [])
      in case DecodeString (crr_Payload result) of
           None \<Rightarrow> joinParts (parts @ [''payload=undecodable('' @ ne_text (rv_base64Err env (crr_Payload result)) @ '')''])
         | Some raw \<Rightarrow>
             let parts1 = parts @ [''payload='' @ decimal (length raw) @ ''B/'' @ digestOf (rv_H env) raw]
             in if raw = [] then joinParts parts1
                else (case rk_UnmarshalCapResponse (rv_codec env) raw of
                    Inl err \<Rightarrow> joinParts (parts1 @ [''payload=unparseable('' @ ne_text err @ '')''])
                  | Inr resp \<Rightarrow> (case resp of
                      CapEmpty \<Rightarrow> joinParts parts1
                    | CapError e \<Rightarrow> joinParts (if e \<noteq> [] then parts1 @ [''responseError='' @ goQuote (truncateDiag e)] else parts1)
                    | CapPayload inner \<Rightarrow>
                        (let parts2 = parts1 @ [''type='' @ shortTypeURL (any_TypeUrl inner)]
                         in if \<not> rk_isReport (rv_codec env) (any_TypeUrl inner) then joinParts parts2
                            else (case rk_UnmarshalReport (rv_codec env) (any_Value inner) of
                                Inl err \<Rightarrow> joinParts (parts2 @ [''report=unparseable('' @ ne_text err @ '')''])
                              | Inr report \<Rightarrow> joinParts (parts2 @ describeReport env report))))))"

definition describeSecretsResult :: "('pk, 'ct, 'sh) RelayEnv \<Rightarrow> SecretsResponseResult \<Rightarrow> string" where
  "describeSecretsResult env result =
     (let entries = map (\<lambda>s. ri_Namespace (sy_ID s) @ ''/'' @ ri_Key (sy_ID s) @ '':ct='' @
            digestOf (rv_H env) (bytes_of (sy_Ciphertext s)) @ '',shares='' @ decimal (length (sy_EncryptedShares s))) (srr_Secrets result)
      in ''secrets='' @ decimal (length (srr_Secrets result)) @ ''['' @ joinStrings '' '' entries @ '']'')"

text \<open>The payload without the report's own signatures; \<open>None\<close> where it is not a report.\<close>

definition canonicalCapabilityPayload :: "('pk, 'ct, 'sh) RelayEnv \<Rightarrow> string \<Rightarrow> netErr + string option" where
  "canonicalCapabilityPayload env payload = (case DecodeString payload of
     None \<Rightarrow> Inl (errWrap ''decoding payload: '' (rv_base64Err env payload))
   | Some raw \<Rightarrow> (case rk_UnmarshalCapResponse (rv_codec env) raw of
       Inl err \<Rightarrow> Inl (errWrap ''unmarshalling capability response: '' err)
     | Inr (CapPayload inner) \<Rightarrow>
         if \<not> rk_isReport (rv_codec env) (any_TypeUrl inner) then Inr None
         else (case rk_UnmarshalReport (rv_codec env) (any_Value inner) of
             Inl err \<Rightarrow> Inl (errWrap ''unmarshalling report response: '' err)
           | Inr report \<Rightarrow> (case rk_MarshalReport (rv_codec env) (report\<lparr>rep_Sigs := []\<rparr>) of
               Inl err \<Rightarrow> Inl (errWrap ''marshalling report response: '' err)
             | Inr value \<Rightarrow>
                 (case rk_MarshalCapResponse (rv_codec env) (CapPayload \<lparr>any_TypeUrl = rk_reportURL (rv_codec env), any_Value = value\<rparr>) of
                    Inl err \<Rightarrow> Inl (errWrap ''marshalling capability response: '' err)
                  | Inr outBytes \<Rightarrow> Inr (Some (EncodeToString outBytes)))))
     | Inr _ \<Rightarrow> Inr None))"

section \<open>Agreement of the relay nodes\<close>

record relayEntry =
  re_sigHash :: bytes
  re_groupHash :: bytes
  re_signature :: RelayResponseSignature
  re_desc :: string
  re_idx :: nat

definition diag :: "string \<Rightarrow> relayEntry \<Rightarrow> string" where
  "diag outcome e = ''[idx='' @ decimal (re_idx e) @ '' group='' @ shortHash (re_groupHash e) @ '' sigHash='' @
     shortHash (re_sigHash e) @ '' '' @ outcome @ '' '' @ re_desc e @ '']''"

definition skippedText :: "nat \<Rightarrow> netErr \<Rightarrow> string \<Rightarrow> string" where
  "skippedText i err desc = ''[idx='' @ decimal i @ '' unhashable='' @ ne_text err @ '' '' @ desc @ '']''"

text \<open>The hash a capability result is grouped by, and what its description says about it.\<close>

definition capabilityGroup ::
    "('pk, 'ct, 'sh) RelayEnv \<Rightarrow> CapabilityRequestParams \<Rightarrow> CapabilityResponseResult \<Rightarrow> bytes \<Rightarrow> bytes \<times> string" where
  "capabilityGroup env params result sigHash = (case canonicalCapabilityPayload env (crr_Payload result) of
     Inl err \<Rightarrow> (sigHash, '' canonical=failed('' @ ne_text err @ '')'')
   | Inr None \<Rightarrow> (sigHash, [])
   | Inr (Some canonical) \<Rightarrow> (case rk_CapHash (rv_codec env) (result\<lparr>crr_Payload := canonical\<rparr>) params of
       Inl err \<Rightarrow> (sigHash, '' canonical=unhashable('' @ ne_text err @ '')'')
     | Inr h \<Rightarrow> (h, '' canonical=reportSigsExcluded'')))"

text \<open>The loops that decode a bundle, from index \<open>i\<close> on: the entries, and the descriptions of what was skipped.\<close>

primrec capabilityEntries ::
    "('pk, 'ct, 'sh) RelayEnv \<Rightarrow> CapabilityRequestParams \<Rightarrow> nat \<Rightarrow> CapabilityResponseResult signedBundle
     \<Rightarrow> relayEntry list \<times> string list" where
  "capabilityEntries env params i [] = ([], [])"
| "capabilityEntries env params i (r # rs) =
     (let (entries, skipped) = capabilityEntries env params (Suc i) rs;
          desc = describeCapabilityResult env (fst r)
      in case rk_CapHash (rv_codec env) (fst r) params of
           Inl err \<Rightarrow> (entries, skippedText i err desc # skipped)
         | Inr sigHash \<Rightarrow> (case capabilityGroup env params (fst r) sigHash of (groupHash, note) \<Rightarrow>
             (\<lparr>re_sigHash = sigHash, re_groupHash = groupHash, re_signature = snd r, re_desc = desc @ note, re_idx = i\<rparr> # entries,
              skipped)))"

primrec secretsEntries ::
    "('pk, 'ct, 'sh) RelayEnv \<Rightarrow> SecretsRequestParams \<Rightarrow> nat \<Rightarrow> SecretsResponseResult signedBundle
     \<Rightarrow> relayEntry list \<times> string list" where
  "secretsEntries env params i [] = ([], [])"
| "secretsEntries env params i (r # rs) =
     (let (entries, skipped) = secretsEntries env params (Suc i) rs;
          desc = describeSecretsResult env (fst r)
      in case rk_SecretsHash (rv_codec env) (fst r) params of
           Inl err \<Rightarrow> (entries, skippedText i err desc # skipped)
         | Inr h \<Rightarrow> (\<lparr>re_sigHash = h, re_groupHash = h, re_signature = snd r, re_desc = desc, re_idx = i\<rparr> # entries, skipped))"

text \<open>\<^verbatim>\<open>signersByHash\<close> and \<^verbatim>\<open>firstIdxByHash\<close>: per hash the signers' fingerprints and the first index.\<close>

type_synonym quorumGroups = "(bytes \<times> bytes set \<times> nat) list"

primrec addSigner :: "bytes \<Rightarrow> bytes \<Rightarrow> nat \<Rightarrow> quorumGroups \<Rightarrow> quorumGroups" where
  "addSigner h fp idx [] = [(h, {fp}, idx)]"
| "addSigner h fp idx (g # gs) = (case g of (h', fps, idx') \<Rightarrow>
     if h' = h then (h', insert fp fps, idx') # gs else g # addSigner h fp idx gs)"

record quorumScan =
  qs_groups :: quorumGroups
  qs_validSignatures :: nat
  qs_invalidSignatures :: nat
  qs_diags :: "string list"

definition badSignature :: "string \<Rightarrow> relayEntry \<Rightarrow> quorumScan \<Rightarrow> quorumScan" where
  "badSignature err e q = q\<lparr>qs_invalidSignatures := Suc (qs_invalidSignatures q),
     qs_diags := qs_diags q @ [diag (''signature=invalid('' @ err @ '') claimedSigner='' @ shortBytes (rs_Signer (re_signature e))) e]\<rparr>"

definition goodSignature :: "(bytes \<Rightarrow> bytes) \<Rightarrow> bytes \<Rightarrow> relayEntry \<Rightarrow> quorumScan \<Rightarrow> quorumScan" where
  "goodSignature H signer e q = q\<lparr>qs_validSignatures := Suc (qs_validSignatures q),
     qs_diags := qs_diags q @ [diag (''signature=valid signer='' @ shortBytes signer) e],
     qs_groups := addSigner (re_groupHash e) (H signer) (re_idx e) (qs_groups q)\<rparr>"

abbreviation verifyEntry :: "('pk, 'ct, 'sh) RelayEnv \<Rightarrow> EnclaveConfig \<Rightarrow> relayEntry \<Rightarrow> verifyResult" where
  "verifyEntry env cfg e \<equiv> VerifySignature (rv_edVerify env) (rk_SignaturePayload (rv_codec env) (re_sigHash e))
     (rs_Signature (re_signature e)) (ec_Signers cfg)"

text \<open>The verification loop; \<open>None\<close> is the panic of \<^verbatim>\<open>ed25519.Verify\<close> on a signer of the wrong length.\<close>

primrec scanEntries ::
    "('pk, 'ct, 'sh) RelayEnv \<Rightarrow> EnclaveConfig \<Rightarrow> relayEntry list \<Rightarrow> quorumScan \<Rightarrow> quorumScan option" where
  "scanEntries env cfg [] q = Some q"
| "scanEntries env cfg (e # es) q = (case verifyEntry env cfg e of
     VSigner signer \<Rightarrow> scanEntries env cfg es (goodSignature (rv_H env) signer e q)
   | VBadLength n \<Rightarrow> scanEntries env cfg es (badSignature (''invalid signature length: expected 64 bytes, got '' @ decimal n) e q)
   | VNotAllowed \<Rightarrow> scanEntries env cfg es (badSignature ''signature not from any allowed signer'' e q)
   | VPanic \<Rightarrow> None)"

definition quorumError :: "nat \<Rightarrow> nat \<Rightarrow> string list \<Rightarrow> relayEntry list \<Rightarrow> quorumScan \<Rightarrow> netErr" where
  "quorumError required rawBundleSize skipped entries q =
     (let tally = sort (map (\<lambda>(h, fps, _). shortHash h @ ''='' @ decimal (card fps)) (qs_groups q));
          most = fold (\<lambda>(_, fps, _) m. max (card fps) m) (qs_groups q) 0
      in errText (''no relay-DON result reached quorum: need '' @ decimal required @ '' valid distinct signers (raw bundle '' @
           decimal rawBundleSize @ '', hashable '' @ decimal (length entries) @ '', '' @ decimal (qs_validSignatures q) @
           '' valid signatures, '' @ decimal (qs_invalidSignatures q) @ '' invalid, '' @ decimal (length (qs_groups q)) @
           '' distinct results, max '' @ decimal most @ '' for any single result); signers by result: '' @ joinStrings '' '' tally @
           ''; entries: '' @ truncateTo (joinStrings '' '' (qs_diags q)) maxDiagLen @
           ''; skipped: '' @ truncateTo (joinStrings '' '' skipped) maxDiagLen))"

definition selectQuorumResult ::
    "('pk, 'ct, 'sh) RelayEnv \<Rightarrow> remoteDispatcher \<Rightarrow> nat \<Rightarrow> string list \<Rightarrow> relayEntry list \<Rightarrow> EnclaveConfig \<Rightarrow> nat netResult" where
  "selectQuorumResult env d rawBundleSize skipped entries cfg =
     (if \<not> rd_verifier d then NErr (errText ''relay signature verifier not configured'')
      else if ec_Signers cfg = [] then NErr (errText ''DON signer set not configured'')
      else let required = unat (ec_F cfg) + 1 in
        case scanEntries env cfg entries \<lparr>qs_groups = [], qs_validSignatures = 0, qs_invalidSignatures = 0, qs_diags = []\<rparr> of
          None \<Rightarrow> NPanic
        | Some q \<Rightarrow>
            (case sort_key (\<lambda>(h, fps, _). (- int (card fps), h)) (filter (\<lambda>(_, fps, _). card fps \<ge> required) (qs_groups q)) of
               [] \<Rightarrow> NErr (quorumError required rawBundleSize skipped entries q)
             | (_, _, firstIdx) # _ \<Rightarrow> NOk firstIdx))"

section \<open>Requests to the relay\<close>

definition relaySecretsCallbackID :: "('pk, 'ct, 'sh) RelayEnv \<Rightarrow> SecretsRequestParams \<Rightarrow> netErr + 32 word" where
  "relaySecretsCallbackID env params =
     (case rk_MarshalSecretsParams (rv_codec env) (params\<lparr>srp_Attestation := [], srp_SignedComputeRequests := []\<rparr>) of
        Inl err \<Rightarrow> Inl (errWrap ''marshalling secrets request identity: '' err)
      | Inr identity \<Rightarrow>
          Inr (or (of_nat (be_decode (take 4 (rv_H env (bytes_of relaySecretsCallbackIDDomain @ identity))))) (push_bit 31 1)))"

text \<open>The attestation over the marshalled content.\<close>

definition attestContent ::
    "('pk, 'ct, 'sh) RelayEnv \<Rightarrow> remoteDispatcher \<Rightarrow> string \<Rightarrow> netErr + bytes \<Rightarrow> netErr + string" where
  "attestContent env d domainTag content =
     (if \<not> rd_attestor d then Inr []
      else case content of
        Inl err \<Rightarrow> Inl (errWrap ''marshalling attestation content: '' err)
      | Inr bs \<Rightarrow> (case rv_CreateAttestation env (rv_DomainHash env domainTag bs) of
          Inl err \<Rightarrow> Inl err
        | Inr doc \<Rightarrow> Inr (EncodeToString doc)))"

definition enclaveConfigFor :: "EnclaveConfig \<Rightarrow> EnclaveConfig" where
  "enclaveConfigFor c = \<lparr>ec_Signers = map (\<lambda>s. s) (ec_Signers c), ec_MasterPublicKey = ec_MasterPublicKey c,
     ec_T = ec_T c, ec_F = ec_F c\<rparr>"

definition toRelaySignedComputeRequests :: "SignedComputeRequest list \<Rightarrow> SignedComputeRequest list" where
  "toRelaySignedComputeRequests reqs = map (\<lambda>r. let cr = scr_ComputeRequest r in
     \<lparr>scr_ComputeRequest = \<lparr>cr_RequestID = cr_RequestID cr, cr_ApplicationRequestID = cr_ApplicationRequestID cr,
        cr_PublicData = cr_PublicData cr, cr_Ciphertexts = cr_Ciphertexts cr, cr_CiphertextNames = cr_CiphertextNames cr,
        cr_EncryptedDecryptionKeyShares = cr_EncryptedDecryptionKeyShares cr,
        cr_EnclaveEphemeralPublicKey = cr_EnclaveEphemeralPublicKey cr, cr_MasterPublicKey = cr_MasterPublicKey cr,
        cr_AppID = cr_AppID cr, cr_Version = cr_Version cr\<rparr>,
      scr_Signature = scr_Signature r\<rparr>) reqs"

text \<open>The final error of a request, with the errors of the attempts before.\<close>

definition wrapAttempts :: "string \<Rightarrow> netErr \<Rightarrow> netErr list \<Rightarrow> netErr" where
  "wrapAttempts what err transientErrs =
     (if transientErrs = [] then errWrap (''sending '' @ what @ '': '') err
      else \<lparr>ne_text = ''sending '' @ what @ '': '' @ ne_text err @ '' (transient attempts: '' @ ne_text (errJoin transientErrs) @ '')'',
            ne_rpc = firstRPC (err # transientErrs), ne_deadline = list_ex ne_deadline (err # transientErrs)\<rparr>)"

text \<open>
  The retry loop of \<^verbatim>\<open>sendWithRetry\<close> in the context that bounds it. \<open>None\<close> is a loop that
  does not end.
\<close>

partial_function (option) sendRetryLoop ::
    "GatewayEnv \<Rightarrow> duration \<Rightarrow> ctx \<Rightarrow> string \<Rightarrow> string \<Rightarrow> bytes \<Rightarrow> (bytes \<Rightarrow> 'r netResult)
     \<Rightarrow> time \<Rightarrow> GatewayClient \<Rightarrow> netErr list \<Rightarrow> ('r netResult \<times> time \<times> GatewayClient) option" where
  "sendRetryLoop genv backoff cx what meth params verify t c transientErrs =
     (case ctxErr t cx of
        Some err \<Rightarrow> Some (NErr (wrapAttempts what err transientErrs), t, c)
      | None \<Rightarrow> (case SendRequest genv cx meth params t c of
          (r, t1, c1) \<Rightarrow> (case r of
            NOk resultJSON \<Rightarrow> Some (verify resultJSON, t1, c1)
          | NPanic \<Rightarrow> Some (NPanic, t1, c1)
          | NErr err \<Rightarrow>
              if (case ne_rpc err of None \<Rightarrow> False | Some rpcErr \<Rightarrow> \<not> Retryable genv rpcErr)
              then Some (NErr (wrapAttempts what err transientErrs), t1, c1)
              else (case waitFor t1 backoff cx of
                  (Some cerr, t2) \<Rightarrow> Some (NErr (wrapAttempts what cerr (transientErrs @ [err])), t2, c1)
                | (None, t2) \<Rightarrow> sendRetryLoop genv backoff cx what meth params verify t2 c1 (transientErrs @ [err])))))"

definition sendWithRetry ::
    "('pk, 'ct, 'sh) RelayEnv \<Rightarrow> ctx \<Rightarrow> string \<Rightarrow> string \<Rightarrow> bytes \<Rightarrow> (bytes \<Rightarrow> 'r netResult)
     \<Rightarrow> time \<Rightarrow> remoteDispatcher \<Rightarrow> ('r netResult \<times> time \<times> remoteDispatcher) option" where
  "sendWithRetry env cx what meth paramsJSON verify t d =
     map_option (\<lambda>(r, t', c). (r, t', d\<lparr>rd_client := c\<rparr>))
       (sendRetryLoop (rv_gw env) (rd_retryBackoff d) (WithTimeout t (rd_retryTimeout d) cx) what meth paramsJSON verify
          t (rd_client d) [])"

section \<open>Calling a capability\<close>

definition verifyCapability ::
    "('pk, 'ct, 'sh) RelayEnv \<Rightarrow> remoteDispatcher \<Rightarrow> EnclaveConfig \<Rightarrow> CapabilityRequestParams \<Rightarrow> bytes
     \<Rightarrow> CapabilityResponseResult netResult" where
  "verifyCapability env d cfg params resultJSON = (case rk_UnmarshalCapBundle (rv_codec env) resultJSON of
     Inl err \<Rightarrow> NErr (errWrap ''unmarshalling capability response bundle: '' err)
   | Inr bundle \<Rightarrow> (case capabilityEntries env params 0 bundle of (entries, skipped) \<Rightarrow>
       (case selectQuorumResult env d (length bundle) skipped entries cfg of
          NErr qErr \<Rightarrow> NErr (errWrap ''verifying capability response: '' qErr)
        | NPanic \<Rightarrow> NPanic
        | NOk idx \<Rightarrow> NOk (fst (bundle ! idx)))))"

definition decodeCapability :: "('pk, 'ct, 'sh) RelayEnv \<Rightarrow> CapabilityResponseResult \<Rightarrow> CapabilityResponse netResult" where
  "decodeCapability env result =
     (if crr_Error result \<noteq> [] then NOk (CapError (crr_Error result))
      else case DecodeString (crr_Payload result) of
        None \<Rightarrow> NErr (errWrap ''decoding capability response payload: '' (rv_base64Err env (crr_Payload result)))
      | Some respBytes \<Rightarrow> (case rk_UnmarshalCapResponse (rv_codec env) respBytes of
          Inl err \<Rightarrow> NErr (errWrap ''unmarshalling capability response proto: '' err)
        | Inr capResp \<Rightarrow> NOk capResp))"

definition capabilityParams ::
    "('pk, 'ct, 'sh) RelayEnv \<Rightarrow> EnclaveConfig \<Rightarrow> string \<Rightarrow> string \<Rightarrow> string \<Rightarrow> string \<Rightarrow> CapabilityRequest \<Rightarrow> bytes
     \<Rightarrow> CapabilityRequestParams" where
  "capabilityParams env cfg workflowID owner executionID orgID req payloadBytes =
     \<lparr>crp_WorkflowID = workflowID, crp_Owner = Address_String (rv_keccak env) (HexToAddress owner),
      crp_ExecutionID = executionID, crp_OrgID = orgID, crp_ReferenceID = itoa (sint (cq_CallbackId req)),
      crp_CapabilityID = cq_Id req, crp_Payload = EncodeToString payloadBytes,
      crp_EnclaveConfig = enclaveConfigFor cfg, crp_Attestation = []\<rparr>"

definition CallCapability ::
    "('pk, 'ct, 'sh) RelayEnv \<Rightarrow> ctx \<Rightarrow> string \<Rightarrow> string \<Rightarrow> string \<Rightarrow> string \<Rightarrow> CapabilityRequest
     \<Rightarrow> time \<Rightarrow> remoteDispatcher \<Rightarrow> (CapabilityResponse netResult \<times> time \<times> remoteDispatcher) option" where
  "CallCapability env cx workflowID owner executionID orgID req t d =
     (case rk_MarshalCapRequest (rv_codec env) req of
        Inl err \<Rightarrow> Some (NErr (errWrap ''marshalling capability request: '' err), t, d)
      | Inr payloadBytes \<Rightarrow>
          (let cfg = rd_config d;
               params = capabilityParams env cfg workflowID owner executionID orgID req payloadBytes
           in (case attestContent env d (rn_DomainCapabilityExec (rv_names env)) (rk_MarshalCapParams (rv_codec env) params) of
                 Inl err \<Rightarrow> Some (NErr (errWrap ''creating attestation: '' err), t, d)
               | Inr att \<Rightarrow>
                   (let params1 = params\<lparr>crp_Attestation := att\<rparr>
                    in (case rk_MarshalCapParams (rv_codec env) params1 of
                          Inl err \<Rightarrow> Some (NErr (errWrap ''marshalling params: '' err), t, d)
                        | Inr paramsJSON \<Rightarrow>
                            map_option (\<lambda>(r, t1, d1). (case r of NErr err \<Rightarrow> NErr err | NPanic \<Rightarrow> NPanic
                                | NOk result \<Rightarrow> decodeCapability env result, t1, d1))
                              (sendWithRetry env cx ''capability request'' (rn_MethodCapabilityExec (rv_names env)) paramsJSON
                                 (verifyCapability env d cfg params1) t d))))))"

section \<open>Fetching secrets\<close>

definition verifySecrets ::
    "('pk, 'ct, 'sh) RelayEnv \<Rightarrow> remoteDispatcher \<Rightarrow> EnclaveConfig \<Rightarrow> SecretsRequestParams \<Rightarrow> bytes
     \<Rightarrow> SecretsResponseResult netResult" where
  "verifySecrets env d cfg params resultJSON = (case rk_UnmarshalSecretsBundle (rv_codec env) resultJSON of
     Inl err \<Rightarrow> NErr (errWrap ''unmarshalling secrets response bundle: '' err)
   | Inr bundle \<Rightarrow> (case secretsEntries env params 0 bundle of (entries, skipped) \<Rightarrow>
       (case selectQuorumResult env d (length bundle) skipped entries cfg of
          NErr qErr \<Rightarrow> NErr (errWrap ''verifying secrets response: '' qErr)
        | NPanic \<Rightarrow> NPanic
        | NOk idx \<Rightarrow> NOk (fst (bundle ! idx)))))"

text \<open>The requested identifiers without repetitions, in the order of their first occurrence.\<close>

primrec requestedOrder :: "relaySecretID list \<Rightarrow> relaySecretID list \<Rightarrow> relaySecretID list" where
  "requestedOrder order [] = order"
| "requestedOrder order (s # ss) = requestedOrder (if s \<in> set order then order else order @ [s]) ss"

primrec entriesByID ::
    "relaySecretID set \<Rightarrow> (relaySecretID \<rightharpoonup> SecretEntry) \<Rightarrow> SecretEntry list \<Rightarrow> netErr + (relaySecretID \<rightharpoonup> SecretEntry)" where
  "entriesByID want byID [] = Inr byID"
| "entriesByID want byID (g # got) =
     (if sy_ID g \<notin> want
      then Inl (errText (''unexpected secret '' @ ri_Namespace (sy_ID g) @ ''/'' @ ri_Key (sy_ID g) @ '' not in request''))
      else case byID (sy_ID g) of
        Some _ \<Rightarrow> Inl (errText (''duplicate secret '' @ ri_Namespace (sy_ID g) @ ''/'' @ ri_Key (sy_ID g) @ '' in response''))
      | None \<Rightarrow> entriesByID want (byID(sy_ID g \<mapsto> g)) got)"

type_synonym orderedSecret = "relaySecretID \<times> SecretEntry option"

definition orderRelaySecrets :: "relaySecretID list \<Rightarrow> SecretEntry list \<Rightarrow> netErr + orderedSecret list" where
  "orderRelaySecrets requested got =
     (let order = requestedOrder [] requested
      in case entriesByID (set order) Map.empty got of
           Inl err \<Rightarrow> Inl err
         | Inr byID \<Rightarrow> Inr (map (\<lambda>s. (s, byID s)) order))"

primrec decryptEntryShares ::
    "('pk, 'ct, 'sh) RelayEnv \<Rightarrow> time \<Rightarrow> boxKeypair \<Rightarrow> nat \<Rightarrow> string list \<Rightarrow> netErr + bytes list" where
  "decryptEntryShares env now kp i [] = Inr []"
| "decryptEntryShares env now kp i (encShare # rest) = (case DecodeString encShare of
     None \<Rightarrow> Inl (errWrap (''decoding share '' @ decimal i @ '': '') (rv_base64Err env encShare))
   | Some encBytes \<Rightarrow> (case Keypair_Decrypt (rv_OpenAnonymous env) now kp encBytes of
       Inl err \<Rightarrow> Inl (errWrap (''decrypting share '' @ decimal i @ '': '') (rv_keyErr env err))
     | Inr share \<Rightarrow> (case decryptEntryShares env now kp (Suc i) rest of Inl err \<Rightarrow> Inl err | Inr shares \<Rightarrow> Inr (share # shares))))"

definition decryptSecret ::
    "('pk, 'ct, 'sh) RelayEnv \<Rightarrow> time \<Rightarrow> boxKeypair \<Rightarrow> SecretEntry \<Rightarrow> bytes \<Rightarrow> int \<Rightarrow> netErr + bytes" where
  "decryptSecret env now kp entry masterPK threshold = (case DecodeString (sy_Ciphertext entry) of
     None \<Rightarrow> Inl (errWrap ''decoding ciphertext: '' (rv_base64Err env (sy_Ciphertext entry)))
   | Some ciphertext \<Rightarrow> (case decryptEntryShares env now kp 0 (sy_EncryptedShares entry) of
       Inl err \<Rightarrow> Inl err
     | Inr shares \<Rightarrow> (case AggregateShares (rv_TDH2 env) ciphertext shares masterPK threshold of
         Inl err \<Rightarrow> Inl (rv_aggErr env err)
       | Inr plaintext \<Rightarrow> Inr plaintext)))"

definition secretFor ::
    "('pk, 'ct, 'sh) RelayEnv \<Rightarrow> time \<Rightarrow> boxKeypair \<Rightarrow> bytes \<Rightarrow> int \<Rightarrow> orderedSecret \<Rightarrow> secretResponse" where
  "secretFor env now kp masterPK threshold os = (case snd os of
     None \<Rightarrow> SecretFailed (fst os) ''secret missing from relay response''
   | Some entry \<Rightarrow> (case decryptSecret env now kp entry masterPK threshold of
       Inl err \<Rightarrow> SecretFailed (sy_ID entry) (ne_text err)
     | Inr plaintext \<Rightarrow> SecretValue (sy_ID entry) plaintext))"

definition secretsParams ::
    "('pk, 'ct, 'sh) RelayEnv \<Rightarrow> EnclaveConfig \<Rightarrow> boxKeypair \<Rightarrow> string \<Rightarrow> string \<Rightarrow> string \<Rightarrow> string \<Rightarrow> SecretsRequest
     \<Rightarrow> SignedComputeRequest list \<Rightarrow> SecretsRequestParams" where
  "secretsParams env cfg kp workflowID owner executionID orgID req signedRequests =
     \<lparr>srp_WorkflowID = workflowID, srp_Owner = Address_String (rv_keccak env) (HexToAddress owner),
      srp_ExecutionID = executionID, srp_OrgID = orgID, srp_CallbackID = sr_CallbackId req,
      srp_Secrets = map (\<lambda>r. if ri_Namespace r = [] then r\<lparr>ri_Namespace := defaultSecretsNamespace\<rparr> else r) (sr_Requests req),
      srp_EnclavePublicKey = hexEncode (kp_publicKey kp), srp_EnclaveConfig = enclaveConfigFor cfg,
      srp_SignedComputeRequests = toRelaySignedComputeRequests signedRequests, srp_Attestation = []\<rparr>"

definition openSecrets ::
    "('pk, 'ct, 'sh) RelayEnv \<Rightarrow> time \<Rightarrow> boxKeypair \<Rightarrow> EnclaveConfig \<Rightarrow> relaySecretID list \<Rightarrow> SecretsResponseResult
     \<Rightarrow> secretResponse list netResult" where
  "openSecrets env now kp cfg secrets result =
     (let masterPK = (if srr_RawVaultPublicKey result \<noteq> []
            then (case hexDecode (srr_RawVaultPublicKey result) of None \<Rightarrow> ec_MasterPublicKey cfg | Some pk \<Rightarrow> pk)
            else ec_MasterPublicKey cfg)
      in case orderRelaySecrets secrets (srr_Secrets result) of
           Inl err \<Rightarrow> NErr (errWrap ''validating secrets response: '' err)
         | Inr ordered \<Rightarrow> NOk (map (secretFor env now kp masterPK (int (unat (ec_T cfg)))) ordered))"

definition GetSecrets ::
    "('pk, 'ct, 'sh) RelayEnv \<Rightarrow> ctx \<Rightarrow> string \<Rightarrow> bytes \<Rightarrow> SecretsRequest \<Rightarrow> string \<Rightarrow> string \<Rightarrow> string \<Rightarrow> SignedComputeRequest list
     \<Rightarrow> time \<Rightarrow> remoteDispatcher \<Rightarrow> boxKeychain \<Rightarrow> (secretResponse list netResult \<times> time \<times> remoteDispatcher \<times> boxKeychain) option" where
  "GetSecrets env cx workflowID requestID req owner executionID orgID signedRequests t d kc =
     (case GetKeyPairForRequest t requestID kc of
        (Inl err, kc1) \<Rightarrow> Some (NErr (errWrap ''getting keypair for request: '' (rv_keyErr env err)), t, d, kc1)
      | (Inr kp, kc1) \<Rightarrow>
          (let cfg = rd_config d;
               params = secretsParams env cfg kp workflowID owner executionID orgID req signedRequests
           in (case relaySecretsCallbackID env params of
                 Inl err \<Rightarrow> Some (NErr err, t, d, kc1)
               | Inr relayCallbackID \<Rightarrow>
                   (let params1 = params\<lparr>srp_CallbackID := relayCallbackID\<rparr>
                    in (case attestContent env d (rn_DomainSecretsGet (rv_names env)) (rk_MarshalSecretsParams (rv_codec env) params1) of
                          Inl err \<Rightarrow> Some (NErr (errWrap ''creating attestation: '' err), t, d, kc1)
                        | Inr att \<Rightarrow>
                            (let params2 = params1\<lparr>srp_Attestation := att\<rparr>
                             in (case rk_MarshalSecretsParams (rv_codec env) params2 of
                                   Inl err \<Rightarrow> Some (NErr (errWrap ''marshalling params: '' err), t, d, kc1)
                                 | Inr paramsJSON \<Rightarrow>
                                     map_option (\<lambda>(r, t1, d1). (case r of NErr err \<Rightarrow> NErr err | NPanic \<Rightarrow> NPanic
                                         | NOk result \<Rightarrow> openSecrets env t1 kp cfg (srp_Secrets params2) result, t1, d1, kc1))
                                       (sendWithRetry env cx ''secrets request'' (rn_MethodSecretsGet (rv_names env)) paramsJSON
                                          (verifySecrets env d cfg params2) t d))))))))"

section \<open>What a quorum proves\<close>

definition signerOf :: "('pk, 'ct, 'sh) RelayEnv \<Rightarrow> EnclaveConfig \<Rightarrow> relayEntry \<Rightarrow> bytes option" where
  "signerOf env cfg e = (case verifyEntry env cfg e of VSigner s \<Rightarrow> Some s | _ \<Rightarrow> None)"

text \<open>The entries that carry a valid signature and agree on a hash, and their signers.\<close>

definition supporting :: "('pk, 'ct, 'sh) RelayEnv \<Rightarrow> EnclaveConfig \<Rightarrow> relayEntry list \<Rightarrow> bytes \<Rightarrow> relayEntry list" where
  "supporting env cfg es h = filter (\<lambda>e. re_groupHash e = h \<and> signerOf env cfg e \<noteq> None) es"

definition supporters :: "('pk, 'ct, 'sh) RelayEnv \<Rightarrow> EnclaveConfig \<Rightarrow> relayEntry list \<Rightarrow> bytes \<Rightarrow> bytes set" where
  "supporters env cfg es h = (\<lambda>e. the (signerOf env cfg e)) ` set (supporting env cfg es h)"

lemma supporting_append: "supporting env cfg (xs @ ys) h = supporting env cfg xs h @ supporting env cfg ys h"
  by (simp add: supporting_def)

lemma signerOf_Some: "signerOf env cfg e = Some s \<longleftrightarrow> verifyEntry env cfg e = VSigner s"
  by (auto simp: signerOf_def split: verifyResult.splits)

lemma supportersE:
  assumes "s \<in> supporters env cfg es h"
  obtains e where "e \<in> set es" "re_groupHash e = h" "verifyEntry env cfg e = VSigner s"
proof -
  obtain e where e: "e \<in> set es" "re_groupHash e = h" "signerOf env cfg e \<noteq> None" "the (signerOf env cfg e) = s"
    using assms unfolding supporters_def supporting_def by auto
  from e(3) obtain s' where s': "signerOf env cfg e = Some s'" by blast
  with e(4) have "s' = s" by simp
  with s' e(1,2) that show thesis by (simp only: signerOf_Some)
qed

lemma supporters_allowed: "supporters env cfg es h \<subseteq> set (ec_Signers cfg)"
  by (force elim: supportersE dest: VerifySignature_signer)

text \<open>The groups a scan builds, as a function of the entries scanned.\<close>

definition groupsFor :: "('pk, 'ct, 'sh) RelayEnv \<Rightarrow> EnclaveConfig \<Rightarrow> relayEntry list \<Rightarrow> bytes \<rightharpoonup> bytes set \<times> nat" where
  "groupsFor env cfg es h = (case supporting env cfg es h of
     [] \<Rightarrow> None | e # _ \<Rightarrow> Some (rv_H env ` supporters env cfg es h, re_idx e))"

lemma map_of_addSigner:
  "map_of (addSigner h fp idx gs) = (map_of gs)(h \<mapsto> (case map_of gs h of None \<Rightarrow> ({fp}, idx) | Some (fps, i) \<Rightarrow> (insert fp fps, i)))"
  by (induction gs) (auto simp: fun_eq_iff split: option.splits)

lemma fst_addSigner: "set (map fst (addSigner h fp idx gs)) = insert h (set (map fst gs))"
proof (induction gs)
  case (Cons g gs)
  then show ?case by (cases g) auto
qed simp

lemma distinct_addSigner: "distinct (map fst gs) \<Longrightarrow> distinct (map fst (addSigner h fp idx gs))"
proof (induction gs)
  case (Cons g gs)
  then show ?case using fst_addSigner [of h fp idx gs] by (cases g) (auto simp del: set_map)
qed simp

lemma groupsFor_good:
  assumes "verifyEntry env cfg e = VSigner s" "map_of gs = groupsFor env cfg es"
  shows "map_of (addSigner (re_groupHash e) (rv_H env s) (re_idx e) gs) = groupsFor env cfg (es @ [e])"
proof
  fix h
  have sup: "supporting env cfg [e] h = (if re_groupHash e = h then [e] else [])"
    using assms(1) by (simp add: supporting_def signerOf_def)
  have the: "the (signerOf env cfg e) = s" using assms(1) by (simp add: signerOf_def)
  show "map_of (addSigner (re_groupHash e) (rv_H env s) (re_idx e) gs) h = groupsFor env cfg (es @ [e]) h"
    unfolding map_of_addSigner assms(2) groupsFor_def supporters_def supporting_append sup
    by (cases "supporting env cfg es h") (auto simp: the)
qed

lemma groupsFor_bad:
  assumes "signerOf env cfg e = None"
  shows "groupsFor env cfg (es @ [e]) = groupsFor env cfg es"
proof
  fix h
  have none: "supporting env cfg [e] h = []" using assms by (simp add: supporting_def)
  show "groupsFor env cfg (es @ [e]) h = groupsFor env cfg es h"
    unfolding groupsFor_def supporters_def supporting_append none append_Nil2 by (rule refl)
qed

lemma scanEntries_groups:
  "\<lbrakk>scanEntries env cfg es q = Some q'; map_of (qs_groups q) = groupsFor env cfg ps; distinct (map fst (qs_groups q))\<rbrakk>
   \<Longrightarrow> map_of (qs_groups q') = groupsFor env cfg (ps @ es) \<and> distinct (map fst (qs_groups q'))"
proof (induction es arbitrary: q ps)
  case (Cons e es)
  show ?case
  proof (cases "verifyEntry env cfg e")
    case (VSigner s)
    with Cons.IH [of "goodSignature (rv_H env) s e q" "ps @ [e]"] Cons.prems show ?thesis
      by (simp add: goodSignature_def groupsFor_good distinct_addSigner)
  next
    case (VBadLength n)
    with Cons.IH [of "badSignature (''invalid signature length: expected 64 bytes, got '' @ decimal n) e q" "ps @ [e]"] Cons.prems
    show ?thesis by (simp add: badSignature_def groupsFor_bad signerOf_def)
  next
    case VNotAllowed
    with Cons.IH [of "badSignature ''signature not from any allowed signer'' e q" "ps @ [e]"] Cons.prems
    show ?thesis by (simp add: badSignature_def groupsFor_bad signerOf_def)
  qed (use Cons.prems in simp)
qed simp

lemma scanEntries_total:
  assumes "list_all (\<lambda>k. length k = PublicKeySize) (ec_Signers cfg)"
  shows "\<exists>q'. scanEntries env cfg es q = Some q'"
proof (induction es arbitrary: q)
  case (Cons e es)
  have "verifyLoop edv h sig ks \<noteq> VPanic" if "list_all (\<lambda>k. length k = PublicKeySize) ks" for edv h sig ks
    using that by (induction ks) auto
  with assms have "verifyEntry env cfg e \<noteq> VPanic" by (simp add: VerifySignature_def)
  with Cons show ?case by (auto split: verifyResult.split)
qed simp

abbreviation noVotes :: quorumScan where
  "noVotes \<equiv> \<lparr>qs_groups = [], qs_validSignatures = 0, qs_invalidSignatures = 0, qs_diags = []\<rparr>"

lemma scan_groups:
  assumes "scanEntries env cfg es noVotes = Some q"
  shows "(h, fps, idx) \<in> set (qs_groups q) \<longleftrightarrow> groupsFor env cfg es h = Some (fps, idx)"
proof -
  have "map_of (qs_groups q) = groupsFor env cfg es" "distinct (map fst (qs_groups q))"
    using scanEntries_groups [OF assms, of "[]"] by (simp_all add: groupsFor_def supporting_def fun_eq_iff)
  then show ?thesis by (metis map_of_eq_Some_iff)
qed

text \<open>The index selected belongs to a hash with more than \<open>F\<close> supporters.\<close>

lemma select_sound:
  assumes "selectQuorumResult env d n skipped es cfg = NOk idx"
  obtains e where "e \<in> set es" "re_idx e = idx"
    "unat (ec_F cfg) < card (supporters env cfg es (re_groupHash e))"
proof -
  let ?req = "unat (ec_F cfg) + 1"
  obtain q where q: "scanEntries env cfg es noVotes = Some q"
    using assms by (auto simp: selectQuorumResult_def Let_def split: if_splits option.splits)
  define ws where "ws = filter (\<lambda>(_, fps, _). card fps \<ge> ?req) (qs_groups q)"
  define key :: "bytes \<times> bytes set \<times> nat \<Rightarrow> int \<times> bytes" where "key = (\<lambda>(h, fps, _). (- int (card fps), h))"
  have "(case sort_key key ws of [] \<Rightarrow> NErr (quorumError ?req n skipped es q) | (_, _, firstIdx) # _ \<Rightarrow> NOk firstIdx) = NOk idx"
    using assms q unfolding selectQuorumResult_def Let_def ws_def key_def by (simp split: if_splits)
  then obtain h fps rest where "sort_key key ws = (h, fps, idx) # rest" by (auto split: list.splits)
  then have "(h, fps, idx) \<in> set ws" by (metis list.set_intros(1) set_sort)
  then have w: "groupsFor env cfg es h = Some (fps, idx)" "card fps \<ge> ?req"
    using scan_groups [OF q] by (auto simp: ws_def)
  then obtain e rest' where e: "supporting env cfg es h = e # rest'" "re_idx e = idx" "fps = rv_H env ` supporters env cfg es h"
    by (auto simp: groupsFor_def split: list.splits)
  have "e \<in> set (supporting env cfg es h)" using e by simp
  then have e': "e \<in> set es" "re_groupHash e = h" by (simp_all add: supporting_def)
  have "card fps \<le> card (supporters env cfg es h)"
    unfolding e(3) by (rule card_image_le) (simp add: supporters_def)
  with w(2) e e' show thesis by (intro that [of e]) simp_all
qed

text \<open>Any hash with more than \<open>F\<close> supporters makes the selection succeed.\<close>

lemma select_complete:
  assumes "rd_verifier d" "ec_Signers cfg \<noteq> []" "list_all (\<lambda>k. length k = PublicKeySize) (ec_Signers cfg)"
    "inj_on (rv_H env) (set (ec_Signers cfg))" "unat (ec_F cfg) < card (supporters env cfg es h)"
  shows "\<exists>idx. selectQuorumResult env d n skipped es cfg = NOk idx"
proof -
  obtain q where q: "scanEntries env cfg es noVotes = Some q" using scanEntries_total [OF assms(3)] by blast
  have "supporters env cfg es h \<noteq> {}" using assms(5) by auto
  then obtain e rest where "supporting env cfg es h = e # rest" by (cases "supporting env cfg es h") (auto simp: supporters_def)
  then have "groupsFor env cfg es h = Some (rv_H env ` supporters env cfg es h, re_idx e)" by (simp add: groupsFor_def)
  then have mem: "(h, rv_H env ` supporters env cfg es h, re_idx e) \<in> set (qs_groups q)" using scan_groups [OF q] by simp
  have "card (rv_H env ` supporters env cfg es h) = card (supporters env cfg es h)"
    by (rule card_image, rule inj_on_subset [OF assms(4) supporters_allowed])
  with mem assms(5) have "(h, rv_H env ` supporters env cfg es h, re_idx e)
      \<in> set (filter (\<lambda>(_, fps, _). card fps \<ge> unat (ec_F cfg) + 1) (qs_groups q))" by simp
  then have ne: "sort_key (\<lambda>(h, fps, _). (- int (card fps), h)) (filter (\<lambda>(_, fps, _). card fps \<ge> unat (ec_F cfg) + 1) (qs_groups q)) \<noteq> []"
    by (metis empty_iff empty_set set_sort)
  then obtain g gs where "sort_key (\<lambda>(h, fps, _). (- int (card fps), h))
      (filter (\<lambda>(_, fps, _). card fps \<ge> unat (ec_F cfg) + 1) (qs_groups q)) = g # gs" by (meson neq_Nil_conv)
  then show ?thesis using assms(1,2) q by (cases g) (simp add: selectQuorumResult_def Let_def)
qed

section \<open>Requests end\<close>

lemma retry_step_time:
  assumes "SendRequest genv cx meth params t c = (r, t1, c1)" "waitFor t1 backoff cx = (None, t2)"
  shows "t + backoff \<le> t2" "cx_Done cx = Some e \<Longrightarrow> t2 < e"
  using SendRequest_time [of t genv cx meth params c] assms by (auto simp: waitFor_def split: option.splits if_splits)

lemma sendRetryLoop_total:
  assumes "backoff > 0" "cx_Done cx = Some e"
  shows "\<exists>r. sendRetryLoop genv backoff cx what meth params verify t c errs = Some r"
proof (induction "nat (e - t)" arbitrary: t c errs rule: less_induct)
  case less
  obtain r t1 c1 where s: "SendRequest genv cx meth params t c = (r, t1, c1)" by (metis prod_cases3)
  show ?case
  proof (cases "ctxErr t cx")
    case None
    then have "t < e" using assms(2) by (simp add: ctxErr_def split: if_splits)
    show ?thesis
    proof (cases r)
      case (NErr err)
      show ?thesis
      proof (cases "waitFor t1 backoff cx")
        case (Pair w t2)
        show ?thesis
        proof (cases w)
          case None
          with Pair have w2: "waitFor t1 backoff cx = (None, t2)" by simp
          have "nat (e - t2) < nat (e - t)"
            using retry_step_time(1) [OF s w2] \<open>t < e\<close> assms(1) by simp
          from less [OF this] NErr \<open>ctxErr t cx = None\<close> s w2 show ?thesis
            by (subst sendRetryLoop.simps) (simp split: option.split)
        qed (use Pair NErr \<open>ctxErr t cx = None\<close> s in \<open>subst sendRetryLoop.simps, simp\<close>)
      qed
    qed (use None s in \<open>subst sendRetryLoop.simps, simp\<close>)+
  qed (subst sendRetryLoop.simps, simp)
qed

lemma WithTimeout_ends: "\<exists>e. cx_Done (WithTimeout t d cx) = Some e"
  by (auto simp: WithTimeout_def split: option.splits)

lemma sendWithRetry_total:
  assumes "rd_retryBackoff d > 0"
  shows "\<exists>r. sendWithRetry env cx what meth params verify t d = Some r"
proof -
  obtain e where "cx_Done (WithTimeout t (rd_retryTimeout d) cx) = Some e" using WithTimeout_ends by blast
  from sendRetryLoop_total [OF assms this, of "rv_gw env" what meth params verify t "rd_client d" "[]"]
  show ?thesis by (auto simp: sendWithRetry_def)
qed

lemma sendRetryLoop_verified:
  assumes "sendRetryLoop genv backoff cx what meth params verify t c errs = Some y"
  shows "fst y = NOk r \<longrightarrow> (\<exists>json. verify json = NOk r)"
  by (rule sendRetryLoop.raw_induct [where P = "\<lambda>_ _ _ _ _ _ verify _ _ _ y. fst y = NOk r \<longrightarrow> (\<exists>json. verify json = NOk r)", OF _ assms])
    (auto split: option.splits prod.splits netResult.splits if_splits)

lemma sendWithRetry_verified:
  assumes "sendWithRetry env cx what meth params verify t d = Some (NOk r, t', d')"
  obtains json where "verify json = NOk r"
proof -
  obtain c where "sendRetryLoop (rv_gw env) (rd_retryBackoff d) (WithTimeout t (rd_retryTimeout d) cx) what meth params verify
      t (rd_client d) [] = Some (NOk r, t', c)"
    using assms by (auto simp: sendWithRetry_def)
  from sendRetryLoop_verified [OF this, of r] that show thesis by auto
qed

section \<open>What the relay nodes stand behind\<close>

text \<open>The hash a node signs for a result, and the hash the result is grouped by.\<close>

definition capabilityHashes ::
    "('pk, 'ct, 'sh) RelayEnv \<Rightarrow> CapabilityRequestParams \<Rightarrow> CapabilityResponseResult \<Rightarrow> (bytes \<times> bytes) option" where
  "capabilityHashes env params r = (case rk_CapHash (rv_codec env) r params of
     Inl _ \<Rightarrow> None | Inr h \<Rightarrow> Some (h, fst (capabilityGroup env params r h)))"

text \<open>The signers of the DON who signed a result of the bundle that agrees with the given one.\<close>

definition capabilityBackers ::
    "('pk, 'ct, 'sh) RelayEnv \<Rightarrow> EnclaveConfig \<Rightarrow> CapabilityRequestParams \<Rightarrow> CapabilityResponseResult signedBundle
     \<Rightarrow> CapabilityResponseResult \<Rightarrow> bytes set" where
  "capabilityBackers env cfg params resps result = {s \<in> set (ec_Signers cfg). \<exists>r sig h g h'.
     (r, sig) \<in> set resps \<and> capabilityHashes env params r = Some (h, g) \<and> capabilityHashes env params result = Some (h', g) \<and>
     rv_edVerify env s (rk_SignaturePayload (rv_codec env) h) (rs_Signature sig)}"

lemma capabilityEntries_sound:
  "e \<in> set (fst (capabilityEntries env params i resps)) \<Longrightarrow>
   \<exists>k<length resps. re_idx e = i + k \<and> re_signature e = snd (resps ! k) \<and>
     capabilityHashes env params (fst (resps ! k)) = Some (re_sigHash e, re_groupHash e)"
proof (induction resps arbitrary: i)
  case (Cons r rs)
  consider "e \<in> set (fst (capabilityEntries env params (Suc i) rs))"
    | "re_idx e = i" "re_signature e = snd r" "capabilityHashes env params (fst r) = Some (re_sigHash e, re_groupHash e)"
    using Cons.prems by (auto simp: Let_def capabilityHashes_def case_prod_unfold split: sum.splits)
  then show ?case
  proof cases
    case 1
    from Cons.IH [OF this] obtain k where "k < length rs" "re_idx e = Suc i + k" "re_signature e = snd (rs ! k)"
      "capabilityHashes env params (fst (rs ! k)) = Some (re_sigHash e, re_groupHash e)" by blast
    then show ?thesis by (intro exI [of _ "Suc k"]) simp
  qed (intro exI [of _ 0], simp)
qed simp

lemma secretsEntries_sound:
  "e \<in> set (fst (secretsEntries env params i resps)) \<Longrightarrow>
   \<exists>k<length resps. re_idx e = i + k \<and> re_signature e = snd (resps ! k) \<and>
     rk_SecretsHash (rv_codec env) (fst (resps ! k)) params = Inr (re_sigHash e) \<and> re_groupHash e = re_sigHash e"
proof (induction resps arbitrary: i)
  case (Cons r rs)
  consider "e \<in> set (fst (secretsEntries env params (Suc i) rs))"
    | "re_idx e = i" "re_signature e = snd r" "rk_SecretsHash (rv_codec env) (fst r) params = Inr (re_sigHash e)" "re_groupHash e = re_sigHash e"
    using Cons.prems by (auto simp: Let_def case_prod_unfold split: sum.splits)
  then show ?case
  proof cases
    case 1
    from Cons.IH [OF this] obtain k where "k < length rs" "re_idx e = Suc i + k" "re_signature e = snd (rs ! k)"
      "rk_SecretsHash (rv_codec env) (fst (rs ! k)) params = Inr (re_sigHash e)" "re_groupHash e = re_sigHash e" by blast
    then show ?thesis by (intro exI [of _ "Suc k"]) simp
  qed (intro exI [of _ 0], simp)
qed simp

lemma supporterE:
  assumes "s \<in> supporters env cfg es h"
  obtains e where "e \<in> set es" "re_groupHash e = h" "s \<in> set (ec_Signers cfg)"
    "rv_edVerify env s (rk_SignaturePayload (rv_codec env) (re_sigHash e)) (rs_Signature (re_signature e))"
  using assms by (elim supportersE) (metis VerifySignature_signer)

lemma verifyCapability_quorum:
  assumes "verifyCapability env d cfg params json = NOk result"
  obtains resps where "result \<in> fst ` set resps" "unat (ec_F cfg) < card (capabilityBackers env cfg params resps result)"
proof -
  obtain resps idx where b: "rk_UnmarshalCapBundle (rv_codec env) json = Inr resps"
      "selectQuorumResult env d (length resps) (snd (capabilityEntries env params 0 resps)) (fst (capabilityEntries env params 0 resps)) cfg = NOk idx"
      "result = fst (resps ! idx)"
    using assms by (auto simp: verifyCapability_def case_prod_unfold split: sum.splits netResult.splits)
  let ?es = "fst (capabilityEntries env params 0 resps)"
  obtain e where e: "e \<in> set ?es" "re_idx e = idx" "unat (ec_F cfg) < card (supporters env cfg ?es (re_groupHash e))"
    using select_sound [OF b(2)] by blast
  from capabilityEntries_sound [OF e(1)] e(2) b(3)
  have r: "idx < length resps" "capabilityHashes env params result = Some (re_sigHash e, re_groupHash e)" by auto
  have "supporters env cfg ?es (re_groupHash e) \<subseteq> capabilityBackers env cfg params resps result"
  proof
    fix s assume "s \<in> supporters env cfg ?es (re_groupHash e)"
    then obtain e' where e': "e' \<in> set ?es" "re_groupHash e' = re_groupHash e" "s \<in> set (ec_Signers cfg)"
      "rv_edVerify env s (rk_SignaturePayload (rv_codec env) (re_sigHash e')) (rs_Signature (re_signature e'))" by (rule supporterE)
    from capabilityEntries_sound [OF e'(1)] obtain k where "k < length resps" "re_signature e' = snd (resps ! k)"
      "capabilityHashes env params (fst (resps ! k)) = Some (re_sigHash e', re_groupHash e')" by blast
    with e' r show "s \<in> capabilityBackers env cfg params resps result"
      unfolding capabilityBackers_def by (metis (mono_tags, lifting) mem_Collect_eq nth_mem prod.collapse)
  qed
  moreover have "finite (capabilityBackers env cfg params resps result)" by (simp add: capabilityBackers_def)
  ultimately have "unat (ec_F cfg) < card (capabilityBackers env cfg params resps result)"
    using e(3) by (meson card_mono le_less_trans less_le_trans)
  with r b(3) show thesis by (intro that [of resps]) auto
qed

lemma secretsEntries_complete:
  "\<lbrakk>k < length resps; rk_SecretsHash (rv_codec env) (fst (resps ! k)) params = Inr h\<rbrakk> \<Longrightarrow>
   \<exists>e\<in>set (fst (secretsEntries env params i resps)). re_sigHash e = h \<and> re_groupHash e = h \<and> re_signature e = snd (resps ! k)"
proof (induction resps arbitrary: i k)
  case (Cons r rs)
  show ?case
  proof (cases k)
    case 0
    with Cons.prems show ?thesis by (auto simp: Let_def case_prod_unfold)
  next
    case (Suc k')
    with Cons.IH [of k' "Suc i"] Cons.prems obtain e where "e \<in> set (fst (secretsEntries env params (Suc i) rs))"
      "re_sigHash e = h" "re_groupHash e = h" "re_signature e = snd (rs ! k')" by auto
    with Suc show ?thesis by (auto simp: Let_def case_prod_unfold split: sum.splits)
  qed
qed simp

lemma verifySecrets_select:
  assumes "rk_UnmarshalSecretsBundle (rv_codec env) json = Inr resps"
  shows "verifySecrets env d cfg params json = NOk result \<longleftrightarrow>
    (\<exists>idx. selectQuorumResult env d (length resps) (snd (secretsEntries env params 0 resps)) (fst (secretsEntries env params 0 resps)) cfg
       = NOk idx \<and> result = fst (resps ! idx))"
  using assms by (auto simp: verifySecrets_def case_prod_unfold split: netResult.splits)

lemma verifySecrets_honest:
  assumes "verifySecrets env d cfg params json = NOk result" "card (faulty \<inter> set (ec_Signers cfg)) \<le> unat (ec_F cfg)"
  obtains s sig h resps e where "rk_UnmarshalSecretsBundle (rv_codec env) json = Inr resps" "result \<in> fst ` set resps"
    "rk_SecretsHash (rv_codec env) result params = Inr h" "s \<in> set (ec_Signers cfg)" "s \<notin> faulty"
    "e \<in> set (fst (secretsEntries env params 0 resps))" "re_sigHash e = h" "verifyEntry env cfg e = VSigner s"
proof -
  obtain resps idx where b: "rk_UnmarshalSecretsBundle (rv_codec env) json = Inr resps"
      "selectQuorumResult env d (length resps) (snd (secretsEntries env params 0 resps)) (fst (secretsEntries env params 0 resps)) cfg = NOk idx"
      "result = fst (resps ! idx)"
    using assms(1) by (auto simp: verifySecrets_def case_prod_unfold split: sum.splits netResult.splits)
  let ?es = "fst (secretsEntries env params 0 resps)"
  obtain e where e: "e \<in> set ?es" "re_idx e = idx" "unat (ec_F cfg) < card (supporters env cfg ?es (re_groupHash e))"
    using select_sound [OF b(2)] by blast
  from secretsEntries_sound [OF e(1)] e(2) b(3)
  have r: "idx < length resps" "rk_SecretsHash (rv_codec env) result params = Inr (re_sigHash e)" "re_groupHash e = re_sigHash e" by auto
  have "\<not> supporters env cfg ?es (re_groupHash e) \<subseteq> faulty \<inter> set (ec_Signers cfg)"
    using e(3) assms(2) by (meson List.finite_set card_mono finite_Int le_trans not_le)
  then obtain s where s: "s \<in> supporters env cfg ?es (re_groupHash e)" "s \<notin> faulty"
    using supporters_allowed [of env cfg ?es "re_groupHash e"] by blast
  obtain e' where e': "e' \<in> set ?es" "re_groupHash e' = re_groupHash e" "verifyEntry env cfg e' = VSigner s"
    using s(1) by (rule supportersE)
  have "re_sigHash e' = re_sigHash e" using secretsEntries_sound [OF e'(1)] e'(2) r(3) by auto
  moreover have "s \<in> set (ec_Signers cfg)" using s(1) supporters_allowed by blast
  ultimately show thesis using that [OF b(1) _ r(2) _ s(2) e'(1) _ e'(3)] r(1) b(3) by auto
qed

lemma verifySecrets_live:
  assumes "rd_verifier d" "list_all (\<lambda>k. length k = PublicKeySize) (ec_Signers cfg)" "inj_on (rv_H env) (set (ec_Signers cfg))"
    "rk_UnmarshalSecretsBundle (rv_codec env) json = Inr resps" "unat (ec_F cfg) < card S"
    "\<And>s. s \<in> S \<Longrightarrow> \<exists>r sig. (r, sig) \<in> set resps \<and> rk_SecretsHash (rv_codec env) r params = Inr h \<and>
       VerifySignature (rv_edVerify env) (rk_SignaturePayload (rv_codec env) h) (rs_Signature sig) (ec_Signers cfg) = VSigner s"
  shows "\<exists>result. verifySecrets env d cfg params json = NOk result"
proof -
  let ?es = "fst (secretsEntries env params 0 resps)"
  have sub: "S \<subseteq> supporters env cfg ?es h"
  proof
    fix s assume "s \<in> S"
    then obtain r sig where rs: "(r, sig) \<in> set resps" "rk_SecretsHash (rv_codec env) r params = Inr h"
      "VerifySignature (rv_edVerify env) (rk_SignaturePayload (rv_codec env) h) (rs_Signature sig) (ec_Signers cfg) = VSigner s"
      using assms(6) by blast
    then obtain k where k: "k < length resps" "resps ! k = (r, sig)" by (metis in_set_conv_nth)
    with rs(2) secretsEntries_complete [of k resps env params h 0] obtain e where e: "e \<in> set ?es" "re_sigHash e = h" "re_groupHash e = h"
      "re_signature e = sig" by auto
    with rs(3) have "signerOf env cfg e = Some s" by (simp add: signerOf_Some)
    with e show "s \<in> supporters env cfg ?es h" unfolding supporters_def supporting_def by force
  qed
  have fin: "finite (supporters env cfg ?es h)" by (simp add: supporters_def)
  have big: "unat (ec_F cfg) < card (supporters env cfg ?es h)" using card_mono [OF fin sub] assms(5) by simp
  then have "set (ec_Signers cfg) \<noteq> {}" using supporters_allowed [of env cfg ?es h] by auto
  then have ne: "ec_Signers cfg \<noteq> []" by simp
  from select_complete [OF assms(1) ne assms(2,3) big] obtain idx where
    "selectQuorumResult env d (length resps) (snd (secretsEntries env params 0 resps)) ?es cfg = NOk idx" by blast
  with verifySecrets_select [OF assms(4)] show ?thesis by blast
qed

section \<open>Properties of the dispatcher\<close>

lemma netResult_NOk:
  "(case r of NOk x \<Rightarrow> f x | NErr err \<Rightarrow> NErr err | NPanic \<Rightarrow> NPanic) = NOk y \<longleftrightarrow> (\<exists>x. r = NOk x \<and> f x = NOk y)"
  by (cases r) simp_all

text \<open>
  C12. A capability response reaches the workflow only if more than \<open>F\<close> signers of the
  DON signed it: the result that is decoded is in the bundle the gateway sent,
  and each of these signers signed a result for this very request whose
  canonical form is the same.
\<close>

theorem relay_capability_quorum:
  assumes "CallCapability env cx workflowID owner executionID orgID req t d = Some (NOk resp, t', d')"
  shows "\<exists>payload att resps result.
    result \<in> fst ` set resps \<and> decodeCapability env result = NOk resp \<and> rk_MarshalCapRequest (rv_codec env) req = Inr payload \<and>
    unat (ec_F (rd_config d)) < card (capabilityBackers env (rd_config d)
      ((capabilityParams env (rd_config d) workflowID owner executionID orgID req payload)\<lparr>crp_Attestation := att\<rparr>) resps result)"
proof -
  let ?params = "\<lambda>payload att. (capabilityParams env (rd_config d) workflowID owner executionID orgID req payload)\<lparr>crp_Attestation := att\<rparr>"
  obtain payload att paramsJSON result where r: "rk_MarshalCapRequest (rv_codec env) req = Inr payload"
      "sendWithRetry env cx ''capability request'' (rn_MethodCapabilityExec (rv_names env)) paramsJSON
         (verifyCapability env d (rd_config d) (?params payload att)) t d = Some (NOk result, t', d')"
      "decodeCapability env result = NOk resp"
    using assms by (auto simp: CallCapability_def Let_def netResult_NOk split: sum.splits)
  from r(2) obtain json where "verifyCapability env d (rd_config d) (?params payload att) json = NOk result"
    by (rule sendWithRetry_verified)
  then obtain resps where "result \<in> fst ` set resps"
    "unat (ec_F (rd_config d)) < card (capabilityBackers env (rd_config d) (?params payload att) resps result)"
    by (rule verifyCapability_quorum)
  with r(1,3) show ?thesis by blast
qed

text \<open>
  C11. The secrets a workflow gets were vouched for by an honest node: whichever \<open>F\<close>
  signers are faulty, another signer of the DON signed the hash of the very
  result the secrets are taken from, for a request that names this workflow,
  execution, owner and enclave key.
\<close>

theorem relay_secrets_honest:
  assumes "GetSecrets env cx workflowID requestID req owner executionID orgID signedRequests t d kc = Some (NOk secrets, t', d', kc')"
    "card (faulty \<inter> set (ec_Signers (rd_config d))) \<le> unat (ec_F (rd_config d))"
  shows "\<exists>kp callbackID att result h s sig. fst (GetKeyPairForRequest t requestID kc) = Inr kp \<and>
    s \<in> set (ec_Signers (rd_config d)) - faulty \<and> rv_edVerify env s (rk_SignaturePayload (rv_codec env) h) sig \<and>
    rk_SecretsHash (rv_codec env) result
      ((secretsParams env (rd_config d) kp workflowID owner executionID orgID req signedRequests)
         \<lparr>srp_CallbackID := callbackID, srp_Attestation := att\<rparr>) = Inr h \<and>
    openSecrets env t' kp (rd_config d)
      (srp_Secrets (secretsParams env (rd_config d) kp workflowID owner executionID orgID req signedRequests)) result = NOk secrets"
proof -
  let ?params = "\<lambda>kp cb att. (secretsParams env (rd_config d) kp workflowID owner executionID orgID req signedRequests)
    \<lparr>srp_CallbackID := cb, srp_Attestation := att\<rparr>"
  obtain kp cb att paramsJSON result where r: "fst (GetKeyPairForRequest t requestID kc) = Inr kp"
      "sendWithRetry env cx ''secrets request'' (rn_MethodSecretsGet (rv_names env)) paramsJSON
         (verifySecrets env d (rd_config d) (?params kp cb att)) t d = Some (NOk result, t', d')"
      "openSecrets env t' kp (rd_config d) (srp_Secrets (?params kp cb att)) result = NOk secrets"
    using assms(1) by (auto simp: GetSecrets_def Let_def netResult_NOk split: sum.splits prod.splits)
  from r(2) obtain json where v: "verifySecrets env d (rd_config d) (?params kp cb att) json = NOk result"
    by (rule sendWithRetry_verified)
  obtain s h e where "rk_SecretsHash (rv_codec env) result (?params kp cb att) = Inr h" "s \<in> set (ec_Signers (rd_config d))" "s \<notin> faulty"
    "re_sigHash e = h" "verifyEntry env (rd_config d) e = VSigner s"
    using verifySecrets_honest [OF v assms(2)] by metis
  with VerifySignature_signer [of "rv_edVerify env"] r(1,3) show ?thesis by fastforce
qed

text \<open>
  C29. Noise cannot keep an honest answer out. If more than \<open>F\<close> signers sent the
  result with hash \<open>h\<close>, and at most \<open>F\<close> are faulty while the others signed
  nothing else, the bundle is accepted with a result of that hash, whatever
  else it contains.
\<close>

theorem relay_noise_harmless:
  assumes "rd_verifier d" "list_all (\<lambda>k. length k = PublicKeySize) (ec_Signers cfg)" "inj_on (rv_H env) (set (ec_Signers cfg))"
    "rk_UnmarshalSecretsBundle (rv_codec env) json = Inr resps"
    "unat (ec_F cfg) < card S" "card (faulty \<inter> set (ec_Signers cfg)) \<le> unat (ec_F cfg)"
    "\<forall>s\<in>S. \<exists>r sig. (r, sig) \<in> set resps \<and> rk_SecretsHash (rv_codec env) r params = Inr h \<and>
       VerifySignature (rv_edVerify env) (rk_SignaturePayload (rv_codec env) h) (rs_Signature sig) (ec_Signers cfg) = VSigner s"
    "\<forall>r sig h' s. (r, sig) \<in> set resps \<and> rk_SecretsHash (rv_codec env) r params = Inr h' \<and> s \<notin> faulty \<and>
       VerifySignature (rv_edVerify env) (rk_SignaturePayload (rv_codec env) h') (rs_Signature sig) (ec_Signers cfg) = VSigner s \<longrightarrow> h' = h"
  shows "\<exists>result. verifySecrets env d cfg params json = NOk result \<and> rk_SecretsHash (rv_codec env) result params = Inr h"
proof -
  obtain result where v: "verifySecrets env d cfg params json = NOk result"
    using verifySecrets_live [OF assms(1-5)] assms(7) by blast
  obtain s h' e where e: "rk_SecretsHash (rv_codec env) result params = Inr h'" "s \<notin> faulty"
    "e \<in> set (fst (secretsEntries env params 0 resps))" "re_sigHash e = h'" "verifyEntry env cfg e = VSigner s"
    by (rule verifySecrets_honest [OF v assms(6)]) (use assms(4) in auto)
  from secretsEntries_sound [OF e(3)] obtain k where k: "k < length resps" "re_signature e = snd (resps ! k)"
    "rk_SecretsHash (rv_codec env) (fst (resps ! k)) params = Inr (re_sigHash e)" by blast
  then have "(fst (resps ! k), re_signature e) \<in> set resps" by (metis nth_mem prod.collapse)
  with assms(8) e k(3) have "h' = h" by blast
  with v e(1) show ?thesis by blast
qed

lemma sendWithRetry_returns:
  assumes "rd_retryBackoff d > 0"
  shows "sendWithRetry env cx what meth params verify t d \<noteq> None"
  using sendWithRetry_total [OF assms, of env cx what meth params verify t] by auto

lemma calls_total:
  assumes "rd_retryBackoff d > 0"
  shows "CallCapability env cx workflowID owner executionID orgID creq t d \<noteq> None"
    "GetSecrets env cx workflowID requestID req owner executionID orgID signedRequests t d kc \<noteq> None"
  by (simp_all add: CallCapability_def GetSecrets_def Let_def sendWithRetry_returns [OF assms] del: not_None_eq split: sum.split prod.split)

text \<open>
  C30. Calls end. However the gateways behave, a dispatcher returns from every
  capability call and every fetch of secrets: transient failures are retried
  with a positive pause and within a bounded window.
\<close>

theorem dispatcher_calls_end:
  "CallCapability env cx workflowID owner executionID orgID creq t (NewRemoteDispatcher client att cfg verifier backoff timeout) \<noteq> None \<and>
   GetSecrets env cx workflowID requestID req owner executionID orgID signedRequests t
     (NewRemoteDispatcher client att cfg verifier backoff timeout) kc \<noteq> None"
proof -
  have "rd_retryBackoff (NewRemoteDispatcher client att cfg verifier backoff timeout) > 0"
    by (simp add: NewRemoteDispatcher_def DefaultGatewayRetryBackoff_def second_def)
  then show ?thesis by (simp only: calls_total not_False_eq_True simp_thms)
qed

text \<open>
  The callback id the relay sees is always negative, so it is never zero and
  cannot meet an id of an older enclave; it does not depend on the attestation
  or the forwarded compute requests, so a retry keeps it.
\<close>

theorem relay_callback_id:
  assumes "relaySecretsCallbackID env params = Inr cb"
  shows "sint cb < 0 \<and> relaySecretsCallbackID env (params\<lparr>srp_Attestation := att, srp_SignedComputeRequests := reqs\<rparr>) = Inr cb"
proof
  have "bit cb 31" using assms
    by (auto simp: relaySecretsCallbackID_def bit_or_iff bit_push_bit_iff split: sum.splits)
  then show "sint cb < 0" using bit_last_iff [of cb] by simp
  show "relaySecretsCallbackID env (params\<lparr>srp_Attestation := att, srp_SignedComputeRequests := reqs\<rparr>) = Inr cb"
    using assms by (simp add: relaySecretsCallbackID_def)
qed

lemma requestedOrder_props:
  "set (requestedOrder order rs) = set order \<union> set rs" "distinct order \<Longrightarrow> distinct (requestedOrder order rs)"
  by (induction rs arbitrary: order) auto

lemma requestedOrder_distinct: "distinct (order @ rs) \<Longrightarrow> requestedOrder order rs = order @ rs"
  by (induction rs arbitrary: order) auto

lemma entriesByID_spec:
  assumes "dom byID = sy_ID ` set prev" "distinct (map sy_ID prev)" "\<forall>g\<in>set prev. byID (sy_ID g) = Some g"
  shows "if distinct (map sy_ID (prev @ got)) \<and> sy_ID ` set got \<subseteq> want
    then entriesByID want byID got = Inr (\<lambda>s. find (\<lambda>g. sy_ID g = s) (prev @ got)) else \<exists>err. entriesByID want byID got = Inl err"
  using assms
proof (induction got arbitrary: byID prev)
  case Nil
  have "byID = (\<lambda>s. find (\<lambda>g. sy_ID g = s) prev)"
  proof (rule ext)
    fix s show "byID s = find (\<lambda>g. sy_ID g = s) prev"
  proof (cases "byID s")
    case None
    then have "s \<notin> sy_ID ` set prev" using Nil.prems(1) by auto
    then have "find (\<lambda>g. sy_ID g = s) prev = None" by (subst find_None_iff) blast
    then show ?thesis using None by simp
  next
    case (Some g)
    then have "s \<in> dom byID" by (rule domI)
    then have "s \<in> sy_ID ` set prev" by (simp only: Nil.prems(1))
    then have "find (\<lambda>g. sy_ID g = s) prev \<noteq> None" by (subst find_None_iff) blast
    then obtain g2 where g2: "find (\<lambda>g. sy_ID g = s) prev = Some g2" by blast
    then have "g2 \<in> set prev" "sy_ID g2 = s" by (auto simp: find_Some_iff)
    with Nil.prems(3) have "byID s = Some g2" by blast
    with g2 show ?thesis by simp
  qed
  qed
  then show ?case using Nil.prems(2) by simp
next
  case (Cons g got)
  show ?case
  proof (cases "sy_ID g \<in> want \<and> byID (sy_ID g) = None")
    case True
    then have "sy_ID g \<notin> dom byID" by (simp add: domIff)
    then have "sy_ID g \<notin> sy_ID ` set prev" by (simp only: Cons.prems(1) not_False_eq_True)
    moreover from this have "distinct (map sy_ID (prev @ [g]))" using Cons.prems(2) by simp
    moreover have "dom (byID(sy_ID g \<mapsto> g)) = sy_ID ` set (prev @ [g])" using Cons.prems(1) by simp
    moreover have "\<forall>g'\<in>set (prev @ [g]). (byID(sy_ID g \<mapsto> g)) (sy_ID g') = Some g'"
      using Cons.prems(3) \<open>sy_ID g \<notin> sy_ID ` set prev\<close> by (auto simp: image_iff)
    ultimately have ih: "if distinct (map sy_ID ((prev @ [g]) @ got)) \<and> sy_ID ` set got \<subseteq> want
      then entriesByID want (byID(sy_ID g \<mapsto> g)) got = Inr (\<lambda>s. find (\<lambda>g. sy_ID g = s) ((prev @ [g]) @ got))
      else \<exists>err. entriesByID want (byID(sy_ID g \<mapsto> g)) got = Inl err" by (intro Cons.IH)
    have step: "entriesByID want byID (g # got) = entriesByID want (byID(sy_ID g \<mapsto> g)) got"
      "sy_ID ` set (g # got) \<subseteq> want \<longleftrightarrow> sy_ID ` set got \<subseteq> want" "prev @ g # got = (prev @ [g]) @ got"
      using True by simp_all
    show ?thesis unfolding step using ih .
  next
    case False
    then have "sy_ID g \<notin> want \<or> sy_ID g \<in> dom byID" by auto
    then have "sy_ID g \<notin> want \<or> sy_ID g \<in> sy_ID ` set prev" by (simp only: Cons.prems(1))
    then have "\<not> (distinct (map sy_ID (prev @ g # got)) \<and> sy_ID ` set (g # got) \<subseteq> want)" by auto
    moreover have "\<exists>err. entriesByID want byID (g # got) = Inl err" using False by (auto split: option.split)
    ultimately show ?thesis by presburger
  qed
qed

text \<open>
  Secrets come back in the order of the request. An answer that names a secret
  that was not requested, or one secret twice, is refused; otherwise there is
  one result per requested secret, in the order of first mention, holding the
  entry with that identifier or none.
\<close>

theorem relay_secrets_ordered:
  "if distinct (map sy_ID got) \<and> sy_ID ` set got \<subseteq> set requested
   then orderRelaySecrets requested got = Inr (map (\<lambda>s. (s, find (\<lambda>g. sy_ID g = s) got)) (requestedOrder [] requested))
   else \<exists>err. orderRelaySecrets requested got = Inl err"
  using entriesByID_spec [of Map.empty "[]" got "set (requestedOrder [] requested)"]
  by (auto simp: orderRelaySecrets_def requestedOrder_props(1) split: if_splits)

text \<open>
  A secret that is requested twice is answered once: the responses are as many as
  the different secrets, so after a repetition they no longer line up with
  the request, although consumers index them by position.
\<close>

theorem repeated_secret_shifts:
  assumes "openSecrets env now kp cfg secrets result = NOk responses"
  shows "length responses = card (set secrets)"
proof -
  obtain ordered where o: "orderRelaySecrets secrets (srr_Secrets result) = Inr ordered" "length responses = length ordered"
    using assms by (auto simp: openSecrets_def Let_def split: sum.splits)
  then have "length ordered = length (requestedOrder [] secrets)"
    by (auto simp: orderRelaySecrets_def Let_def split: sum.splits)
  with o(2) show ?thesis using requestedOrder_props [of "[]" secrets] by (metis distinct.simps(1) distinct_card empty_set sup_bot_left)
qed

section \<open>A sample run\<close>

definition sampleSignature :: "byte \<Rightarrow> RelayResponseSignature" where
  "sampleSignature b = \<lparr>rs_Signer = id32 b, rs_Signature = id32 b @ id32 b\<rparr>"

definition sampleSecretID :: relaySecretID where
  "sampleSecretID = \<lparr>ri_Key = ''token'', ri_Namespace = ''main''\<rparr>"

definition sampleSecrets :: SecretsResponseResult where
  "sampleSecrets = \<lparr>srr_Secrets = [\<lparr>sy_ID = sampleSecretID, sy_Ciphertext = EncodeToString [7],
     sy_EncryptedShares = [EncodeToString [3], EncodeToString [4]]\<rparr>], srr_RawVaultPublicKey = []\<rparr>"

definition sampleCapResult :: CapabilityResponseResult where
  "sampleCapResult = \<lparr>crr_Payload = EncodeToString [8], crr_Error = []\<rparr>"

text \<open>Two nodes agree, a third and an outsider send something else.\<close>

definition sampleRelayCodec :: relayCodec where
  "sampleRelayCodec = \<lparr>rk_MarshalCapRequest = (\<lambda>_. Inr [1]), rk_MarshalCapParams = (\<lambda>_. Inr [2]), rk_MarshalSecretsParams = (\<lambda>_. Inr [3]),
     rk_UnmarshalCapBundle = (\<lambda>_. Inr [(sampleCapResult, sampleSignature 1), (sampleCapResult, sampleSignature 2)]),
     rk_UnmarshalSecretsBundle = (\<lambda>_. Inr [(sampleSecrets\<lparr>srr_Secrets := []\<rparr>, sampleSignature 3), (sampleSecrets, sampleSignature 9),
        (sampleSecrets, sampleSignature 1), (sampleSecrets, sampleSignature 2)]),
     rk_CapHash = (\<lambda>r _. Inr (bytes_of (crr_Payload r))), rk_SecretsHash = (\<lambda>r _. Inr (if srr_Secrets r = [] then [0] else [1])),
     rk_SignaturePayload = (\<lambda>h. h), rk_UnmarshalCapResponse = (\<lambda>b. Inr (CapPayload \<lparr>any_TypeUrl = ''value'', any_Value = b\<rparr>)),
     rk_MarshalCapResponse = (\<lambda>_. Inr []), rk_isReport = (\<lambda>_. False), rk_reportURL = ''report'',
     rk_UnmarshalReport = (\<lambda>_. Inl (errText ''no report'')), rk_MarshalReport = (\<lambda>_. Inr [])\<rparr>"

definition sampleRelayEnv :: "(bytes, bytes, byte) RelayEnv" where
  "sampleRelayEnv = \<lparr>rv_gw = sampleGatewayEnv\<lparr>gv_H := (\<lambda>b. b)\<rparr>, rv_codec = sampleRelayCodec,
     rv_names = \<lparr>rn_DomainCapabilityExec = ''cap'', rn_DomainSecretsGet = ''sec'', rn_MethodCapabilityExec = ''cap'', rn_MethodSecretsGet = ''sec''\<rparr>,
     rv_edVerify = toyVerify, rv_OpenAnonymous = (\<lambda>c _ _. Some c), rv_TDH2 = toyTDH2, rv_keccak = zeroHash,
     rv_CreateAttestation = (\<lambda>_. Inr [6]), rv_DomainHash = (\<lambda>_ b. b), rv_keyErr = (\<lambda>_. errText ''key''),
     rv_aggErr = (\<lambda>_. errText ''shares''), rv_base64Err = (\<lambda>_. errText ''base64'')\<rparr>"

definition sampleDispatcher :: remoteDispatcher where
  "sampleDispatcher = NewRemoteDispatcher (NewGatewayClient ''https://b'' True) True sampleConfig True 0 0"

definition sampleSecretsRequest :: SecretsRequest where
  "sampleSecretsRequest = \<lparr>sr_Requests = [\<lparr>ri_Key = ''token'', ri_Namespace = []\<rparr>], sr_CallbackId = 4\<rparr>"

lemma sample_send:
  assumes "cx_Done cx = Some e" "5 < e"
  shows "SendRequest (rv_gw sampleRelayEnv) cx m ps 5 (rd_client sampleDispatcher) = (NOk [9], 10, (rd_client sampleDispatcher)\<lparr>gc_cursor := 1\<rparr>)"
proof -
  have urls: "gc_gatewayURLs (rd_client sampleDispatcher) = [''https://b'']" "gc_cursor (rd_client sampleDispatcher) = 0"
    "gc_attestor (rd_client sampleDispatcher)"
    by (simp_all add: sampleDispatcher_def NewRemoteDispatcher_def NewGatewayClient_def parseGatewayURLs_def trimSpace_def isSpace_def)
  have "sendOne (rv_gw sampleRelayEnv) (rd_client sampleDispatcher) 5 ''https://b'' body att = (Inr [9], 10)" for body att
    by (simp add: sendOne_def sampleRelayEnv_def sampleGatewayEnv_def Let_def readAnswer_def MaxEnclaveResponseBodyBytes_def)
  then have loop: "sendLoop (Suc 0) (rv_gw sampleRelayEnv) (rd_client sampleDispatcher) cx body att 0 5 [] = (NOk [9], 10)" for body att
    using assms urls by (simp add: ctxErr_def)
  have steps: "newUUID (rv_gw sampleRelayEnv) 5 = Inr (uuidText (uuidBytes (replicate 16 7)))"
    "gv_EncodeRequest (rv_gw sampleRelayEnv) i m ps = Inr (bytes_of m @ ps)"
    "attestBody (rv_gw sampleRelayEnv) (rd_client sampleDispatcher) body = Inr (EncodeToString [5])" for i body
    using urls(3) by (simp_all add: newUUID_def attestBody_def sampleRelayEnv_def sampleGatewayEnv_def)
  show ?thesis unfolding SendRequest_def using urls by (simp add: steps loop del: sendLoop.simps)
qed

lemma sample_sendWithRetry:
  "sendWithRetry sampleRelayEnv Background what m ps verify 5 sampleDispatcher = Some (verify [9], 10,
     sampleDispatcher\<lparr>rd_client := (rd_client sampleDispatcher)\<lparr>gc_cursor := 1\<rparr>\<rparr>)"
proof -
  have "\<exists>e. cx_Done (WithTimeout 5 (rd_retryTimeout sampleDispatcher) Background) = Some e \<and> 5 < e"
    by (simp add: WithTimeout_def Background_def sampleDispatcher_def NewRemoteDispatcher_def DefaultGatewayRetryTimeout_def minute_def second_def)
  then obtain e where e: "cx_Done (WithTimeout 5 (rd_retryTimeout sampleDispatcher) Background) = Some e" "5 < e" by blast
  then show ?thesis unfolding sendWithRetry_def
    by (subst sendRetryLoop.simps) (simp add: sample_send [OF e] ctxErr_def)
qed

lemma sample_signers:
  "verifyLoop toyVerify h (id32 b @ id32 b) [id32 1, id32 2, id32 3, id32 4] =
     (if b = 1 then VSigner (id32 1) else if b = 2 then VSigner (id32 2) else if b = 3 then VSigner (id32 3) else
      if b = 4 then VSigner (id32 4) else VNotAllowed)"
  by (auto simp: toyVerify_def id32_def PublicKeySize_def)

lemma sample_fields [simp]:
  "rv_codec sampleRelayEnv = sampleRelayCodec" "rv_edVerify sampleRelayEnv = toyVerify" "rd_config sampleDispatcher = sampleConfig"
  "rd_verifier sampleDispatcher" "rd_attestor sampleDispatcher" "rv_CreateAttestation sampleRelayEnv h = Inr [6]"
  "rv_H sampleRelayEnv b = b" "rv_TDH2 sampleRelayEnv = toyTDH2" "rv_OpenAnonymous sampleRelayEnv c pk sk = Some c"
  by (simp_all add: sampleRelayEnv_def sampleDispatcher_def NewRemoteDispatcher_def)

lemma sample_codec [simp]:
  "rk_MarshalCapRequest sampleRelayCodec creq = Inr [1]" "rk_MarshalCapParams sampleRelayCodec cps = Inr [2]"
  "rk_MarshalSecretsParams sampleRelayCodec sps = Inr [3]" "rk_SignaturePayload sampleRelayCodec h = h" "rk_isReport sampleRelayCodec u = False"
  "rk_UnmarshalCapBundle sampleRelayCodec b = Inr [(sampleCapResult, sampleSignature 1), (sampleCapResult, sampleSignature 2)]"
  "rk_UnmarshalSecretsBundle sampleRelayCodec b = Inr [(sampleSecrets\<lparr>srr_Secrets := []\<rparr>, sampleSignature 3), (sampleSecrets, sampleSignature 9),
     (sampleSecrets, sampleSignature 1), (sampleSecrets, sampleSignature 2)]"
  "rk_CapHash sampleRelayCodec cr cps = Inr (bytes_of (crr_Payload cr))" "rk_SecretsHash sampleRelayCodec sr sps = Inr (if srr_Secrets sr = [] then [0] else [1])"
  "rk_UnmarshalCapResponse sampleRelayCodec b = Inr (CapPayload \<lparr>any_TypeUrl = ''value'', any_Value = b\<rparr>)"
  by (simp_all add: sampleRelayCodec_def)

lemma sample_attest: "attestContent sampleRelayEnv sampleDispatcher tag (Inr b) = Inr (EncodeToString [6])"
  by (simp add: attestContent_def)

lemma sample_request_key:
  "\<exists>kc. GetKeyPairForRequest 5 (id32 9) sampleKeychain = (Inr \<lparr>kp_publicKey = id32 1, kp_privateKey = id32 2, kp_ttl = DefaultKeypairExpiration,
     kp_creationTime = 0\<rparr>, kc)"
  by (simp add: sampleKeychain_simp Let_def NewBoxKeychain_def NewCache_def NewBoundedCache_def
      GetKeyPairForRequest_def Cache_Get_def Cache_Set_def setLocked_def chooseNewest_def GetKeyPairs_def
      Cache_Keys_def List.map_filter_simps expired_def commitKeyPair_def Cache_GetOrSet_def cc_const)

lemma sample_VerifySignature:
  "VerifySignature toyVerify h (rs_Signature (sampleSignature b)) (ec_Signers sampleConfig) =
     (if b = 1 then VSigner (id32 1) else if b = 2 then VSigner (id32 2) else if b = 3 then VSigner (id32 3) else
      if b = 4 then VSigner (id32 4) else VNotAllowed)"
  using sample_signers [of h b] by (simp add: VerifySignature_def sampleSignature_def sampleConfig_def SignatureSize_def id32_def)

lemma sample_capability:
  "\<exists>r. CallCapability sampleRelayEnv Background ''wf'' ''0xab'' ''exec'' ''org'' creq 5 sampleDispatcher =
     Some (NOk (CapPayload \<lparr>any_TypeUrl = ''value'', any_Value = [8]\<rparr>), r)"
proof -
  have sel: "selectQuorumResult sampleRelayEnv sampleDispatcher 2 sk
      [\<lparr>re_sigHash = h, re_groupHash = g, re_signature = sampleSignature 1, re_desc = d1, re_idx = 0\<rparr>,
       \<lparr>re_sigHash = h, re_groupHash = g, re_signature = sampleSignature 2, re_desc = d2, re_idx = 1\<rparr>] sampleConfig = NOk 0" for sk h g d1 d2
    by (simp add: selectQuorumResult_def sample_VerifySignature goodSignature_def Let_def) (simp add: sampleConfig_def id32_def)
  have "verifyCapability sampleRelayEnv sampleDispatcher sampleConfig params [9] = NOk sampleCapResult" for params
    using sel by (simp add: verifyCapability_def capabilityGroup_def canonicalCapabilityPayload_def Let_def case_prod_unfold
        numeral_2_eq_2 sampleCapResult_def)
  then show ?thesis
    by (simp add: CallCapability_def Let_def sample_attest sample_sendWithRetry decodeCapability_def sampleCapResult_def
        DecodeString_EncodeToString [of "[8]", simplified])
qed

lemma sample_relay_secrets:
  "\<exists>r. GetSecrets sampleRelayEnv Background ''wf'' (id32 9) sampleSecretsRequest ''0xab'' ''exec'' ''org'' [] 5 sampleDispatcher sampleKeychain =
     Some (NOk [SecretValue sampleSecretID [7, 3, 4]], r)"
proof -
  obtain kp kc where kp: "GetKeyPairForRequest 5 (id32 9) sampleKeychain = (Inr kp, kc)" "kp_creationTime kp = 0" "kp_ttl kp = DefaultKeypairExpiration"
    using sample_request_key by fastforce
  have ver: "verifySecrets sampleRelayEnv sampleDispatcher sampleConfig params [9] = NOk sampleSecrets" for params
    by (simp add: verifySecrets_def selectQuorumResult_def sample_VerifySignature goodSignature_def badSignature_def Let_def case_prod_unfold)
      (simp add: sampleConfig_def id32_def sampleSecrets_def)
  have cb: "\<exists>cb. relaySecretsCallbackID sampleRelayEnv params = Inr cb" for params by (simp add: relaySecretsCallbackID_def)
  have agg: "AggregateShares toyTDH2 [7] [[3], [4]] [5, 5] 2 = Inr [7, 3, 4]"
    by (simp add: AggregateShares_def TDH2AggregateDecryptionShares_def toyTDH2_def gatherShares.simps)
  have "openSecrets sampleRelayEnv 10 kp sampleConfig [sampleSecretID] sampleSecrets = NOk [SecretValue sampleSecretID [7, 3, 4]]"
    using kp(2,3) by (simp add: openSecrets_def sampleSecrets_def orderRelaySecrets_def secretFor_def decryptSecret_def agg
        Keypair_Decrypt_def DefaultKeypairExpiration_def second_def minute_def hour_def sampleConfig_def Let_def del: EncodeToString.simps)
  moreover have "srp_Secrets (secretsParams sampleRelayEnv sampleConfig kp ''wf'' ''0xab'' ''exec'' ''org'' sampleSecretsRequest []) = [sampleSecretID]"
    by (simp add: secretsParams_def sampleSecretsRequest_def defaultSecretsNamespace_def sampleSecretID_def)
  moreover obtain cb where
    "relaySecretsCallbackID sampleRelayEnv (secretsParams sampleRelayEnv sampleConfig kp ''wf'' ''0xab'' ''exec'' ''org'' sampleSecretsRequest []) = Inr cb"
    using cb by blast
  ultimately show ?thesis
    by (simp add: GetSecrets_def Let_def kp(1) sample_attest sample_sendWithRetry ver)
qed

theorem relay_capability_quorum_witness:
  "\<exists>att resps result. unat (ec_F sampleConfig) < card (capabilityBackers sampleRelayEnv sampleConfig
      ((capabilityParams sampleRelayEnv sampleConfig ''wf'' ''0xab'' ''exec'' ''org'' \<lparr>cq_Id = ''c'', cq_Method = ''m'', cq_CallbackId = 1, cq_Payload = None\<rparr> [1])
        \<lparr>crp_Attestation := att\<rparr>) resps result) \<and>
     decodeCapability sampleRelayEnv result = NOk (CapPayload \<lparr>any_TypeUrl = ''value'', any_Value = [8]\<rparr>)"
proof -
  obtain t' d' where "CallCapability sampleRelayEnv Background ''wf'' ''0xab'' ''exec'' ''org''
      \<lparr>cq_Id = ''c'', cq_Method = ''m'', cq_CallbackId = 1, cq_Payload = None\<rparr> 5 sampleDispatcher =
     Some (NOk (CapPayload \<lparr>any_TypeUrl = ''value'', any_Value = [8]\<rparr>), t', d')" using sample_capability by fastforce
  from relay_capability_quorum [OF this] show ?thesis by auto
qed

theorem relay_secrets_honest_witness:
  "\<exists>s sig h. s \<in> set (ec_Signers sampleConfig) - {id32 1} \<and> toyVerify s h sig"
proof -
  obtain t' d' kc where "GetSecrets sampleRelayEnv Background ''wf'' (id32 9) sampleSecretsRequest ''0xab'' ''exec'' ''org'' [] 5 sampleDispatcher
      sampleKeychain = Some (NOk [SecretValue sampleSecretID [7, 3, 4]], t', d', kc)" using sample_relay_secrets by fastforce
  from relay_secrets_honest [OF this, of "{id32 1}"]
  have "\<exists>s sig h. s \<in> set (ec_Signers (rd_config sampleDispatcher)) - {id32 1} \<and>
      rv_edVerify sampleRelayEnv s (rk_SignaturePayload (rv_codec sampleRelayEnv) h) sig"
    by (auto simp: sampleConfig_def Int_insert_left)
  then show ?thesis by simp
qed

abbreviation sampleKey :: boxKeypair where
  "sampleKey \<equiv> \<lparr>kp_publicKey = id32 1, kp_privateKey = id32 2, kp_ttl = DefaultKeypairExpiration, kp_creationTime = 0\<rparr>"

abbreviation sampleParams :: SecretsRequestParams where
  "sampleParams \<equiv> secretsParams sampleRelayEnv sampleConfig sampleKey ''wf'' ''0xab'' ''exec'' ''org'' sampleSecretsRequest []"

theorem relay_noise_harmless_witness:
  "\<exists>result. verifySecrets sampleRelayEnv sampleDispatcher sampleConfig sampleParams [9] = NOk result \<and>
     rk_SecretsHash sampleRelayCodec result sampleParams = Inr [1]"
proof -
  have ids: "id32 1 \<noteq> id32 2" "id32 1 \<noteq> id32 3" "id32 2 \<noteq> id32 3" by (simp_all add: id32_def)
  have full: "srr_Secrets sampleSecrets \<noteq> []" by (simp add: sampleSecrets_def)
  let ?resps = "[(sampleSecrets\<lparr>srr_Secrets := []\<rparr>, sampleSignature 3), (sampleSecrets, sampleSignature 9),
     (sampleSecrets, sampleSignature 1), (sampleSecrets, sampleSignature 2)]"
  have votes: "\<exists>r sig. (r, sig) \<in> set ?resps \<and> rk_SecretsHash (rv_codec sampleRelayEnv) r sampleParams = Inr [1] \<and>
      VerifySignature (rv_edVerify sampleRelayEnv) (rk_SignaturePayload (rv_codec sampleRelayEnv) [1]) (rs_Signature sig) (ec_Signers sampleConfig)
        = VSigner s" if "s \<in> {id32 1, id32 2}" for s
    by (rule exI [of _ sampleSecrets], rule exI [of _ "sampleSignature (if s = id32 1 then 1 else 2)"])
      (use that full ids in \<open>auto simp: sample_VerifySignature\<close>)
  have F: "unat (ec_F sampleConfig) = 1" "list_all (\<lambda>k. length k = PublicKeySize) (ec_Signers sampleConfig)"
    by (simp_all add: sampleConfig_def id32_def PublicKeySize_def)
  have "\<exists>result. verifySecrets sampleRelayEnv sampleDispatcher sampleConfig sampleParams [9] = NOk result \<and>
      rk_SecretsHash (rv_codec sampleRelayEnv) result sampleParams = Inr [1]"
  proof (rule relay_noise_harmless [where S = "{id32 1, id32 2}" and faulty = "{id32 3}" and resps = ?resps])
    show "\<forall>s\<in>{id32 1, id32 2}. \<exists>r sig. (r, sig) \<in> set ?resps \<and> rk_SecretsHash (rv_codec sampleRelayEnv) r sampleParams = Inr [1] \<and>
      VerifySignature (rv_edVerify sampleRelayEnv) (rk_SignaturePayload (rv_codec sampleRelayEnv) [1]) (rs_Signature sig) (ec_Signers sampleConfig)
        = VSigner s" using votes by blast
  qed (use F ids full in \<open>auto simp: sample_VerifySignature Int_insert_left inj_on_def split: if_splits\<close>)
  then show ?thesis by simp
qed

theorem relay_callback_id_witness: "\<exists>cb. relaySecretsCallbackID sampleRelayEnv sampleParams = Inr cb \<and> sint cb < 0"
proof -
  obtain cb where "relaySecretsCallbackID sampleRelayEnv sampleParams = Inr cb" by (simp add: relaySecretsCallbackID_def)
  with relay_callback_id [OF this] show ?thesis by blast
qed

theorem repeated_secret_shifts_witness:
  "\<exists>responses. openSecrets sampleRelayEnv 10 sampleKey sampleConfig [sampleSecretID, sampleSecretID, \<lparr>ri_Key = ''other'', ri_Namespace = ''main''\<rparr>]
      \<lparr>srr_Secrets = [], srr_RawVaultPublicKey = []\<rparr> = NOk responses \<and> length responses = 2"
proof -
  obtain responses where "openSecrets sampleRelayEnv 10 sampleKey sampleConfig
      [sampleSecretID, sampleSecretID, \<lparr>ri_Key = ''other'', ri_Namespace = ''main''\<rparr>]
      \<lparr>srr_Secrets = [], srr_RawVaultPublicKey = []\<rparr> = NOk responses"
    by (simp add: openSecrets_def orderRelaySecrets_def Let_def)
  with repeated_secret_shifts [OF this] show ?thesis by (auto simp: sampleSecretID_def)
qed

end
