(* ===== verification/CC_Fetch.thy ===== *)
theory CC_Fetch
  imports CC_GoLib "HOL-Library.Signed_Division"
begin

text \<open>
  What the workflow application uses to obtain binaries and to bound its work,
  under \<^verbatim>\<open>src/enclave/apps/confidential-workflows\<close>: the limit on concurrent
  executions (\<^verbatim>\<open>app/limiter.go\<close>, \<^verbatim>\<open>memlimit\<close>), the cache of verified binaries
  (\<^verbatim>\<open>app/fetcher.go\<close>), the client of the storage service (\<^verbatim>\<open>app/storage_fetcher.go\<close>) and
  outbound HTTP for workflows (\<^verbatim>\<open>httpfetch\<close>). The network, gRPC and JWTs are
  arguments. The lemmas show that the limit holds, that a binary always has the
  hash that was asked for, what the bound of the cache means, and which sizes
  pass.
\<close>

section \<open>Concurrent executions (app/limiter.go, memlimit)\<close>

text \<open>\<open>el_cap\<close> is the capacity of the channel of slots, \<open>None\<close> where it is nil; \<open>el_used\<close> how many are taken.\<close>

record executionLimiter =
  el_cap :: "nat option"
  el_used :: nat

definition newExecutionLimiter :: "int \<Rightarrow> executionLimiter" where
  "newExecutionLimiter m = \<lparr>el_cap = (if m \<le> 0 then None else Some (nat m)), el_used = 0\<rparr>"

definition tryAcquire :: "executionLimiter \<Rightarrow> bool \<times> executionLimiter" where
  "tryAcquire l = (case el_cap l of
     None \<Rightarrow> (True, l)
   | Some c \<Rightarrow> if el_used l < c then (True, l\<lparr>el_used := Suc (el_used l)\<rparr>) else (False, l))"

text \<open>Receiving from a channel with no taken slot blocks: \<open>None\<close>.\<close>

definition release :: "executionLimiter \<Rightarrow> executionLimiter option" where
  "release l = (case el_cap l of
     None \<Rightarrow> Some l
   | Some c \<Rightarrow> if el_used l = 0 then None else Some (l\<lparr>el_used := el_used l - 1\<rparr>))"

definition limiterCapacity :: "executionLimiter \<Rightarrow> nat" where
  "limiterCapacity l = (case el_cap l of None \<Rightarrow> 0 | Some c \<Rightarrow> c)"

definition ReserveMB :: "64 word" where
  "ReserveMB = 1024"

definition PerExecMB :: "64 word" where
  "PerExecMB = 128"

definition FallbackConcurrency :: int where
  "FallbackConcurrency = 8"

record memResult =
  ml_MaxConcurrent :: int
  ml_TotalMB :: "64 word"
  ml_ReserveMB :: "64 word"
  ml_PerExecMB :: "64 word"
  ml_Introspected :: bool

definition concurrency :: "64 word \<Rightarrow> 64 word \<Rightarrow> 64 word \<Rightarrow> int" where
  "concurrency totalMB reserveMB perExecMB =
     (if perExecMB = 0 \<or> totalMB \<le> reserveMB then 1
      else let n = sint ((totalMB - reserveMB) div perExecMB) in if n < 1 then 1 else n)"

text \<open>The memory size from \<^verbatim>\<open>sysinfo\<close>: pages and their unit.\<close>

definition totalMemoryMB :: "(64 word \<times> 32 word) option \<Rightarrow> 64 word option" where
  "totalMemoryMB si = (case si of None \<Rightarrow> None | Some (totalram, unit) \<Rightarrow> Some (totalram * ucast unit div (1024 * 1024)))"

definition Derive :: "64 word option \<Rightarrow> memResult" where
  "Derive memTotal =
     (let r = \<lparr>ml_MaxConcurrent = 0, ml_TotalMB = 0, ml_ReserveMB = ReserveMB, ml_PerExecMB = PerExecMB, ml_Introspected = False\<rparr>
      in case memTotal of
           None \<Rightarrow> r\<lparr>ml_MaxConcurrent := FallbackConcurrency\<rparr>
         | Some totalMB \<Rightarrow> if totalMB = 0 then r\<lparr>ml_MaxConcurrent := FallbackConcurrency\<rparr>
             else r\<lparr>ml_TotalMB := totalMB, ml_Introspected := True, ml_MaxConcurrent := concurrency totalMB ReserveMB PerExecMB\<rparr>)"

section \<open>Verified binaries (app/fetcher.go)\<close>

text \<open>
  The cache: the map of items and the list of entries, most recent first. The map holds
  pointers into the list; here it holds the value the pointer leads to.
\<close>

record BinaryFetcher =
  bf_maxCacheBytes :: int
  bf_cacheBytes :: int
  bf_items :: "string \<rightharpoonup> bytes"
  bf_evictList :: "(string \<times> bytes) list"

definition DefaultMaxBinaryCacheBytes :: int where
  "DefaultMaxBinaryCacheBytes = 256 * 1024 * 1024"

definition newBinaryFetcher :: "int \<Rightarrow> BinaryFetcher" where
  "newBinaryFetcher maxCacheBytes =
     \<lparr>bf_maxCacheBytes = maxCacheBytes, bf_cacheBytes = 0, bf_items = Map.empty, bf_evictList = []\<rparr>"

definition NewBinaryFetcher :: BinaryFetcher where
  "NewBinaryFetcher = newBinaryFetcher DefaultMaxBinaryCacheBytes"

definition moveToFront :: "string \<Rightarrow> (string \<times> bytes) list \<Rightarrow> (string \<times> bytes) list" where
  "moveToFront key xs = filter (\<lambda>e. fst e = key) xs @ filter (\<lambda>e. fst e \<noteq> key) xs"

definition evictOldest :: "BinaryFetcher \<Rightarrow> BinaryFetcher" where
  "evictOldest f = (let entry = last (bf_evictList f) in
     f\<lparr>bf_evictList := butlast (bf_evictList f), bf_items := (bf_items f)(fst entry := None),
       bf_cacheBytes := bf_cacheBytes f - int (length (snd entry))\<rparr>)"

text \<open>The eviction loops: make room for so many more bytes.\<close>

function evictFor :: "int \<Rightarrow> BinaryFetcher \<Rightarrow> BinaryFetcher" where
  "evictFor n f = (if bf_cacheBytes f + n > bf_maxCacheBytes f \<and> bf_evictList f \<noteq> [] then evictFor n (evictOldest f) else f)"
  by auto
termination
  by (relation "measure (\<lambda>(n, f). length (bf_evictList f))") (auto simp: evictOldest_def Let_def)

declare evictFor.simps [simp del]

definition SetMaxCacheBytes :: "int \<Rightarrow> BinaryFetcher \<Rightarrow> BinaryFetcher" where
  "SetMaxCacheBytes maxCacheBytes f =
     (if maxCacheBytes \<le> 0 then f else evictFor 0 (f\<lparr>bf_maxCacheBytes := maxCacheBytes\<rparr>))"

definition cacheGet :: "string \<Rightarrow> BinaryFetcher \<Rightarrow> bytes option \<times> BinaryFetcher" where
  "cacheGet key f = (case bf_items f key of
     None \<Rightarrow> (None, f)
   | Some v \<Rightarrow> (Some v, f\<lparr>bf_evictList := moveToFront key (bf_evictList f)\<rparr>))"

definition cachePut :: "string \<Rightarrow> bytes \<Rightarrow> BinaryFetcher \<Rightarrow> BinaryFetcher" where
  "cachePut key v f = (case bf_items f key of
     Some _ \<Rightarrow> f\<lparr>bf_evictList := moveToFront key (bf_evictList f)\<rparr>
   | None \<Rightarrow> (let f1 = evictFor (int (length v)) f in
       f1\<lparr>bf_evictList := (key, v) # bf_evictList f1, bf_items := (bf_items f1)(key \<mapsto> v),
          bf_cacheBytes := bf_cacheBytes f1 + int (length v)\<rparr>))"

text \<open>
  \<open>raw\<close> is the fetcher of the storage service, if credentials have been set: asked at a time,
  under a context, it answers and says when.
\<close>

type_synonym RawFetcher = "time \<Rightarrow> ctx \<Rightarrow> string \<Rightarrow> (netErr + bytes) \<times> time"

definition BinaryFetcher_Fetch ::
    "(bytes \<Rightarrow> bytes) \<Rightarrow> time \<Rightarrow> ctx \<Rightarrow> string \<Rightarrow> bytes \<Rightarrow> RawFetcher option \<Rightarrow> BinaryFetcher
      \<Rightarrow> (netErr + bytes) \<times> BinaryFetcher \<times> time" where
  "BinaryFetcher_Fetch H t cx locator binaryHash raw f =
     (if binaryHash = [] then (Inl (errText ''binary_hash is required for integrity verification''), f, t)
      else case raw of
        None \<Rightarrow> (Inl (errText ''storage credentials not yet provisioned''), f, t)
      | Some FetchBinary \<Rightarrow> (let cacheKey = hexEncode binaryHash in
          (case cacheGet cacheKey f of
             (Some cached, f1) \<Rightarrow> (Inr cached, f1, t)
           | (None, f1) \<Rightarrow> (case FetchBinary t cx locator of
               (Inl err, t1) \<Rightarrow> (Inl (errWrap ''fetching binary: '' err), f1, t1)
             | (Inr binary, t1) \<Rightarrow>
                 if H binary \<noteq> binaryHash
                 then (Inl (errText (''binary hash mismatch: expected '' @ hexEncode binaryHash @ '', got '' @ hexEncode (H binary))), f1, t1)
                 else (Inr binary, cachePut cacheKey binary f1, t1)))))"

section \<open>The storage service (app/storage\_fetcher.go)\<close>

text \<open>\<^verbatim>\<open>path.Clean\<close>, \<^verbatim>\<open>path.Dir\<close> and \<^verbatim>\<open>path.Base\<close>.\<close>

definition cleanStep :: "bool \<Rightarrow> string list \<Rightarrow> string \<Rightarrow> string list" where
  "cleanStep rooted out c =
     (if c = [] \<or> c = ''.'' then out
      else if c = ''..'' then (if out \<noteq> [] \<and> last out \<noteq> ''..'' then butlast out else if rooted then out else out @ [c])
      else out @ [c])"

definition pathClean :: "string \<Rightarrow> string" where
  "pathClean p =
     (if p = [] then ''.''
      else let rooted = (hd p = CHR ''/'');
               s = joinStrings ''/'' (foldl (cleanStep rooted) [] (splitOn (CHR ''/'') p))
           in if rooted then CHR ''/'' # s else if s = [] then ''.'' else s)"

definition pathDir :: "string \<Rightarrow> string" where
  "pathDir p = pathClean (rev (dropWhile (\<lambda>c. c \<noteq> CHR ''/'') (rev p)))"

definition pathBase :: "string \<Rightarrow> string" where
  "pathBase p =
     (if p = [] then ''.''
      else let q = rev (takeWhile (\<lambda>c. c \<noteq> CHR ''/'') (dropWhile (\<lambda>c. c = CHR ''/'') (rev p)))
           in if q = [] then ''/'' else q)"

text \<open>\<^verbatim>\<open>strings.Trim(s, "/")\<close>.\<close>

definition trimSlashes :: "string \<Rightarrow> string" where
  "trimSlashes s = rev (dropWhile (\<lambda>c. c = CHR ''/'') (rev (dropWhile (\<lambda>c. c = CHR ''/'') s)))"

text \<open>The segment after the first segment \<^verbatim>\<open>artifacts\<close> that has one.\<close>

fun afterArtifacts :: "string list \<Rightarrow> string option" where
  "afterArtifacts (s # s' # ss) = (if s = ''artifacts'' then Some s' else afterArtifacts (s' # ss))"
| "afterArtifacts _ = None"

text \<open>\<open>urlPath\<close> is the path that \<^verbatim>\<open>net/url.Parse\<close> finds, \<open>None\<close> when it fails.\<close>

definition artifactID :: "(string \<Rightarrow> string option) \<Rightarrow> string \<Rightarrow> string" where
  "artifactID urlPath locator =
     (if \<not> Contains locator ''://'' then locator
      else case urlPath locator of
        None \<Rightarrow> locator
      | Some p \<Rightarrow> (case afterArtifacts (splitOn (CHR ''/'') (trimSlashes p)) of
          Some s \<Rightarrow> s
        | None \<Rightarrow> pathBase (pathDir p)))"

definition DefaultMaxBinarySize :: int where
  "DefaultMaxBinarySize = 20 * 1024 * 1024"

definition DefaultBinaryFetchTimeout :: duration where
  "DefaultBinaryFetchTimeout = 60 * second"

text \<open>
  A body: the bytes that arrive and the error that ends them, if it is not the end of the
  stream; \<^verbatim>\<open>io.ReadAll(io.LimitReader(body, n))\<close> does not look past \<open>n\<close> bytes.
\<close>

type_synonym body = "bytes \<times> netErr option"

definition readLimited :: "int \<Rightarrow> body \<Rightarrow> netErr + bytes" where
  "readLimited n b =
     (if n \<le> int (length (fst b)) then Inr (take (nat n) (fst b))
      else case snd b of Some err \<Rightarrow> Inl err | None \<Rightarrow> Inr (fst b))"

text \<open>
  The outside: Ed25519 keys, JWTs, gRPC and HTTP. \<open>se_CreateJWT\<close> signs a request for an
  artifact; \<open>se_DownloadArtifact\<close> is the call with its \<^verbatim>\<open>authorization\<close> metadata, \<open>se_Get\<close> the HTTP
  exchange, each with how long it takes.
\<close>

record StorageEnv =
  se_publicOfSeed :: "bytes \<Rightarrow> bytes"
  se_NewSigner :: "string \<Rightarrow> netErr option"
  se_NewClient :: "string \<Rightarrow> bool \<Rightarrow> netErr option"
  se_CreateJWT :: "bytes \<Rightarrow> string \<Rightarrow> netErr + string"
  se_urlPath :: "string \<Rightarrow> string option"
  se_DownloadArtifact :: "time \<Rightarrow> ctx \<Rightarrow> string \<Rightarrow> string \<Rightarrow> (netErr + string) \<times> nat"
  se_NewRequest :: "string \<Rightarrow> netErr option"
  se_Get :: "time \<Rightarrow> ctx \<Rightarrow> string \<Rightarrow> (netErr + int \<times> body) \<times> nat"
  se_hexError :: "string \<Rightarrow> netErr"
  se_base64Error :: "string \<Rightarrow> netErr"

record StorageFetcher =
  sf_target :: string
  sf_tls :: bool
  sf_key :: bytes
  sf_maxBytes :: int
  sf_timeout :: duration

text \<open>The Ed25519 key: a seed is completed to a key, whose second half is the public key.\<close>

definition newJWTGenerator :: "StorageEnv \<Rightarrow> string \<Rightarrow> netErr + bytes \<times> bytes" where
  "newJWTGenerator se privKeyHex =
     (let h = trimPrefix ''0x'' (trimSpace privKeyHex) in case hexDecode h of
        None \<Rightarrow> Inl (errWrap ''decoding ed25519 key hex: '' (se_hexError se h))
      | Some raw \<Rightarrow>
          if length raw \<noteq> 32 \<and> length raw \<noteq> 64
          then Inl (errText (''ed25519 key must be 32 (seed) or 64 (full) bytes, got '' @ decimal (length raw)))
          else let priv = (if length raw = 32 then raw @ se_publicOfSeed se raw else raw); pub = drop 32 priv
               in (case se_NewSigner se (hexEncode pub) of
                     Some err \<Rightarrow> Inl (errWrap ''building ed25519 signer: '' err)
                   | None \<Rightarrow> Inr (priv, pub)))"

text \<open>\<open>client\<close> is whether an HTTP client was given.\<close>

definition NewStorageFetcher ::
    "StorageEnv \<Rightarrow> string \<Rightarrow> bool \<Rightarrow> string \<Rightarrow> int \<Rightarrow> duration \<Rightarrow> bool \<Rightarrow> netErr + StorageFetcher \<times> bytes" where
  "NewStorageFetcher se storageURL tls privKeyHex maxBytes timeout client =
     (if storageURL = [] then Inl (errText ''storage service url is required'')
      else if \<not> client then Inl (errText ''artifact HTTP client is required'')
      else case newJWTGenerator se privKeyHex of
        Inl err \<Rightarrow> Inl err
      | Inr (priv, pub) \<Rightarrow> (case se_NewClient se (''passthrough:///'' @ storageURL) tls of
          Some err \<Rightarrow> Inl (errWrap (''dialing storage service '' @ goQuote storageURL @ '': '') err)
        | None \<Rightarrow> Inr (\<lparr>sf_target = ''passthrough:///'' @ storageURL, sf_tls = tls, sf_key = priv,
              sf_maxBytes = (if maxBytes \<le> 0 then DefaultMaxBinarySize else maxBytes),
              sf_timeout = (if timeout \<le> 0 then DefaultBinaryFetchTimeout else timeout)\<rparr>, pub)))"

definition withJWT :: "StorageEnv \<Rightarrow> StorageFetcher \<Rightarrow> string \<Rightarrow> netErr + string" where
  "withJWT se f artifact = (case se_CreateJWT se (sf_key f) artifact of
     Inl err \<Rightarrow> Inl (errWrap ''creating JWT: '' err)
   | Inr token \<Rightarrow> Inr (''Bearer '' @ token))"

definition resolveURL :: "StorageEnv \<Rightarrow> StorageFetcher \<Rightarrow> time \<Rightarrow> ctx \<Rightarrow> string \<Rightarrow> (netErr + string) \<times> time" where
  "resolveURL se f t cx locator = (let artifact = artifactID (se_urlPath se) locator in
     (case withJWT se f artifact of
        Inl err \<Rightarrow> (Inl err, t)
      | Inr authorization \<Rightarrow> (case se_DownloadArtifact se t cx authorization artifact of
          (Inl err, d) \<Rightarrow> (Inl (errWrap ''DownloadArtifact: '' err), t + int d)
        | (Inr url, d) \<Rightarrow> (if url = [] then Inl (errText ''storage service returned empty url'') else Inr url, t + int d))))"

text \<open>The bound on the encoded body, computed in signed 64-bit integers.\<close>

definition wrapInt64 :: "int \<Rightarrow> int" where
  "wrapInt64 i = signed_take_bit 63 i"

definition maxEncodedBytes :: "int \<Rightarrow> int" where
  "maxEncodedBytes maxBytes = wrapInt64 (wrapInt64 (maxBytes * 4) sdiv 3 + 4)"

definition readBinary :: "StorageEnv \<Rightarrow> StorageFetcher \<Rightarrow> int \<times> body \<Rightarrow> netErr + bytes" where
  "readBinary se f resp =
     (if fst resp \<noteq> 200 then Inl (errText (''downloading binary: status '' @ itoa (fst resp)))
      else let maxEncoded = maxEncodedBytes (sf_maxBytes f) in
        (case readLimited (wrapInt64 (maxEncoded + 1)) (snd resp) of
           Inl err \<Rightarrow> Inl (errWrap ''reading binary body: '' err)
         | Inr encoded \<Rightarrow>
             if int (length encoded) > maxEncoded
             then Inl (errText (''binary exceeds max size of '' @ itoa (sf_maxBytes f) @ '' bytes''))
             else (case DecodeString (string_of encoded) of
                 None \<Rightarrow> Inl (errWrap ''base64 decoding binary: '' (se_base64Error se (string_of encoded)))
               | Some decoded \<Rightarrow> Inr decoded)))"

definition download :: "StorageEnv \<Rightarrow> StorageFetcher \<Rightarrow> time \<Rightarrow> ctx \<Rightarrow> string \<Rightarrow> (netErr + bytes) \<times> time" where
  "download se f t cx url = (case se_NewRequest se url of
     Some err \<Rightarrow> (Inl (errWrap ''building download request: '' err), t)
   | None \<Rightarrow> (case se_Get se t cx url of
       (Inl err, d) \<Rightarrow> (Inl (errWrap ''downloading binary: '' err), t + int d)
     | (Inr resp, d) \<Rightarrow> (readBinary se f resp, t + int d)))"

definition StorageFetcher_FetchBinary :: "StorageEnv \<Rightarrow> StorageFetcher \<Rightarrow> RawFetcher" where
  "StorageFetcher_FetchBinary se f t cx locator = (let cx' = WithTimeout t (sf_timeout f) cx in
     (case resolveURL se f t cx' locator of
        (Inl err, t1) \<Rightarrow> (Inl (errWrap (''resolving artifact '' @ goQuote locator @ '': '') err), t1)
      | (Inr url, t1) \<Rightarrow> download se f t1 cx' url))"

section \<open>Outbound HTTP (httpfetch/httpfetch.go)\<close>

record Policy =
  po_AllowedMethods :: "string list"
  po_DefaultTimeout :: duration
  po_MaxResponseBodyBytes :: int

definition MaxHTTPResponseBodyBytes :: int where
  "MaxHTTPResponseBodyBytes = 1000 * 1024"

definition DefaultPolicy :: Policy where
  "DefaultPolicy = \<lparr>po_AllowedMethods = [''GET'', ''POST'', ''PUT'', ''DELETE'', ''PATCH''],
     po_DefaultTimeout = DefaultEnclaveRequestTimeout, po_MaxResponseBodyBytes = MaxHTTPResponseBodyBytes\<rparr>"

record Fetcher =
  ft_policy :: Policy
  ft_defaultTimeout :: duration

definition NewFetcherWithClient :: "Policy \<Rightarrow> Fetcher" where
  "NewFetcherWithClient policy = \<lparr>ft_policy = policy, ft_defaultTimeout = po_DefaultTimeout policy\<rparr>"

definition SetDefaultTimeout :: "duration \<Rightarrow> Fetcher \<Rightarrow> Fetcher" where
  "SetDefaultTimeout d f = (if d \<le> 0 then f else f\<lparr>ft_defaultTimeout := d\<rparr>)"

text \<open>
  The request of the HTTP capability: its maps are lists in the order in which the code
  ranges over them, its timeout \<open>None\<close> where it is nil.
\<close>

record httpcapRequest =
  hc_Method :: string
  hc_Url :: string
  hc_Headers :: "(string \<times> string) list"
  hc_MultiHeaders :: "(string \<times> string list) list"
  hc_Body :: bytes
  hc_Timeout :: "duration option"

record httpcapResponse =
  hs_StatusCode :: "32 word"
  hs_Headers :: "string \<rightharpoonup> string"
  hs_MultiHeaders :: "string \<rightharpoonup> string list"
  hs_Body :: bytes

record outRequest =
  or_Method :: string
  or_URL :: string
  or_Header :: Header
  or_Body :: bytes

record outAnswer =
  oa_StatusCode :: int
  oa_Header :: Header
  oa_Body :: body

text \<open>The restricted client: \<open>he_Do\<close> is an exchange, with the error it gives and that error's text, or the answer.\<close>

record HttpEnv =
  he_NewRequest :: "string \<Rightarrow> string \<Rightarrow> netErr option"
  he_Do :: "time \<Rightarrow> ctx \<Rightarrow> outRequest \<Rightarrow> (outboundError \<times> string + outAnswer) \<times> nat"
  he_alertText :: "nat \<Rightarrow> string"

definition resolveTimeout :: "duration option \<Rightarrow> duration \<Rightarrow> duration" where
  "resolveTimeout i d = (case i of None \<Rightarrow> d | Some x \<Rightarrow> if x \<le> 0 then d else x)"

definition applyHeaders :: "httpcapRequest \<Rightarrow> Header \<Rightarrow> Header" where
  "applyHeaders i h =
     (if hc_MultiHeaders i \<noteq> [] then foldl (\<lambda>h (k, vs). foldl (\<lambda>h v. Header_Add k v h) h vs) h (hc_MultiHeaders i)
      else foldl (\<lambda>h (k, v). Header_Set k v h) h (hc_Headers i))"

definition flattenHeaders :: "Header \<Rightarrow> string \<rightharpoonup> string" where
  "flattenHeaders h k = (case h k of None \<Rightarrow> None | Some vs \<Rightarrow> if vs = [] then None else Some (joinStrings '', '' vs))"

definition multiHeaders :: "Header \<Rightarrow> string \<rightharpoonup> string list" where
  "multiHeaders h k = (case h k of None \<Rightarrow> None | Some vs \<Rightarrow> if vs = [] then None else Some vs)"

definition readResponse :: "Fetcher \<Rightarrow> outAnswer \<Rightarrow> netErr + httpcapResponse" where
  "readResponse f resp = (let m = po_MaxResponseBodyBytes (ft_policy f) in
     (case readLimited (wrapInt64 (m + 1)) (oa_Body resp) of
        Inl err \<Rightarrow> Inl (errWrap ''reading response: '' err)
      | Inr body \<Rightarrow>
          if int (length body) > m then Inl (errText (''response body exceeds limit '' @ itoa m @ '' bytes''))
          else Inr \<lparr>hs_StatusCode = word_of_int (oa_StatusCode resp), hs_Headers = flattenHeaders (oa_Header resp),
                 hs_MultiHeaders = multiHeaders (oa_Header resp), hs_Body = body\<rparr>))"

definition Fetcher_Fetch ::
    "HttpEnv \<Rightarrow> Fetcher \<Rightarrow> time \<Rightarrow> ctx \<Rightarrow> httpcapRequest option \<Rightarrow> (netErr + httpcapResponse) \<times> time" where
  "Fetcher_Fetch he f t cx r = (case r of
     None \<Rightarrow> (Inl (errText ''request is nil''), t)
   | Some i \<Rightarrow> (let verb = map toUpper (trimSpace (hc_Method i)) in
       if verb \<notin> set (po_AllowedMethods (ft_policy f)) then (Inl (errText (''method '' @ goQuote verb @ '' not allowed'')), t)
       else if trimSpace (hc_Url i) = [] then (Inl (errText ''url is empty''), t)
       else let timeout = resolveTimeout (hc_Timeout i) (ft_defaultTimeout f);
                reqCtx = WithTimeout t timeout cx
            in case he_NewRequest he verb (trimSpace (hc_Url i)) of
                 Some err \<Rightarrow> (Inl (errWrap ''building request: '' err), t)
               | None \<Rightarrow> (case he_Do he t reqCtx \<lparr>or_Method = verb, or_URL = trimSpace (hc_Url i),
                         or_Header = applyHeaders i Map.empty, or_Body = hc_Body i\<rparr> of
                   (Inl (e, txt), d) \<Rightarrow>
                     ((case ClassifyOutboundHTTPError (he_alertText he) (Some e) of
                         Some hx \<Rightarrow> Inr \<lparr>hs_StatusCode = of_nat (oh_StatusCode hx), hs_Headers = Map.empty,
                             hs_MultiHeaders = Map.empty, hs_Body = bytes_of (oh_Body hx)\<rparr>
                       | None \<Rightarrow> Inl \<lparr>ne_text = ''http request failed: '' @ txt, ne_rpc = None, ne_deadline = oe_deadline e\<rparr>),
                      t + int d)
                 | (Inr resp, d) \<Rightarrow> (readResponse f resp, t + int d))))"

section \<open>The limit holds\<close>

text \<open>The limiter under a sequence of attempts and releases; the running executions are those that hold a slot.\<close>

datatype limitEvent = Attempt | Finish

definition limitStep :: "limitEvent \<Rightarrow> executionLimiter \<times> nat \<Rightarrow> executionLimiter \<times> nat" where
  "limitStep ev s = (case s of (l, running) \<Rightarrow> (case ev of
     Attempt \<Rightarrow> (case tryAcquire l of (ok, l') \<Rightarrow> (l', if ok then Suc running else running))
   | Finish \<Rightarrow> if running = 0 then s else (case release l of None \<Rightarrow> s | Some l' \<Rightarrow> (l', running - 1))))"

lemma limitStep_inv:
  assumes "\<forall>c. el_cap l = Some c \<longrightarrow> el_used l = running \<and> running \<le> c" "limitStep ev (l, running) = (l', running')"
  shows "el_cap l' = el_cap l" "\<forall>c. el_cap l' = Some c \<longrightarrow> el_used l' = running' \<and> running' \<le> c"
  using assms by (auto simp: limitStep_def tryAcquire_def release_def split: limitEvent.splits option.splits if_splits)

lemma limit_history:
  assumes "fold limitStep evs (l, running) = (l', running')" "\<forall>c. el_cap l = Some c \<longrightarrow> el_used l = running \<and> running \<le> c"
  shows "el_cap l' = el_cap l \<and> (\<forall>c. el_cap l' = Some c \<longrightarrow> el_used l' = running' \<and> running' \<le> c)"
  using assms
proof (induction evs arbitrary: l running)
  case (Cons ev evs)
  obtain l1 r1 where s: "limitStep ev (l, running) = (l1, r1)" by fastforce
  from Cons.IH [of l1 r1] Cons.prems limitStep_inv [OF Cons.prems(2) s] s show ?case by simp
qed simp

lemma concurrency_fits:
  assumes "perExecMB \<noteq> 0" "unat reserveMB + unat perExecMB \<le> unat totalMB" "unat perExecMB > 1"
  shows "nat (concurrency totalMB reserveMB perExecMB) * unat perExecMB + unat reserveMB \<le> unat totalMB"
    "concurrency totalMB reserveMB perExecMB \<ge> 1"
proof -
  have le: "\<not> totalMB \<le> reserveMB" using assms by (simp add: word_le_nat_alt)
  then have sub: "unat (totalMB - reserveMB) = unat totalMB - unat reserveMB" by (simp add: unat_sub)
  define q where "q = (totalMB - reserveMB) div perExecMB"
  have q: "unat q = (unat totalMB - unat reserveMB) div unat perExecMB" by (simp add: q_def unat_div sub)
  have "unat q \<le> unat totalMB div 2"
    using assms(3) div_le_mono2 [of 2 "unat perExecMB" "unat totalMB - unat reserveMB"] div_le_mono [of "unat totalMB - unat reserveMB" "unat totalMB" 2]
    by (simp add: q)
  moreover have "unat totalMB < 2 ^ 64" using unsigned_less [of totalMB] by simp
  ultimately have "unat q < 2 ^ 63" by simp
  then have s: "sint q = int (unat q)" by (rule sint_small)
  have "unat q \<ge> 1" using assms(2) unfolding q by (metis assms(1) div_le_mono div_self le_diff_conv2 add.commute add_leD1 unat_eq_zero)
  then have q1: "sint q \<ge> 1" using s by linarith
  then have cs: "concurrency totalMB reserveMB perExecMB = sint q"
    using assms(1) le by (simp add: concurrency_def Let_def q_def [symmetric])
  then have c: "concurrency totalMB reserveMB perExecMB = int (unat q)" using s by (rule trans)
  show "concurrency totalMB reserveMB perExecMB \<ge> 1" using cs q1 by simp
  have "unat q * unat perExecMB \<le> unat totalMB - unat reserveMB" unfolding q by simp
  moreover have "nat (concurrency totalMB reserveMB perExecMB) = unat q" unfolding c by (rule nat_int)
  ultimately show "nat (concurrency totalMB reserveMB perExecMB) * unat perExecMB + unat reserveMB \<le> unat totalMB" using assms(2) by simp
qed

text \<open>
  Concurrent executions fit into memory. With the limit derived from the
  memory of the enclave, the executions that run at any moment, each with its
  full budget, and the reserve never exceed that memory, as long as it has
  room for one; a finished execution never blocks.
\<close>

theorem memory_budget:
  assumes "unat ReserveMB + unat PerExecMB \<le> unat totalMB"
    "fold limitStep evs (newExecutionLimiter (ml_MaxConcurrent (Derive (Some totalMB))), 0) = (l, running)"
  shows "running * unat PerExecMB + unat ReserveMB \<le> unat totalMB \<and> (0 < running \<longrightarrow> release l \<noteq> None)"
proof -
  have mb: "unat ReserveMB = 1024" "unat PerExecMB = 128" by (simp_all add: ReserveMB_def PerExecMB_def)
  have "totalMB \<noteq> 0" using assms(1) mb by auto
  then have d: "ml_MaxConcurrent (Derive (Some totalMB)) = concurrency totalMB ReserveMB PerExecMB" by (simp add: Derive_def)
  have "PerExecMB \<noteq> 0" by (simp add: PerExecMB_def)
  note fits = concurrency_fits [OF this assms(1)]
  let ?c = "concurrency totalMB ReserveMB PerExecMB"
  have c: "?c \<ge> 1" "nat ?c * unat PerExecMB + unat ReserveMB \<le> unat totalMB" using fits mb by simp_all
  have "el_cap l = Some (nat ?c) \<and> el_used l = running \<and> running \<le> nat ?c"
    using limit_history [OF assms(2)] c(1) by (simp add: newExecutionLimiter_def d)
  then have "running * unat PerExecMB \<le> nat ?c * unat PerExecMB" "0 < running \<longrightarrow> release l \<noteq> None"
    by (simp_all add: release_def)
  with c(2) show ?thesis by linarith
qed

theorem memory_budget_witness:
  "3 * unat PerExecMB + unat ReserveMB \<le> unat (2048 :: 64 word)"
proof -
  have m: "ml_MaxConcurrent (Derive (Some 2048)) = 8"
    by (simp add: Derive_def concurrency_def ReserveMB_def PerExecMB_def Let_def)
  have "fold limitStep [Attempt, Attempt, Attempt] (newExecutionLimiter (ml_MaxConcurrent (Derive (Some 2048))), 0) =
      (\<lparr>el_cap = Some 8, el_used = 3\<rparr>, 3)"
    by (simp add: m newExecutionLimiter_def limitStep_def tryAcquire_def)
  from memory_budget [OF _ this] show ?thesis by (simp add: ReserveMB_def PerExecMB_def)
qed

section \<open>The cache of verified binaries\<close>

text \<open>
  The invariant: map and list agree, no key occurs twice, the size is what the entries
  take, every entry is stored under its own hash, and the size is within the bound unless
  a single entry exceeds it.
\<close>

definition entryBytes :: "(string \<times> bytes) list \<Rightarrow> int" where
  "entryBytes xs = sum_list (map (\<lambda>e. int (length (snd e))) xs)"

definition cache_ok :: "(bytes \<Rightarrow> bytes) \<Rightarrow> BinaryFetcher \<Rightarrow> bool" where
  "cache_ok H f \<longleftrightarrow> distinct (map fst (bf_evictList f)) \<and> bf_items f = map_of (bf_evictList f) \<and>
     bf_cacheBytes f = entryBytes (bf_evictList f) \<and> (\<forall>e \<in> set (bf_evictList f). fst e = hexEncode (H (snd e)))"

definition cache_bounded :: "BinaryFetcher \<Rightarrow> bool" where
  "cache_bounded f \<longleftrightarrow> 0 < bf_maxCacheBytes f \<and> (bf_cacheBytes f \<le> bf_maxCacheBytes f \<or> length (bf_evictList f) \<le> 1)"

lemma entryBytes_simps [simp]:
  "entryBytes [] = 0" "entryBytes (e # xs) = int (length (snd e)) + entryBytes xs" "entryBytes (xs @ ys) = entryBytes xs + entryBytes ys"
  by (simp_all add: entryBytes_def)

lemma filter_key_map_of:
  assumes "distinct (map fst xs)"
  shows "filter (\<lambda>e. fst e = k) xs = (case map_of xs k of None \<Rightarrow> [] | Some v \<Rightarrow> [(k, v)])"
  using assms by (induction xs) (auto simp: filter_empty_conv image_iff split: option.splits dest: map_of_SomeD)

lemma moveToFront_map_of [simp]: "distinct (map fst xs) \<Longrightarrow> map_of (moveToFront k xs) = map_of xs"
proof
  fix x assume d: "distinct (map fst xs)"
  have rest: "map_of (filter (\<lambda>e. fst e \<noteq> k) xs) x = (if x = k then None else map_of xs x)"
    by (induction xs) auto
  show "map_of (moveToFront k xs) x = map_of xs x"
    by (simp add: moveToFront_def map_add_def filter_key_map_of [OF d] rest split: option.splits)
qed

lemma moveToFront_distinct [simp]: "distinct (map fst xs) \<Longrightarrow> distinct (map fst (moveToFront k xs))"
  by (auto simp: moveToFront_def filter_key_map_of distinct_map_filter split: option.splits)

lemma moveToFront_set [simp]: "set (moveToFront k xs) = set xs"
  by (auto simp: moveToFront_def)

lemma moveToFront_bytes [simp]: "entryBytes (moveToFront k xs) = entryBytes xs"
proof -
  have "entryBytes (filter P xs) + entryBytes (filter (\<lambda>e. \<not> P e) xs) = entryBytes xs" for P
    by (induction xs) auto
  from this [of "\<lambda>e. fst e = k"] show ?thesis by (simp add: moveToFront_def)
qed

lemma moveToFront_length [simp]: "length (moveToFront k xs) = length xs"
  using sum_length_filter_compl [of "\<lambda>e. fst e = k" xs] by (simp add: moveToFront_def)

lemma map_of_butlast:
  assumes "distinct (map fst xs)" "xs \<noteq> []"
  shows "map_of (butlast xs) = (map_of xs)(fst (last xs) := None)"
proof -
  from assms obtain ys y where "xs = ys @ [y]" by (metis rev_exhaust)
  with assms show ?thesis by (auto simp: map_add_def fun_eq_iff map_of_eq_None_iff split: option.splits)
qed

lemma evictOldest_ok:
  assumes "cache_ok H f" "bf_evictList f \<noteq> []"
  shows "cache_ok H (evictOldest f)"
proof -
  have d: "distinct (map fst (bf_evictList f))" and items: "bf_items f = map_of (bf_evictList f)"
    using assms(1) by (simp_all add: cache_ok_def)
  have "bf_items (evictOldest f) = map_of (bf_evictList (evictOldest f))"
    by (simp add: evictOldest_def Let_def items map_of_butlast [OF d assms(2)])
  moreover obtain ys y where "bf_evictList f = ys @ [y]" using assms(2) by (metis rev_exhaust)
  ultimately show ?thesis using assms(1) by (simp add: cache_ok_def evictOldest_def Let_def)
qed

lemma evictOldest_max [simp]: "bf_maxCacheBytes (evictOldest f) = bf_maxCacheBytes f"
  by (simp add: evictOldest_def Let_def)

text \<open>Eviction keeps the most recently used entries and stops when there is room or nothing is left.\<close>

lemma evictFor_spec:
  shows "cache_ok H f \<Longrightarrow> cache_ok H (evictFor n f)" and "bf_maxCacheBytes (evictFor n f) = bf_maxCacheBytes f"
    and "bf_cacheBytes (evictFor n f) + n \<le> bf_maxCacheBytes f \<or> bf_evictList (evictFor n f) = []"
    and "\<exists>k. bf_evictList (evictFor n f) = take k (bf_evictList f)"
proof (induction n f rule: evictFor.induct)
  case (1 n f)
  let ?more = "bf_cacheBytes f + n > bf_maxCacheBytes f \<and> bf_evictList f \<noteq> []"
  { case 1 show ?case using "1.IH"(1) evictOldest_ok [OF 1] 1 by (subst evictFor.simps) auto }
  { case 2 show ?case using "1.IH"(2) by (subst evictFor.simps) auto }
  { case 3 show ?case
    proof (cases ?more)
      case True
      with "1.IH"(3) show ?thesis by (subst (1 2) evictFor.simps) simp
    qed (subst (1 2) evictFor.simps, auto) }
  { case 4 show ?case
    proof (cases ?more)
      case True
      from "1.IH"(4) [OF True] obtain k where "bf_evictList (evictFor n (evictOldest f)) = take k (butlast (bf_evictList f))"
        by (auto simp: evictOldest_def Let_def)
      then show ?thesis using True by (subst evictFor.simps) (auto simp: butlast_conv_take take_take intro: exI)
    qed (subst evictFor.simps, auto intro: exI [of _ "length (bf_evictList f)"]) }
qed

lemma cacheGet_ok:
  assumes "cache_ok H f" "cacheGet k f = (r, f')"
  shows "cache_ok H f'" "r = map_of (bf_evictList f) k" "cache_bounded f \<Longrightarrow> cache_bounded f'"
    "bf_maxCacheBytes f' = bf_maxCacheBytes f"
  using assms by (auto simp: cacheGet_def cache_ok_def cache_bounded_def split: option.splits)

lemma cachePut_ok:
  assumes "cache_ok H f"
  shows "cache_ok H (cachePut (hexEncode (H v)) v f)"
proof (cases "bf_items f (hexEncode (H v))")
  case None
  define f1 where "f1 = evictFor (int (length v)) f"
  have ok: "cache_ok H f1" unfolding f1_def using assms by (rule evictFor_spec)
  obtain k where "bf_evictList f1 = take k (bf_evictList f)" using evictFor_spec(4) f1_def by blast
  moreover have "hexEncode (H v) \<notin> fst ` set (bf_evictList f)"
    using None assms by (simp add: cache_ok_def map_of_eq_None_iff)
  ultimately have "hexEncode (H v) \<notin> fst ` set (bf_evictList f1)" by (auto dest: in_set_takeD)
  then show ?thesis using None ok by (simp add: cachePut_def f1_def [symmetric] Let_def cache_ok_def)
next
  case (Some w)
  then show ?thesis using assms by (simp add: cachePut_def cache_ok_def)
qed

lemma cachePut_bounded:
  assumes "cache_bounded f" shows "cache_bounded (cachePut k v f)"
proof (cases "bf_items f k")
  case None
  define f1 where "f1 = evictFor (int (length v)) f"
  have "bf_cacheBytes f1 + int (length v) \<le> bf_maxCacheBytes f \<or> bf_evictList f1 = []" "bf_maxCacheBytes f1 = bf_maxCacheBytes f"
    unfolding f1_def by (rule evictFor_spec)+
  then show ?thesis using None assms by (auto simp: cachePut_def f1_def [symmetric] Let_def cache_bounded_def)
next
  case (Some w)
  then show ?thesis using assms by (simp add: cachePut_def cache_bounded_def)
qed

lemma SetMaxCacheBytes_ok:
  assumes "cache_ok H f" shows "cache_ok H (SetMaxCacheBytes m f)"
proof (cases "m \<le> 0")
  case False
  have "cache_ok H (f\<lparr>bf_maxCacheBytes := m\<rparr>)" using assms by (simp add: cache_ok_def)
  from evictFor_spec(1) [OF this] False show ?thesis by (simp add: SetMaxCacheBytes_def)
qed (simp add: SetMaxCacheBytes_def assms)

lemma SetMaxCacheBytes_bounded:
  assumes "cache_bounded f" shows "cache_bounded (SetMaxCacheBytes m f)"
proof (cases "m \<le> 0")
  case False
  let ?f = "f\<lparr>bf_maxCacheBytes := m\<rparr>"
  have "bf_cacheBytes (evictFor 0 ?f) + 0 \<le> bf_maxCacheBytes ?f \<or> bf_evictList (evictFor 0 ?f) = []"
    "bf_maxCacheBytes (evictFor 0 ?f) = bf_maxCacheBytes ?f"
    by (rule evictFor_spec)+
  with False show ?thesis by (auto simp: SetMaxCacheBytes_def cache_bounded_def)
qed (simp add: SetMaxCacheBytes_def assms)

text \<open>
  Executions share the fetcher: between the lookup and the insertion of one, others may
  look up, insert and resize. A history is the sequence of those critical sections; what
  is inserted has been verified.
\<close>

datatype cacheOp = Lookup string | Insert bytes | Resize int

primrec cacheStep :: "(bytes \<Rightarrow> bytes) \<Rightarrow> cacheOp \<Rightarrow> BinaryFetcher \<Rightarrow> BinaryFetcher" where
  "cacheStep H (Lookup k) f = snd (cacheGet k f)"
| "cacheStep H (Insert v) f = cachePut (hexEncode (H v)) v f"
| "cacheStep H (Resize m) f = SetMaxCacheBytes m f"

definition cacheHistory :: "(bytes \<Rightarrow> bytes) \<Rightarrow> cacheOp list \<Rightarrow> BinaryFetcher" where
  "cacheHistory H ops = fold (cacheStep H) ops NewBinaryFetcher"

lemma cacheStep_ok: "cache_ok H f \<Longrightarrow> cache_ok H (cacheStep H op f)"
  by (cases op) (simp_all add: cacheGet_ok(1) [OF _ surjective_pairing] cachePut_ok SetMaxCacheBytes_ok)

lemma cacheStep_bounded: "cache_ok H f \<Longrightarrow> cache_bounded f \<Longrightarrow> cache_bounded (cacheStep H op f)"
  by (cases op) (simp_all add: cacheGet_ok(3) [OF _ surjective_pairing] cachePut_bounded SetMaxCacheBytes_bounded)

lemma NewBinaryFetcher_ok [simp]: "cache_ok H NewBinaryFetcher" "cache_bounded NewBinaryFetcher"
  by (simp_all add: NewBinaryFetcher_def newBinaryFetcher_def cache_ok_def cache_bounded_def DefaultMaxBinaryCacheBytes_def)

lemma cacheHistory_snoc: "cacheHistory H (ops @ [op]) = cacheStep H op (cacheHistory H ops)"
  by (simp add: cacheHistory_def)

lemma cacheHistory_ok: "cache_ok H (cacheHistory H ops)" "cache_bounded (cacheHistory H ops)"
proof -
  have "cache_ok H (cacheHistory H ops) \<and> cache_bounded (cacheHistory H ops)"
  proof (induction ops rule: rev_induct)
    case (snoc op ops)
    then show ?case by (simp add: cacheHistory_snoc cacheStep_ok cacheStep_bounded)
  qed (simp add: cacheHistory_def)
  then show "cache_ok H (cacheHistory H ops)" "cache_bounded (cacheHistory H ops)" by simp_all
qed

lemma BinaryFetcher_Fetch_hash:
  assumes "cache_ok H f" "BinaryFetcher_Fetch H t cx locator binaryHash raw f = (Inr b, f', t')"
  shows "H b = binaryHash" "f' = cacheStep H (Lookup (hexEncode binaryHash)) f \<or>
    f' = cacheStep H (Insert b) (cacheStep H (Lookup (hexEncode binaryHash)) f)"
    "map_of (bf_evictList f') (hexEncode binaryHash) = Some b"
proof -
  obtain r f1 where g: "cacheGet (hexEncode binaryHash) f = (r, f1)" by fastforce
  note ok = cacheGet_ok(1,2) [OF assms(1) g]
  have hit: "H v = binaryHash" if "map_of (bf_evictList f) (hexEncode binaryHash) = Some v" for v
    using assms(1) map_of_SomeD [OF that] by (fastforce simp: cache_ok_def)
  have same: "map_of (bf_evictList f1) = map_of (bf_evictList f)"
    using g assms(1) by (auto simp: cacheGet_def cache_ok_def split: option.splits)
  have put: "map_of (bf_evictList (cachePut (hexEncode binaryHash) b f1)) (hexEncode binaryHash) = Some b" if "r = None"
    using that ok same by (auto simp: cachePut_def Let_def cache_ok_def split: option.splits)
  from assms(2) g ok hit same put
  show "H b = binaryHash" "f' = cacheStep H (Lookup (hexEncode binaryHash)) f \<or>
      f' = cacheStep H (Insert b) (cacheStep H (Lookup (hexEncode binaryHash)) f)"
    "map_of (bf_evictList f') (hexEncode binaryHash) = Some b"
    by (auto simp: BinaryFetcher_Fetch_def Let_def split: if_splits option.splits prod.splits sum.splits)
qed

text \<open>
  A workflow binary is what was asked for. Whatever the storage service
  answers and however the executions that share the cache interleave, a
  fetched binary has the requested hash, and the fetch is itself one or two
  steps of such a history.
\<close>

theorem binary_verified:
  assumes "BinaryFetcher_Fetch H t cx locator binaryHash raw (cacheHistory H ops) = (Inr b, f', t')"
  shows "H b = binaryHash \<and> (\<exists>more. f' = cacheHistory H (ops @ more))"
proof -
  note f = BinaryFetcher_Fetch_hash [OF cacheHistory_ok(1) assms]
  let ?look = "Lookup (hexEncode binaryHash)"
  have "f' = cacheHistory H (ops @ [?look]) \<or> f' = cacheHistory H ((ops @ [?look]) @ [Insert b])"
    using f(2) by (simp only: cacheHistory_snoc)
  with f(1) show ?thesis by auto
qed

text \<open>A storage service that serves two binaries, and its hash: the length.\<close>

definition sampleStore :: RawFetcher where
  "sampleStore t cx locator = (if locator = ''a'' then (Inr [1, 2, 3], t + 5) else (Inr [4, 5], t + 5))"

definition lengthHash :: "bytes \<Rightarrow> bytes" where
  "lengthHash b = [of_nat (length b)]"

lemmas fetch_eval = BinaryFetcher_Fetch_def cacheHistory_def NewBinaryFetcher_def newBinaryFetcher_def cacheGet_def
  cachePut_def sampleStore_def lengthHash_def DefaultMaxBinaryCacheBytes_def evictFor.simps Let_def hexDigit_def

theorem binary_verified_witness:
  "(\<exists>f'. BinaryFetcher_Fetch lengthHash 0 Background ''a'' [3] (Some sampleStore) (cacheHistory lengthHash [Insert [9, 9]]) = (Inr [1, 2, 3], f', 5)) \<and>
   lengthHash [1, 2, 3] = [3]"
proof -
  obtain f' where f: "BinaryFetcher_Fetch lengthHash 0 Background ''a'' [3] (Some sampleStore) (cacheHistory lengthHash [Insert [9, 9]]) =
      (Inr [1, 2, 3], f', 5)"
    by (simp add: fetch_eval)
  from binary_verified [OF this] f show ?thesis by blast
qed

text \<open>
  The bound of the binary cache. After any history the recorded size is the
  total of the cached binaries, and it is within the configured bound unless
  the cache holds one single binary that is larger.
\<close>

theorem binary_cache_bound:
  "bf_cacheBytes (cacheHistory H ops) = entryBytes (bf_evictList (cacheHistory H ops)) \<and>
   (bf_cacheBytes (cacheHistory H ops) \<le> bf_maxCacheBytes (cacheHistory H ops) \<or> length (bf_evictList (cacheHistory H ops)) = 1)"
proof -
  let ?f = "cacheHistory H ops"
  have "bf_cacheBytes ?f = entryBytes (bf_evictList ?f)" using cacheHistory_ok(1) [of H ops] by (simp add: cache_ok_def)
  moreover have "bf_evictList ?f = [] \<Longrightarrow> bf_cacheBytes ?f \<le> bf_maxCacheBytes ?f"
    using cacheHistory_ok [of H ops] by (simp add: cache_ok_def cache_bounded_def)
  moreover have "length (bf_evictList ?f) \<le> 1 \<Longrightarrow> bf_evictList ?f = [] \<or> length (bf_evictList ?f) = 1"
    by (cases "bf_evictList ?f") auto
  ultimately show ?thesis using cacheHistory_ok(2) [of H ops] unfolding cache_bounded_def by blast
qed

text \<open>
  A binary is downloaded once. After a successful fetch the same hash is
  served from the cache, at once and without the storage service, also under
  another locator.
\<close>

theorem binary_cached:
  assumes "BinaryFetcher_Fetch H t cx locator binaryHash raw (cacheHistory H ops) = (Inr b, f', t')"
  shows "fst (BinaryFetcher_Fetch H u cx2 locator2 binaryHash (Some raw2) f') = Inr b \<and>
    snd (snd (BinaryFetcher_Fetch H u cx2 locator2 binaryHash (Some raw2) f')) = u"
proof -
  note f = BinaryFetcher_Fetch_hash [OF cacheHistory_ok(1) assms]
  have "cache_ok H f'" using f(2) cacheStep_ok cacheHistory_ok(1) by metis
  then have "bf_items f' (hexEncode binaryHash) = Some b" using f(3) by (simp add: cache_ok_def)
  moreover have "binaryHash \<noteq> []" using assms by (auto simp: BinaryFetcher_Fetch_def)
  ultimately show ?thesis by (simp add: BinaryFetcher_Fetch_def cacheGet_def Let_def)
qed

theorem binary_cached_witness:
  "\<exists>f'. BinaryFetcher_Fetch lengthHash 0 Background ''a'' [3] (Some sampleStore) (cacheHistory lengthHash []) = (Inr [1, 2, 3], f', 5) \<and>
    fst (BinaryFetcher_Fetch lengthHash 7 Background ''b'' [3] (Some sampleStore) f') = Inr [1, 2, 3]"
proof -
  obtain f' where f: "BinaryFetcher_Fetch lengthHash 0 Background ''a'' [3] (Some sampleStore) (cacheHistory lengthHash []) =
      (Inr [1, 2, 3], f', 5)"
    by (simp add: fetch_eval)
  from binary_cached [OF this] f show ?thesis by blast
qed

section \<open>Sizes of downloads\<close>

lemma length_EncodeToString: "length (EncodeToString b) = 4 * ((length b + 2) div 3)"
proof (induction b rule: EncodeToString.induct)
  case (4 a b c r)
  have "(5 + n) div 3 = Suc (Suc (Suc n) div 3)" for n :: nat by presburger
  with 4 show ?case by simp
qed simp_all

lemma decodeQuanta_length: "decodeQuanta s = Some b \<Longrightarrow> 4 * length b \<le> 3 * length s"
  by (induction s arbitrary: b rule: decodeQuanta.induct) (fastforce split: option.splits if_splits)+

lemma DecodeString_length:
  assumes "DecodeString s = Some b" shows "4 * length b \<le> 3 * length s"
proof -
  have "length (filter (\<lambda>c. c \<noteq> CHR 0x0A \<and> c \<noteq> CHR 0x0D) s) \<le> length s" by (rule length_filter_le)
  moreover have "4 * length b \<le> 3 * length (filter (\<lambda>c. c \<noteq> CHR 0x0A \<and> c \<noteq> CHR 0x0D) s)"
    using assms unfolding DecodeString_def by (rule decodeQuanta_length)
  ultimately show ?thesis by linarith
qed

lemma string_of_bytes_of [simp]: "string_of (bytes_of s) = s"
proof -
  have "unat (of_char c :: 8 word) = of_char c" for c
    using unat_of_nat [where 'a = 8, of "of_char c"] by (simp only: of_nat_of_char) simp
  then show ?thesis by (simp add: string_of_def bytes_of_def map_idI)
qed

lemma length_string_of [simp]: "length (string_of b) = length b"
  by (simp add: string_of_def)

lemma wrapInt64_small: "- (2 ^ 63) \<le> i \<Longrightarrow> i < 2 ^ 63 \<Longrightarrow> wrapInt64 i = i"
  unfolding wrapInt64_def by (rule signed_take_bit_int_eq_self) simp_all

lemma maxEncodedBytes_exact:
  assumes "0 < m" "m < 2 ^ 61"
  shows "maxEncodedBytes m = m * 4 div 3 + 4"
proof -
  have "wrapInt64 (m * 4) = m * 4" using assms by (simp add: wrapInt64_small)
  moreover have "m * 4 sdiv 3 = m * 4 div 3" using assms by (simp add: signed_divide_int_def)
  moreover have "wrapInt64 (m * 4 div 3 + 4) = m * 4 div 3 + 4" using assms by (simp add: wrapInt64_small)
  ultimately show ?thesis by (simp add: maxEncodedBytes_def)
qed

lemma readLimited_length: "readLimited n b = Inr x \<Longrightarrow> int (length x) \<le> max 0 n"
  by (auto simp: readLimited_def split: if_splits option.splits)

text \<open>
  The size limit on downloads. Every binary up to the limit that the storage
  service sends in base64 is accepted as it is, and nothing more than three
  bytes larger is ever returned.
\<close>

theorem download_sizes:
  assumes "0 < sf_maxBytes f" "sf_maxBytes f < 2 ^ 61"
  shows "(\<forall>b. int (length b) \<le> sf_maxBytes f \<longrightarrow> readBinary se f (200, bytes_of (EncodeToString b), None) = Inr b) \<and>
    (\<forall>resp b. readBinary se f resp = Inr b \<longrightarrow> int (length b) \<le> sf_maxBytes f + 3)"
proof (intro conjI allI impI)
  let ?m = "maxEncodedBytes (sf_maxBytes f)"
  have m: "?m = sf_maxBytes f * 4 div 3 + 4" using assms by (rule maxEncodedBytes_exact)
  then have w: "wrapInt64 (?m + 1) = ?m + 1" using assms by (simp add: wrapInt64_small)
  fix b :: bytes assume "int (length b) \<le> sf_maxBytes f"
  then have "int (length (EncodeToString b)) \<le> ?m" unfolding m length_EncodeToString by simp
  then show "readBinary se f (200, bytes_of (EncodeToString b), None) = Inr b"
    by (simp add: readBinary_def w readLimited_def Let_def)
next
  fix resp b assume r: "readBinary se f resp = Inr b"
  then obtain e where "int (length e) \<le> maxEncodedBytes (sf_maxBytes f)" "DecodeString (string_of e) = Some b"
    by (auto simp: readBinary_def Let_def not_less split: if_splits sum.splits option.splits)
  then have "4 * int (length b) \<le> 3 * maxEncodedBytes (sf_maxBytes f)" using DecodeString_length [of "string_of e" b] by simp
  then show "int (length b) \<le> sf_maxBytes f + 3" using maxEncodedBytes_exact [OF assms] by simp
qed

definition sampleStorage :: StorageFetcher where
  "sampleStorage = \<lparr>sf_target = ''passthrough:///store'', sf_tls = True, sf_key = replicate 64 7, sf_maxBytes = 3, sf_timeout = 60 * second\<rparr>"

theorem download_sizes_witness:
  "\<forall>se. readBinary se sampleStorage (200, bytes_of (EncodeToString [1, 2, 3]), None) = Inr [1, 2, 3]"
proof
  fix se
  have "0 < sf_maxBytes sampleStorage" "sf_maxBytes sampleStorage < 2 ^ 61" "int (length [1, 2, 3 :: 8 word]) \<le> sf_maxBytes sampleStorage"
    by (simp_all add: sampleStorage_def)
  with download_sizes [of sampleStorage se]
  show "readBinary se sampleStorage (200, bytes_of (EncodeToString [1, 2, 3]), None) = Inr [1, 2, 3]" by blast
qed

text \<open>The slack is real: twice the limit of three bytes passes.\<close>

lemma download_slack: "readBinary se sampleStorage (200, bytes_of (EncodeToString [1, 2, 3, 4, 5, 6]), None) = Inr [1, 2, 3, 4, 5, 6]"
proof -
  have m: "maxEncodedBytes 3 = 8" by (simp add: maxEncodedBytes_exact)
  have l: "length (EncodeToString [1, 2, 3, 4, 5, 6]) = 8" by (simp add: length_EncodeToString)
  show ?thesis by (simp add: readBinary_def sampleStorage_def m wrapInt64_small readLimited_def Let_def l del: EncodeToString.simps)
qed

section \<open>What outbound requests reach the network\<close>

lemma WithTimeout_deadline: "\<exists>d. cx_Done (WithTimeout t timeout cx) = Some d \<and> d \<le> t + timeout"
  by (auto simp: WithTimeout_def split: option.splits)

lemma Fetcher_Fetch_cong:
  assumes "he_NewRequest he' = he_NewRequest he" "he_alertText he' = he_alertText he"
    "\<And>cx' r. or_Method r \<in> set (po_AllowedMethods (ft_policy f)) \<Longrightarrow> or_URL r \<noteq> [] \<Longrightarrow>
       (\<exists>d. cx_Done cx' = Some d \<and> d \<le> t + resolveTimeout (hc_Timeout i) (ft_defaultTimeout f)) \<Longrightarrow> he_Do he' t cx' r = he_Do he t cx' r"
  shows "Fetcher_Fetch he' f t cx (Some i) = Fetcher_Fetch he f t cx (Some i)"
  using assms(3) WithTimeout_deadline unfolding Fetcher_Fetch_def assms(1,2) by (simp add: Let_def split: option.split)

text \<open>
  Outbound requests keep to the policy. Two networks that agree on requests
  with an allowed verb, a URL and a deadline within the timeout cannot be told
  apart by a workflow: no other request is ever made.
\<close>

theorem http_requests_policed:
  assumes "he_NewRequest he' = he_NewRequest he" "he_alertText he' = he_alertText he"
    "\<forall>cx' r. or_Method r \<in> set (po_AllowedMethods (ft_policy f)) \<and> or_URL r \<noteq> [] \<and>
       (\<exists>d. cx_Done cx' = Some d \<and> d \<le> t + resolveTimeout (hc_Timeout i) (ft_defaultTimeout f)) \<longrightarrow> he_Do he' t cx' r = he_Do he t cx' r"
  shows "Fetcher_Fetch he' f t cx (Some i) = Fetcher_Fetch he f t cx (Some i)"
  using assms(1,2) by (rule Fetcher_Fetch_cong) (use assms(3) in blast)

text \<open>A network that answers every request, and one that answers only with a deadline.\<close>

definition openNetwork :: HttpEnv where
  "openNetwork = \<lparr>he_NewRequest = (\<lambda>verb url. None),
     he_Do = (\<lambda>t cx r. (Inr \<lparr>oa_StatusCode = 200, oa_Header = Map.empty, oa_Body = ([111, 107], None)\<rparr>, 3)), he_alertText = (\<lambda>_. [])\<rparr>"

definition deadlineNetwork :: HttpEnv where
  "deadlineNetwork = openNetwork\<lparr>he_Do := (\<lambda>t cx r. if cx_Done cx = None then (Inr \<lparr>oa_StatusCode = 500, oa_Header = Map.empty, oa_Body = ([], None)\<rparr>, 3)
     else he_Do openNetwork t cx r)\<rparr>"

definition sampleGet :: httpcapRequest where
  "sampleGet = \<lparr>hc_Method = '' get'', hc_Url = ''https://api.example.com'', hc_Headers = [], hc_MultiHeaders = [], hc_Body = [], hc_Timeout = None\<rparr>"

theorem http_requests_policed_witness:
  "Fetcher_Fetch deadlineNetwork (NewFetcherWithClient DefaultPolicy) 0 Background (Some sampleGet) =
   Fetcher_Fetch openNetwork (NewFetcherWithClient DefaultPolicy) 0 Background (Some sampleGet)"
  by (rule http_requests_policed) (auto simp: deadlineNetwork_def)

text \<open>The locator of an artifact: a bare id is kept, a URL gives the segment after \<^verbatim>\<open>artifacts\<close>.\<close>

lemma splitOn_plain: "c \<notin> set xs \<Longrightarrow> splitOn c xs = [xs]"
  by (induction xs) auto

lemma dropWhile_no_slash: "s = [] \<or> hd s \<noteq> CHR ''/'' \<Longrightarrow> dropWhile (\<lambda>c. c = CHR ''/'') s = s"
  by (cases s) auto

lemma artifactID_url:
  assumes "Contains locator ''://''" "urlPath locator = Some (''/artifacts/'' @ artifact @ ''/binary.wasm'')" "CHR ''/'' \<notin> set artifact"
  shows "artifactID urlPath locator = artifact"
proof -
  have "trimSlashes (''/artifacts/'' @ artifact @ ''/binary.wasm'') = ''artifacts'' @ CHR ''/'' # artifact @ CHR ''/'' # ''binary.wasm''"
    by (simp add: trimSlashes_def dropWhile_no_slash)
  moreover have "splitOn (CHR ''/'') (''artifacts'' @ CHR ''/'' # artifact @ CHR ''/'' # ''binary.wasm'') = [''artifacts'', artifact, ''binary.wasm'']"
    using assms(3) splitOn_line [of "CHR ''/''" "''artifacts''" "artifact @ CHR ''/'' # ''binary.wasm''"]
    by (simp add: splitOn_line)
  ultimately show ?thesis using assms(1,2) by (simp add: artifactID_def)
qed

lemma artifactID_bare: "\<not> Contains locator ''://'' \<Longrightarrow> artifactID urlPath locator = locator"
  by (simp add: artifactID_def)

end
