(* ===== verification/CC_Proxy.thy ===== *)
theory CC_Proxy
  imports CC_Gateway
begin

text \<open>
  The network of a Nitro enclave: the dialer inside it
  (\<^verbatim>\<open>src/enclave/nitro/proxy-client\<close>) and the SOCKS server of its parent instance
  (\<^verbatim>\<open>src/enclave/nitro/host/proxy-server\<close>). The dialer decides by host name and port
  and announces a profile; the server resolves the name and decides by address.
  The SOCKS library, URL parsing and the network are arguments. The lemmas show which
  addresses a workflow can reach and that a configured endpoint is the only one its
  dialer accepts.
\<close>

section \<open>Authorities\<close>

text \<open>\<^verbatim>\<open>strings.HasSuffix\<close>, \<^verbatim>\<open>strings.HasPrefix\<close> and \<^verbatim>\<open>strings.TrimSuffix\<close>.\<close>

definition hasSuffix :: "string \<Rightarrow> string \<Rightarrow> bool" where
  "hasSuffix s suf \<longleftrightarrow> length suf \<le> length s \<and> drop (length s - length suf) s = suf"

definition hasPrefix :: "string \<Rightarrow> string \<Rightarrow> bool" where
  "hasPrefix s p \<longleftrightarrow> take (length p) s = p"

definition trimSuffix :: "string \<Rightarrow> string \<Rightarrow> string" where
  "trimSuffix s suf = (if hasSuffix s suf then take (length s - length suf) s else s)"

text \<open>\<^verbatim>\<open>net.SplitHostPort\<close>: the host, which may stand in brackets, and what follows the last colon.\<close>

definition lastColon :: "string \<Rightarrow> nat option" where
  "lastColon s = (if CHR '':'' \<in> set s then Some (length s - 1 - length (takeWhile (\<lambda>c. c \<noteq> CHR '':'') (rev s))) else None)"

text \<open>The text of a \<^verbatim>\<open>net.AddrError\<close>.\<close>

definition addrErr :: "string \<Rightarrow> string \<Rightarrow> string + 'a" where
  "addrErr addr why = Inl (if addr \<noteq> [] then ''address '' @ addr @ '': '' @ why else why)"

definition SplitHostPort :: "string \<Rightarrow> string + string \<times> string" where
  "SplitHostPort hostport = (case lastColon hostport of
     None \<Rightarrow> addrErr hostport ''missing port in address''
   | Some i \<Rightarrow>
       if hd hostport = CHR ''['' then
         (let close = length (takeWhile (\<lambda>c. c \<noteq> CHR '']'') hostport)
          in if CHR '']'' \<notin> set hostport then addrErr hostport (''missing '' @ [CHR 0x27, CHR '']'', CHR 0x27] @ '' in address'')
             else if close + 1 = length hostport then addrErr hostport ''missing port in address''
             else if close + 1 \<noteq> i then
               (if hostport ! (close + 1) = CHR '':'' then addrErr hostport ''too many colons in address''
                else addrErr hostport ''missing port in address'')
             else if CHR ''['' \<in> set (drop 1 hostport) then addrErr hostport (''unexpected '' @ [CHR 0x27, CHR ''['', CHR 0x27] @ '' in address'')
             else if CHR '']'' \<in> set (drop (close + 1) hostport)
             then addrErr hostport (''unexpected '' @ [CHR 0x27, CHR '']'', CHR 0x27] @ '' in address'')
             else Inr (take (close - 1) (drop 1 hostport), drop (i + 1) hostport))
       else if CHR '':'' \<in> set (take i hostport) then addrErr hostport ''too many colons in address''
       else if CHR ''['' \<in> set hostport then addrErr hostport (''unexpected '' @ [CHR 0x27, CHR ''['', CHR 0x27] @ '' in address'')
       else if CHR '']'' \<in> set hostport then addrErr hostport (''unexpected '' @ [CHR 0x27, CHR '']'', CHR 0x27] @ '' in address'')
       else Inr (take i hostport, drop (i + 1) hostport))"

definition JoinHostPort :: "string \<Rightarrow> string \<Rightarrow> string" where
  "JoinHostPort host port = (if CHR '':'' \<in> set host then ''['' @ host @ '']:'' @ port else host @ '':'' @ port)"

text \<open>\<^verbatim>\<open>strconv.ParseUint(s, 10, 16)\<close>.\<close>

definition parsePort :: "string \<Rightarrow> nat option" where
  "parsePort s = (if s = [] then None else case digitsVal 0 s of
     None \<Rightarrow> None
   | Some n \<Rightarrow> if n < 2 ^ 16 then Some n else None)"

section \<open>The policies of the dialer (proxy-client/policy.go)\<close>

text \<open>\<open>UnknownKind\<close> stands for the values of the byte that have no name.\<close>

datatype policyKind = WorkflowControlled | ConfiguredEndpoint | PreSignedURL | InsecureFixture | UnknownKind

definition ProxyProfilePublic :: string where
  "ProxyProfilePublic = ''public''"

definition ProxyProfileConfigured :: string where
  "ProxyProfileConfigured = ''configured''"

definition ProxyProfileTest :: string where
  "ProxyProfileTest = ''test''"

record dialPolicy =
  pl_kind :: policyKind
  pl_profile :: string
  pl_authorities :: "string set"

definition workflowControlledPolicy :: dialPolicy where
  "workflowControlledPolicy = \<lparr>pl_kind = WorkflowControlled, pl_profile = ProxyProfilePublic, pl_authorities = {}\<rparr>"

definition preSignedURLPolicy :: dialPolicy where
  "preSignedURLPolicy = \<lparr>pl_kind = PreSignedURL, pl_profile = ProxyProfilePublic, pl_authorities = {}\<rparr>"

definition insecureFixturePolicy :: dialPolicy where
  "insecureFixturePolicy = \<lparr>pl_kind = InsecureFixture, pl_profile = ProxyProfileTest, pl_authorities = {}\<rparr>"

definition canonicalAuthority :: "string \<Rightarrow> string \<Rightarrow> string + string \<times> nat" where
  "canonicalAuthority host port = (case parsePort port of
     None \<Rightarrow> Inl (''invalid destination port '' @ goQuote port)
   | Some n \<Rightarrow>
       if n = 0 then Inl (''invalid destination port '' @ goQuote port)
       else let h = map toLower (trimSuffix host ''.'') in
         if h = [] then Inl ''destination host is empty''
         else Inr (JoinHostPort h (decimal n), n))"

text \<open>\<open>urlParse\<close> is what \<^verbatim>\<open>net/url\<close> finds: scheme, host name and port, the latter possibly empty.\<close>

definition endpointAuthority :: "(string \<Rightarrow> (string \<times> string \<times> string) option) \<Rightarrow> string \<Rightarrow> string + string" where
  "endpointAuthority urlParse endpoint =
     (if endpoint = [] then Inl ''operator endpoint is empty''
      else if Contains endpoint ''://'' then
        (case urlParse endpoint of
           None \<Rightarrow> Inl (''invalid operator endpoint '' @ goQuote endpoint)
         | Some (scheme, hostname, port) \<Rightarrow>
             if hostname = [] then Inl (''invalid operator endpoint '' @ goQuote endpoint)
             else (let p = (if port \<noteq> [] then Some port
                            else if map toLower scheme = ''https'' then Some ''443''
                            else if map toLower scheme = ''http'' then Some ''80'' else None)
                   in case p of
                        None \<Rightarrow> Inl (''operator endpoint '' @ goQuote endpoint @ '' has unsupported scheme'')
                      | Some q \<Rightarrow> map_sum id fst (canonicalAuthority hostname q)))
      else case SplitHostPort endpoint of
        Inl err \<Rightarrow> Inl (''operator endpoint '' @ goQuote endpoint @ '' must include a port: '' @ err)
      | Inr (host, port) \<Rightarrow> map_sum id fst (canonicalAuthority host port))"

primrec authoritiesOf :: "(string \<Rightarrow> (string \<times> string \<times> string) option) \<Rightarrow> string list \<Rightarrow> string + string list" where
  "authoritiesOf urlParse [] = Inr []"
| "authoritiesOf urlParse (e # es) = (case endpointAuthority urlParse (trimSpace e) of
     Inl err \<Rightarrow> Inl err
   | Inr a \<Rightarrow> (case authoritiesOf urlParse es of Inl err \<Rightarrow> Inl err | Inr as \<Rightarrow> Inr (a # as)))"

definition configuredEndpointPolicy ::
    "(string \<Rightarrow> (string \<times> string \<times> string) option) \<Rightarrow> string list \<Rightarrow> string + dialPolicy" where
  "configuredEndpointPolicy urlParse endpoints =
     (case authoritiesOf urlParse (concat (map (splitOn (CHR '','')) endpoints)) of
        Inl err \<Rightarrow> Inl err
      | Inr as \<Rightarrow>
          if as = [] then Inl ''at least one operator endpoint is required''
          else Inr \<lparr>pl_kind = ConfiguredEndpoint, pl_profile = ProxyProfileConfigured, pl_authorities = set as\<rparr>)"

text \<open>The reason of the \<open>PolicyError\<close>, if the destination is refused.\<close>

definition validateAuthority :: "dialPolicy \<Rightarrow> string \<Rightarrow> string \<Rightarrow> string option" where
  "validateAuthority p host port = (case canonicalAuthority host port of
     Inl err \<Rightarrow> Some err
   | Inr (authority, portNumber) \<Rightarrow> (case pl_kind p of
       WorkflowControlled \<Rightarrow> if portNumber \<noteq> 80 \<and> portNumber \<noteq> 443 then Some ''port is not 80 or 443'' else None
     | PreSignedURL \<Rightarrow> if portNumber \<noteq> 443 then Some ''artifact port is not 443'' else None
     | InsecureFixture \<Rightarrow> None
     | ConfiguredEndpoint \<Rightarrow>
         if authority \<notin> pl_authorities p then Some ''destination is not the configured operator endpoint'' else None
     | UnknownKind \<Rightarrow> Some ''unknown network policy''))"

section \<open>The dialer (proxy-client/client.go)\<close>

definition handshakeTimeout :: duration where
  "handshakeTimeout = 10 * second"

datatype dialError = PolicyError string | EHOSTUNREACH | ECONNREFUSED | DialError netErr

definition mapSOCKSError :: "netErr \<Rightarrow> dialError" where
  "mapSOCKSError err =
     (if hasSuffix (ne_text err) ''unknown error host unreachable'' then EHOSTUNREACH
      else if hasSuffix (ne_text err) ''unknown error connection refused'' then ECONNREFUSED
      else if hasSuffix (ne_text err) ''unknown error connection not allowed by ruleset''
      then PolicyError ''destination address is not allowed''
      else DialError err)"

text \<open>
  \<open>socks\<close> is the SOCKS5 client of the \<^verbatim>\<open>x/net/proxy\<close> package: with a profile as user and password,
  from a time on and under a context, it asks for an address; \<open>'c\<close> is the connection.
\<close>

type_synonym 'c socksDialer = "string \<Rightarrow> time \<Rightarrow> ctx \<Rightarrow> string \<Rightarrow> string \<Rightarrow> (netErr + 'c) \<times> nat"

definition DialContext :: "'c socksDialer \<Rightarrow> dialPolicy \<Rightarrow> time \<Rightarrow> ctx \<Rightarrow> string \<Rightarrow> string \<Rightarrow> (dialError + 'c) \<times> time" where
  "DialContext socks p t cx network address =
     (if network \<noteq> ''tcp'' \<and> network \<noteq> ''tcp4''
      then (Inl (DialError (errText (''outbound proxy supports only TCP, got '' @ goQuote network))), t)
      else case SplitHostPort address of
        Inl _ \<Rightarrow> (Inl (PolicyError ''invalid destination authority''), t)
      | Inr (host, port) \<Rightarrow> (case validateAuthority p host port of
          Some reason \<Rightarrow> (Inl (PolicyError reason), t)
        | None \<Rightarrow> (case socks (pl_profile p) t (WithTimeout t handshakeTimeout cx) network address of
            (Inl err, d) \<Rightarrow> (Inl (mapSOCKSError err), t + int d)
          | (Inr conn, d) \<Rightarrow> (Inr conn, t + int d))))"

text \<open>The connection to the parent over vsock: what dialing gives and how long it takes, unless the context ends first.\<close>

definition vsockDialContext :: "(netErr + 'c) \<times> nat \<Rightarrow> time \<Rightarrow> ctx \<Rightarrow> (netErr + 'c) \<times> time" where
  "vsockDialContext dialed t cx = (case waitFor t (int (snd dialed)) cx of
     (Some err, t1) \<Rightarrow> (Inl err, t1)
   | (None, t1) \<Rightarrow> (fst dialed, t1))"

section \<open>Addresses\<close>

text \<open>\<^verbatim>\<open>netip.Addr\<close>: an IPv4 address as a number, or the sixteen bytes of an IPv6 address.\<close>

datatype netipAddr = Addr4 "32 word" | Addr6 bytes

definition ipv4 :: "nat \<Rightarrow> nat \<Rightarrow> nat \<Rightarrow> nat \<Rightarrow> 32 word" where
  "ipv4 a b c d = of_nat (((a * 256 + b) * 256 + c) * 256 + d)"

definition AddrFromSlice :: "bytes \<Rightarrow> netipAddr option" where
  "AddrFromSlice b =
     (if length b = 4 then Some (Addr4 (ipv4 (unat (b ! 0)) (unat (b ! 1)) (unat (b ! 2)) (unat (b ! 3))))
      else if length b = 16 then Some (Addr6 b) else None)"

text \<open>\<^verbatim>\<open>Unmap\<close>: an IPv4 address that is mapped into IPv6.\<close>

definition Unmap :: "netipAddr \<Rightarrow> netipAddr" where
  "Unmap a = (case a of
     Addr4 w \<Rightarrow> a
   | Addr6 b \<Rightarrow> if take 12 b = replicate 10 0 @ [255, 255]
       then Addr4 (ipv4 (unat (b ! 12)) (unat (b ! 13)) (unat (b ! 14)) (unat (b ! 15))) else a)"

text \<open>An IPv4 prefix and \<^verbatim>\<open>Prefix.Contains\<close>.\<close>

definition prefixContains :: "32 word \<times> nat \<Rightarrow> 32 word \<Rightarrow> bool" where
  "prefixContains p a \<longleftrightarrow> drop_bit (32 - snd p) a = drop_bit (32 - snd p) (fst p)"

section \<open>The rules of the parent (proxy-server)\<close>

definition safeURLBlockedIPv4 :: "(32 word \<times> nat) list" where
  "safeURLBlockedIPv4 = [(ipv4 10 0 0 0, 8), (ipv4 172 16 0 0, 12), (ipv4 192 168 0 0, 16), (ipv4 127 0 0 0, 8),
     (ipv4 0 0 0 0, 8), (ipv4 169 254 0 0, 16), (ipv4 192 0 0 0, 24), (ipv4 192 0 2 0, 24), (ipv4 198 51 100 0, 24),
     (ipv4 203 0 113 0, 24), (ipv4 192 88 99 0, 24), (ipv4 198 18 0 0, 15), (ipv4 224 0 0 0, 4), (ipv4 240 0 0 0, 4),
     (ipv4 255 255 255 255, 32), (ipv4 100 64 0 0, 10)]"

definition publicProfileAllowsAddress :: "netipAddr \<Rightarrow> bool" where
  "publicProfileAllowsAddress addr = (case addr of
     Addr6 _ \<Rightarrow> False
   | Addr4 w \<Rightarrow> \<not> list_ex (\<lambda>blocked. prefixContains blocked w) safeURLBlockedIPv4)"

definition alwaysBlockedIPv4Prefixes :: "(32 word \<times> nat) list" where
  "alwaysBlockedIPv4Prefixes = [(ipv4 0 0 0 0, 8), (ipv4 240 0 0 0, 4)]"

definition outboundDialTimeout :: duration where
  "outboundDialTimeout = 10 * second"

record ruleSet =
  ru_localAddresses :: "netipAddr set"
  ru_allowLocalDestinationsForTests :: bool

text \<open>\<^verbatim>\<open>IsUnspecified\<close>, \<^verbatim>\<open>IsLinkLocalUnicast\<close>, \<^verbatim>\<open>IsMulticast\<close> and \<^verbatim>\<open>IsLoopback\<close> of an IPv4 address.\<close>

definition destinationDenied :: "ruleSet \<Rightarrow> netipAddr \<Rightarrow> bool" where
  "destinationDenied r address = (case address of
     Addr6 _ \<Rightarrow> True
   | Addr4 w \<Rightarrow>
       if w = 0 \<or> prefixContains (ipv4 169 254 0 0, 16) w \<or> prefixContains (ipv4 224 0 0 0, 4) w then True
       else if \<not> ru_allowLocalDestinationsForTests r \<and>
               (prefixContains (ipv4 127 0 0 0, 8) w \<or> address \<in> ru_localAddresses r) then True
       else list_ex (\<lambda>prefix. prefixContains prefix w) alwaysBlockedIPv4Prefixes)"

text \<open>A SOCKS request: its command, the user it authenticated as, and the resolved address.\<close>

record socksRequest =
  so_connect :: bool
  so_username :: "string option"
  so_DestIP :: "bytes option"

definition Allow :: "ruleSet \<Rightarrow> socksRequest \<Rightarrow> bool" where
  "Allow r request \<longleftrightarrow> (case (so_username request, so_DestIP request) of
     (Some user, Some ip) \<Rightarrow>
       if \<not> so_connect request then False
       else (case AddrFromSlice ip of
           None \<Rightarrow> False
         | Some a \<Rightarrow>
             if destinationDenied r (Unmap a) then False
             else if user = ProxyProfilePublic then publicProfileAllowsAddress (Unmap a)
             else if user = ProxyProfileConfigured \<or> user = ProxyProfileTest then True
             else False)
   | _ \<Rightarrow> False)"

text \<open>The addresses of the interfaces; \<open>ParsePrefix\<close> gives the address of a prefix in text.\<close>

primrec localInterfaceAddresses :: "(string \<Rightarrow> netErr + netipAddr) \<Rightarrow> string list \<Rightarrow> netErr + netipAddr set" where
  "localInterfaceAddresses ParsePrefix [] = Inr {}"
| "localInterfaceAddresses ParsePrefix (raw # rest) = (case ParsePrefix raw of
     Inl err \<Rightarrow> Inl (errWrap (''parse local interface address '' @ goQuote raw @ '': '') err)
   | Inr a \<Rightarrow> map_sum id (insert (Unmap a)) (localInterfaceAddresses ParsePrefix rest))"

definition newProxyRules :: "(string \<Rightarrow> netErr + netipAddr) \<Rightarrow> netErr + string list \<Rightarrow> bool \<Rightarrow> netErr + ruleSet" where
  "newProxyRules ParsePrefix interfaces allowLocal = (case interfaces of
     Inl err \<Rightarrow> Inl (errWrap ''enumerate local interface addresses: '' err)
   | Inr raws \<Rightarrow> (case localInterfaceAddresses ParsePrefix raws of
       Inl err \<Rightarrow> Inl err
     | Inr as \<Rightarrow> Inr \<lparr>ru_localAddresses = as, ru_allowLocalDestinationsForTests = allowLocal\<rparr>))"

text \<open>What the library reports is a failure, unless the enclave closed an established tunnel.\<close>

definition isEnclaveTunnelClose :: "string \<Rightarrow> bool" where
  "isEnclaveTunnelClose message \<longleftrightarrow> hasPrefix message ''server: writeto tcp '' \<and> Contains message '': write vsock '' \<and>
     hasSuffix message '': broken pipe''"

datatype proxyLog = Debugw string | Warnw string

definition socksLogger_Errorf :: "bool \<Rightarrow> string \<Rightarrow> proxyLog option" where
  "socksLogger_Errorf debug message =
     (if isEnclaveTunnelClose message then (if debug then Some (Debugw message) else None) else Some (Warnw message))"

section \<open>Addresses in octets\<close>

lemma prefixContains_unat: "prefixContains (p, n) w \<longleftrightarrow> unat w div 2 ^ (32 - n) = unat p div 2 ^ (32 - n)"
  unfolding prefixContains_def fst_conv snd_conv word_unat_eq_iff unat_drop_bit_eq by (simp add: drop_bit_eq_div)

lemma unat_ipv4: "a < 256 \<Longrightarrow> b < 256 \<Longrightarrow> c < 256 \<Longrightarrow> d < 256 \<Longrightarrow> unat (ipv4 a b c d) = ((a * 256 + b) * 256 + c) * 256 + d"
  unfolding ipv4_def unat_of_nat by simp

text \<open>
  The special-purpose ranges that workflows must not reach, by octets: this host, private
  networks, shared addresses, loopback, link-local, documentation, benchmarking, relays,
  multicast and reserved addresses.
\<close>

definition specialPurpose :: "nat \<Rightarrow> nat \<Rightarrow> nat \<Rightarrow> bool" where
  "specialPurpose a b c \<longleftrightarrow> a = 0 \<or> a = 10 \<or> (a = 100 \<and> 64 \<le> b \<and> b < 128) \<or> a = 127 \<or> (a = 169 \<and> b = 254) \<or>
     (a = 172 \<and> 16 \<le> b \<and> b < 32) \<or> (a = 192 \<and> (b = 168 \<or> b = 0 \<and> (c = 0 \<or> c = 2) \<or> b = 88 \<and> c = 99)) \<or>
     (a = 198 \<and> (b = 18 \<or> b = 19 \<or> b = 51 \<and> c = 100)) \<or> (a = 203 \<and> b = 0 \<and> c = 113) \<or> 224 \<le> a"

lemma octet_divs:
  assumes "a < 256" "b < 256" "c < 256" "d < 256"
  shows "unat (ipv4 a b c d) div 256 = (a * 256 + b) * 256 + c" "unat (ipv4 a b c d) div 65536 = a * 256 + b"
    "unat (ipv4 a b c d) div 16777216 = a"
    "unat (ipv4 a b c d) div 1048576 = (a * 256 + b) div 16" "unat (ipv4 a b c d) div 4194304 = (a * 256 + b) div 64"
    "unat (ipv4 a b c d) div 131072 = (a * 256 + b) div 2" "unat (ipv4 a b c d) div 268435456 = a div 16"
proof -
  have u: "unat (ipv4 a b c d) = ((a * 256 + b) * 256 + c) * 256 + d" using assms by (rule unat_ipv4)
  have step: "(n * 256 + r) div 256 = n" if "r < 256" for n r :: nat using that by simp
  show d8: "unat (ipv4 a b c d) div 256 = (a * 256 + b) * 256 + c" unfolding u using assms(4) by (rule step)
  show d16: "unat (ipv4 a b c d) div 65536 = a * 256 + b"
    using div_mult2_eq [of "unat (ipv4 a b c d)" 256 256] step [OF assms(3)] by (simp only: d8) simp
  show d24: "unat (ipv4 a b c d) div 16777216 = a"
    using div_mult2_eq [of "unat (ipv4 a b c d)" 65536 256] step [OF assms(2)] by (simp only: d16) simp
  show "unat (ipv4 a b c d) div 1048576 = (a * 256 + b) div 16"
    using div_mult2_eq [of "unat (ipv4 a b c d)" 65536 16] by (simp only: d16) simp
  show "unat (ipv4 a b c d) div 4194304 = (a * 256 + b) div 64"
    using div_mult2_eq [of "unat (ipv4 a b c d)" 65536 64] by (simp only: d16) simp
  show "unat (ipv4 a b c d) div 131072 = (a * 256 + b) div 2"
    using div_mult2_eq [of "unat (ipv4 a b c d)" 65536 2] by (simp only: d16) simp
  show "unat (ipv4 a b c d) div 268435456 = a div 16"
    using div_mult2_eq [of "unat (ipv4 a b c d)" 16777216 16] by (simp only: d24) simp
qed

lemma base_eq: "r < k \<Longrightarrow> s < k \<Longrightarrow> a * k + r = p * k + s \<longleftrightarrow> a = p \<and> r = s" for a r p s k :: nat
  by (metis div_mult_self3 mod_mult_self3 add.commute div_less mod_less add_0 not_less0 mult.commute add.right_neutral)

lemma div_nat_eq_iff: "0 < k \<Longrightarrow> n div k = q \<longleftrightarrow> q * k \<le> n \<and> n < Suc q * k" for k n q :: nat
  by (metis div_nat_eqI div_times_less_eq_dividend mult.commute dividend_less_div_times mult_Suc add.commute)

lemma base_range:
  fixes a b :: nat
  assumes "b < m * k" "0 < k" "q < m"
  shows "(a * (m * k) + b) div k = p * m + q \<longleftrightarrow> a = p \<and> q * k \<le> b \<and> b < Suc q * k"
proof -
  have "(a * (m * k) + b) div k = (b + a * m * k) div k" by (simp add: ac_simps)
  also have "\<dots> = a * m + b div k" using assms(2) by simp
  finally have "(a * (m * k) + b) div k = a * m + b div k" .
  moreover have "b div k < m" using assms by (simp add: less_mult_imp_div_less)
  moreover have "b div k = q \<longleftrightarrow> q * k \<le> b \<and> b < Suc q * k"
    using assms(2) by (rule div_nat_eq_iff)
  ultimately show ?thesis using base_eq [of "b div k" m q a p] assms(3) by simp
qed

lemma octet_prefixes:
  assumes "a < 256" "b < 256" "c < 256" "d < 256"
  shows "p < 256 \<Longrightarrow> prefixContains (ipv4 p 0 0 0, 8) (ipv4 a b c d) \<longleftrightarrow> a = p"
    "p < 256 \<Longrightarrow> q < 256 \<Longrightarrow> prefixContains (ipv4 p q 0 0, 16) (ipv4 a b c d) \<longleftrightarrow> a = p \<and> b = q"
    "p < 256 \<Longrightarrow> q < 256 \<Longrightarrow> r < 256 \<Longrightarrow> prefixContains (ipv4 p q r 0, 24) (ipv4 a b c d) \<longleftrightarrow> a = p \<and> b = q \<and> c = r"
    "prefixContains (ipv4 172 16 0 0, 12) (ipv4 a b c d) \<longleftrightarrow> a = 172 \<and> 16 \<le> b \<and> b < 32"
    "prefixContains (ipv4 100 64 0 0, 10) (ipv4 a b c d) \<longleftrightarrow> a = 100 \<and> 64 \<le> b \<and> b < 128"
    "prefixContains (ipv4 198 18 0 0, 15) (ipv4 a b c d) \<longleftrightarrow> a = 198 \<and> (b = 18 \<or> b = 19)"
    "prefixContains (ipv4 224 0 0 0, 4) (ipv4 a b c d) \<longleftrightarrow> 224 \<le> a \<and> a < 240"
    "prefixContains (ipv4 240 0 0 0, 4) (ipv4 a b c d) \<longleftrightarrow> 240 \<le> a"
    "prefixContains (ipv4 255 255 255 255, 32) (ipv4 a b c d) \<Longrightarrow> 240 \<le> a"
proof -
  note e = prefixContains_unat octet_divs assms
  show "p < 256 \<Longrightarrow> prefixContains (ipv4 p 0 0 0, 8) (ipv4 a b c d) \<longleftrightarrow> a = p" by (simp add: e)
  show "p < 256 \<Longrightarrow> q < 256 \<Longrightarrow> prefixContains (ipv4 p q 0 0, 16) (ipv4 a b c d) \<longleftrightarrow> a = p \<and> b = q"
    using assms(2) by (simp add: e base_eq)
  show "p < 256 \<Longrightarrow> q < 256 \<Longrightarrow> r < 256 \<Longrightarrow> prefixContains (ipv4 p q r 0, 24) (ipv4 a b c d) \<longleftrightarrow> a = p \<and> b = q \<and> c = r"
    using assms(2,3) base_eq [of c 256 r "a * 256 + b" "p * 256 + q"] base_eq [of b 256 q a p] by (simp add: e)
  show "prefixContains (ipv4 172 16 0 0, 12) (ipv4 a b c d) \<longleftrightarrow> a = 172 \<and> 16 \<le> b \<and> b < 32"
    using base_range [of b 16 16 1 a 172] assms(2) by (simp add: e)
  show "prefixContains (ipv4 100 64 0 0, 10) (ipv4 a b c d) \<longleftrightarrow> a = 100 \<and> 64 \<le> b \<and> b < 128"
    using base_range [of b 4 64 1 a 100] assms(2) by (simp add: e)
  show "prefixContains (ipv4 198 18 0 0, 15) (ipv4 a b c d) \<longleftrightarrow> a = 198 \<and> (b = 18 \<or> b = 19)"
    using base_range [of b 128 2 9 a 198] assms(2) by (auto simp: e)
  show "prefixContains (ipv4 224 0 0 0, 4) (ipv4 a b c d) \<longleftrightarrow> 224 \<le> a \<and> a < 240"
    using div_nat_eq_iff [of 16 a 14] by (simp add: e)
  show "prefixContains (ipv4 240 0 0 0, 4) (ipv4 a b c d) \<longleftrightarrow> 240 \<le> a"
    using div_nat_eq_iff [of 16 a 15] by (simp add: e)
  show "240 \<le> a" if "prefixContains (ipv4 255 255 255 255, 32) (ipv4 a b c d)"
  proof -
    have "ipv4 a b c d = ipv4 255 255 255 255" using that by (simp add: prefixContains_def)
    then have "unat (ipv4 a b c d) div 16777216 = unat (ipv4 255 255 255 255) div 16777216" by simp
    then show ?thesis by (simp add: octet_divs assms)
  qed
qed

section \<open>Where workflows can connect\<close>

lemma publicProfile_octets:
  assumes "a < 256" "b < 256" "c < 256" "d < 256"
  shows "publicProfileAllowsAddress (Addr4 (ipv4 a b c d)) \<longleftrightarrow> \<not> specialPurpose a b c"
proof -
  let ?in = "\<lambda>p n. prefixContains (p, n) (ipv4 a b c d)"
  note o = octet_prefixes [OF assms]
  have eights: "?in (ipv4 10 0 0 0) 8 \<longleftrightarrow> a = 10" "?in (ipv4 127 0 0 0) 8 \<longleftrightarrow> a = 127" "?in (ipv4 0 0 0 0) 8 \<longleftrightarrow> a = 0"
    by (simp_all add: o(1))
  have sixteens: "?in (ipv4 192 168 0 0) 16 \<longleftrightarrow> a = 192 \<and> b = 168" "?in (ipv4 169 254 0 0) 16 \<longleftrightarrow> a = 169 \<and> b = 254"
    by (simp_all add: o(2))
  have blocks: "?in (ipv4 192 0 0 0) 24 \<longleftrightarrow> a = 192 \<and> b = 0 \<and> c = 0" "?in (ipv4 192 0 2 0) 24 \<longleftrightarrow> a = 192 \<and> b = 0 \<and> c = 2"
    "?in (ipv4 198 51 100 0) 24 \<longleftrightarrow> a = 198 \<and> b = 51 \<and> c = 100" "?in (ipv4 203 0 113 0) 24 \<longleftrightarrow> a = 203 \<and> b = 0 \<and> c = 113"
    "?in (ipv4 192 88 99 0) 24 \<longleftrightarrow> a = 192 \<and> b = 88 \<and> c = 99"
    by (simp_all add: o(3))
  have "list_ex (\<lambda>blocked. prefixContains blocked (ipv4 a b c d)) safeURLBlockedIPv4 \<longleftrightarrow> specialPurpose a b c"
    unfolding safeURLBlockedIPv4_def specialPurpose_def list_ex_iff list.set bex_simps(5) bex_empty eights sixteens blocks o(4-8)
    by (rule iffI; elim disjE conjE; use o(9) in force)
  then show ?thesis by (simp add: publicProfileAllowsAddress_def)
qed

lemma word_octets:
  obtains a b c d where "a < 256" "b < 256" "c < 256" "d < 256" "w = ipv4 a b c d"
proof -
  let ?n = "unat w"
  have n: "?n < 2 ^ 32" using unsigned_less [of w] by simp
  let ?a = "?n div 256 div 256 div 256"
  have "?a < 256" using n by (simp add: div_mult2_eq [symmetric])
  moreover have "((?a * 256 + ?n div 256 div 256 mod 256) * 256 + ?n div 256 mod 256) * 256 + ?n mod 256 = ?n"
    by (simp only: div_mult_mod_eq)
  then have "w = ipv4 ?a (?n div 256 div 256 mod 256) (?n div 256 mod 256) (?n mod 256)"
    unfolding ipv4_def by simp
  ultimately show ?thesis using that [of ?a "?n div 256 div 256 mod 256" "?n div 256 mod 256" "?n mod 256"] by simp
qed

lemma Allow_public:
  assumes "Allow rules \<lparr>so_connect = True, so_username = Some ProxyProfilePublic, so_DestIP = Some ip\<rparr>"
  obtains a b c d where "a < 256" "b < 256" "c < 256" "d < 256"
    "map_option Unmap (AddrFromSlice ip) = Some (Addr4 (ipv4 a b c d))" "\<not> specialPurpose a b c"
proof -
  obtain x where x: "AddrFromSlice ip = Some x" "publicProfileAllowsAddress (Unmap x)"
    using assms by (auto simp: Allow_def split: option.splits if_splits)
  then obtain w where w: "Unmap x = Addr4 w" by (cases "Unmap x") (auto simp: publicProfileAllowsAddress_def)
  obtain a b c d where o: "a < 256" "b < 256" "c < 256" "d < 256" "w = ipv4 a b c d" by (rule word_octets)
  then show ?thesis using that x w publicProfile_octets [OF o(1-4)] by simp
qed

lemma DialContext_Inr:
  assumes "DialContext socks p t cx network address = (Inr conn, t')"
  obtains host port d where "SplitHostPort address = Inr (host, port)" "validateAuthority p host port = None"
    "socks (pl_profile p) t (WithTimeout t handshakeTimeout cx) network address = (Inr conn, d)"
  using assms by (auto simp: DialContext_def split: if_splits sum.splits prod.splits option.splits)

lemma canonicalAuthority_port: "canonicalAuthority host port = Inr (authority, n) \<Longrightarrow> parsePort port = Some n"
  by (auto simp: canonicalAuthority_def Let_def split: option.splits if_splits)

text \<open>
  C28. Workflows reach public addresses only. A connection that the dialer for
  workflow requests or artifact downloads opens through a proxy that follows
  its rules goes to port 80 or 443 of an IPv4 address outside every
  special-purpose range, even if a name resolves to a private address.
\<close>

theorem workflow_traffic_public:
  assumes "\<forall>profile t cx network address conn d. socks profile t cx network address = (Inr conn, d) \<longrightarrow>
      Allow rules \<lparr>so_connect = True, so_username = Some profile, so_DestIP = Some (destIP conn)\<rparr>"
    "p = workflowControlledPolicy \<or> p = preSignedURLPolicy"
    "DialContext socks p t cx network address = (Inr conn, t')"
  shows "\<exists>a b c d host port n. map_option Unmap (AddrFromSlice (destIP conn)) = Some (Addr4 (ipv4 a b c d)) \<and>
    a < 256 \<and> b < 256 \<and> c < 256 \<and> \<not> specialPurpose a b c \<and>
    SplitHostPort address = Inr (host, port) \<and> parsePort port = Some n \<and> n \<in> {80, 443}"
proof -
  obtain host port k where h: "SplitHostPort address = Inr (host, port)" "validateAuthority p host port = None"
    "socks (pl_profile p) t (WithTimeout t handshakeTimeout cx) network address = (Inr conn, k)"
    using assms(3) by (rule DialContext_Inr)
  have "pl_profile p = ProxyProfilePublic" using assms(2) by (auto simp: workflowControlledPolicy_def preSignedURLPolicy_def)
  then have "Allow rules \<lparr>so_connect = True, so_username = Some ProxyProfilePublic, so_DestIP = Some (destIP conn)\<rparr>"
    using assms(1) h(3) by metis
  then obtain a b c d where o: "a < 256" "b < 256" "c < 256" "d < 256"
    "map_option Unmap (AddrFromSlice (destIP conn)) = Some (Addr4 (ipv4 a b c d))" "\<not> specialPurpose a b c"
    by (rule Allow_public)
  obtain authority n where n: "canonicalAuthority host port = Inr (authority, n)" "n = 80 \<or> n = 443"
    using h(2) assms(2) by (auto simp: validateAuthority_def workflowControlledPolicy_def preSignedURLPolicy_def split: sum.splits if_splits)
  then have "n \<in> {80, 443}" by simp
  with o h(1) canonicalAuthority_port [OF n(1)] show ?thesis by blast
qed

text \<open>A proxy that resolves every name to one address and follows its rules.\<close>

definition sampleRules :: ruleSet where
  "sampleRules = \<lparr>ru_localAddresses = {}, ru_allowLocalDestinationsForTests = False\<rparr>"

definition resolvingProxy :: "bytes \<Rightarrow> bytes socksDialer" where
  "resolvingProxy ip profile t cx network address =
     (if Allow sampleRules \<lparr>so_connect = True, so_username = Some profile, so_DestIP = Some ip\<rparr> then (Inr ip, 2)
      else (Inl (errText ''unknown error connection not allowed by ruleset''), 2))"

lemma sample_split: "SplitHostPort ''api.example.com:443'' = Inr (''api.example.com'', ''443'')"
  by (simp add: SplitHostPort_def lastColon_def)

lemma sample_port: "parsePort ''443'' = Some 443"
  by (simp add: parsePort_def digitVal_def)

theorem workflow_traffic_public_witness:
  "\<exists>t'. DialContext (resolvingProxy [8, 8, 4, 4]) workflowControlledPolicy 0 Background ''tcp'' ''api.example.com:443'' = (Inr [8, 8, 4, 4], t') \<and>
    (\<exists>a b c d. map_option Unmap (AddrFromSlice [8, 8, 4, 4]) = Some (Addr4 (ipv4 a b c d)) \<and> \<not> specialPurpose a b c)"
proof -
  have w: "AddrFromSlice [8, 8, 4, 4] = Some (Addr4 (ipv4 8 8 4 4))" by (simp add: AddrFromSlice_def)
  have "publicProfileAllowsAddress (Addr4 (ipv4 8 8 4 4))" by (simp add: publicProfile_octets specialPurpose_def)
  moreover have "\<not> destinationDenied sampleRules (Addr4 (ipv4 8 8 4 4))"
    by (simp add: destinationDenied_def sampleRules_def octet_prefixes alwaysBlockedIPv4Prefixes_def) (simp add: ipv4_def)
  ultimately have "Allow sampleRules \<lparr>so_connect = True, so_username = Some ProxyProfilePublic, so_DestIP = Some [8, 8, 4, 4]\<rparr>"
    using w by (simp add: Allow_def Unmap_def)
  moreover have "validateAuthority workflowControlledPolicy ''api.example.com'' ''443'' = None"
    by (simp add: validateAuthority_def canonicalAuthority_def sample_port workflowControlledPolicy_def trimSuffix_def hasSuffix_def Let_def)
  ultimately obtain t' where d: "DialContext (resolvingProxy [8, 8, 4, 4]) workflowControlledPolicy 0 Background ''tcp'' ''api.example.com:443'' =
      (Inr [8, 8, 4, 4], t')"
    by (simp add: DialContext_def sample_split resolvingProxy_def workflowControlledPolicy_def)
  have "\<forall>profile t cx network address conn d. resolvingProxy [8, 8, 4, 4] profile t cx network address = (Inr conn, d) \<longrightarrow>
      Allow sampleRules \<lparr>so_connect = True, so_username = Some profile, so_DestIP = Some (id conn)\<rparr>"
    by (simp add: resolvingProxy_def)
  from workflow_traffic_public [OF this _ d] d show ?thesis unfolding id_apply by blast
qed

text \<open>
  What no profile reaches. Whatever user a request names, the proxy connects
  only to IPv4 addresses that are neither unspecified nor link-local, such as
  the metadata service of the cloud, nor multicast or reserved, and outside
  of tests neither loopback nor an address of the parent instance.
\<close>

theorem proxy_never_reaches:
  assumes "Allow rules request"
  shows "\<exists>a b c d. a < 256 \<and> b < 256 \<and> c < 256 \<and> d < 256 \<and>
    map_option Unmap (Option.bind (so_DestIP request) AddrFromSlice) = Some (Addr4 (ipv4 a b c d)) \<and>
    a \<noteq> 0 \<and> \<not> (a = 169 \<and> b = 254) \<and> a < 224 \<and>
    (ru_allowLocalDestinationsForTests rules \<or> a \<noteq> 127 \<and> Addr4 (ipv4 a b c d) \<notin> ru_localAddresses rules)"
proof -
  obtain ip x where x: "so_DestIP request = Some ip" "AddrFromSlice ip = Some x" "\<not> destinationDenied rules (Unmap x)"
    using assms by (auto simp: Allow_def split: option.splits if_splits)
  then obtain w where w: "Unmap x = Addr4 w" by (cases "Unmap x") (auto simp: destinationDenied_def)
  obtain a b c d where o: "a < 256" "b < 256" "c < 256" "d < 256" "w = ipv4 a b c d" by (rule word_octets)
  note p = octet_prefixes [OF o(1-4)]
  have "\<not> prefixContains (ipv4 0 0 0 0, 8) w" "\<not> prefixContains (ipv4 169 254 0 0, 16) w" "\<not> prefixContains (ipv4 224 0 0 0, 4) w"
    "\<not> prefixContains (ipv4 240 0 0 0, 4) w"
    "ru_allowLocalDestinationsForTests rules \<or> \<not> prefixContains (ipv4 127 0 0 0, 8) w \<and> Addr4 w \<notin> ru_localAddresses rules"
    using x(3) unfolding w destinationDenied_def alwaysBlockedIPv4Prefixes_def by (auto split: if_splits)
  then have "a \<noteq> 0" "\<not> (a = 169 \<and> b = 254)" "a < 224"
    "ru_allowLocalDestinationsForTests rules \<or> a \<noteq> 127 \<and> Addr4 (ipv4 a b c d) \<notin> ru_localAddresses rules"
    unfolding o(5) by (simp_all add: p(1,2,7,8))
  moreover have "map_option Unmap (Option.bind (so_DestIP request) AddrFromSlice) = Some (Addr4 (ipv4 a b c d))"
    using x w o(5) by simp
  ultimately show ?thesis using o(1-4) by blast
qed

theorem proxy_never_reaches_witness:
  "\<exists>a b c d. Some (Addr4 (ipv4 10 0 0 7)) = Some (Addr4 (ipv4 a b c d)) \<and> a \<noteq> 0 \<and> a < 224"
proof -
  let ?r = "\<lparr>so_connect = True, so_username = Some ProxyProfileConfigured, so_DestIP = Some [10, 0, 0, 7]\<rparr>"
  have "\<not> destinationDenied sampleRules (Addr4 (ipv4 10 0 0 7))"
    by (simp add: destinationDenied_def sampleRules_def octet_prefixes alwaysBlockedIPv4Prefixes_def) (simp add: ipv4_def)
  then have "Allow sampleRules ?r" by (simp add: Allow_def AddrFromSlice_def Unmap_def ProxyProfileConfigured_def ProxyProfilePublic_def)
  from proxy_never_reaches [OF this] show ?thesis by (auto simp: AddrFromSlice_def Unmap_def)
qed

lemma authoritiesOf_Inr:
  "authoritiesOf urlParse es = Inr as \<Longrightarrow> a \<in> set as \<Longrightarrow> \<exists>e\<in>set es. endpointAuthority urlParse (trimSpace e) = Inr a"
  by (induction es arbitrary: as) (auto split: sum.splits)

text \<open>
  The operator's endpoints and nothing else. A connection of the dialer for
  configured endpoints goes to the authority of one of the endpoints it was
  given, up to letter case and a trailing dot.
\<close>

theorem configured_endpoints_only:
  assumes "configuredEndpointPolicy urlParse endpoints = Inr p" "DialContext socks p t cx network address = (Inr conn, t')"
  shows "\<exists>host port authority n e. SplitHostPort address = Inr (host, port) \<and> canonicalAuthority host port = Inr (authority, n) \<and>
    e \<in> set (concat (map (splitOn (CHR '','')) endpoints)) \<and> endpointAuthority urlParse (trimSpace e) = Inr authority"
proof -
  obtain as where as: "authoritiesOf urlParse (concat (map (splitOn (CHR '','')) endpoints)) = Inr as"
    "p = \<lparr>pl_kind = ConfiguredEndpoint, pl_profile = ProxyProfileConfigured, pl_authorities = set as\<rparr>"
    using assms(1) by (auto simp: configuredEndpointPolicy_def split: sum.splits if_splits)
  obtain host port where h: "SplitHostPort address = Inr (host, port)" "validateAuthority p host port = None"
    using assms(2) by (rule DialContext_Inr)
  then obtain authority n where "canonicalAuthority host port = Inr (authority, n)" "authority \<in> set as"
    by (auto simp: validateAuthority_def as(2) split: sum.splits if_splits)
  with h(1) authoritiesOf_Inr [OF as(1)] show ?thesis by blast
qed

lemma sample_decimal: "decimal 443 = ''443''"
  by code_simp

lemma sample_authority: "endpointAuthority (\<lambda>_. None) ''api.example.com:443'' = Inr ''api.example.com:443''"
  by (simp add: endpointAuthority_def sample_split canonicalAuthority_def sample_port trimSuffix_def hasSuffix_def
    Let_def JoinHostPort_def toLower_def sample_decimal)

theorem configured_endpoints_only_witness:
  "\<exists>p t'. configuredEndpointPolicy (\<lambda>_. None) [''api.example.com:443''] = Inr p \<and>
    DialContext (\<lambda>_ _ _ _ _. (Inr (), 1)) p 0 Background ''tcp'' ''api.example.com:443'' = (Inr (), t') \<and>
    (\<exists>authority n. canonicalAuthority ''api.example.com'' ''443'' = Inr (authority, n))"
proof -
  have split: "splitOn (CHR '','') ''api.example.com:443'' = [''api.example.com:443'']" by simp
  have trim: "trimSpace ''api.example.com:443'' = ''api.example.com:443''" by (simp add: trimSpace_def isSpace_def)
  obtain p where p: "configuredEndpointPolicy (\<lambda>_. None) [''api.example.com:443''] = Inr p"
    "pl_kind p = ConfiguredEndpoint" "pl_authorities p = {''api.example.com:443''}"
    by (simp add: configuredEndpointPolicy_def split trim sample_authority)
  have c: "canonicalAuthority ''api.example.com'' ''443'' = Inr (''api.example.com:443'', 443)"
    by (simp add: canonicalAuthority_def sample_port trimSuffix_def hasSuffix_def Let_def JoinHostPort_def toLower_def sample_decimal)
  obtain t' where d: "DialContext (\<lambda>_ _ _ _ _. (Inr (), 1)) p 0 Background ''tcp'' ''api.example.com:443'' = (Inr (), t')"
    by (simp add: DialContext_def sample_split validateAuthority_def c p)
  from configured_endpoints_only [OF p(1) d] p(1) d show ?thesis by (auto simp: sample_split)
qed

end
