(* ===== verification/CC_Workflows.thy ===== *)
theory CC_Workflows
  imports CC_Server CC_Relay CC_Fetch CC_Proxy
begin

text \<open>
  The application that runs workflows inside the enclave: \<^verbatim>\<open>settings.go\<close>, \<^verbatim>\<open>app.go\<close>,
  \<^verbatim>\<open>execution_helper.go\<close> and \<^verbatim>\<open>wasm.go\<close> under
  \<^verbatim>\<open>src/enclave/apps/confidential-workflows/app\<close>, and the factories of its Nitro
  environment. The WASM host is a library: a compiled module is given by the calls
  it makes of the execution helper and what it does with their results. The
  lemmas show that every execution returns and gives its slot back, what settings
  change, which binary runs, and which calls leave the enclave.
\<close>

section \<open>Settings (app/settings.go)\<close>

record WorkflowSettings =
  ws_StorageKey :: string
  ws_StorageServiceURL :: string
  ws_StorageServiceTLS :: bool
  ws_GatewayURL :: string
  ws_MaxBinarySize :: int
  ws_BinaryFetchTimeout :: duration
  ws_MaxCacheBytes :: int
  ws_RequestTimeout :: duration
  ws_GatewayRequestTimeout :: duration
  ws_GatewayRetryBackoff :: duration
  ws_GatewayRetryTimeout :: duration
  ws_ExecutionTimeout :: duration
  ws_WorkflowGracePeriod :: duration
  ws_MaxConcurrentCompilations :: int

definition defaultMaxConcurrentCompilations :: int where
  "defaultMaxConcurrentCompilations = 4"

definition DefaultWorkflowGracePeriod :: duration where
  "DefaultWorkflowGracePeriod = 2 * second"

definition validateSettings :: "WorkflowSettings \<Rightarrow> netErr option" where
  "validateSettings s =
     (let missing = (if ws_StorageKey s = [] then [''storageKey''] else []) @
            (if ws_StorageServiceURL s = [] then [''storageServiceUrl''] else []) @
            (if ws_GatewayURL s = [] then [''gatewayUrl''] else [])
      in if ws_MaxConcurrentCompilations s < 0
         then Some (errText (''maxConcurrentCompilations must be non-negative; 0 means the default of '' @
                itoa defaultMaxConcurrentCompilations @ '' (got '' @ itoa (ws_MaxConcurrentCompilations s) @ '')''))
         else if missing \<noteq> [] then Some (errText (''missing required settings: '' @ joinStrings '', '' missing))
         else None)"

text \<open>
  \<^verbatim>\<open>Duration.UnmarshalJSON\<close>: a string in Go's notation or a number of nanoseconds. The JSON
  decoders and \<^verbatim>\<open>time.ParseDuration\<close> are arguments.
\<close>

definition Duration_UnmarshalJSON ::
    "(bytes \<Rightarrow> netErr + string) \<Rightarrow> (bytes \<Rightarrow> netErr + int) \<Rightarrow> (string \<Rightarrow> netErr + duration) \<Rightarrow> bytes \<Rightarrow> netErr + duration" where
  "Duration_UnmarshalJSON jsonString jsonInt64 ParseDuration b =
     (if b \<noteq> [] \<and> hd b = 0x22 then (case jsonString b of
          Inl err \<Rightarrow> Inl err
        | Inr s \<Rightarrow> (case ParseDuration s of
            Inl err \<Rightarrow> Inl (errWrap (''parsing duration '' @ goQuote s @ '': '') err)
          | Inr parsed \<Rightarrow> Inr parsed))
      else (case jsonInt64 b of
          Inl err \<Rightarrow> Inl (errWrap ''parsing duration: '' err)
        | Inr ns \<Rightarrow> Inr ns))"

section \<open>State of the application (app/app.go)\<close>

record GatewayConfig =
  gw_URL :: string
  gw_RequestTimeout :: duration
  gw_RetryBackoff :: duration
  gw_RetryTimeout :: duration

text \<open>\<open>ap_compileSlots\<close> is the size of the semaphore for compilations.\<close>

record confidentialWorkflowsApp =
  ap_fetcher :: BinaryFetcher
  ap_httpFetcher :: "Fetcher option"
  ap_tpe :: int
  ap_limiter :: executionLimiter
  ap_compileSlots :: int
  ap_executionTimeout :: duration
  ap_gracePeriod :: duration
  ap_storageServiceURL :: string
  ap_storageServiceTLS :: bool
  ap_storageFetcher :: "StorageFetcher option"
  ap_dispatcher :: "remoteDispatcher option"
  ap_lastConfig :: EnclaveConfig
  ap_haveConfig :: bool

type_synonym StorageFetcherFactory = "string \<Rightarrow> bool \<Rightarrow> string \<Rightarrow> int \<Rightarrow> duration \<Rightarrow> netErr + StorageFetcher \<times> bytes"
type_synonym RemoteDispatcherFactory = "GatewayConfig \<Rightarrow> netErr + remoteDispatcher"

text \<open>\<open>http\<close> and the two booleans are whether the parts of the configuration are set.\<close>

definition NewConfidentialWorkflowsApp :: "int \<Rightarrow> Fetcher option \<Rightarrow> bool \<Rightarrow> bool \<Rightarrow> int \<Rightarrow> netErr + confidentialWorkflowsApp" where
  "NewConfidentialWorkflowsApp tpe http storageFactory dispatcherFactory maxConcurrent =
     (if http = None then Inl (errText ''HTTP fetcher is required'')
      else if \<not> storageFactory then Inl (errText ''storage fetcher factory is required'')
      else if \<not> dispatcherFactory then Inl (errText ''remote dispatcher factory is required'')
      else Inr \<lparr>ap_fetcher = NewBinaryFetcher, ap_httpFetcher = http, ap_tpe = tpe,
        ap_limiter = newExecutionLimiter maxConcurrent, ap_compileSlots = defaultMaxConcurrentCompilations,
        ap_executionTimeout = 0, ap_gracePeriod = DefaultWorkflowGracePeriod,
        ap_storageServiceURL = [], ap_storageServiceTLS = False, ap_storageFetcher = None, ap_dispatcher = None,
        ap_lastConfig = zeroConfig, ap_haveConfig = False\<rparr>)"

definition storageFetcherFactory :: "StorageEnv \<Rightarrow> StorageFetcherFactory" where
  "storageFetcherFactory se storageURL tls privateKey maxBytes timeout =
     NewStorageFetcher se storageURL tls privateKey maxBytes timeout True"

text \<open>The tunables of \<^verbatim>\<open>InjectSettings\<close>, applied before anything can fail.\<close>

definition applyTunables :: "WorkflowSettings \<Rightarrow> confidentialWorkflowsApp \<Rightarrow> confidentialWorkflowsApp" where
  "applyTunables req a =
     a\<lparr>ap_fetcher := SetMaxCacheBytes (ws_MaxCacheBytes req) (ap_fetcher a),
       ap_httpFetcher := map_option (SetDefaultTimeout (ws_RequestTimeout req)) (ap_httpFetcher a),
       ap_executionTimeout := (if ws_ExecutionTimeout req > 0 then ws_ExecutionTimeout req else ap_executionTimeout a),
       ap_compileSlots := (if ws_MaxConcurrentCompilations req > 0 then ws_MaxConcurrentCompilations req else ap_compileSlots a),
       ap_gracePeriod := (if ws_WorkflowGracePeriod req \<noteq> 0 then ws_WorkflowGracePeriod req else ap_gracePeriod a),
       ap_storageServiceURL := ws_StorageServiceURL req, ap_storageServiceTLS := ws_StorageServiceTLS req\<rparr>"

definition gatewayConfigOf :: "WorkflowSettings \<Rightarrow> GatewayConfig" where
  "gatewayConfigOf req = \<lparr>gw_URL = ws_GatewayURL req, gw_RequestTimeout = ws_GatewayRequestTimeout req,
     gw_RetryBackoff = ws_GatewayRetryBackoff req, gw_RetryTimeout = ws_GatewayRetryTimeout req\<rparr>"

definition enableDispatch ::
    "RemoteDispatcherFactory option \<Rightarrow> WorkflowSettings \<Rightarrow> confidentialWorkflowsApp \<Rightarrow> netErr option \<times> confidentialWorkflowsApp" where
  "enableDispatch factory req a = (case (ap_dispatcher a, factory) of
     (None, Some f) \<Rightarrow> (case f (gatewayConfigOf req) of
         Inl err \<Rightarrow> (Some (errWrap ''building remote dispatcher: '' err), a)
       | Inr d \<Rightarrow> (None, a\<lparr>ap_dispatcher := Some (if ap_haveConfig a then SetConfig (ap_lastConfig a) d else d)\<rparr>))
   | _ \<Rightarrow> (None, a))"

text \<open>\<open>parse\<close> is \<^verbatim>\<open>json.Unmarshal\<close> into the settings.\<close>

definition InjectSettings ::
    "(bytes \<Rightarrow> netErr + WorkflowSettings) \<Rightarrow> StorageFetcherFactory \<Rightarrow> RemoteDispatcherFactory option \<Rightarrow> bytes
     \<Rightarrow> confidentialWorkflowsApp \<Rightarrow> netErr option \<times> confidentialWorkflowsApp" where
  "InjectSettings parse storageFactory dispatcherFactory raw a = (case parse raw of
     Inl err \<Rightarrow> (Some (errWrap ''parsing settings: '' err), a)
   | Inr req \<Rightarrow> (case validateSettings req of
       Some err \<Rightarrow> (Some err, a)
     | None \<Rightarrow> (let a1 = applyTunables req a in
         (case storageFactory (ap_storageServiceURL a1) (ap_storageServiceTLS a1) (ws_StorageKey req) (ws_MaxBinarySize req)
                (ws_BinaryFetchTimeout req) of
            Inl err \<Rightarrow> (Some (errWrap ''building storage fetcher: '' err), a1)
          | Inr (fetcher, pub) \<Rightarrow> enableDispatch dispatcherFactory req (a1\<lparr>ap_storageFetcher := Some fetcher\<rparr>)))))"

definition OnConfigUpdate :: "EnclaveConfig \<Rightarrow> confidentialWorkflowsApp \<Rightarrow> confidentialWorkflowsApp" where
  "OnConfigUpdate config a =
     a\<lparr>ap_lastConfig := config, ap_haveConfig := True, ap_dispatcher := map_option (SetConfig config) (ap_dispatcher a)\<rparr>"

section \<open>The factories of the Nitro environment (environments/nitro/main.go)\<close>

definition nitroDispatcherFactory ::
    "(string \<Rightarrow> (string \<times> string \<times> string) option) \<Rightarrow> duration \<Rightarrow> RemoteDispatcherFactory" where
  "nitroDispatcherFactory urlParse gatewayTimeout gw =
     (case configuredEndpointPolicy urlParse [gw_URL gw] of
        Inl err \<Rightarrow> Inl (errText err)
      | Inr p \<Rightarrow> Inr (NewRemoteDispatcher
            (WithClientTimeout (if gw_RequestTimeout gw \<le> 0 then gatewayTimeout else gw_RequestTimeout gw) (NewGatewayClient (gw_URL gw) True))
            True zeroConfig True (gw_RetryBackoff gw) (gw_RetryTimeout gw)))"

definition nitroStorageFactory ::
    "(string \<Rightarrow> (string \<times> string \<times> string) option) \<Rightarrow> StorageEnv \<Rightarrow> StorageFetcherFactory" where
  "nitroStorageFactory urlParse se storageURL tls privateKey maxBytes timeout =
     (case configuredEndpointPolicy urlParse [storageURL] of
        Inl err \<Rightarrow> Inl (errText err)
      | Inr p \<Rightarrow> NewStorageFetcher se storageURL tls privateKey maxBytes timeout True)"

section \<open>The execution helper (app/execution\_helper.go)\<close>

datatype observation = ObservedValue bytes | ObservedError string | NoObservation

record SimpleConsensusInputs =
  ci_Observation :: observation
  ci_Default :: "bytes option"

record userMetric =
  um_Name :: string
  um_Value :: rat
  um_Type :: string
  um_Labels :: "(string \<times> string) list"

text \<open>
  The messages of other repositories: unpacking a payload, packing an answer, and the
  identifiers of the capabilities that are served inside the enclave. Values are kept in
  their encoding.
\<close>

record helperCodec =
  hx_ClientID :: string
  hx_ConsensusID :: string
  hx_UnmarshalHTTP :: "anyPb option \<Rightarrow> netErr + httpcapRequest"
  hx_AnyHTTP :: "httpcapResponse \<Rightarrow> netErr + anyPb"
  hx_UnmarshalInputs :: "anyPb option \<Rightarrow> netErr + SimpleConsensusInputs"
  hx_AnyValue :: "bytes \<Rightarrow> netErr + anyPb"

record ('pk, 'ct, 'sh) helperEnv =
  hv_relay :: "('pk, 'ct, 'sh) RelayEnv"
  hv_http :: HttpEnv
  hv_codec :: helperCodec

record enclaveExecutionHelper =
  eh_requestID :: bytes
  eh_workflowID :: string
  eh_owner :: string
  eh_executionID :: string
  eh_orgID :: string
  eh_signedRequests :: "SignedComputeRequest list"
  eh_emitter :: bool
  eh_httpFetcher :: "Fetcher option"

text \<open>What a call may change: the clock, the dispatcher, the keychain and the events of the request.\<close>

record callState =
  cs_now :: time
  cs_dispatcher :: "remoteDispatcher option"
  cs_keychain :: boxKeychain
  cs_events :: emitted

definition emitEvent :: "enclaveExecutionHelper \<Rightarrow> string \<Rightarrow> eventDetails \<Rightarrow> callState \<Rightarrow> callState" where
  "emitEvent h event details w = (if eh_emitter h then w\<lparr>cs_events := cs_events w @ [(event, details)]\<rparr> else w)"

text \<open>\<^verbatim>\<open>Duration.Seconds\<close>.\<close>

definition secondsVal :: "duration \<Rightarrow> anyVal" where
  "secondsVal d = ANum (of_int d / of_int second)"

definition wrapValueResponse :: "helperCodec \<Rightarrow> bytes \<Rightarrow> CapabilityResponse" where
  "wrapValueResponse cd v = (case hx_AnyValue cd v of
     Inl err \<Rightarrow> CapError (''marshalling value: '' @ ne_text err)
   | Inr payload \<Rightarrow> CapPayload payload)"

definition handleConsensusSimple :: "helperCodec \<Rightarrow> CapabilityRequest \<Rightarrow> CapabilityResponse" where
  "handleConsensusSimple cd req = (case hx_UnmarshalInputs cd (cq_Payload req) of
     Inl err \<Rightarrow> CapError (''consensus.Simple: unmarshalling inputs: '' @ ne_text err)
   | Inr inputs \<Rightarrow> (case ci_Observation inputs of
       ObservedValue v \<Rightarrow> wrapValueResponse cd v
     | ObservedError e \<Rightarrow> (case ci_Default inputs of
         Some d \<Rightarrow> wrapValueResponse cd d
       | None \<Rightarrow> CapError (''consensus.Simple: observation error: '' @ e))
     | NoObservation \<Rightarrow> CapError ''consensus.Simple: missing observation''))"

definition handleHTTPAction ::
    "('pk, 'ct, 'sh) helperEnv \<Rightarrow> enclaveExecutionHelper \<Rightarrow> time \<Rightarrow> ctx \<Rightarrow> CapabilityRequest \<Rightarrow> CapabilityResponse \<times> time" where
  "handleHTTPAction env h t cx req = (case eh_httpFetcher h of
     None \<Rightarrow> (CapError ''http-actions: no HTTP fetcher configured'', t)
   | Some f \<Rightarrow> (case hx_UnmarshalHTTP (hv_codec env) (cq_Payload req) of
       Inl err \<Rightarrow> (CapError (''http-actions: unmarshalling request: '' @ ne_text err), t)
     | Inr input \<Rightarrow> (case Fetcher_Fetch (hv_http env) f t cx (Some input) of
         (Inl err, t1) \<Rightarrow> (CapError (''http-actions: '' @ ne_text err), t1)
       | (Inr resp, t1) \<Rightarrow> (case hx_AnyHTTP (hv_codec env) resp of
           Inl err \<Rightarrow> (CapError (''http-actions: marshalling response: '' @ ne_text err), t1)
         | Inr payload \<Rightarrow> (CapPayload payload, t1)))))"

text \<open>The dispatch of a call: refused, served inside the enclave, or forwarded. \<open>None\<close> is a call that does not return.\<close>

definition callCapability ::
    "('pk, 'ct, 'sh) helperEnv \<Rightarrow> enclaveExecutionHelper \<Rightarrow> ctx \<Rightarrow> CapabilityRequest \<Rightarrow> callState
     \<Rightarrow> (CapabilityResponse netResult \<times> callState) option" where
  "callCapability env h cx req w =
     (if cq_Id req = AppIDConfidentialWorkflows
      then Some (NOk (CapError ''confidential-workflows cannot be called from within a workflow''), w)
      else if cq_Id req = hx_ClientID (hv_codec env) \<and> cq_Method req = ''SendRequest''
      then Some (case handleHTTPAction env h (cs_now w) cx req of (r, t) \<Rightarrow> (NOk r, w\<lparr>cs_now := t\<rparr>))
      else if cq_Id req \<noteq> hx_ClientID (hv_codec env) \<and> cq_Id req = hx_ConsensusID (hv_codec env) \<and> cq_Method req = ''Simple''
      then Some (NOk (handleConsensusSimple (hv_codec env) req), w)
      else case cs_dispatcher w of
        Some d \<Rightarrow> map_option (\<lambda>(r, t, d'). (r, w\<lparr>cs_now := t, cs_dispatcher := Some d'\<rparr>))
            (CC_Relay.CallCapability (hv_relay env) cx (eh_workflowID h) (eh_owner h) (eh_executionID h) (eh_orgID h) req (cs_now w) d)
      | None \<Rightarrow> Some (NOk (CapError (''failed to call capability '' @ goQuote (cq_Id req) @ '', remote capability calls are not supported'')), w))"

definition respError :: "CapabilityResponse \<Rightarrow> string" where
  "respError r = (case r of CapError e \<Rightarrow> e | _ \<Rightarrow> [])"

text \<open>Type and text of the error of a call, both empty if it succeeded.\<close>

definition callError :: "netErr + CapabilityResponse \<Rightarrow> string \<times> string" where
  "callError r = (case r of
     Inl err \<Rightarrow> (''dispatch'', ne_text err)
   | Inr resp \<Rightarrow> if respError resp \<noteq> [] then (''capability'', respError resp) else ([], []))"

definition finishCall ::
    "enclaveExecutionHelper \<Rightarrow> CapabilityRequest \<Rightarrow> time \<Rightarrow> netErr + CapabilityResponse \<Rightarrow> callState \<Rightarrow> callState" where
  "finishCall h req start r w =
     (case callError r of (errType, errMsg) \<Rightarrow>
       (let success = (errType = []);
            execution = [''capability_id'' \<mapsto> AStr (cq_Id req), ''success'' \<mapsto> ABool success,
              ''duration_seconds'' \<mapsto> secondsVal (cs_now w - start)];
            finished = [''capability_id'' \<mapsto> AStr (cq_Id req), ''method'' \<mapsto> AStr (cq_Method req),
              ''step_ref'' \<mapsto> AInt (sint (cq_CallbackId req)), ''success'' \<mapsto> ABool success]
        in emitEvent h ''capability_finished''
             (if errType \<noteq> [] then finished(''error_type'' \<mapsto> AStr errType, ''error'' \<mapsto> AStr errMsg) else finished)
             (emitEvent h ''capability_execution''
               (if errType \<noteq> [] then execution(''error_type'' \<mapsto> AStr errType) else execution) w)))"

definition helper_CallCapability ::
    "('pk, 'ct, 'sh) helperEnv \<Rightarrow> enclaveExecutionHelper \<Rightarrow> ctx \<Rightarrow> CapabilityRequest \<Rightarrow> callState
     \<Rightarrow> (CapabilityResponse netResult \<times> callState) option" where
  "helper_CallCapability env h cx req w =
     (let w0 = emitEvent h ''capability_started'' [''capability_id'' \<mapsto> AStr (cq_Id req), ''method'' \<mapsto> AStr (cq_Method req),
            ''step_ref'' \<mapsto> AInt (sint (cq_CallbackId req))] w
      in map_option (\<lambda>(r, w1). (r, (case r of
            NPanic \<Rightarrow> w1
          | NErr err \<Rightarrow> finishCall h req (cs_now w0) (Inl err) w1
          | NOk resp \<Rightarrow> finishCall h req (cs_now w0) (Inr resp) w1)))
        (callCapability env h cx req w0))"

definition secretErrorOrigin :: "GatewayEnv \<Rightarrow> netErr \<Rightarrow> string" where
  "secretErrorOrigin genv err = (case ne_rpc err of
     Some rpcErr \<Rightarrow> if rp_Code rpcErr = gv_ErrInvalidParams genv then ''user'' else ''system''
   | None \<Rightarrow> ''system'')"

text \<open>The deferred event of a fetch of secrets; a panic leaves the error unset.\<close>

definition finishSecrets ::
    "GatewayEnv \<Rightarrow> enclaveExecutionHelper \<Rightarrow> SecretsRequest \<Rightarrow> time \<Rightarrow> netErr option \<Rightarrow> callState \<Rightarrow> callState" where
  "finishSecrets genv h req start err w =
     (let details = [''success'' \<mapsto> ABool (err = None), ''num_requests'' \<mapsto> AInt (int (length (sr_Requests req))),
            ''duration_seconds'' \<mapsto> secondsVal (cs_now w - start)]
      in emitEvent h ''get_secrets'' (case err of
           None \<Rightarrow> details
         | Some e \<Rightarrow> details(''error_type'' \<mapsto> AStr (secretErrorOrigin genv e))) w)"

definition helper_GetSecrets ::
    "('pk, 'ct, 'sh) helperEnv \<Rightarrow> enclaveExecutionHelper \<Rightarrow> ctx \<Rightarrow> SecretsRequest \<Rightarrow> callState
     \<Rightarrow> (secretResponse list netResult \<times> callState) option" where
  "helper_GetSecrets env h cx req w = (let genv = rv_gw (hv_relay env) in
     (case cs_dispatcher w of
        None \<Rightarrow> (let err = errText ''remote dispatcher is required for secret fetching''
                 in Some (NErr err, finishSecrets genv h req (cs_now w) (Some err) w))
      | Some d \<Rightarrow> map_option (\<lambda>(r, t, d', kc).
          (let w1 = w\<lparr>cs_now := t, cs_dispatcher := Some d', cs_keychain := kc\<rparr>
           in (r, finishSecrets genv h req (cs_now w) (case r of NErr err \<Rightarrow> Some err | _ \<Rightarrow> None) w1)))
          (CC_Relay.GetSecrets (hv_relay env) cx (eh_workflowID h) (eh_requestID h) req (eh_owner h) (eh_executionID h) (eh_orgID h)
             (eh_signedRequests h) (cs_now w) d (cs_keychain w))))"

definition EmitUserLog :: "enclaveExecutionHelper \<Rightarrow> string \<Rightarrow> callState \<Rightarrow> callState" where
  "EmitUserLog h msg = emitEvent h ''user_log'' [''message'' \<mapsto> AStr msg, ''workflow_id'' \<mapsto> AStr (eh_workflowID h),
     ''execution_id'' \<mapsto> AStr (eh_executionID h)]"

definition EmitUserMetric :: "enclaveExecutionHelper \<Rightarrow> userMetric \<Rightarrow> callState \<Rightarrow> callState" where
  "EmitUserMetric h m = emitEvent h ''user_metric''
     (foldl (\<lambda>details (k, v). details((''label.'' @ k) \<mapsto> AStr v))
        [''name'' \<mapsto> AStr (um_Name m), ''value'' \<mapsto> ANum (um_Value m), ''metric_type'' \<mapsto> AStr (um_Type m),
         ''workflow_id'' \<mapsto> AStr (eh_workflowID h), ''execution_id'' \<mapsto> AStr (eh_executionID h)] (um_Labels m))"

section \<open>Running a module (app/wasm.go)\<close>

text \<open>
  A run of a module by the WASM host, as the execution helper sees it: the calls the guest
  makes, after the time it computes, and how it goes on with their results, until it ends.
  The host bounds every run, so a run is finite.
\<close>

datatype guestRun =
    Ends nat "netErr + bytes"
  | Calls nat CapabilityRequest "netErr + CapabilityResponse \<Rightarrow> guestRun"
  | AsksSecrets nat SecretsRequest "netErr + secretResponse list \<Rightarrow> guestRun"
  | Logs nat string guestRun
  | Measures nat userMetric guestRun
  | ReadsClock "time \<Rightarrow> guestRun"
  | ReadsExecutionID "string \<Rightarrow> guestRun"

definition elapse :: "nat \<Rightarrow> callState \<Rightarrow> callState" where
  "elapse n w = w\<lparr>cs_now := cs_now w + int n\<rparr>"

text \<open>The guest goes on with the result of a call, unless the call panics or does not return.\<close>

definition resume ::
    "('r netResult \<times> callState) option \<Rightarrow> (netErr + 'r \<Rightarrow> callState \<Rightarrow> (bytes netResult \<times> callState) option)
     \<Rightarrow> (bytes netResult \<times> callState) option" where
  "resume res k = (case res of
     None \<Rightarrow> None
   | Some (r, w) \<Rightarrow> (case r of NOk x \<Rightarrow> k (Inr x) w | NErr err \<Rightarrow> k (Inl err) w | NPanic \<Rightarrow> Some (NPanic, w)))"

primrec runGuest ::
    "('pk, 'ct, 'sh) helperEnv \<Rightarrow> enclaveExecutionHelper \<Rightarrow> ctx \<Rightarrow> guestRun \<Rightarrow> callState \<Rightarrow> (bytes netResult \<times> callState) option" where
  "runGuest env h cx (Ends n r) w = Some ((case r of Inl err \<Rightarrow> NErr err | Inr b \<Rightarrow> NOk b), elapse n w)"
| "runGuest env h cx (Calls n req k) w = resume (helper_CallCapability env h cx req (elapse n w)) (\<lambda>r. runGuest env h cx (k r))"
| "runGuest env h cx (AsksSecrets n req k) w = resume (helper_GetSecrets env h cx req (elapse n w)) (\<lambda>r. runGuest env h cx (k r))"
| "runGuest env h cx (Logs n msg g) w = runGuest env h cx g (EmitUserLog h msg (elapse n w))"
| "runGuest env h cx (Measures n m g) w = runGuest env h cx g (EmitUserMetric h m (elapse n w))"
| "runGuest env h cx (ReadsClock k) w = runGuest env h cx (k (cs_now w)) w"
| "runGuest env h cx (ReadsExecutionID k) w = runGuest env h cx (k (eh_executionID h)) w"

text \<open>
  The WASM host: \<open>wh_queue\<close> is how long a slot for compiling takes to come free; \<open>wh_NewModule\<close>
  compiles a brotli-compressed binary under a timeout, with how long that takes; a module
  run on a request under restrictions is a \<open>guestRun\<close>. \<open>wh_CheckRequirements\<close> asks the application
  about its TEE.
\<close>

datatype Tee = TeeTypesAndRegions "(int \<times> string list) list" | AnyRegions "string list" | NoTee

record requirements =
  rm_Tee :: "Tee option"

record WorkflowExecution =
  wx_WorkflowId :: string
  wx_BinaryUrl :: string
  wx_BinaryHash :: bytes
  wx_Owner :: string
  wx_ExecutionId :: string
  wx_OrgId :: string
  wx_SdkExecuteRequest :: "bytes option"
  wx_Requirements :: "requirements option"
  wx_Restrictions :: "bytes option"

record wasmHost =
  wh_queue :: "time \<Rightarrow> nat"
  wh_NewModule :: "duration option \<Rightarrow> bytes \<Rightarrow> (netErr + (bytes \<Rightarrow> bytes option \<Rightarrow> guestRun)) \<times> nat"
  wh_CheckRequirements :: "(Tee \<Rightarrow> bool) \<Rightarrow> requirements option \<Rightarrow> bool"

definition compileModule ::
    "wasmHost \<Rightarrow> enclaveExecutionHelper \<Rightarrow> bytes \<Rightarrow> duration \<Rightarrow> callState
     \<Rightarrow> (netErr + (bytes \<Rightarrow> bytes option \<Rightarrow> guestRun)) \<times> ctx \<times> callState" where
  "compileModule wh h binary timeout w =
     (let queued = cs_now w;
          w1 = emitEvent h ''workflow_compilation_queue_wait'' [''duration_seconds'' \<mapsto> secondsVal (int (wh_queue wh queued))]
            (elapse (wh_queue wh queued) w);
          started = cs_now w1;
          execCtx = (if timeout > 0 then WithTimeout started timeout Background else Background)
      in (case wh_NewModule wh (if timeout > 0 then Some timeout else None) binary of (compiled, d) \<Rightarrow>
           (let w2 = elapse d w1;
                cerr = ctxErr (cs_now w2) execCtx;
                w3 = emitEvent h ''workflow_compilation'' [''success'' \<mapsto> ABool ((case compiled of Inl _ \<Rightarrow> False | Inr _ \<Rightarrow> True) \<and> cerr = None),
                  ''duration_seconds'' \<mapsto> secondsVal (cs_now w2 - started)] w2
            in (case cerr of Some err \<Rightarrow> Inl err | None \<Rightarrow> compiled, execCtx, w3))))"

definition executeWasm ::
    "('pk, 'ct, 'sh) helperEnv \<Rightarrow> wasmHost \<Rightarrow> enclaveExecutionHelper \<Rightarrow> bytes \<Rightarrow> bytes \<Rightarrow> bytes option \<Rightarrow> duration \<Rightarrow> callState
     \<Rightarrow> (bytes netResult \<times> callState) option" where
  "executeWasm env wh h binary execReq restrictions timeout w = (case compileModule wh h binary timeout w of
     (Inl err, execCtx, w1) \<Rightarrow> Some (NErr (errWrap ''creating wasm module: '' err), w1)
   | (Inr compiled, execCtx, w1) \<Rightarrow>
       map_option (\<lambda>(r, w2). (case r of NErr err \<Rightarrow> NErr (errWrap ''executing wasm: '' err) | _ \<Rightarrow> r,
           (if r = NPanic then w2
            else emitEvent h ''workflow_guest_execution'' [''success'' \<mapsto> ABool (case r of NOk _ \<Rightarrow> True | _ \<Rightarrow> False),
                   ''duration_seconds'' \<mapsto> secondsVal (cs_now w2 - cs_now w1)] w2)))
         (runGuest env h execCtx (compiled execReq restrictions) w1))"

section \<open>Executing a request (app/app.go)\<close>

record ('pk, 'ct, 'sh) WorkflowEnv =
  wv_helper :: "('pk, 'ct, 'sh) helperEnv"
  wv_host :: wasmHost
  wv_storage :: StorageEnv
  wv_Unmarshal :: "bytes \<Rightarrow> netErr + WorkflowExecution"
  wv_MarshalResponse :: "bytes \<Rightarrow> netErr + bytes"
  wv_RequirementsJSON :: "requirements option \<Rightarrow> string"

datatype wfResult = WfOutput bytes | WfError ExecuteError | WfPanic

definition validTee :: "int \<Rightarrow> Tee \<Rightarrow> bool" where
  "validTee tpe tee = (case tee of
     TeeTypesAndRegions ts \<Rightarrow> list_ex (\<lambda>t. fst t = tpe) ts
   | AnyRegions _ \<Rightarrow> True
   | NoTee \<Rightarrow> False)"

definition execErr :: "string \<Rightarrow> int \<Rightarrow> ExecuteError" where
  "execErr msg status = \<lparr>xe_Error = msg, xe_Code = status\<rparr>"

text \<open>The checks on a request, with the parts that must be present.\<close>

definition readExecution :: "(bytes \<Rightarrow> netErr + WorkflowExecution) \<Rightarrow> string \<Rightarrow> bytes \<Rightarrow> ExecuteError + WorkflowExecution \<times> bytes" where
  "readExecution unmarshal appID inputData =
     (if appID \<noteq> AppIDConfidentialWorkflows
      then Inl (execErr (''invalid app ID: expected '' @ AppIDConfidentialWorkflows @ '', got '' @ appID) 400)
      else case unmarshal inputData of
        Inl err \<Rightarrow> Inl (execErr (''unable to unmarshal request data: '' @ ne_text err) 400)
      | Inr x \<Rightarrow>
          if wx_WorkflowId x = [] then Inl (execErr ''workflow_id is required'' 400)
          else if wx_BinaryUrl x = [] then Inl (execErr ''binary_url is required'' 400)
          else if wx_BinaryHash x = [] then Inl (execErr ''binary_hash is required'' 400)
          else (case wx_SdkExecuteRequest x of
              None \<Rightarrow> Inl (execErr ''execute_request is required'' 400)
            | Some r \<Rightarrow> Inr (x, r)))"

definition helperFor :: "bytes \<Rightarrow> SignedComputeRequest list \<Rightarrow> confidentialWorkflowsApp \<Rightarrow> WorkflowExecution \<Rightarrow> enclaveExecutionHelper" where
  "helperFor requestID signedRequests a x = \<lparr>eh_requestID = requestID, eh_workflowID = wx_WorkflowId x, eh_owner = wx_Owner x,
     eh_executionID = wx_ExecutionId x, eh_orgID = wx_OrgId x, eh_signedRequests = signedRequests, eh_emitter = True,
     eh_httpFetcher = ap_httpFetcher a\<rparr>"

definition wasmResult :: "(bytes \<Rightarrow> netErr + bytes) \<Rightarrow> bytes netResult \<Rightarrow> wfResult" where
  "wasmResult marshal r = (case r of
     NPanic \<Rightarrow> WfPanic
   | NErr err \<Rightarrow> (let errMsg = ''executing wasm: '' @ ne_text err
       in WfError (if ne_deadline err then execErr (ErrWasmExecutionTimeout @ '': '' @ errMsg) 504 else execErr errMsg 500))
   | NOk result \<Rightarrow> (case marshal result of
       Inl err \<Rightarrow> WfError (execErr (''marshalling workflow response: '' @ ne_text err) 500)
     | Inr b \<Rightarrow> WfOutput b))"

text \<open>The execution of a validated request, from the end of the grace period on; the dispatcher is shared.\<close>

definition runWorkflow ::
    "('pk, 'ct, 'sh) WorkflowEnv \<Rightarrow> bytes \<Rightarrow> SignedComputeRequest list \<Rightarrow> WorkflowExecution \<Rightarrow> bytes \<Rightarrow> time \<Rightarrow> boxKeychain
     \<Rightarrow> confidentialWorkflowsApp \<Rightarrow> (wfResult \<times> confidentialWorkflowsApp \<times> callState) option" where
  "runWorkflow env requestID signedRequests x execReq t kc a =
     (let h = helperFor requestID signedRequests a x;
          w = emitEvent h ''workflow_execute_started'' [''workflow_id'' \<mapsto> AStr (wx_WorkflowId x)]
            \<lparr>cs_now = t, cs_dispatcher = ap_dispatcher a, cs_keychain = kc, cs_events = []\<rparr>
      in (case BinaryFetcher_Fetch (rv_H (hv_relay (wv_helper env))) t Background (wx_BinaryUrl x) (wx_BinaryHash x)
                 (map_option (StorageFetcher_FetchBinary (wv_storage env)) (ap_storageFetcher a)) (ap_fetcher a) of
            (Inl err, f1, t1) \<Rightarrow>
              Some (WfError (execErr (''fetching binary: '' @ ne_text err) 502), a\<lparr>ap_fetcher := f1\<rparr>, w\<lparr>cs_now := t1\<rparr>)
          | (Inr binary, f1, t1) \<Rightarrow>
              (if \<not> wh_CheckRequirements (wv_host env) (validTee (ap_tpe a)) (wx_Requirements x)
               then Some (WfError (execErr (''this TEE doesn'' @ [CHR 0x27] @ ''t meet the requirements '' @
                      wv_RequirementsJSON env (wx_Requirements x) @ '' of the workflow: '' @ wx_WorkflowId x) 400),
                    a\<lparr>ap_fetcher := f1\<rparr>, w\<lparr>cs_now := t1\<rparr>)
               else map_option (\<lambda>(r, w1). (wasmResult (wv_MarshalResponse env) r,
                      a\<lparr>ap_fetcher := f1, ap_dispatcher := cs_dispatcher w1\<rparr>, w1))
                    (executeWasm (wv_helper env) (wv_host env) h binary execReq (wx_Restrictions x) (ap_executionTimeout a) (w\<lparr>cs_now := t1\<rparr>)))))"

text \<open>The slot of the limiter is taken first and given back on every way out; receiving from an empty channel would block.\<close>

definition giveBack :: "wfResult \<times> confidentialWorkflowsApp \<times> callState \<Rightarrow> (wfResult \<times> confidentialWorkflowsApp \<times> callState) option" where
  "giveBack res = (case res of (r, a, w) \<Rightarrow> map_option (\<lambda>l. (r, a\<lparr>ap_limiter := l\<rparr>, w)) (release (ap_limiter a)))"

definition wfExecute ::
    "('pk, 'ct, 'sh) WorkflowEnv \<Rightarrow> bytes \<Rightarrow> string \<Rightarrow> bytes \<Rightarrow> SignedComputeRequest list \<Rightarrow> time \<Rightarrow> boxKeychain \<Rightarrow> confidentialWorkflowsApp
     \<Rightarrow> (wfResult \<times> confidentialWorkflowsApp \<times> callState) option" where
  "wfExecute env requestID appID inputData signedRequests t kc a =
     (let w = \<lparr>cs_now = t, cs_dispatcher = ap_dispatcher a, cs_keychain = kc, cs_events = []\<rparr>
      in (case tryAcquire (ap_limiter a) of
            (False, l) \<Rightarrow> Some (WfError (execErr ''enclave at capacity: too many concurrent executions'' 429), a,
                w\<lparr>cs_events := [(''execution_rejected_at_capacity'', [''max_concurrent'' \<mapsto> AInt (int (limiterCapacity l))])]\<rparr>)
          | (True, l) \<Rightarrow> (let a1 = a\<lparr>ap_limiter := l\<rparr> in
              (case readExecution (wv_Unmarshal env) appID inputData of
                 Inl e \<Rightarrow> giveBack (WfError e, a1, w)
               | Inr (x, execReq) \<Rightarrow>
                   Option.bind (runWorkflow env requestID signedRequests x execReq
                     (if ap_gracePeriod a > 0 then t + ap_gracePeriod a else t) kc a1) giveBack))))"

section \<open>Calls change only what they may\<close>

lemma emitEvent_fields [simp]:
  "cs_now (emitEvent h e d w) = cs_now w" "cs_dispatcher (emitEvent h e d w) = cs_dispatcher w" "cs_keychain (emitEvent h e d w) = cs_keychain w"
  by (simp_all add: emitEvent_def)

lemma elapse_fields [simp]:
  "cs_now (elapse n w) = cs_now w + int n" "cs_dispatcher (elapse n w) = cs_dispatcher w" "cs_keychain (elapse n w) = cs_keychain w"
  "cs_events (elapse n w) = cs_events w"
  by (simp_all add: elapse_def)

lemma helper_fields [simp]:
  "cs_dispatcher (finishCall h req start r w) = cs_dispatcher w" "cs_keychain (finishCall h req start r w) = cs_keychain w"
  "cs_dispatcher (finishSecrets genv h sreq start err w) = cs_dispatcher w" "cs_keychain (finishSecrets genv h sreq start err w) = cs_keychain w"
  "cs_dispatcher (EmitUserLog h msg w) = cs_dispatcher w" "cs_dispatcher (EmitUserMetric h m w) = cs_dispatcher w"
  by (simp_all add: finishCall_def finishSecrets_def EmitUserLog_def EmitUserMetric_def Let_def split: prod.split option.split)

text \<open>A call through the dispatcher moves the cursor of its gateway client and nothing else of it.\<close>

definition moved :: "remoteDispatcher option \<Rightarrow> remoteDispatcher option \<Rightarrow> bool" where
  "moved = rel_option (\<lambda>d d'. \<exists>c. d' = d\<lparr>rd_client := c\<rparr>)"

lemma moved_refl [simp]: "moved x x"
proof -
  have "\<exists>c. d = d\<lparr>rd_client := c\<rparr>" for d :: remoteDispatcher by (rule exI [of _ "rd_client d"]) simp
  then show ?thesis by (cases x) (simp_all add: moved_def)
qed

lemma moved_trans: "moved x y \<Longrightarrow> moved y z \<Longrightarrow> moved x z"
  by (cases x; cases y; cases z) (auto simp: moved_def)

lemma movedD:
  assumes "moved x (Some d')" obtains d c where "x = Some d" "d' = d\<lparr>rd_client := c\<rparr>"
  using assms by (cases x) (auto simp: moved_def)

lemma sendWithRetry_moved: "sendWithRetry env cx what meth params verify t d = Some (r, t', d') \<Longrightarrow> \<exists>c. d' = d\<lparr>rd_client := c\<rparr>"
  by (auto simp: sendWithRetry_def)

lemma CallCapability_moved:
  "CC_Relay.CallCapability env cx wid owner xid oid req t d = Some (r, t', d') \<Longrightarrow> moved (Some d) (Some d')"
  using moved_refl [of "Some d"]
  by (auto simp: CC_Relay.CallCapability_def Let_def moved_def split: sum.splits dest!: sendWithRetry_moved)

lemma GetSecrets_moved:
  "CC_Relay.GetSecrets env cx wid rid req owner xid oid sreqs t d kc = Some (r, t', d', kc') \<Longrightarrow> moved (Some d) (Some d')"
  using moved_refl [of "Some d"]
  by (auto simp: CC_Relay.GetSecrets_def Let_def moved_def split: sum.splits prod.splits dest!: sendWithRetry_moved)

lemma callCapability_moved: "callCapability env h cx req w = Some (r, w') \<Longrightarrow> moved (cs_dispatcher w) (cs_dispatcher w')"
  by (auto simp: callCapability_def split: if_splits prod.splits option.splits dest: CallCapability_moved)

lemma helper_CallCapability_moved:
  assumes "helper_CallCapability env h cx req w = Some (r, w')" shows "moved (cs_dispatcher w) (cs_dispatcher w')"
  using assms by (cases r) (auto simp: helper_CallCapability_def Let_def split: netResult.splits dest!: callCapability_moved)

lemma helper_GetSecrets_moved:
  assumes "helper_GetSecrets env h cx req w = Some (r, w')" shows "moved (cs_dispatcher w) (cs_dispatcher w')"
  using assms by (auto simp: helper_GetSecrets_def Let_def split: option.splits dest: GetSecrets_moved)

lemma resume_moved:
  assumes "resume res k = Some (r, w')" "\<And>q w1. res = Some (q, w1) \<Longrightarrow> moved x (cs_dispatcher w1)"
    "\<And>q w1. k q w1 = Some (r, w') \<Longrightarrow> moved (cs_dispatcher w1) (cs_dispatcher w')"
  shows "moved x (cs_dispatcher w')"
  using assms by (auto simp: resume_def split: option.splits netResult.splits intro: moved_trans)

lemma runGuest_moved: "runGuest env h cx g w = Some (r, w') \<Longrightarrow> moved (cs_dispatcher w) (cs_dispatcher w')"
proof (induction g arbitrary: w)
  case (Calls n req k)
  from Calls.prems have "resume (helper_CallCapability env h cx req (elapse n w)) (\<lambda>r. runGuest env h cx (k r)) = Some (r, w')" by simp
  then show ?case by (rule resume_moved) (use Calls.IH helper_CallCapability_moved in fastforce)+
next
  case (AsksSecrets n req k)
  from AsksSecrets.prems have "resume (helper_GetSecrets env h cx req (elapse n w)) (\<lambda>r. runGuest env h cx (k r)) = Some (r, w')" by simp
  then show ?case by (rule resume_moved) (use AsksSecrets.IH helper_GetSecrets_moved in fastforce)+
qed fastforce+

lemma compileModule_dispatcher: "compileModule wh h binary timeout w = (r, cx, w') \<Longrightarrow> cs_dispatcher w' = cs_dispatcher w"
  by (auto simp: compileModule_def Let_def split: prod.splits)

lemma executeWasm_moved:
  "executeWasm env wh h binary execReq restrictions timeout w = Some (r, w') \<Longrightarrow> moved (cs_dispatcher w) (cs_dispatcher w')"
  by (auto simp: executeWasm_def split: prod.splits sum.splits if_splits dest!: runGuest_moved compileModule_dispatcher)

section \<open>Every execution returns\<close>

text \<open>A dispatcher whose pauses are positive: then its calls end.\<close>

definition ready :: "remoteDispatcher option \<Rightarrow> bool" where
  "ready x \<longleftrightarrow> (\<forall>d. x = Some d \<longrightarrow> rd_retryBackoff d > 0)"

lemma ready_moved: "ready x \<Longrightarrow> moved x y \<Longrightarrow> ready y"
  by (auto simp: ready_def elim!: movedD)

lemma helper_CallCapability_total: "ready (cs_dispatcher w) \<Longrightarrow> helper_CallCapability env h cx req w \<noteq> None"
  by (auto simp: helper_CallCapability_def callCapability_def ready_def Let_def calls_total simp del: not_None_eq split: option.split)

lemma helper_GetSecrets_total: "ready (cs_dispatcher w) \<Longrightarrow> helper_GetSecrets env h cx req w \<noteq> None"
  by (auto simp: helper_GetSecrets_def ready_def Let_def calls_total simp del: not_None_eq split: option.split)

lemma resume_total:
  assumes "res \<noteq> None" "\<And>q w1. res = Some (q, w1) \<Longrightarrow> ready (cs_dispatcher w1)"
    "\<And>q w1. ready (cs_dispatcher w1) \<Longrightarrow> k q w1 \<noteq> None"
  shows "resume res k \<noteq> None"
  using assms by (auto simp: resume_def simp del: not_None_eq split: netResult.split option.split)

lemma runGuest_total: "ready (cs_dispatcher w) \<Longrightarrow> runGuest env h cx g w \<noteq> None"
proof (induction g arbitrary: w)
  case (Calls n req k)
  have w: "ready (cs_dispatcher (elapse n w))" using Calls.prems by simp
  show ?case unfolding runGuest.simps
    by (rule resume_total) (use Calls.IH w in \<open>auto simp: helper_CallCapability_total simp del: not_None_eq dest!: helper_CallCapability_moved elim: ready_moved\<close>)
next
  case (AsksSecrets n req k)
  have w: "ready (cs_dispatcher (elapse n w))" using AsksSecrets.prems by simp
  show ?case unfolding runGuest.simps
    by (rule resume_total) (use AsksSecrets.IH w in \<open>auto simp: helper_GetSecrets_total simp del: not_None_eq dest!: helper_GetSecrets_moved elim: ready_moved\<close>)
qed auto

lemma executeWasm_total:
  assumes "ready (cs_dispatcher w)" shows "executeWasm env wh h binary execReq restrictions timeout w \<noteq> None"
proof -
  obtain r cx w1 where c: "compileModule wh h binary timeout w = (r, cx, w1)" by (metis prod_cases3)
  have "ready (cs_dispatcher w1)" using assms compileModule_dispatcher [OF c] by simp
  then show ?thesis by (cases r) (simp_all add: executeWasm_def c runGuest_total del: not_None_eq)
qed

section \<open>Executions and histories\<close>

lemma tryAcquire_release: "tryAcquire l = (True, l1) \<Longrightarrow> release l1 = Some l"
  by (auto simp: tryAcquire_def release_def split: option.splits if_splits)

lemma runWorkflow_total:
  assumes "ready (ap_dispatcher a)" shows "runWorkflow env requestID sreqs x execReq t kc a \<noteq> None"
  using assms by (simp add: runWorkflow_def Let_def executeWasm_total del: not_None_eq split: prod.split sum.split)

lemma runWorkflow_fields:
  assumes "runWorkflow env requestID sreqs x execReq t kc a = Some (r, a', w)"
  shows "\<exists>f1 t1 res. BinaryFetcher_Fetch (rv_H (hv_relay (wv_helper env))) t Background (wx_BinaryUrl x) (wx_BinaryHash x)
       (map_option (StorageFetcher_FetchBinary (wv_storage env)) (ap_storageFetcher a)) (ap_fetcher a) = (res, f1, t1) \<and>
     (\<exists>d'. moved (ap_dispatcher a) d' \<and> a' = a\<lparr>ap_fetcher := f1, ap_dispatcher := d'\<rparr>)"
proof -
  have keep: "\<exists>d'. moved (ap_dispatcher a) d' \<and> a\<lparr>ap_fetcher := f\<rparr> = a\<lparr>ap_fetcher := f, ap_dispatcher := d'\<rparr>" for f
    by (rule exI [of _ "ap_dispatcher a"]) simp
  show ?thesis
    using assms by (auto simp: runWorkflow_def Let_def split: prod.splits sum.splits if_splits dest!: executeWasm_moved intro: keep)
qed

text \<open>The Nitro application over time: settings, configurations and executions in any order.\<close>

datatype wfEvent =
    Inject bytes
  | Configure EnclaveConfig
  | Execute bytes string bytes "SignedComputeRequest list" time boxKeychain

record nitroWiring =
  nw_parse :: "bytes \<Rightarrow> netErr + WorkflowSettings"
  nw_urlParse :: "string \<Rightarrow> (string \<times> string \<times> string) option"
  nw_gatewayTimeout :: duration

definition wfStep ::
    "('pk, 'ct, 'sh) WorkflowEnv \<Rightarrow> nitroWiring \<Rightarrow> wfEvent \<Rightarrow> confidentialWorkflowsApp \<Rightarrow> confidentialWorkflowsApp" where
  "wfStep env nw ev a = (case ev of
     Inject raw \<Rightarrow> snd (InjectSettings (nw_parse nw) (nitroStorageFactory (nw_urlParse nw) (wv_storage env))
         (Some (nitroDispatcherFactory (nw_urlParse nw) (nw_gatewayTimeout nw))) raw a)
   | Configure c \<Rightarrow> OnConfigUpdate c a
   | Execute requestID appID input sreqs t kc \<Rightarrow> (case wfExecute env requestID appID input sreqs t kc a of
       None \<Rightarrow> a
     | Some (_, a', _) \<Rightarrow> a'))"

definition wfHistory ::
    "('pk, 'ct, 'sh) WorkflowEnv \<Rightarrow> nitroWiring \<Rightarrow> wfEvent list \<Rightarrow> confidentialWorkflowsApp \<Rightarrow> confidentialWorkflowsApp" where
  "wfHistory env nw evs a = fold (wfStep env nw) evs a"

definition dispatcher_ok :: "confidentialWorkflowsApp \<Rightarrow> bool" where
  "dispatcher_ok a \<longleftrightarrow> (\<forall>d. ap_dispatcher a = Some d \<longrightarrow> rd_retryBackoff d > 0 \<and> (ap_haveConfig a \<longrightarrow> rd_config d = ap_lastConfig a))"

definition app_ok :: "(bytes \<Rightarrow> bytes) \<Rightarrow> confidentialWorkflowsApp \<Rightarrow> bool" where
  "app_ok H a \<longleftrightarrow> cache_ok H (ap_fetcher a) \<and> dispatcher_ok a"

lemma dispatcher_ok_ready: "dispatcher_ok a \<Longrightarrow> ready (ap_dispatcher a)"
  by (simp add: dispatcher_ok_def ready_def)

lemma dispatcher_ok_moved:
  "dispatcher_ok a \<Longrightarrow> moved (ap_dispatcher a) d' \<Longrightarrow> dispatcher_ok (a\<lparr>ap_fetcher := f, ap_dispatcher := d'\<rparr>)"
  by (auto simp: dispatcher_ok_def elim!: movedD)

lemma dispatcher_ok_cong:
  "ap_dispatcher b = ap_dispatcher a \<Longrightarrow> ap_haveConfig b = ap_haveConfig a \<Longrightarrow> ap_lastConfig b = ap_lastConfig a \<Longrightarrow> dispatcher_ok b = dispatcher_ok a"
  by (simp add: dispatcher_ok_def)

lemma nitroDispatcherFactory_ok: "nitroDispatcherFactory urlParse timeout gw = Inr d \<Longrightarrow> rd_retryBackoff d > 0"
  by (auto simp: nitroDispatcherFactory_def NewRemoteDispatcher_def DefaultGatewayRetryBackoff_def second_def split: sum.splits)

lemma SetConfig_fields [simp]: "rd_retryBackoff (SetConfig c d) = rd_retryBackoff d" "rd_config (SetConfig c d) = c"
  by (simp_all add: SetConfig_def)

lemma enableDispatch_ok:
  assumes "dispatcher_ok a" shows "dispatcher_ok (snd (enableDispatch (Some (nitroDispatcherFactory urlParse timeout)) req a))"
  using assms
  by (auto simp: enableDispatch_def dispatcher_ok_def split: option.splits sum.splits dest: nitroDispatcherFactory_ok)

lemma enableDispatch_fetcher: "ap_fetcher (snd (enableDispatch f req a)) = ap_fetcher a"
  by (simp add: enableDispatch_def split: option.splits sum.splits prod.splits)

lemma applyTunables_fields [simp]:
  "ap_dispatcher (applyTunables req a) = ap_dispatcher a" "ap_haveConfig (applyTunables req a) = ap_haveConfig a"
  "ap_lastConfig (applyTunables req a) = ap_lastConfig a" "ap_fetcher (applyTunables req a) = SetMaxCacheBytes (ws_MaxCacheBytes req) (ap_fetcher a)"
  "ap_limiter (applyTunables req a) = ap_limiter a"
  by (simp_all add: applyTunables_def)

lemma BinaryFetcher_Fetch_ok:
  assumes "cache_ok H f" "BinaryFetcher_Fetch H t cx locator binaryHash raw f = (res, f1, t1)"
  shows "cache_ok H f1"
proof -
  obtain r g where g: "cacheGet (hexEncode binaryHash) f = (r, g)" by fastforce
  have "cache_ok H g" by (rule cacheGet_ok(1) [OF assms(1) g])
  with assms g show ?thesis
    by (auto simp: BinaryFetcher_Fetch_def Let_def cachePut_ok split: if_splits option.splits prod.splits sum.splits)
qed

lemma InjectSettings_ok:
  assumes "app_ok H a"
  shows "app_ok H (snd (InjectSettings parse sf (Some (nitroDispatcherFactory urlParse timeout)) raw a))"
proof (cases "parse raw")
  case (Inr req)
  have t: "dispatcher_ok (applyTunables req a)" "cache_ok H (ap_fetcher (applyTunables req a))"
    using assms by (simp_all add: app_ok_def dispatcher_ok_cong [of "applyTunables req a" a] SetMaxCacheBytes_ok)
  moreover have "dispatcher_ok ((applyTunables req a)\<lparr>ap_storageFetcher := Some f\<rparr>)" for f
    using t(1) by (simp add: dispatcher_ok_def)
  ultimately show ?thesis using Inr assms
    by (auto simp: InjectSettings_def app_ok_def Let_def enableDispatch_fetcher enableDispatch_ok SetMaxCacheBytes_ok split: option.split sum.split)
qed (simp add: InjectSettings_def assms)

lemma OnConfigUpdate_ok: "app_ok H a \<Longrightarrow> app_ok H (OnConfigUpdate c a)"
  by (auto simp: app_ok_def dispatcher_ok_def OnConfigUpdate_def)

lemma app_ok_limiter [simp]: "app_ok H (a\<lparr>ap_limiter := l\<rparr>) = app_ok H a"
  by (simp add: app_ok_def dispatcher_ok_def)

lemma runWorkflow_ok:
  assumes "app_ok (rv_H (hv_relay (wv_helper env))) a" "runWorkflow env requestID sreqs x execReq t kc a = Some (r, a', w)"
  shows "app_ok (rv_H (hv_relay (wv_helper env))) a'" "ap_limiter a' = ap_limiter a"
proof -
  obtain f1 t1 res d' where f: "BinaryFetcher_Fetch (rv_H (hv_relay (wv_helper env))) t Background (wx_BinaryUrl x) (wx_BinaryHash x)
       (map_option (StorageFetcher_FetchBinary (wv_storage env)) (ap_storageFetcher a)) (ap_fetcher a) = (res, f1, t1)"
    "moved (ap_dispatcher a) d'" "a' = a\<lparr>ap_fetcher := f1, ap_dispatcher := d'\<rparr>"
    using runWorkflow_fields [OF assms(2)] by blast
  have "cache_ok (rv_H (hv_relay (wv_helper env))) f1" using assms(1) f(1) by (auto simp: app_ok_def intro: BinaryFetcher_Fetch_ok)
  then show "app_ok (rv_H (hv_relay (wv_helper env))) a'" "ap_limiter a' = ap_limiter a"
    using assms(1) f(2,3) dispatcher_ok_moved by (simp_all add: app_ok_def)
qed

lemma wfExecute_spec:
  assumes "app_ok (rv_H (hv_relay (wv_helper env))) a"
  obtains r a' w where "wfExecute env requestID appID input sreqs t kc a = Some (r, a', w)" "ap_limiter a' = ap_limiter a"
    "app_ok (rv_H (hv_relay (wv_helper env))) a'"
proof -
  obtain ok l where l: "tryAcquire (ap_limiter a) = (ok, l)" by fastforce
  show ?thesis
  proof (cases ok)
    case False
    then show ?thesis using that l assms by (simp add: wfExecute_def Let_def)
  next
    case True
    note rel = tryAcquire_release [of "ap_limiter a" l]
    let ?a1 = "a\<lparr>ap_limiter := l\<rparr>"
    show ?thesis
    proof (cases "readExecution (wv_Unmarshal env) appID input")
      case (Inl e)
      then show ?thesis using that l True rel assms by (simp add: wfExecute_def Let_def giveBack_def)
    next
      case (Inr xr)
      obtain x execReq where xr: "xr = (x, execReq)" by fastforce
      let ?t = "if ap_gracePeriod a > 0 then t + ap_gracePeriod a else t"
      have a1: "app_ok (rv_H (hv_relay (wv_helper env))) ?a1" using assms by simp
      then have "ready (ap_dispatcher ?a1)" unfolding app_ok_def using dispatcher_ok_ready by blast
      then obtain r a' w where run: "runWorkflow env requestID sreqs x execReq ?t kc ?a1 = Some (r, a', w)"
        using runWorkflow_total [of ?a1 env requestID sreqs x execReq ?t kc] by auto
      note ok' = runWorkflow_ok [OF a1 run]
      show ?thesis using that l True rel Inr xr run ok' by (simp add: wfExecute_def Let_def giveBack_def)
    qed
  qed
qed

lemma wfStep_ok: "app_ok (rv_H (hv_relay (wv_helper env))) a \<Longrightarrow> app_ok (rv_H (hv_relay (wv_helper env))) (wfStep env nw ev a)"
proof (cases ev)
  case (Execute requestID appID input sreqs t kc)
  assume "app_ok (rv_H (hv_relay (wv_helper env))) a"
  then obtain r a' w where "wfExecute env requestID appID input sreqs t kc a = Some (r, a', w)" "app_ok (rv_H (hv_relay (wv_helper env))) a'"
    by (rule wfExecute_spec)
  with Execute show ?thesis by (simp add: wfStep_def)
qed (simp_all add: wfStep_def InjectSettings_ok OnConfigUpdate_ok)

lemma NewConfidentialWorkflowsApp_ok:
  assumes "NewConfidentialWorkflowsApp tpe http True True n = Inr a0" shows "app_ok H a0"
  using assms by (auto simp: NewConfidentialWorkflowsApp_def app_ok_def dispatcher_ok_def split: if_splits)

lemma wfHistory_ok:
  assumes "NewConfidentialWorkflowsApp tpe http True True n = Inr a0"
  shows "app_ok (rv_H (hv_relay (wv_helper env))) (wfHistory env nw evs a0)"
proof (induction evs rule: rev_induct)
  case (snoc ev evs)
  then show ?case by (simp add: wfHistory_def wfStep_ok)
qed (simp add: wfHistory_def NewConfidentialWorkflowsApp_ok [OF assms])


text \<open>A guest that logs a line and ends, and an application around it.\<close>

definition sampleHelperEnv :: "(bytes, bytes, byte) helperEnv" where
  "sampleHelperEnv = \<lparr>hv_relay = sampleRelayEnv, hv_http = openNetwork,
     hv_codec = \<lparr>hx_ClientID = ''http-actions'', hx_ConsensusID = ''consensus'',
       hx_UnmarshalHTTP = (\<lambda>_. Inr sampleGet), hx_AnyHTTP = (\<lambda>r. Inr \<lparr>any_TypeUrl = ''http'', any_Value = hs_Body r\<rparr>),
       hx_UnmarshalInputs = (\<lambda>p. Inr \<lparr>ci_Observation = ObservedValue [1], ci_Default = None\<rparr>),
       hx_AnyValue = (\<lambda>v. Inr \<lparr>any_TypeUrl = ''value'', any_Value = v\<rparr>)\<rparr>\<rparr>"

definition sampleHost :: wasmHost where
  "sampleHost = \<lparr>wh_queue = (\<lambda>_. 1), wh_NewModule = (\<lambda>_ binary. (Inr (\<lambda>req restr. Logs 2 ''hello'' (Ends 3 (Inr (binary @ req)))), 4)),
     wh_CheckRequirements = (\<lambda>_ _. True)\<rparr>"

definition sampleExecution :: WorkflowExecution where
  "sampleExecution = \<lparr>wx_WorkflowId = ''wf'', wx_BinaryUrl = ''a'', wx_BinaryHash = [1, 2, 3], wx_Owner = ''0x01'', wx_ExecutionId = ''x'',
     wx_OrgId = ''o'', wx_SdkExecuteRequest = Some [7], wx_Requirements = None, wx_Restrictions = None\<rparr>"

text \<open>The identity as hash; the storage service serves the binary \<open>[1, 2, 3]\<close>.\<close>

definition sampleStorageEnv :: StorageEnv where
  "sampleStorageEnv = \<lparr>se_publicOfSeed = (\<lambda>_. replicate 32 9), se_NewSigner = (\<lambda>_. None), se_NewClient = (\<lambda>_ _. None),
     se_CreateJWT = (\<lambda>_ _. Inr ''jwt''), se_urlPath = (\<lambda>_. None), se_DownloadArtifact = (\<lambda>_ _ _ _. (Inr ''https://artifact'', 1)),
     se_NewRequest = (\<lambda>_. None), se_Get = (\<lambda>_ _ _. (Inr (200, bytes_of (EncodeToString [1, 2, 3]), None), 1)),
     se_hexError = (\<lambda>_. errText ''hex''), se_base64Error = (\<lambda>_. errText ''base64'')\<rparr>"

definition sampleWorkflowEnv :: "(bytes, bytes, byte) WorkflowEnv" where
  "sampleWorkflowEnv = \<lparr>wv_helper = sampleHelperEnv, wv_host = sampleHost, wv_storage = sampleStorageEnv,
     wv_Unmarshal = (\<lambda>_. Inr sampleExecution), wv_MarshalResponse = Inr, wv_RequirementsJSON = (\<lambda>_. [])\<rparr>"

definition sampleSettings :: WorkflowSettings where
  "sampleSettings = \<lparr>ws_StorageKey = hexEncode (replicate 32 7), ws_StorageServiceURL = ''api.example.com:443'', ws_StorageServiceTLS = True,
     ws_GatewayURL = ''api.example.com:443'', ws_MaxBinarySize = 0, ws_BinaryFetchTimeout = 0, ws_MaxCacheBytes = 0, ws_RequestTimeout = 0,
     ws_GatewayRequestTimeout = 0, ws_GatewayRetryBackoff = 0, ws_GatewayRetryTimeout = 0, ws_ExecutionTimeout = 0,
     ws_WorkflowGracePeriod = 0, ws_MaxConcurrentCompilations = 0\<rparr>"

definition sampleWiring :: nitroWiring where
  "sampleWiring = \<lparr>nw_parse = (\<lambda>_. Inr sampleSettings), nw_urlParse = (\<lambda>_. None), nw_gatewayTimeout = 30 * second\<rparr>"

definition sampleApp :: confidentialWorkflowsApp where
  "sampleApp = \<lparr>ap_fetcher = NewBinaryFetcher, ap_httpFetcher = Some (NewFetcherWithClient DefaultPolicy), ap_tpe = 1,
     ap_limiter = newExecutionLimiter 8, ap_compileSlots = defaultMaxConcurrentCompilations, ap_executionTimeout = 0,
     ap_gracePeriod = DefaultWorkflowGracePeriod, ap_storageServiceURL = [], ap_storageServiceTLS = False,
     ap_storageFetcher = None, ap_dispatcher = None, ap_lastConfig = zeroConfig, ap_haveConfig = False\<rparr>"

lemma sampleApp_New: "NewConfidentialWorkflowsApp 1 (Some (NewFetcherWithClient DefaultPolicy)) True True 8 = Inr sampleApp"
  by (simp add: NewConfidentialWorkflowsApp_def sampleApp_def)


lemma wfStep_config:
  assumes "\<forall>c. ev \<noteq> Configure c"
  shows "ap_lastConfig (wfStep env nw ev a) = ap_lastConfig a" "ap_haveConfig (wfStep env nw ev a) = ap_haveConfig a"
proof -
  have inj: "ap_lastConfig (snd (InjectSettings p sf df raw a)) = ap_lastConfig a" "ap_haveConfig (snd (InjectSettings p sf df raw a)) = ap_haveConfig a"
    for p sf df raw
    by (auto simp: InjectSettings_def enableDispatch_def Let_def split: sum.split option.split prod.split)
  have exec: "ap_lastConfig a' = ap_lastConfig a \<and> ap_haveConfig a' = ap_haveConfig a"
    if "wfExecute env requestID appID input sreqs t kc a = Some (r, a', w)" for requestID appID input sreqs t kc r a' w
    using that by (auto simp: wfExecute_def Let_def giveBack_def bind_eq_Some_conv split: prod.splits bool.splits sum.splits
        dest!: runWorkflow_fields)
  from assms inj exec show "ap_lastConfig (wfStep env nw ev a) = ap_lastConfig a" "ap_haveConfig (wfStep env nw ev a) = ap_haveConfig a"
    by (cases ev; fastforce simp: wfStep_def split: option.splits)+
qed

lemma wfHistory_append: "wfHistory env nw (es @ fs) a = wfHistory env nw fs (wfHistory env nw es a)"
  by (simp add: wfHistory_def)

lemma wfHistory_config:
  assumes "\<forall>c. Configure c \<notin> set evs"
  shows "ap_lastConfig (wfHistory env nw evs a) = ap_lastConfig a \<and> ap_haveConfig (wfHistory env nw evs a) = ap_haveConfig a"
  using assms
proof (induction evs arbitrary: a)
  case (Cons ev evs)
  then have "\<forall>c. ev \<noteq> Configure c" by auto
  with Cons wfStep_config [OF this, of env nw a] show ?case by (simp add: wfHistory_def)
qed (simp add: wfHistory_def)

text \<open>
  C27. The dispatcher always has the current configuration. Whether the settings
  arrive before or after a configuration, and whatever runs in between, the
  relay dispatcher checks quorums against the configuration set last.
\<close>

theorem dispatcher_config_current:
  assumes "NewConfidentialWorkflowsApp tpe http True True n = Inr a0" "\<forall>c'. Configure c' \<notin> set post"
    "ap_dispatcher (wfHistory env nw (pre @ Configure c # post) a0) = Some d"
  shows "rd_config d = c"
proof -
  let ?a = "wfHistory env nw (pre @ [Configure c]) a0" and ?b = "wfHistory env nw (pre @ Configure c # post) a0"
  have b: "?b = wfHistory env nw post ?a" by (simp add: wfHistory_def)
  have "ap_lastConfig ?a = c" "ap_haveConfig ?a" by (simp_all add: wfHistory_def wfStep_def OnConfigUpdate_def)
  with wfHistory_config [OF assms(2), of env nw ?a] have "ap_lastConfig ?b = c" "ap_haveConfig ?b" by (simp_all add: b)
  with wfHistory_ok [OF assms(1), of env nw "pre @ Configure c # post"] assms(3) show ?thesis
    by (simp add: app_ok_def dispatcher_ok_def)
qed

text \<open>A key printed in hexadecimal is read back as it is.\<close>

lemma hexDigit_code: "n < 16 \<Longrightarrow> (of_char (hexDigit n) :: nat) = (if n < 10 then 48 + n else 87 + n)"
  by (simp add: hexDigit_def)

lemma hexDigit_plain:
  assumes "n < 16" shows "\<not> isSpace (hexDigit n)" "hexDigit n \<noteq> CHR ''x''"
proof -
  show "\<not> isSpace (hexDigit n)" unfolding isSpace_def Let_def hexDigit_code [OF assms] by simp
  show "hexDigit n \<noteq> CHR ''x''"
  proof
    assume "hexDigit n = CHR ''x''"
    then have "(of_char (hexDigit n) :: nat) = of_char (CHR ''x'')" by (rule arg_cong)
    then show False unfolding hexDigit_code [OF assms] using assms by (simp split: if_splits)
  qed
qed

lemma hexEncode_plain:
  assumes "c \<in> set (hexEncode b)" shows "\<not> isSpace c" "c \<noteq> CHR ''x''"
proof -
  obtain n where "n < 16" "c = hexDigit n" using hexVal_hexEncode [OF assms] by auto
  then show "\<not> isSpace c" "c \<noteq> CHR ''x''" by (simp_all only: hexDigit_plain not_False_eq_True)
qed

lemma dropWhile_none: "\<forall>c \<in> set s. \<not> P c \<Longrightarrow> dropWhile P s = s"
  by (cases s) auto

lemma hexEncode_trimmed: "trimPrefix ''0x'' (trimSpace (hexEncode b)) = hexEncode b"
proof -
  have "\<forall>c \<in> set (hexEncode b). \<not> isSpace c" "\<forall>c \<in> set (rev (hexEncode b)). \<not> isSpace c" using hexEncode_plain(1) by auto
  then have "trimSpace (hexEncode b) = hexEncode b" unfolding trimSpace_def by (simp only: dropWhile_none rev_rev_ident)
  moreover have "take 2 (hexEncode b) \<noteq> ''0x''"
  proof
    assume "take 2 (hexEncode b) = ''0x''"
    then have "CHR ''x'' \<in> set (take 2 (hexEncode b))" by (simp only: list.set insert_iff simp_thms)
    then have "CHR ''x'' \<in> set (hexEncode b)" by (rule in_set_takeD)
    from hexEncode_plain(2) [OF this] show False by simp
  qed
  then have "take (length ''0x'') (hexEncode b) \<noteq> ''0x''" by (simp add: numeral_2_eq_2)
  ultimately show ?thesis by (simp only: trimPrefix_def if_False)
qed

lemma sample_jwt: "newJWTGenerator sampleStorageEnv (hexEncode (replicate 32 7)) = Inr (replicate 32 7 @ replicate 32 9, replicate 32 9)"
  unfolding newJWTGenerator_def Let_def hexEncode_trimmed by (simp add: sampleStorageEnv_def)

lemma sample_endpoint: "configuredEndpointPolicy (\<lambda>_. None) [''api.example.com:443''] =
    Inr \<lparr>pl_kind = ConfiguredEndpoint, pl_profile = ProxyProfileConfigured, pl_authorities = {''api.example.com:443''}\<rparr>"
proof -
  have "splitOn (CHR '','') ''api.example.com:443'' = [''api.example.com:443'']" by simp
  moreover have "trimSpace ''api.example.com:443'' = ''api.example.com:443''" by (simp add: trimSpace_def isSpace_def)
  ultimately show ?thesis by (simp add: configuredEndpointPolicy_def sample_authority)
qed

definition injectedStorage :: StorageFetcher where
  "injectedStorage = \<lparr>sf_target = ''passthrough:///api.example.com:443'', sf_tls = True, sf_key = replicate 32 7 @ replicate 32 9,
     sf_maxBytes = DefaultMaxBinarySize, sf_timeout = DefaultBinaryFetchTimeout\<rparr>"

definition injectedDispatcher :: "EnclaveConfig \<Rightarrow> remoteDispatcher" where
  "injectedDispatcher c = NewRemoteDispatcher (WithClientTimeout (30 * second) (NewGatewayClient ''api.example.com:443'' True)) True c True 0 0"

lemma sample_storage: "nitroStorageFactory (\<lambda>_. None) sampleStorageEnv ''api.example.com:443'' True (hexEncode (replicate 32 7)) 0 0 =
    Inr (injectedStorage, replicate 32 9)"
  by (simp add: nitroStorageFactory_def sample_endpoint NewStorageFetcher_def sample_jwt injectedStorage_def)
    (simp add: sampleStorageEnv_def)

lemma sample_factory: "nitroDispatcherFactory (\<lambda>_. None) (30 * second) (gatewayConfigOf sampleSettings) = Inr (injectedDispatcher zeroConfig)"
  by (simp add: nitroDispatcherFactory_def gatewayConfigOf_def sampleSettings_def sample_endpoint injectedDispatcher_def)

lemma sample_valid: "validateSettings sampleSettings = None"
  by (simp add: validateSettings_def sampleSettings_def Let_def) (simp add: replicate_eq_replicate hexEncode_def)

lemma sample_applied: "applyTunables sampleSettings a = a\<lparr>ap_storageServiceURL := ''api.example.com:443'', ap_storageServiceTLS := True\<rparr>"
proof -
  have "SetDefaultTimeout 0 = id" by (rule ext) (simp add: SetDefaultTimeout_def)
  then show ?thesis by (cases a) (simp add: applyTunables_def sampleSettings_def SetMaxCacheBytes_def option.map_id0)
qed

lemma sample_wiring [simp]:
  "nw_parse sampleWiring = (\<lambda>_. Inr sampleSettings)" "nw_urlParse sampleWiring = (\<lambda>_. None)" "nw_gatewayTimeout sampleWiring = 30 * second"
  "wv_storage sampleWorkflowEnv = sampleStorageEnv" "ws_StorageKey sampleSettings = hexEncode (replicate 32 7)"
  "ws_MaxBinarySize sampleSettings = 0" "ws_BinaryFetchTimeout sampleSettings = 0"
  by (simp_all add: sampleWiring_def sampleWorkflowEnv_def sampleSettings_def)

lemma sample_inject:
  assumes "ap_dispatcher a = None"
  shows "wfStep sampleWorkflowEnv sampleWiring (Inject raw) a =
   a\<lparr>ap_storageServiceURL := ''api.example.com:443'', ap_storageServiceTLS := True, ap_storageFetcher := Some injectedStorage,
     ap_dispatcher := Some (if ap_haveConfig a then SetConfig (ap_lastConfig a) (injectedDispatcher zeroConfig) else injectedDispatcher zeroConfig)\<rparr>"
proof -
  let ?u = "a\<lparr>ap_storageServiceURL := ''api.example.com:443'', ap_storageServiceTLS := True\<rparr>"
  let ?b = "?u\<lparr>ap_storageFetcher := Some injectedStorage\<rparr>"
  have "InjectSettings (\<lambda>_. Inr sampleSettings) (nitroStorageFactory (\<lambda>_. None) sampleStorageEnv)
      (Some (nitroDispatcherFactory (\<lambda>_. None) (30 * second))) raw a = enableDispatch (Some (nitroDispatcherFactory (\<lambda>_. None) (30 * second))) sampleSettings ?b"
    by (simp add: InjectSettings_def sample_valid sample_applied Let_def sample_storage)
  then show ?thesis using assms by (simp add: wfStep_def enableDispatch_def sample_factory)
qed

theorem dispatcher_config_current_witness:
  "\<exists>d. ap_dispatcher (wfHistory sampleWorkflowEnv sampleWiring ([] @ Configure sampleConfig # [Inject []]) sampleApp) = Some d \<and> rd_config d = sampleConfig"
proof -
  have c: "wfStep sampleWorkflowEnv sampleWiring (Configure sampleConfig) sampleApp = OnConfigUpdate sampleConfig sampleApp" by (simp add: wfStep_def)
  have n: "ap_dispatcher (OnConfigUpdate sampleConfig sampleApp) = None" by (simp add: OnConfigUpdate_def sampleApp_def)
  obtain d where d: "ap_dispatcher (wfHistory sampleWorkflowEnv sampleWiring ([] @ Configure sampleConfig # [Inject []]) sampleApp) = Some d"
    by (simp add: wfHistory_def c sample_inject [OF n])
  from dispatcher_config_current [OF sampleApp_New _ d] d show ?thesis by auto
qed

section \<open>Which binary runs\<close>

lemma executeWasm_cong:
  assumes "\<And>timeout. wh_NewModule wh' timeout binary = wh_NewModule wh timeout binary" "wh_queue wh' = wh_queue wh"
  shows "executeWasm env wh' h binary execReq restrictions timeout w = executeWasm env wh h binary execReq restrictions timeout w"
  unfolding executeWasm_def compileModule_def assms ..

lemma runWorkflow_cong:
  fixes env :: "('pk, 'ct, 'sh) WorkflowEnv"
  assumes "cache_ok (rv_H (hv_relay (wv_helper env))) (ap_fetcher a)"
    "\<And>timeout binary. rv_H (hv_relay (wv_helper env)) binary = wx_BinaryHash x \<Longrightarrow> m timeout binary = wh_NewModule (wv_host env) timeout binary"
  shows "runWorkflow (env\<lparr>wv_host := (wv_host env)\<lparr>wh_NewModule := m\<rparr>\<rparr>) requestID sreqs x execReq t kc a = runWorkflow env requestID sreqs x execReq t kc a"
proof -
  obtain res f1 t1 where f: "BinaryFetcher_Fetch (rv_H (hv_relay (wv_helper env))) t Background (wx_BinaryUrl x) (wx_BinaryHash x)
      (map_option (StorageFetcher_FetchBinary (wv_storage env)) (ap_storageFetcher a)) (ap_fetcher a) = (res, f1, t1)"
    by (metis prod_cases3)
  show ?thesis
  proof (cases res)
    case (Inr binary)
    have "rv_H (hv_relay (wv_helper env)) binary = wx_BinaryHash x"
      using BinaryFetcher_Fetch_hash(1) [OF assms(1)] f Inr by blast
    then have "m timeout binary = wh_NewModule (wv_host env) timeout binary" for timeout by (rule assms(2))
    then have "executeWasm he ((wv_host env)\<lparr>wh_NewModule := m\<rparr>) h binary er rs timeout w = executeWasm he (wv_host env) h binary er rs timeout w"
      for he :: "('pk, 'ct, 'sh) helperEnv" and h er rs timeout w
      by (intro executeWasm_cong) simp_all
    then show ?thesis using f Inr by (simp add: runWorkflow_def Let_def)
  qed (use f in \<open>simp add: runWorkflow_def Let_def\<close>)
qed

lemma wfExecute_cong:
  fixes env :: "('pk, 'ct, 'sh) WorkflowEnv"
  assumes "cache_ok (rv_H (hv_relay (wv_helper env))) (ap_fetcher a)" "wv_Unmarshal env input = Inr x"
    "\<And>timeout binary. rv_H (hv_relay (wv_helper env)) binary = wx_BinaryHash x \<Longrightarrow> m timeout binary = wh_NewModule (wv_host env) timeout binary"
  shows "wfExecute (env\<lparr>wv_host := (wv_host env)\<lparr>wh_NewModule := m\<rparr>\<rparr>) requestID appID input sreqs t kc a = wfExecute env requestID appID input sreqs t kc a"
proof -
  obtain ok l where l: "tryAcquire (ap_limiter a) = (ok, l)" by fastforce
  have "runWorkflow (env\<lparr>wv_host := (wv_host env)\<lparr>wh_NewModule := m\<rparr>\<rparr>) requestID sreqs x execReq t kc (a\<lparr>ap_limiter := l\<rparr>) =
      runWorkflow env requestID sreqs x execReq t kc (a\<lparr>ap_limiter := l\<rparr>)" for execReq t
    using assms(1,3) by (intro runWorkflow_cong) simp_all
  then show ?thesis using l assms(2)
    by (simp add: wfExecute_def readExecution_def Let_def split: option.split bool.split)
qed

text \<open>
  C25. Only the named binary runs. The WASM host is given nothing but a binary with
  the hash that the signed request names: a host that behaves differently on
  any other binary cannot be told apart, whatever the storage service serves
  and whatever was cached before.
\<close>

theorem only_named_binary_runs:
  assumes "NewConfidentialWorkflowsApp tpe http True True n = Inr a0" "wv_Unmarshal env input = Inr x"
    "\<forall>timeout binary. rv_H (hv_relay (wv_helper env)) binary = wx_BinaryHash x \<longrightarrow> m timeout binary = wh_NewModule (wv_host env) timeout binary"
  shows "wfExecute (env\<lparr>wv_host := (wv_host env)\<lparr>wh_NewModule := m\<rparr>\<rparr>) requestID appID input sreqs t kc (wfHistory env nw evs a0) =
    wfExecute env requestID appID input sreqs t kc (wfHistory env nw evs a0)"
proof -
  have "cache_ok (rv_H (hv_relay (wv_helper env))) (ap_fetcher (wfHistory env nw evs a0))"
    using wfHistory_ok [OF assms(1), of env nw evs] by (simp add: app_ok_def)
  then show ?thesis using assms(2) by (rule wfExecute_cong) (use assms(3) in simp)
qed

theorem only_named_binary_runs_witness:
  "wfExecute (sampleWorkflowEnv\<lparr>wv_host := (wv_host sampleWorkflowEnv)\<lparr>wh_NewModule :=
      (\<lambda>timeout binary. if binary = [1, 2, 3] then wh_NewModule sampleHost timeout binary else (Inl (errText ''other''), 0))\<rparr>\<rparr>)
     (id32 7) AppIDConfidentialWorkflows [] [] 0 sampleKeychain (wfHistory sampleWorkflowEnv sampleWiring [Inject []] sampleApp) =
   wfExecute sampleWorkflowEnv (id32 7) AppIDConfidentialWorkflows [] [] 0 sampleKeychain (wfHistory sampleWorkflowEnv sampleWiring [Inject []] sampleApp)"
  by (rule only_named_binary_runs [OF sampleApp_New, where x = sampleExecution])
    (simp_all add: sampleWorkflowEnv_def sampleHelperEnv_def sampleRelayEnv_def sampleExecution_def)

section \<open>Which calls leave the enclave\<close>

text \<open>
  Local calls stay inside. Calls of the workflow capability itself, of HTTP
  actions and of simple consensus are answered in the enclave: the answer is
  the same with any relay and any dispatcher, and the dispatcher is untouched.
\<close>

theorem local_calls_stay_inside:
  assumes "cq_Id req = AppIDConfidentialWorkflows \<or> cq_Id req = hx_ClientID (hv_codec env) \<and> cq_Method req = ''SendRequest'' \<or>
      cq_Id req = hx_ConsensusID (hv_codec env) \<and> cq_Method req = ''Simple'' \<and> cq_Id req \<noteq> hx_ClientID (hv_codec env)"
  shows "\<exists>r t. callCapability env h cx req w = Some (NOk r, w\<lparr>cs_now := t\<rparr>) \<and>
    callCapability (env\<lparr>hv_relay := relay'\<rparr>) h cx req (w\<lparr>cs_dispatcher := d'\<rparr>) = Some (NOk r, w\<lparr>cs_dispatcher := d', cs_now := t\<rparr>)"
proof -
  have env: "hv_codec (env\<lparr>hv_relay := relay'\<rparr>) = hv_codec env" "hv_http (env\<lparr>hv_relay := relay'\<rparr>) = hv_http env" by simp_all
  have act: "handleHTTPAction (env\<lparr>hv_relay := relay'\<rparr>) h (cs_now w) cx req = handleHTTPAction env h (cs_now w) cx req"
    unfolding handleHTTPAction_def env ..
  obtain r t where rt: "handleHTTPAction env h (cs_now w) cx req = (r, t)" by fastforce
  show ?thesis
  proof (cases "cq_Id req = AppIDConfidentialWorkflows")
    case True
    then show ?thesis by (auto simp: callCapability_def intro: exI [of _ "cs_now w"])
  next
    case False
    show ?thesis
    proof (cases "cq_Id req = hx_ClientID (hv_codec env) \<and> cq_Method req = ''SendRequest''")
      case True
      then show ?thesis using False rt act by (auto simp: callCapability_def)
    next
      case other: False
      then show ?thesis using False assms by (auto simp: callCapability_def intro: exI [of _ "cs_now w"])
    qed
  qed
qed

definition sampleCall :: "string \<Rightarrow> string \<Rightarrow> CapabilityRequest" where
  "sampleCall capability operation = \<lparr>cq_Id = capability, cq_Method = operation, cq_CallbackId = 1, cq_Payload = None\<rparr>"

theorem local_calls_stay_inside_witness:
  "\<exists>r t. callCapability sampleHelperEnv (helperFor [] [] sampleApp sampleExecution) Background (sampleCall ''http-actions'' ''SendRequest'')
     \<lparr>cs_now = 0, cs_dispatcher = Some sampleDispatcher, cs_keychain = sampleKeychain, cs_events = []\<rparr> =
    Some (NOk r, \<lparr>cs_now = t, cs_dispatcher = Some sampleDispatcher, cs_keychain = sampleKeychain, cs_events = []\<rparr>)"
  using local_calls_stay_inside [of "sampleCall ''http-actions'' ''SendRequest''" sampleHelperEnv "helperFor [] [] sampleApp sampleExecution" Background
      "\<lparr>cs_now = 0, cs_dispatcher = Some sampleDispatcher, cs_keychain = sampleKeychain, cs_events = []\<rparr>"]
  by (simp add: sampleCall_def sampleHelperEnv_def) blast

text \<open>
  Events of a capability call. A call that returns adds exactly three events,
  for its start, its metric and its end, all with its identifier, and both
  later ones report success exactly if there is a response without an error.
\<close>

theorem capability_events:
  assumes "helper_CallCapability env h cx req w = Some (r, w')" "r \<noteq> NPanic" "eh_emitter h"
  shows "\<exists>d1 d2 d3. cs_events w' = cs_events w @ [(''capability_started'', d1), (''capability_execution'', d2), (''capability_finished'', d3)] \<and>
    (\<forall>d \<in> {d1, d2, d3}. d ''capability_id'' = Some (AStr (cq_Id req))) \<and>
    (\<forall>d \<in> {d2, d3}. d ''success'' = Some (ABool (\<exists>resp. r = NOk resp \<and> respError resp = [])))"
proof -
  let ?started = "[''capability_id'' \<mapsto> AStr (cq_Id req), ''method'' \<mapsto> AStr (cq_Method req), ''step_ref'' \<mapsto> AInt (sint (cq_CallbackId req))]"
  let ?w0 = "emitEvent h ''capability_started'' ?started w"
  let ?q = "case r of NErr err \<Rightarrow> Inl err | NOk resp \<Rightarrow> Inr resp | NPanic \<Rightarrow> Inl (errText [])"
  obtain w1 where w1: "callCapability env h cx req ?w0 = Some (r, w1)" "w' = finishCall h req (cs_now ?w0) ?q w1"
    using assms(1,2) by (cases r) (auto simp: helper_CallCapability_def Let_def split: netResult.splits)
  have ev: "cs_events w1 = cs_events ?w0"
    using w1(1) by (auto simp: callCapability_def split: if_splits prod.splits option.splits)
  obtain e m where em: "callError ?q = (e, m)" by fastforce
  have e: "e = [] \<longleftrightarrow> (\<exists>resp. r = NOk resp \<and> respError resp = [])"
    using em assms(2) by (cases r) (auto simp: callError_def split: if_splits)
  show ?thesis
    unfolding w1(2) finishCall_def em e [symmetric] using assms(3) ev by (simp add: emitEvent_def Let_def)
qed

theorem capability_events_witness:
  "\<exists>r w'. helper_CallCapability sampleHelperEnv (helperFor [] [] sampleApp sampleExecution) Background (sampleCall ''consensus'' ''Simple'')
     \<lparr>cs_now = 0, cs_dispatcher = None, cs_keychain = sampleKeychain, cs_events = []\<rparr> = Some (r, w') \<and>
    (\<exists>d1 d2 d3. cs_events w' = [(''capability_started'', d1), (''capability_execution'', d2), (''capability_finished'', d3)])"
proof -
  let ?h = "helperFor [] [] sampleApp sampleExecution" and ?req = "sampleCall ''consensus'' ''Simple''"
  let ?w = "\<lparr>cs_now = 0, cs_dispatcher = None, cs_keychain = sampleKeychain, cs_events = []\<rparr>"
  have id: "cq_Id ?req \<noteq> AppIDConfidentialWorkflows" by (simp add: sampleCall_def AppIDConfidentialWorkflows_def)
  have "callCapability sampleHelperEnv ?h Background ?req w = Some (NOk (CapPayload \<lparr>any_TypeUrl = ''value'', any_Value = [1]\<rparr>), w)" for w
    using id by (simp add: callCapability_def handleConsensusSimple_def wrapValueResponse_def sampleHelperEnv_def) (simp add: sampleCall_def)
  then obtain w' where "helper_CallCapability sampleHelperEnv ?h Background ?req ?w = Some (NOk (CapPayload \<lparr>any_TypeUrl = ''value'', any_Value = [1]\<rparr>), w')"
    by (simp add: helper_CallCapability_def Let_def)
  from capability_events [OF this] this show ?thesis by (simp add: helperFor_def) blast
qed

section \<open>What settings change\<close>

text \<open>
  Settings that are incomplete change nothing. A payload that does not parse,
  lacks a required endpoint or key, or has a negative number of compilations
  is refused and leaves the application as it was.
\<close>

theorem incomplete_settings_refused:
  assumes "\<forall>req. parse raw = Inr req \<longrightarrow>
      ws_StorageKey req = [] \<or> ws_StorageServiceURL req = [] \<or> ws_GatewayURL req = [] \<or> ws_MaxConcurrentCompilations req < 0"
  shows "\<exists>err. InjectSettings parse sf df raw a = (Some err, a)"
proof (cases "parse raw")
  case (Inr req)
  then have "validateSettings req \<noteq> None" using assms by (auto simp: validateSettings_def Let_def)
  with Inr show ?thesis by (auto simp: InjectSettings_def)
qed (simp add: InjectSettings_def)

theorem incomplete_settings_refused_witness:
  "\<exists>err. InjectSettings (\<lambda>_. Inr (sampleSettings\<lparr>ws_GatewayURL := []\<rparr>)) (nitroStorageFactory (\<lambda>_. None) sampleStorageEnv) None [] sampleApp = (Some err, sampleApp)"
  by (rule incomplete_settings_refused) simp

text \<open>
  Omitted settings keep their value. When a later injection leaves out the
  tunables, the timeouts, the grace period, the compilation slots and the
  bound of the cache stay at what an earlier one set; they do not go back to
  the built-in defaults.
\<close>

theorem omitted_settings_kept:
  assumes "parse raw = Inr req" "ws_ExecutionTimeout req = 0" "ws_WorkflowGracePeriod req = 0" "ws_MaxConcurrentCompilations req = 0"
    "ws_RequestTimeout req = 0" "ws_MaxCacheBytes req = 0" "InjectSettings parse sf df raw a = (err, a')"
  shows "ap_executionTimeout a' = ap_executionTimeout a \<and> ap_gracePeriod a' = ap_gracePeriod a \<and> ap_compileSlots a' = ap_compileSlots a \<and>
    ap_httpFetcher a' = ap_httpFetcher a \<and> ap_fetcher a' = ap_fetcher a"
proof -
  have "SetDefaultTimeout 0 = id" by (rule ext) (simp add: SetDefaultTimeout_def)
  then show ?thesis using assms
    by (auto simp: InjectSettings_def applyTunables_def enableDispatch_def Let_def SetMaxCacheBytes_def option.map_id0
        split: option.splits sum.splits prod.splits)
qed

theorem omitted_settings_kept_witness:
  "ap_executionTimeout (wfStep sampleWorkflowEnv sampleWiring (Inject []) (sampleApp\<lparr>ap_executionTimeout := 5 * second\<rparr>)) = 5 * second"
proof -
  have "ws_ExecutionTimeout sampleSettings = 0" "ws_WorkflowGracePeriod sampleSettings = 0" "ws_MaxConcurrentCompilations sampleSettings = 0"
    "ws_RequestTimeout sampleSettings = 0" "ws_MaxCacheBytes sampleSettings = 0"
    by (simp_all add: sampleSettings_def)
  from omitted_settings_kept [OF _ this surjective_pairing, of "\<lambda>_. Inr sampleSettings" "[]"
      "nitroStorageFactory (\<lambda>_. None) sampleStorageEnv" "Some (nitroDispatcherFactory (\<lambda>_. None) (30 * second))"
      "sampleApp\<lparr>ap_executionTimeout := 5 * second\<rparr>"]
  show ?thesis by (simp add: wfStep_def)
qed

text \<open>
  A gateway list with an empty entry is refused. The gateway client drops
  empty entries of its list, but the Nitro environment first builds a dialer
  for the list, and that one fails on an empty entry.
\<close>

theorem gateway_list_refused:
  "nitroDispatcherFactory (\<lambda>_. None) timeout \<lparr>gw_URL = ''api.example.com:443,'', gw_RequestTimeout = 0, gw_RetryBackoff = 0, gw_RetryTimeout = 0\<rparr> =
     Inl (errText ''operator endpoint is empty'') \<and>
   gc_gatewayURLs (NewGatewayClient ''api.example.com:443,'' True) = [''api.example.com:443'']"
proof -
  have split: "splitOn (CHR '','') ''api.example.com:443,'' = [''api.example.com:443'', []]" by simp
  have trim: "trimSpace ''api.example.com:443'' = ''api.example.com:443''" "trimSpace [] = []" by (simp_all add: trimSpace_def isSpace_def)
  have "endpointAuthority (\<lambda>_. None) [] = Inl ''operator endpoint is empty''" by (simp add: endpointAuthority_def)
  then show ?thesis
    by (simp add: nitroDispatcherFactory_def configuredEndpointPolicy_def split trim sample_authority NewGatewayClient_def parseGatewayURLs_def)
qed

text \<open>
  A workflow that runs too long. An execution that fails on a deadline is
  answered with status 504 and a text that starts with the sentinel for
  timeouts; every other failure of the guest is a 500.
\<close>

lemma wasm_timeout_reported:
  "wasmResult marshal (NErr err) = WfError (if ne_deadline err
     then \<lparr>xe_Error = ErrWasmExecutionTimeout @ '': executing wasm: '' @ ne_text err, xe_Code = 504\<rparr>
     else \<lparr>xe_Error = ''executing wasm: '' @ ne_text err, xe_Code = 500\<rparr>)"
  by (simp add: wasmResult_def execErr_def Let_def)

lemma compile_timeout:
  assumes "timeout > 0" "wh_NewModule wh (Some timeout) binary = (compiled, d)" "int d \<ge> timeout"
  shows "fst (compileModule wh h binary timeout w) = Inl DeadlineExceeded"
  using assms by (simp add: compileModule_def Let_def ctxErr_def WithTimeout_def Background_def)

end
