(* ===== verification/Spec2Isabelle.thy ===== *)
theory Spec2Isabelle
  imports CC_ServerConc CC_HostMetrics CC_ExecutorProps CC_Workflows
begin

text \<open>
  A verification development for chainlink-confidential-compute, a service that
  lets the nodes of an oracle network (a DON) run a computation on encrypted
  secrets inside attested enclaves. This theory is the root; it collects the
  component theories and holds the properties that span them.

  \<^bold>\<open>The program.\<close> A capability node signs a \<^emph>\<open>compute request\<close> and sends it to an
  enclave chosen by the \<^emph>\<open>pool\<close>. The \<^emph>\<open>host\<close> beside the enclave gathers the
  requests of the nodes into a batch and dispatches the batch once a quorum of
  distinct signers has joined. The \<^emph>\<open>enclave server\<close> checks the signatures and
  the quorum again, refuses replays, decrypts the threshold shares with the
  ephemeral key of its \<^emph>\<open>keychain\<close>, runs the application, and returns an
  attested response, which the pool validates against the enclave's trusted
  measurements. On the node, the \<^emph>\<open>executor\<close> of a capability keeps the
  configurations of the enclaves in step with the DON, fetches encrypted shares
  from the vault, and drives the pool with retries. One of the applications
  inside the enclave runs workflows: it fetches a verified binary from the
  storage service, reaches the outside through a proxy on the parent instance,
  and calls remote capabilities and fetches secrets through \<^emph>\<open>gateways\<close> and a
  relay DON, whose answers it accepts only from a quorum of signers.

  \<^bold>\<open>Theories.\<close>
  \<^item> \<open>CC_Prelude\<close>: bytes, big-endian integers, self-delimiting encodings (locale
    \<open>prefix_code\<close>), generic lemmas.
  \<^item> \<open>CC_Types\<close>: \<^verbatim>\<open>src/types\<close> and the copied libocr payload; every hash preimage
    as a byte string over an arbitrary hash \<open>H\<close>. Properties: preimages determine
    the fields they cover, preimages of different types differ, payloads of
    requests and of configuration votes are never confused.
  \<^item> \<open>CC_Cache\<close>: \<^verbatim>\<open>src/util/cache.go\<close>, with the contract its clients use (locale
    \<open>expiring_store\<close>). Properties: the bound, retention of recent entries, what a
    collection removes.
  \<^item> \<open>CC_Keychain\<close>: \<^verbatim>\<open>src/enclave/services/keychain\<close>. Properties: a request keeps
    its key, gets the newest one, and a key that is found is usable.
  \<^item> \<open>CC_Services\<close>: signature verifier, combiner, fake attestor.
  \<^item> \<open>CC_Server\<close>: \<^verbatim>\<open>src/enclave/server/server.go\<close>, one function per handler.
    Properties: an execution needs a quorum of allowed signers, replays are
    rejected, a configuration changes only by quorum, what a response attests.
  \<^item> \<open>CC_ServerConc\<close>: the same handler as interleaved steps of concurrent
    requests, with a refinement to the sequential handler.
  \<^item> \<open>CC_Host\<close>: \<^verbatim>\<open>src/enclave/nitro/host/host.go\<close>; the goroutines are entries of
    the state, and a history is a list of events. Properties: what a dispatched
    batch contains, that it is dispatched once, that no waiter is lost.
  \<^item> \<open>CC_Resources\<close>, \<open>CC_HostMetrics\<close>: \<^verbatim>\<open>memory.go\<close>, \<^verbatim>\<open>cpu.go\<close>,
    \<^verbatim>\<open>response_emitter.go\<close> of the enclave server and \<^verbatim>\<open>metrics.go\<close>,
    \<^verbatim>\<open>public_data.go\<close>, \<^verbatim>\<open>telemetry.go\<close> of the host, on 64-bit words.
  \<^item> \<open>CC_Util\<close>: \<^verbatim>\<open>src/util\<close>: hexadecimal, base64, HTTP headers, EIP-55 addresses,
    classification of outbound failures, AES-GCM blobs.
  \<^item> \<open>CC_Selector\<close>: the round-robin selector (locale \<open>enclave_selector\<close>) and the
    attestation validators of \<^verbatim>\<open>src/enclave-client\<close>.
  \<^item> \<open>CC_Pool\<close>: \<^verbatim>\<open>src/enclave-client/pool.go\<close>. Properties: keys and responses come
    from attested enclaves of the current list, node updates are atomic, cached
    keys are dropped in time, sessions stick, fetches survive failures.
  \<^item> \<open>CC_Telemetry\<close>: the metrics and events of \<^verbatim>\<open>src/capabilities/framework\<close>. The
    counters add up to exactly what was emitted.
  \<^item> \<open>CC_Executor\<close>, \<open>CC_ExecutorProps\<close>: \<^verbatim>\<open>executor.go\<close> and \<^verbatim>\<open>base_action.go\<close> there. The
    operations are computations in an error and state monad; the second theory
    holds the invariants and properties: outputs come from attested enclaves with
    the configuration of the DON, membership is confirmed by the enclaves, a
    request uses an attested key, shares are complete, retries follow the policy
    and end.
  \<^item> \<open>CC_GoLib\<close>: Go's errors, contexts, numbers and base64 as the applications use them.
  \<^item> \<open>CC_Gateway\<close>, \<open>CC_Relay\<close>: \<^verbatim>\<open>gateway/client.go\<close>, \<^verbatim>\<open>app/remote_dispatcher.go\<close> and
    \<^verbatim>\<open>app/relay_response.go\<close> of the workflow application. Properties: results are
    backed by a quorum and hence by an honest node, noise in a bundle does no harm,
    every call returns.
  \<^item> \<open>CC_Fetch\<close>: \<^verbatim>\<open>app/limiter.go\<close>, \<^verbatim>\<open>memlimit\<close>, \<^verbatim>\<open>app/fetcher.go\<close>,
    \<^verbatim>\<open>app/storage_fetcher.go\<close> and \<^verbatim>\<open>httpfetch\<close>. Properties: executions fit into
    memory, binaries have the requested hash, sizes are bounded, outbound requests
    keep to the policy.
  \<^item> \<open>CC_Proxy\<close>: \<^verbatim>\<open>src/enclave/nitro/proxy-client\<close> and \<^verbatim>\<open>host/proxy-server\<close>. Properties:
    workflows reach public addresses only, nobody reaches link-local or reserved ones,
    configured endpoints are the only ones their dialer accepts.
  \<^item> \<open>CC_Workflows\<close>: \<^verbatim>\<open>settings.go\<close>, \<^verbatim>\<open>app.go\<close>, \<^verbatim>\<open>execution_helper.go\<close> and \<^verbatim>\<open>wasm.go\<close> of the
    workflow application and the factories of its Nitro environment. A run of a
    module by the WASM host is a tree of the calls it makes of the execution helper.
    Properties: every execution returns and gives its slot back, only the binary
    named by the request runs, the dispatcher has the current configuration, local
    calls stay inside, what settings change.

  The end of this theory relates the workflow application to the executor.

  \<^bold>\<open>Conventions.\<close> A Go struct is a record whose fields carry a short prefix, an
  error is a constructor of a sum or datatype, a panic is a constructor of its
  own. Instants and durations are integers of nanoseconds and every call is
  given the instant it reads from the clock. Integers of fixed width are words
  where they can overflow. Code outside the repository (SHA-256, Ed25519, NaCl,
  TDH2, Nitro attestation, JSON, the network) and floating-point operations are
  arguments, gathered in one environment record per component; what a property
  needs of them is a hypothesis of the property. Statements about hashes
  exhibit the collision it would take to break them.

  \<^bold>\<open>Loops.\<close> Loops are structural recursion over the list or the counter the code
  iterates over, so every modelled operation is total. Retry loops recurse over
  the number of attempts left. The retry loop of the relay dispatcher, bounded only
  by its context, is a partial function whose value \<open>None\<close> is a loop that does not
  end; that every call returns is a property. Eviction from the binary cache has a
  termination proof. Periodic goroutines (collectors, refreshers,
  timers) are single turns that a history may fire at any time.

  \<^bold>\<open>Not modelled.\<close> Logging and the export of metrics, which no decision of the
  program depends on; the wiring of listeners, TLS and process start-up in the
  \<^verbatim>\<open>main\<close> functions; generated code (protobuf, contract bindings); the
  test and deployment helpers; the WASM runtime and its host functions, which
  are a library the sources configure. Of the applications, the HTTP and echo
  applications and the configuration tracker are not modelled.
\<close>

section \<open>Across components\<close>

lemma Contains_prefix: "Contains t (a @ b) \<Longrightarrow> Contains t a"
proof (induction t)
  case (Cons c cs)
  then show ?case
  proof (cases "take (length (a @ b)) (c # cs) = a @ b")
    case True
    then have "take (length a) (c # cs) = a" by (metis append_eq_conv_conj length_append take_take min.absorb1 le_add1)
    then show ?thesis by simp
  qed auto
qed simp

lemma Contains_set: "Contains t s \<Longrightarrow> x \<in> set s \<Longrightarrow> x \<in> set t"
proof (induction t)
  case (Cons c cs)
  then show ?case by (metis Contains.simps(2) in_set_takeD list.set_intros(2))
qed simp

text \<open>
  C40. A workflow over budget is the user's error. When the guest fails on its
  deadline, the sentinel that the workflow application puts in front of its
  error makes the executor on the node report a user error with the code for
  deadlines, and not a failure of the infrastructure, as long as the text
  holds none of the other sentinels.
\<close>

theorem wasm_timeout_user_error:
  assumes "wasmResult marshal (NErr err) = WfError e" "ne_deadline err" "Contains (ge_text reported) (xe_Error e)"
    "\<forall>s \<in> {ErrQuorumTimeout, ErrHTTPRedirectNotAllowed, ErrEncryptionRequestedNoKey, ErrKeyPresentNoEncryption, ErrResponseBodyTooLarge}.
       \<not> Contains (ge_text reported) s"
  shows "classifyExecuteError env w defaults enclaveID workflowID reported xl =
    (NewPublicUserError env (wrapErr ''enclave wasm execution timed out: '' reported) CC_Executor.DeadlineExceeded, xl)"
proof -
  have "xe_Error e = ErrWasmExecutionTimeout @ '': executing wasm: '' @ ne_text err"
    using assms(1,2) by (auto simp: wasm_timeout_reported)
  then have "Contains (ge_text reported) ErrWasmExecutionTimeout" using assms(3) Contains_prefix by metis
  with assms(4) show ?thesis by (simp add: classifyExecuteError_def Let_def)
qed

theorem wasm_timeout_user_error_witness:
  "\<forall>env w defaults enclaveID workflowID xl.
     classifyExecuteError env w defaults enclaveID workflowID (plainErr ''wasm execution deadline exceeded: executing wasm: '') xl =
     (NewPublicUserError env (wrapErr ''enclave wasm execution timed out: '' (plainErr ''wasm execution deadline exceeded: executing wasm: ''))
        CC_Executor.DeadlineExceeded, xl)"
proof (intro allI)
  fix env w defaults enclaveID workflowID xl
  let ?err = "\<lparr>ne_text = [], ne_rpc = None, ne_deadline = True\<rparr>"
  let ?t = "''wasm execution deadline exceeded: executing wasm: ''"
  have e: "wasmResult Inr (NErr ?err) = WfError \<lparr>xe_Error = ?t, xe_Code = 504\<rparr>"
    by (simp add: wasm_timeout_reported ErrWasmExecutionTimeout_def)
  have r: "CHR ''r'' \<notin> set ?t" by simp
  have others: "\<forall>s \<in> {ErrQuorumTimeout, ErrHTTPRedirectNotAllowed, ErrEncryptionRequestedNoKey, ErrKeyPresentNoEncryption, ErrResponseBodyTooLarge}.
      CHR ''r'' \<in> set s"
    by (simp add: ErrQuorumTimeout_def ErrHTTPRedirectNotAllowed_def ErrEncryptionRequestedNoKey_def ErrKeyPresentNoEncryption_def
        ErrResponseBodyTooLarge_def)
  have self: "Contains ?t ?t" by (subst Contains.simps) simp
  have none: "\<forall>s \<in> {ErrQuorumTimeout, ErrHTTPRedirectNotAllowed, ErrEncryptionRequestedNoKey, ErrKeyPresentNoEncryption, ErrResponseBodyTooLarge}.
      \<not> Contains ?t s"
    using others r Contains_set by blast
  show "classifyExecuteError env w defaults enclaveID workflowID (plainErr ?t) xl =
      (NewPublicUserError env (wrapErr ''enclave wasm execution timed out: '' (plainErr ?t)) CC_Executor.DeadlineExceeded, xl)"
    by (rule wasm_timeout_user_error [OF e]) (use none self in \<open>simp_all only: plainErr_def goErr.simps ExecuteError.simps netErr.simps simp_thms\<close>)
qed

end
